(* ===== verification/Prelude.thy ===== *)
theory Prelude
  imports Main
begin

text \<open>
  The generic layer of the development, with nothing of the scheduler in it: results of fallible
  operations, the relational tables the coordination schema is made of, and the meaning of the
  SQL statements the store package issues against them.

  A table is a list of rows in insertion order. \<open>UPDATE ... WHERE\<close> is a map over that list, and
  the number of rows it reports is the number of rows it \<^emph>\<open>changed\<close>, which is what MySQL reports
  without \<open>CLIENT_FOUND_ROWS\<close> (the point of the comment on \<open>affected\<close> in
  \<^verbatim>\<open>src/internal/store/store.go\<close>). A primary key is a function from rows to keys, and a table
  respects it when the keys of its rows are distinct.
\<close>

named_theorems sql_simps \<open>the meaning of the statements of the store\<close>
named_theorems row_keys \<open>no assignment list of the store moves a key column\<close>

section \<open>Fallible operations\<close>

fun bindE :: "'e + 'a \<Rightarrow> ('a \<Rightarrow> 'e + 'b) \<Rightarrow> 'e + 'b" where
  "bindE (Inl e) f = Inl e"
| "bindE (Inr x) f = f x"

lemma bindE_Inr_iff [simp]: "bindE m f = Inr y \<longleftrightarrow> (\<exists>x. m = Inr x \<and> f x = Inr y)"
  by (cases m) auto

lemma bindE_Inl_iff: "bindE m f = Inl e \<longleftrightarrow> m = Inl e \<or> (\<exists>x. m = Inr x \<and> f x = Inl e)"
  by (cases m) auto

lemma bindE_assoc: "bindE (bindE m f) g = bindE m (\<lambda>x. bindE (f x) g)"
  by (cases m) auto

lemma bindE_cong [fundef_cong]:
  "m = m' \<Longrightarrow> (\<And>x. m' = Inr x \<Longrightarrow> f x = f' x) \<Longrightarrow> bindE m f = bindE m' f'"
  by (cases m') auto

section \<open>Integer division\<close>

lemma div_bounds:
  fixes k :: int
  assumes "0 < k"
  shows "k * (n div k) \<le> n" "n < k * (n div k) + k"
  using assms mult_div_mod_eq [of k n] pos_mod_sign [of k n] pos_mod_bound [of k n] by linarith+

section \<open>SQL values\<close>

text \<open>
  A nullable column is an option. Comparing NULL yields UNKNOWN, which a WHERE clause treats as
  false; \<open>COALESCE(c, '')\<close> and the \<open>String\<close> field of a Go \<open>sql.NullString\<close> both read NULL as the
  empty string.
\<close>

definition sql_lt :: "int option \<Rightarrow> int \<Rightarrow> bool" where
  "sql_lt c t = (case c of None \<Rightarrow> False | Some v \<Rightarrow> v < t)"

definition sql_le :: "int option \<Rightarrow> int \<Rightarrow> bool" where
  "sql_le c t = (case c of None \<Rightarrow> False | Some v \<Rightarrow> v \<le> t)"

definition sql_ge :: "int option \<Rightarrow> int \<Rightarrow> bool" where
  "sql_ge c t = (case c of None \<Rightarrow> False | Some v \<Rightarrow> t \<le> v)"

lemma sql_cmp_simps [simp]:
  "\<not> sql_lt None t" "sql_lt (Some v) t \<longleftrightarrow> v < t"
  "\<not> sql_le None t" "sql_le (Some v) t \<longleftrightarrow> v \<le> t"
  "\<not> sql_ge None t" "sql_ge (Some v) t \<longleftrightarrow> t \<le> v"
  by (simp_all add: sql_lt_def sql_le_def sql_ge_def)

lemma sql_lt_ge_disjoint: "sql_lt c t \<Longrightarrow> \<not> sql_ge c t"
  by (cases c) auto

definition coalesce_str :: "string option \<Rightarrow> string" where
  "coalesce_str c = (case c of None \<Rightarrow> [] | Some s \<Rightarrow> s)"

lemma coalesce_str_simps [simp]: "coalesce_str None = []" "coalesce_str (Some s) = s"
  by (simp_all add: coalesce_str_def)

lemma coalesce_str_eq: "s \<noteq> [] \<Longrightarrow> coalesce_str c = s \<longleftrightarrow> c = Some s"
  by (cases c) auto

section \<open>Tables\<close>

definition row_of :: "('r \<Rightarrow> 'k) \<Rightarrow> 'r list \<Rightarrow> 'k \<Rightarrow> 'r option" where
  "row_of key t k = find (\<lambda>r. key r = k) t"

definition sql_update :: "('r \<Rightarrow> bool) \<Rightarrow> ('r \<Rightarrow> 'r) \<Rightarrow> 'r list \<Rightarrow> 'r list" where
  "sql_update P f t = map (\<lambda>r. if P r then f r else r) t"

definition rows_changed :: "('r \<Rightarrow> bool) \<Rightarrow> ('r \<Rightarrow> 'r) \<Rightarrow> 'r list \<Rightarrow> nat" where
  "rows_changed P f t = length (filter (\<lambda>r. P r \<and> f r \<noteq> r) t)"

definition rows_matched :: "('r \<Rightarrow> bool) \<Rightarrow> 'r list \<Rightarrow> nat" where
  "rows_matched P t = length (filter P t)"

definition sql_delete :: "('r \<Rightarrow> bool) \<Rightarrow> 'r list \<Rightarrow> 'r list" where
  "sql_delete P t = filter (\<lambda>r. \<not> P r) t"

lemma row_of_Nil [simp]: "row_of key [] k = None"
  by (simp add: row_of_def)

lemma row_of_Cons [simp]: "row_of key (r # t) k = (if key r = k then Some r else row_of key t k)"
  by (simp add: row_of_def)

lemma row_of_Some: "row_of key t k = Some r \<Longrightarrow> r \<in> set t \<and> key r = k"
  by (induction t) (auto split: if_splits)

lemma row_of_None: "row_of key t k = None \<longleftrightarrow> k \<notin> key ` set t"
  by (induction t) auto

lemma row_of_mem: "distinct (map key t) \<Longrightarrow> r \<in> set t \<Longrightarrow> row_of key t (key r) = Some r"
  by (induction t) (auto simp: rev_image_eqI)

lemma row_of_append:
  "row_of key (t @ u) k = (case row_of key t k of None \<Rightarrow> row_of key u k | Some r \<Rightarrow> Some r)"
  by (induction t) auto

lemma row_of_delete:
  "distinct (map key t) \<Longrightarrow>
   row_of key (sql_delete P t) k = (case row_of key t k of None \<Rightarrow> None | Some r \<Rightarrow> if P r then None else Some r)"
  by (induction t) (auto simp: sql_delete_def row_of_None split: option.splits dest!: row_of_Some dest: imageI)

lemma set_sql_update: "set (sql_update P f t) = (\<lambda>r. if P r then f r else r) ` set t"
  by (simp add: sql_update_def)

lemma row_of_update:
  assumes "\<And>r. key (f r) = key r"
  shows "row_of key (sql_update P f t) k = map_option (\<lambda>r. if P r then f r else r) (row_of key t k)"
  by (induction t) (auto simp: sql_update_def assms)

lemma keys_update:
  assumes "\<And>r. key (f r) = key r"
  shows "map key (sql_update P f t) = map key t"
  by (simp add: sql_update_def assms)

lemma sql_update_None: "rows_matched P t = 0 \<Longrightarrow> sql_update P f t = t"
  by (induction t) (auto simp: sql_update_def rows_matched_def)

lemma rows_changed_le: "rows_changed P f t \<le> rows_matched P t"
  by (induction t) (auto simp: rows_changed_def rows_matched_def)

lemma rows_matched_unique:
  assumes "distinct (map key t)" and "\<And>r. P r \<Longrightarrow> key r = k"
  shows "rows_matched P t = (case row_of key t k of None \<Rightarrow> 0 | Some r \<Rightarrow> if P r then 1 else 0)"
  using assms(1)
proof (induction t)
  case Nil
  show ?case by (simp add: rows_matched_def)
next
  case (Cons a t)
  have none: "rows_matched P t = 0" if "row_of key t k = None"
    using that assms(2) by (auto simp: row_of_None rows_matched_def filter_empty_conv)
  show ?case
  proof (cases "key a = k")
    case True
    with Cons.prems have "row_of key t k = None" by (auto simp: row_of_None)
    with none True show ?thesis by (simp add: rows_matched_def)
  next
    case False
    with Cons assms(2) show ?thesis by (auto simp: rows_matched_def)
  qed
qed

subsection \<open>The contract of a guarded write\<close>

text \<open>
  Every \<open>UPDATE\<close> the store treats as a compare-and-set increments a counter column and leaves the
  primary key alone. That contract is what makes the number of changed rows equal to the number of
  matched rows, so that zero rows means the guard failed; the locale states it once and the
  statements of the store interpret it.
\<close>

locale guarded_write =
  fixes key :: "'r \<Rightarrow> 'k" and seq :: "'r \<Rightarrow> int" and assign :: "'r \<Rightarrow> 'r"
  assumes key_kept: "key (assign r) = key r"
    and seq_bumped: "seq (assign r) = seq r + 1"
begin

lemma assign_moves: "assign r \<noteq> r"
  using seq_bumped [of r] by auto

lemma changed_eq_matched: "rows_changed P assign t = rows_matched P t"
  by (simp add: rows_changed_def rows_matched_def assign_moves)

lemma zero_rows_iff: "rows_changed P assign t = 0 \<longleftrightarrow> (\<forall>r \<in> set t. \<not> P r)"
  by (simp add: changed_eq_matched rows_matched_def filter_empty_conv)

lemma lookup_after: "row_of key (sql_update P assign t) k = map_option (\<lambda>r. if P r then assign r else r) (row_of key t k)"
  by (rule row_of_update) (rule key_kept)

lemma keys_after: "map key (sql_update P assign t) = map key t"
  by (rule keys_update) (rule key_kept)

lemma changed_at:
  assumes "distinct (map key t)" and "\<And>r. P r \<Longrightarrow> key r = k"
  shows "rows_changed P assign t = (case row_of key t k of None \<Rightarrow> 0 | Some r \<Rightarrow> if P r then 1 else 0)"
  by (simp add: changed_eq_matched rows_matched_unique [OF assms])

lemma lookup_at:
  assumes "\<And>r. P r \<Longrightarrow> key r = k" and "row_of key t k = Some r" and "P r"
  shows "row_of key (sql_update P assign t) = (row_of key t)(k \<mapsto> assign r)"
proof
  fix k'
  have "\<not> P r'" if "row_of key t k' = Some r'" "k' \<noteq> k" for r'
    using that assms(1) by (auto dest: row_of_Some)
  then show "row_of key (sql_update P assign t) k' = ((row_of key t)(k \<mapsto> assign r)) k'"
    using assms(2,3) by (cases "row_of key t k'") (auto simp: lookup_after)
qed

lemma changed_one:
  assumes "distinct (map key t)" and "\<And>r. P r \<Longrightarrow> key r = k" and "row_of key t k = Some r" and "P r"
  shows "rows_changed P assign t = 1"
  using changed_at [of t P k] assms by simp

lemma changed_none:
  assumes "distinct (map key t)" and "\<And>r. P r \<Longrightarrow> key r = k"
    and "\<And>r. row_of key t k = Some r \<Longrightarrow> \<not> P r"
  shows "rows_changed P assign t = 0 \<and> sql_update P assign t = t"
proof
  show "rows_changed P assign t = 0"
    using changed_at [of t P k] assms by (auto split: option.splits)
  then show "sql_update P assign t = t"
    by (intro sql_update_None) (simp add: changed_eq_matched)
qed

lemma changed_cases:
  assumes "distinct (map key t)" and "\<And>r. P r \<Longrightarrow> key r = k"
  obtains (none) "\<And>r. row_of key t k = Some r \<Longrightarrow> \<not> P r" "rows_changed P assign t = 0"
      "sql_update P assign t = t"
    | (one) r where "row_of key t k = Some r" "P r" "rows_changed P assign t = 1"
      "row_of key (sql_update P assign t) = (row_of key t)(k \<mapsto> assign r)"
proof (cases "\<exists>r. row_of key t k = Some r \<and> P r")
  case True
  then obtain r where "row_of key t k = Some r" "P r" by blast
  with lookup_at [of P k t r] changed_one [of t P k r] assms one show thesis by blast
next
  case False
  with changed_none [of t P k] assms have "rows_changed P assign t = 0 \<and> sql_update P assign t = t"
    by blast
  then show thesis by (intro none) (use False in blast)+
qed

end

end
