(* ===== verification/Gojob.thy ===== *)
theory Gojob
  imports Prelude "HOL-Library.Word"
begin

text \<open>
  The root package: \<^verbatim>\<open>src/job.go\<close> (the vocabulary of the scheduler and a job's configuration),
  \<^verbatim>\<open>src/errors.go\<close> (the sentinel errors), \<^verbatim>\<open>src/defaults.go\<close> and \<^verbatim>\<open>src/clock.go\<close>.

  Instants and durations are integers counting nanoseconds, an instant from the Unix epoch. A Go
  \<open>time.Duration\<close> is a signed 64-bit integer; the wrap-around is written out where a computation
  can reach it (\<open>Delay\<close>), and elsewhere durations are bounded by configuration. An error is the
  sentinel a caller can test with \<open>errors.Is\<close>; the message text around it is not modelled.
\<close>

type_synonym time = int
type_synonym duration = int

definition Nanosecond :: duration where [simp]: "Nanosecond = 1"
definition Millisecond :: duration where [simp]: "Millisecond = 1000000"
definition Second :: duration where [simp]: "Second = 1000000000"
definition Minute :: duration where [simp]: "Minute = 60 * Second"
definition Hour :: duration where [simp]: "Hour = 60 * Minute"

section \<open>Errors (errors.go and the sentinels of the store)\<close>

datatype error =
    ErrContended
  | ErrFenced
  | ErrMissingState
  | ErrSchemaIdentity
  | ErrSchemaVersion
  | ErrTimeZone
  | ErrControlStale
  | ErrProtocol
  | ErrNotRunnable
  | ErrNoSuchExecution
  | ErrNoSuchAttempt
  | ErrNoSuchJob
  | ErrCapElapsed
  | ErrStaleVersion
  | ErrNotQuiesced
  | ErrOther \<comment> \<open>an error that wraps no sentinel\<close>

type_synonym 'a result = "error + 'a"

section \<open>The vocabulary of job.go\<close>

datatype ScheduleKind = ScheduleCron | ScheduleFixedDelay

datatype ConcurrencyPolicy = PolicyQueue | PolicyForbid

datatype MisfirePolicy = MisfireSkip | MisfireFireOnce

datatype TriggerType = TriggerCron | TriggerManual | TriggerPoll

datatype Status =
    StatusReady | StatusDispatching | StatusRunning | StatusCancelRequested
  | StatusSuccess | StatusDead | StatusCancelled | StatusSkipped

fun Terminal :: "Status \<Rightarrow> bool" where
  "Terminal StatusSuccess = True"
| "Terminal StatusDead = True"
| "Terminal StatusCancelled = True"
| "Terminal StatusSkipped = True"
| "Terminal _ = False"

text \<open>The status set \<open>IN ('dispatching', 'running', 'cancel_requested')\<close> of the store's guards.\<close>

fun in_flight :: "Status \<Rightarrow> bool" where
  "in_flight StatusDispatching = True"
| "in_flight StatusRunning = True"
| "in_flight StatusCancelRequested = True"
| "in_flight _ = False"

lemma status_trichotomy: "s = StatusReady \<or> in_flight s \<or> Terminal s"
  by (cases s) auto

lemma terminal_not_in_flight: "Terminal s \<Longrightarrow> \<not> in_flight s"
  by (cases s) auto

lemma not_terminal_iff: "\<not> Terminal s \<longleftrightarrow> s = StatusReady \<or> in_flight s"
  by (cases s) auto

datatype TerminalReason =
    ReasonHandlerConfirmed | ReasonFenced | ReasonTimeout | ReasonBudgetExhausted
  | ReasonPermanentFailure | ReasonRetired | ReasonConcurrencySkipped

datatype AttemptOutcome = AttemptSuccess | AttemptFailed | AttemptUnknown | AttemptFenced

record Definition =
  d_JobName :: string
  d_HandlerKey :: string
  d_ExecutorGroup :: string
  d_ScheduleKind :: ScheduleKind
  d_ScheduleExpr :: string
  d_Enabled :: bool
  d_Retired :: bool
  d_Concurrency :: ConcurrencyPolicy
  d_Misfire :: MisfirePolicy
  d_MaxAttempts :: int
  d_MaxRecoveries :: int
  d_Lease :: duration
  d_Timeout :: duration
  d_Params :: string
  d_Description :: string
  d_Version :: int
  d_UpdatedBy :: string

section \<open>The delay of a poller (errors.go parseInt, job.go Delay)\<close>

text \<open>
  \<open>strconv.ParseInt(s, 10, 64)\<close>: an optional sign, at least one decimal digit, and a value in the
  range of a signed 64-bit integer.
\<close>

definition digit_val :: "char \<Rightarrow> int option" where
  "digit_val c = (let n = of_char c :: int in if 48 \<le> n \<and> n \<le> 57 then Some (n - 48) else None)"

fun parse_digits :: "string \<Rightarrow> int \<Rightarrow> int option" where
  "parse_digits [] acc = Some acc"
| "parse_digits (c # cs) acc =
     (case digit_val c of None \<Rightarrow> None | Some v \<Rightarrow> parse_digits cs (10 * acc + v))"

definition parse_magnitude :: "string \<Rightarrow> int option" where
  "parse_magnitude s = (if s = [] then None else parse_digits s 0)"

definition parseInt :: "string \<Rightarrow> int option" where
  "parseInt s =
     (let neg = (case s of [] \<Rightarrow> False | c # _ \<Rightarrow> c = CHR ''-'');
          signed = (case s of [] \<Rightarrow> False | c # _ \<Rightarrow> c = CHR ''-'' \<or> c = CHR ''+'')
      in case parse_magnitude (if signed then tl s else s) of
           None \<Rightarrow> None
         | Some n \<Rightarrow> if neg then (if n \<le> 2 ^ 63 then Some (- n) else None)
                     else (if n < 2 ^ 63 then Some n else None))"

text \<open>The product of two \<open>time.Duration\<close>s wraps around at 64 bits.\<close>

definition int64 :: "int \<Rightarrow> int" where
  "int64 n = sint (word_of_int n :: 64 word)"

definition Delay :: "Definition \<Rightarrow> duration result" where
  "Delay d =
     (if d_ScheduleKind d \<noteq> ScheduleFixedDelay then Inr 0
      else case parseInt (d_ScheduleExpr d) of
             None \<Rightarrow> Inl ErrOther
           | Some ms \<Rightarrow> if ms \<le> 0 then Inl ErrOther else Inr (int64 (ms * Millisecond)))"

lemma int64_id: "- (2 ^ 63) \<le> n \<Longrightarrow> n < 2 ^ 63 \<Longrightarrow> int64 n = n"
  by (simp add: int64_def sint_sbintrunc' signed_take_bit_int_eq_self)

lemma parse_digits_nonneg: "parse_digits s acc = Some n \<Longrightarrow> 0 \<le> acc \<Longrightarrow> 0 \<le> n"
  by (induction s arbitrary: acc) (auto simp: digit_val_def Let_def split: option.splits if_splits)

lemma parseInt_range: "parseInt s = Some n \<Longrightarrow> - (2 ^ 63) \<le> n \<and> n < 2 ^ 63"
  by (auto simp: parseInt_def parse_magnitude_def Let_def dest: parse_digits_nonneg
      split: option.splits if_splits)

lemma Delay_ok:
  assumes "Delay d = Inr v" and "d_ScheduleKind d = ScheduleFixedDelay"
  obtains ms where "parseInt (d_ScheduleExpr d) = Some ms" "0 < ms" "v = int64 (ms * Millisecond)"
  using assms by (auto simp: Delay_def split: option.splits if_splits)

section \<open>Tunables (defaults.go)\<close>

definition DefaultScanInterval :: duration where "DefaultScanInterval = 5 * Second"

definition DefaultMisfireGrace :: "duration \<Rightarrow> duration" where
  "DefaultMisfireGrace scanInterval =
     (let g = 3 * scanInterval in if g > Minute then g else Minute)"

definition DefaultMisfirePolicy :: MisfirePolicy where "DefaultMisfirePolicy = MisfireFireOnce"

definition DefaultConcurrencyPolicy :: ConcurrencyPolicy where "DefaultConcurrencyPolicy = PolicyQueue"

definition DefaultExecutionSuccessRetention :: duration where
  "DefaultExecutionSuccessRetention = 15 * 24 * Hour"

definition DefaultExecutionOtherRetention :: duration where
  "DefaultExecutionOtherRetention = 30 * 24 * Hour"

definition DefaultRetentionBatchSize :: int where "DefaultRetentionBatchSize = 100"

definition MisfireHorizon :: duration where "MisfireHorizon = 366 * 24 * Hour"

section \<open>Business time (clock.go)\<close>

text \<open>
  A Go \<open>time.Time\<close> is an instant with a location for display, so \<open>In\<close> does not move it;
  \<open>Truncate(time.Second)\<close> does. A location is the offset from UTC, in seconds, as a function of
  the Unix second.
\<close>

type_synonym location = "int \<Rightarrow> int"

definition UTC :: location where "UTC = (\<lambda>_. 0)"

definition truncate_second :: "time \<Rightarrow> time" where
  "truncate_second t = t - t mod Second"

record FixedClock =
  fc_at :: time
  fc_loc :: location

definition NewFixedClock :: "time \<Rightarrow> location option \<Rightarrow> FixedClock" where
  "NewFixedClock at loc = \<lparr>fc_at = at, fc_loc = (case loc of None \<Rightarrow> UTC | Some l \<Rightarrow> l)\<rparr>"

definition Now :: "FixedClock \<Rightarrow> time" where "Now c = truncate_second (fc_at c)"

definition Set :: "FixedClock \<Rightarrow> time \<Rightarrow> FixedClock" where "Set c t = c\<lparr>fc_at := t\<rparr>"

definition Advance :: "FixedClock \<Rightarrow> duration \<Rightarrow> FixedClock" where
  "Advance c d = c\<lparr>fc_at := fc_at c + d\<rparr>"

lemma truncate_second_props:
  "truncate_second t mod Second = 0" "truncate_second t \<le> t" "t - truncate_second t < Second"
  by (simp_all add: truncate_second_def pos_mod_sign minus_mod_eq_mult_div)

end
