(* ===== verification/Schema.thy ===== *)
theory Schema
  imports Gojob
begin

text \<open>
  One tenant's coordination schema (\<^verbatim>\<open>src/schema/mysql/tenant/001_tenant.sql\<close> and its two
  migrations) and the statement layer of \<^verbatim>\<open>src/internal/store/store.go\<close>. A table is a list of
  rows; a column is a record field with the table's prefix; a nullable column is an option. The
  unique keys and CHECK constraints are conditions of the inserts and updates that can violate
  them, and \<open>keys_ok\<close> says that a database respects its primary and unique keys.

  A transaction of the store is a function from the database to a result: an error means that
  nothing was committed (\<open>Store.tx\<close> rolls back on every error), a success carries the committed
  database. It sees one instant of the ownership clock (\<open>UTC_TIMESTAMP()\<close>), one instant of the
  business clock (\<open>Store.clock.Now()\<close>), and the set of state rows other transactions hold locked
  at that moment, which is all that \<open>FOR UPDATE SKIP LOCKED\<close> can observe of them.
\<close>

section \<open>Rows\<close>

record job_definition =
  jd_job_name :: string
  jd_handler_key :: string
  jd_executor_group :: "string option"
  jd_schedule_kind :: ScheduleKind
  jd_schedule_expr :: string
  jd_enabled :: bool
  jd_retired :: bool
  jd_concurrency_policy :: ConcurrencyPolicy
  jd_misfire_policy :: MisfirePolicy
  jd_max_attempts :: int
  jd_max_recoveries :: int
  jd_lease_seconds :: int
  jd_timeout_seconds :: int
  jd_params_json :: "string option"
  jd_description :: "string option"
  jd_version :: int
  jd_updated_by :: "string option"
  jd_created_at :: time
  jd_updated_at :: time

record job_state =
  js_job_name :: string
  js_next_fire_at :: "time option"
  js_next_poll_at :: "time option"
  js_ops_paused :: bool
  js_active_kind :: bool \<comment> \<open>'EXECUTION' (True) or NULL (False)\<close>
  js_active_execution :: "string option"
  js_active_owner :: "string option"
  js_active_run_token :: "string option"
  js_dispatched_to :: "string option"
  js_fence_epoch :: int
  js_lease_until :: "time option"
  js_heartbeat_at :: "time option"
  js_last_success_at :: "time option"
  js_last_failure_at :: "time option"
  js_config_version :: int
  js_write_seq :: int
  js_updated_at :: time

record job_execution =
  je_id :: int
  je_execution_key :: string
  je_job_name :: string
  je_trigger_type :: TriggerType
  je_manual_first :: bool
  je_request_id :: "string option"
  je_scheduled_at :: time
  je_available_at :: time
  je_status :: Status
  je_attempt_no :: int
  je_recovery_count :: int
  je_max_attempts :: int
  je_max_recoveries :: int
  je_params_json :: "string option"
  je_owner_instance :: "string option"
  je_dispatched_to :: "string option"
  je_run_token :: "string option"
  je_fence_epoch :: int
  je_lease_until :: "time option"
  je_heartbeat_at :: "time option"
  je_deadline_at :: "time option"
  je_timeout_at :: "time option"
  je_started_at :: "time option"
  je_finished_at :: "time option"
  je_failure_kind :: "string option"
  je_terminal_reason :: "TerminalReason option"
  je_result_summary :: "string option"
  je_error_message :: "string option"
  je_write_seq :: int
  je_created_at :: time
  je_updated_at :: time

record job_execution_attempt =
  ja_execution_key :: string
  ja_run_token :: string
  ja_attempt_no :: int
  ja_executor_id :: "string option"
  ja_started_at :: "time option"
  ja_finished_at :: "time option"
  ja_outcome :: AttemptOutcome
  ja_failure_kind :: "string option"
  ja_summary :: "string option"

record job_executor =
  jx_executor_id :: string
  jx_executor_group :: string
  jx_address :: string
  jx_contract_version :: string
  jx_revision :: string
  jx_capacity :: int
  jx_running :: int
  jx_capabilities :: "string option"
  jx_identity :: string
  jx_started_at :: time
  jx_heartbeat_at :: time
  jx_write_seq :: int

record job_executor_handler =
  jh_executor_id :: string
  jh_handler_key :: string
  jh_description :: string

record job_audit =
  jl_actor :: string
  jl_action :: string
  jl_job_name :: "string option"
  jl_execution :: "string option"
  jl_detail :: "string option"
  jl_created_at :: time

record db =
  defs :: "job_definition list"
  states :: "job_state list"
  execs :: "job_execution list"
  attempts :: "job_execution_attempt list"
  executors :: "job_executor list"
  handlers :: "job_executor_handler list"
  audits :: "job_audit list"
  next_id :: int \<comment> \<open>the AUTO_INCREMENT counter of job_execution\<close>

record env =
  utc :: time \<comment> \<open>UTC_TIMESTAMP(), the ownership clock\<close>
  now :: time \<comment> \<open>Store.clock.Now(), the business clock\<close>
  locked :: "string \<Rightarrow> bool" \<comment> \<open>state rows locked by other transactions\<close>
  burned :: nat \<comment> \<open>numbers an AUTO_INCREMENT column lost to INSERTs rolled back since the last one that was kept\<close>

section \<open>Keys\<close>

abbreviation def_row :: "db \<Rightarrow> string \<Rightarrow> job_definition option" where
  "def_row db \<equiv> row_of jd_job_name (defs db)"

abbreviation state_row :: "db \<Rightarrow> string \<Rightarrow> job_state option" where
  "state_row db \<equiv> row_of js_job_name (states db)"

abbreviation exec_row :: "db \<Rightarrow> int \<Rightarrow> job_execution option" where
  "exec_row db \<equiv> row_of je_id (execs db)"

abbreviation attempt_row :: "db \<Rightarrow> string \<times> string \<Rightarrow> job_execution_attempt option" where
  "attempt_row db \<equiv> row_of (\<lambda>a. (ja_execution_key a, ja_run_token a)) (attempts db)"

abbreviation executor_row :: "db \<Rightarrow> string \<Rightarrow> job_executor option" where
  "executor_row db \<equiv> row_of jx_executor_id (executors db)"

definition request_ids :: "db \<Rightarrow> string list" where
  "request_ids db = List.map_filter je_request_id (execs db)"

definition keys_ok :: "db \<Rightarrow> bool" where
  "keys_ok db \<longleftrightarrow>
     distinct (map jd_job_name (defs db)) \<and>
     distinct (map js_job_name (states db)) \<and>
     distinct (map je_id (execs db)) \<and>
     distinct (map je_execution_key (execs db)) \<and>
     distinct (request_ids db) \<and>
     distinct (map (\<lambda>a. (ja_execution_key a, ja_run_token a)) (attempts db)) \<and>
     distinct (map jx_executor_id (executors db)) \<and>
     distinct (map (\<lambda>h. (jh_executor_id h, jh_handler_key h)) (handlers db)) \<and>
     (\<forall>e \<in> set (execs db). je_id e < next_id db)"

section \<open>Statements (store.go)\<close>

definition update_def :: "(job_definition \<Rightarrow> bool) \<Rightarrow> (job_definition \<Rightarrow> job_definition) \<Rightarrow> db \<Rightarrow> nat \<times> db" where
  "update_def P f db = (rows_changed P f (defs db), db\<lparr>defs := sql_update P f (defs db)\<rparr>)"

definition update_state :: "(job_state \<Rightarrow> bool) \<Rightarrow> (job_state \<Rightarrow> job_state) \<Rightarrow> db \<Rightarrow> nat \<times> db" where
  "update_state P f db = (rows_changed P f (states db), db\<lparr>states := sql_update P f (states db)\<rparr>)"

definition update_exec :: "(job_execution \<Rightarrow> bool) \<Rightarrow> (job_execution \<Rightarrow> job_execution) \<Rightarrow> db \<Rightarrow> nat \<times> db" where
  "update_exec P f db = (rows_changed P f (execs db), db\<lparr>execs := sql_update P f (execs db)\<rparr>)"

definition update_executor :: "(job_executor \<Rightarrow> bool) \<Rightarrow> (job_executor \<Rightarrow> job_executor) \<Rightarrow> db \<Rightarrow> nat \<times> db" where
  "update_executor P f db = (rows_changed P f (executors db), db\<lparr>executors := sql_update P f (executors db)\<rparr>)"

text \<open>
  \<open>assertOne\<close> is for statements the lock order guarantees must apply; the other two helpers are
  the two ways the callers read \<open>affected\<close>: a compare-and-set whose zero rows is an error of its
  own, and a statement for which zero rows is normal and only more than one is a violation.
\<close>

definition assertOne :: "nat \<times> db \<Rightarrow> db result" where
  "assertOne r = (if fst r = 1 then Inr (snd r) else Inl ErrProtocol)"

definition assertSome :: "error \<Rightarrow> nat \<times> db \<Rightarrow> db result" where
  "assertSome e r = (if fst r = 0 then Inl e else Inr (snd r))"

definition assertAtMostOne :: "nat \<times> db \<Rightarrow> db result" where
  "assertAtMostOne r = (if fst r > 1 then Inl ErrProtocol else Inr (snd r))"

definition nullString :: "string \<Rightarrow> string option" where
  "nullString s = (if s = [] then None else Some s)"

lemma coalesce_nullString [simp]: "coalesce_str (nullString s) = s"
  by (simp add: nullString_def)

text \<open>\<open>TIMESTAMPADD(SECOND, n, t)\<close>.\<close>

definition add_seconds :: "time \<Rightarrow> int \<Rightarrow> time" where
  "add_seconds t n = t + n * Second"

text \<open>
  Two conditions the statements spell out: \<open>timeout_at IS NOT NULL AND timeout_at < UTC_TIMESTAMP()\<close>
  and its negation as the guards write it, \<open>timeout_at IS NULL OR timeout_at >= UTC_TIMESTAMP()\<close>.
\<close>

definition cap_elapsed :: "env \<Rightarrow> job_execution \<Rightarrow> bool" where
  "cap_elapsed env e = sql_lt (je_timeout_at e) (utc env)"

definition within_cap :: "env \<Rightarrow> job_execution \<Rightarrow> bool" where
  "within_cap env e = (case je_timeout_at e of None \<Rightarrow> True | Some t \<Rightarrow> t \<ge> utc env)"

lemma within_cap_iff: "within_cap env e \<longleftrightarrow> \<not> cap_elapsed env e"
  by (auto simp: within_cap_def cap_elapsed_def split: option.splits)

section \<open>What the statement layer guarantees\<close>

lemmas db_key_defs = keys_ok_def request_ids_def

lemmas assert_defs [sql_simps] = assertOne_def assertSome_def assertAtMostOne_def
  update_def_def update_state_def update_exec_def update_executor_def

lemma exec_keys_unique:
  assumes "keys_ok db" "e \<in> set (execs db)" "e' \<in> set (execs db)"
    and "je_execution_key e = je_execution_key e'"
  shows "e = e'"
  using assms by (auto simp: keys_ok_def distinct_map inj_on_def)

lemma exec_row_mem: "keys_ok db \<Longrightarrow> e \<in> set (execs db) \<Longrightarrow> exec_row db (je_id e) = Some e"
  by (simp add: keys_ok_def row_of_mem)

lemma state_row_mem: "keys_ok db \<Longrightarrow> s \<in> set (states db) \<Longrightarrow> state_row db (js_job_name s) = Some s"
  by (simp add: keys_ok_def row_of_mem)

subsection \<open>The contract of a guarded write on each table\<close>

text \<open>
  A guarded write of job_execution also keeps the columns that identify the row, and so the unique
  keys. The lemmas of the two locales say what a statement whose guard names one row did when it
  succeeded, and when it fails.
\<close>

locale exec_write = guarded_write je_id je_write_seq assign
  for assign :: "job_execution \<Rightarrow> job_execution" +
  assumes identity_kept: "je_execution_key (assign e) = je_execution_key e"
      "je_job_name (assign e) = je_job_name e" "je_trigger_type (assign e) = je_trigger_type e"
      "je_request_id (assign e) = je_request_id e" "je_manual_first (assign e) = je_manual_first e"
begin

lemma keys_ok_update: "keys_ok db \<Longrightarrow> keys_ok (db\<lparr>execs := sql_update P assign (execs db)\<rparr>)"
proof -
  have "List.map_filter je_request_id (sql_update P assign t) = List.map_filter je_request_id t" for t
    by (induction t) (simp_all add: sql_update_def identity_kept List.map_filter_simps split: option.split)
  moreover have "je_id ` set (sql_update P assign t) = je_id ` set t" for t
    by (metis keys_after list.set_map)
  then have "(\<forall>e \<in> set (sql_update P assign t). je_id e < n) \<longleftrightarrow> (\<forall>e \<in> set t. je_id e < n)" for t n
    by (metis (mono_tags, lifting) image_iff)
  moreover have "map je_execution_key (sql_update P assign t) = map je_execution_key t" for t
    by (rule keys_update) (rule identity_kept)
  ultimately show "keys_ok db \<Longrightarrow> ?thesis"
    by (simp add: db_key_defs keys_after)
qed

lemma rows_after:
  "exec_row (snd (update_exec P assign db)) i = map_option (\<lambda>e. if P e then assign e else e) (exec_row db i)"
  by (simp add: update_exec_def lookup_after)

lemma affectedE:
  assumes "keys_ok db" and "\<And>e. P e \<Longrightarrow> je_id e = i"
  obtains (none) "\<And>e. exec_row db i = Some e \<Longrightarrow> \<not> P e" "update_exec P assign db = (0, db)"
    | (one) e db' where "exec_row db i = Some e" "P e" "update_exec P assign db = (1, db')"
        "db' = db\<lparr>execs := sql_update P assign (execs db)\<rparr>"
        "exec_row db' = (exec_row db)(i \<mapsto> assign e)" "keys_ok db'"
proof -
  from assms(1) have "distinct (map je_id (execs db))" by (simp add: keys_ok_def)
  then show thesis
    by (cases rule: changed_cases [where P = P and k = i, OF _ assms(2)])
       (use none one keys_ok_update [OF assms(1)] in \<open>auto simp: update_exec_def\<close>)
qed

lemma someE:
  assumes "assertSome err (update_exec P assign db) = Inr db'"
    and "keys_ok db" and "\<And>e. P e \<Longrightarrow> je_id e = i"
  obtains e where "exec_row db i = Some e" "P e" "db' = db\<lparr>execs := sql_update P assign (execs db)\<rparr>"
    "exec_row db' = (exec_row db)(i \<mapsto> assign e)" "keys_ok db'"
  by (cases rule: affectedE [where P = P and i = i, OF assms(2,3)]) (use assms(1) that in \<open>auto simp: assertSome_def\<close>)

lemma oneE:
  assumes "assertOne (update_exec P assign db) = Inr db'"
    and "keys_ok db" and "\<And>e. P e \<Longrightarrow> je_id e = i"
  obtains e where "exec_row db i = Some e" "P e" "db' = db\<lparr>execs := sql_update P assign (execs db)\<rparr>"
    "exec_row db' = (exec_row db)(i \<mapsto> assign e)" "keys_ok db'"
  by (cases rule: affectedE [where P = P and i = i, OF assms(2,3)]) (use assms(1) that in \<open>auto simp: assertOne_def\<close>)

lemma atMostOneE:
  assumes "assertAtMostOne (update_exec P assign db) = Inr db'"
    and "keys_ok db" and "\<And>e. P e \<Longrightarrow> je_id e = i"
  obtains (none) "db' = db" "\<And>e. exec_row db i = Some e \<Longrightarrow> \<not> P e"
    | (one) e where "exec_row db i = Some e" "P e" "db' = db\<lparr>execs := sql_update P assign (execs db)\<rparr>"
        "exec_row db' = (exec_row db)(i \<mapsto> assign e)" "keys_ok db'"
proof (rule affectedE [OF assms(2), where P = P and i = i])
  show "je_id e = i" if "P e" for e using that by (rule assms(3))
next
  assume none': "\<And>e. exec_row db i = Some e \<Longrightarrow> \<not> P e" "update_exec P assign db = (0, db)"
  with assms(1) have "db' = db" by (simp add: assertAtMostOne_def)
  with none' that(1) show thesis by blast
next
  fix e db1
  assume one': "exec_row db i = Some e" "P e" "update_exec P assign db = (1, db1)"
    "db1 = db\<lparr>execs := sql_update P assign (execs db)\<rparr>"
    "exec_row db1 = (exec_row db)(i \<mapsto> assign e)" "keys_ok db1"
  with assms(1) have "db' = db1" by (simp add: assertAtMostOne_def)
  with one' that(2) show thesis by blast
qed

lemma no_row:
  assumes "keys_ok db" and "\<And>e. P e \<Longrightarrow> je_id e = i" and "\<And>e. exec_row db i = Some e \<Longrightarrow> \<not> P e"
  shows "update_exec P assign db = (0, db)"
  by (cases rule: affectedE [where P = P and i = i, OF assms(1,2)]) (use assms(3) in auto)

lemma one_row:
  assumes "keys_ok db" and "\<And>e. P e \<Longrightarrow> je_id e = i" and "exec_row db i = Some e" and "P e"
  shows "update_exec P assign db = (1, db\<lparr>execs := sql_update P assign (execs db)\<rparr>)"
  by (cases rule: affectedE [where P = P and i = i, OF assms(1,2)]) (use assms(3,4) in auto)

lemma at_most_one_ok:
  assumes "keys_ok db" and "\<And>e. P e \<Longrightarrow> je_id e = i"
  shows "\<exists>db'. assertAtMostOne (update_exec P assign db) = Inr db'"
  by (cases rule: affectedE [where P = P and i = i, OF assms]) (auto simp: assertAtMostOne_def)

end

locale state_write = guarded_write js_job_name js_write_seq assign
  for assign :: "job_state \<Rightarrow> job_state"
begin

lemma keys_ok_update: "keys_ok db \<Longrightarrow> keys_ok (db\<lparr>states := sql_update P assign (states db)\<rparr>)"
  by (simp add: db_key_defs keys_after)

lemma rows_after:
  "state_row (snd (update_state P assign db)) j = map_option (\<lambda>s. if P s then assign s else s) (state_row db j)"
  by (simp add: update_state_def lookup_after)

lemma affectedE:
  assumes "keys_ok db" and "\<And>s. P s \<Longrightarrow> js_job_name s = j"
  obtains (none) "\<And>s. state_row db j = Some s \<Longrightarrow> \<not> P s" "update_state P assign db = (0, db)"
    | (one) s db' where "state_row db j = Some s" "P s" "update_state P assign db = (1, db')"
        "db' = db\<lparr>states := sql_update P assign (states db)\<rparr>"
        "state_row db' = (state_row db)(j \<mapsto> assign s)" "keys_ok db'"
proof -
  from assms(1) have "distinct (map js_job_name (states db))" by (simp add: keys_ok_def)
  then show thesis
    by (cases rule: changed_cases [where P = P and k = j, OF _ assms(2)])
       (use none one keys_ok_update [OF assms(1)] in \<open>auto simp: update_state_def\<close>)
qed

lemma someE:
  assumes "assertSome err (update_state P assign db) = Inr db'"
    and "keys_ok db" and "\<And>s. P s \<Longrightarrow> js_job_name s = j"
  obtains s where "state_row db j = Some s" "P s" "db' = db\<lparr>states := sql_update P assign (states db)\<rparr>"
    "state_row db' = (state_row db)(j \<mapsto> assign s)" "keys_ok db'"
  by (cases rule: affectedE [where P = P and j = j, OF assms(2,3)]) (use assms(1) that in \<open>auto simp: assertSome_def\<close>)

lemma oneE:
  assumes "assertOne (update_state P assign db) = Inr db'"
    and "keys_ok db" and "\<And>s. P s \<Longrightarrow> js_job_name s = j"
  obtains s where "state_row db j = Some s" "P s" "db' = db\<lparr>states := sql_update P assign (states db)\<rparr>"
    "state_row db' = (state_row db)(j \<mapsto> assign s)" "keys_ok db'"
  by (cases rule: affectedE [where P = P and j = j, OF assms(2,3)]) (use assms(1) that in \<open>auto simp: assertOne_def\<close>)

lemma atMostOneE:
  assumes "assertAtMostOne (update_state P assign db) = Inr db'"
    and "keys_ok db" and "\<And>s. P s \<Longrightarrow> js_job_name s = j"
  obtains (none) "db' = db" "\<And>s. state_row db j = Some s \<Longrightarrow> \<not> P s"
    | (one) s where "state_row db j = Some s" "P s" "db' = db\<lparr>states := sql_update P assign (states db)\<rparr>"
        "state_row db' = (state_row db)(j \<mapsto> assign s)" "keys_ok db'"
proof (rule affectedE [OF assms(2), where P = P and j = j])
  show "js_job_name s = j" if "P s" for s using that by (rule assms(3))
next
  assume none': "\<And>s. state_row db j = Some s \<Longrightarrow> \<not> P s" "update_state P assign db = (0, db)"
  with assms(1) have "db' = db" by (simp add: assertAtMostOne_def)
  with none' that(1) show thesis by blast
next
  fix s db1
  assume one': "state_row db j = Some s" "P s" "update_state P assign db = (1, db1)"
    "db1 = db\<lparr>states := sql_update P assign (states db)\<rparr>"
    "state_row db1 = (state_row db)(j \<mapsto> assign s)" "keys_ok db1"
  with assms(1) have "db' = db1" by (simp add: assertAtMostOne_def)
  with one' that(2) show thesis by blast
qed

lemma no_row:
  assumes "keys_ok db" and "\<And>s. P s \<Longrightarrow> js_job_name s = j" and "\<And>s. state_row db j = Some s \<Longrightarrow> \<not> P s"
  shows "update_state P assign db = (0, db)"
  by (cases rule: affectedE [where P = P and j = j, OF assms(1,2)]) (use assms(3) in auto)

lemma one_row:
  assumes "keys_ok db" and "\<And>s. P s \<Longrightarrow> js_job_name s = j" and "state_row db j = Some s" and "P s"
  shows "update_state P assign db = (1, db\<lparr>states := sql_update P assign (states db)\<rparr>)"
  by (cases rule: affectedE [where P = P and j = j, OF assms(1,2)]) (use assms(3,4) in auto)

lemma at_most_one_ok:
  assumes "keys_ok db" and "\<And>s. P s \<Longrightarrow> js_job_name s = j"
  shows "\<exists>db'. assertAtMostOne (update_state P assign db) = Inr db'"
  by (cases rule: affectedE [where P = P and j = j, OF assms]) (auto simp: assertAtMostOne_def)

end

end
