(* ===== verification/Reads.thy ===== *)
theory Reads
  imports Schema "HOL-Library.Product_Lexorder"
begin

text \<open>
  The reads every transaction of the store starts from: the state row under its lock and the
  configuration (\<^verbatim>\<open>src/internal/store/claim.go\<close>), the execution row under the state row's lock and
  the scans of the same shape (\<^verbatim>\<open>src/internal/store/recovery.go\<close>).
\<close>

section \<open>The state row and the definition (claim.go)\<close>

text \<open>The state row is the job's lock: \<open>Held\<close> says whether some execution owns it.\<close>

definition Held :: "job_state \<Rightarrow> bool" where "Held s = js_active_kind s"

definition lockState :: "env \<Rightarrow> db \<Rightarrow> string \<Rightarrow> job_state result" where
  "lockState env db jobName =
     (case state_row db jobName of
        None \<Rightarrow> Inl ErrMissingState
      | Some s \<Rightarrow> if locked env jobName then Inl ErrContended else Inr s)"

definition definition_of :: "job_definition \<Rightarrow> Definition" where
  "definition_of r =
     \<lparr>d_JobName = jd_job_name r, d_HandlerKey = jd_handler_key r,
      d_ExecutorGroup = coalesce_str (jd_executor_group r),
      d_ScheduleKind = jd_schedule_kind r, d_ScheduleExpr = jd_schedule_expr r,
      d_Enabled = jd_enabled r, d_Retired = jd_retired r,
      d_Concurrency = jd_concurrency_policy r, d_Misfire = jd_misfire_policy r,
      d_MaxAttempts = jd_max_attempts r, d_MaxRecoveries = jd_max_recoveries r,
      d_Lease = jd_lease_seconds r * Second, d_Timeout = jd_timeout_seconds r * Second,
      d_Params = coalesce_str (jd_params_json r),
      d_Description = coalesce_str (jd_description r),
      d_Version = jd_version r, d_UpdatedBy = []\<rparr>"

definition readDefinition :: "db \<Rightarrow> string \<Rightarrow> Definition result" where
  "readDefinition db jobName =
     (case def_row db jobName of
        None \<Rightarrow> Inl ErrProtocol
      | Some r \<Rightarrow> Inr (definition_of r))"

lemma lockState_Inr: "lockState env db j = Inr s \<longleftrightarrow> state_row db j = Some s \<and> \<not> locked env j"
  by (auto simp: lockState_def split: option.splits)

lemma readDefinition_Inr:
  "readDefinition db j = Inr d \<longleftrightarrow> (\<exists>r. def_row db j = Some r \<and> d = definition_of r)"
  by (auto simp: readDefinition_def split: option.splits)

section \<open>Executions as recovery reads them (recovery.go)\<close>

record Stale =
  v_ID :: int
  v_ExecutionKey :: string
  v_JobName :: string
  v_Status :: Status
  v_DispatchedTo :: string
  v_RunToken :: string
  v_FenceEpoch :: int
  v_AttemptNo :: int
  v_MaxAttempts :: int
  v_RecoveryCount :: int
  v_MaxRecoveries :: int
  v_TimeoutExpired :: bool
  v_SilenceExpired :: bool
  v_LeaseLive :: bool
  v_RemainingTimeout :: duration
  v_ScheduledAt :: time
  v_Params :: string

text \<open>
  \<open>COALESCE(GREATEST(TIMESTAMPDIFF(SECOND, UTC_TIMESTAMP(), timeout_at), 0), 0)\<close>, read as a
  duration.
\<close>

definition remaining_timeout :: "env \<Rightarrow> job_execution \<Rightarrow> duration" where
  "remaining_timeout env e =
     (case je_timeout_at e of
        None \<Rightarrow> 0
      | Some t \<Rightarrow> max 0 ((t - utc env) div Second) * Second)"

definition stale_of :: "env \<Rightarrow> job_execution \<Rightarrow> Stale" where
  "stale_of env e =
     \<lparr>v_ID = je_id e, v_ExecutionKey = je_execution_key e, v_JobName = je_job_name e,
      v_Status = je_status e, v_DispatchedTo = coalesce_str (je_dispatched_to e),
      v_RunToken = coalesce_str (je_run_token e), v_FenceEpoch = je_fence_epoch e,
      v_AttemptNo = je_attempt_no e, v_MaxAttempts = je_max_attempts e,
      v_RecoveryCount = je_recovery_count e, v_MaxRecoveries = je_max_recoveries e,
      v_TimeoutExpired = cap_elapsed env e,
      v_SilenceExpired = sql_lt (je_deadline_at e) (utc env),
      v_LeaseLive = sql_ge (je_lease_until e) (utc env),
      v_RemainingTimeout = remaining_timeout env e,
      v_ScheduledAt = je_scheduled_at e, v_Params = coalesce_str (je_params_json e)\<rparr>"

definition lockExecution :: "env \<Rightarrow> db \<Rightarrow> int \<Rightarrow> Stale result" where
  "lockExecution env db eid =
     (case exec_row db eid of
        None \<Rightarrow> Inl ErrNoSuchExecution
      | Some e \<Rightarrow> Inr (stale_of env e))"

definition ExecutionByKey :: "env \<Rightarrow> db \<Rightarrow> string \<Rightarrow> Stale result" where
  "ExecutionByKey env db key =
     (case find (\<lambda>e. je_execution_key e = key) (execs db) of
        None \<Rightarrow> Inl ErrNoSuchExecution
      | Some e \<Rightarrow> Inr (stale_of env e))"

text \<open>An \<open>ORDER BY c, id LIMIT n\<close> page over the rows a WHERE clause keeps.\<close>

definition or_zero :: "time option \<Rightarrow> time" where
  "or_zero c = (case c of None \<Rightarrow> 0 | Some t \<Rightarrow> t)"

definition page :: "(job_execution \<Rightarrow> time) \<Rightarrow> (job_execution \<Rightarrow> bool) \<Rightarrow> int \<Rightarrow> db \<Rightarrow> job_execution list" where
  "page c P limit db = take (nat limit) (sort_key (\<lambda>e. (c e, je_id e)) (filter P (execs db)))"

definition StaleExecutions :: "env \<Rightarrow> db \<Rightarrow> int \<Rightarrow> Stale list" where
  "StaleExecutions env db limit =
     map (stale_of env)
       (page (\<lambda>e. or_zero (je_lease_until e))
             (\<lambda>e. in_flight (je_status e) \<and> sql_lt (je_lease_until e) (utc env)) limit db)"

definition TimedOut :: "env \<Rightarrow> db \<Rightarrow> int \<Rightarrow> Stale list" where
  "TimedOut env db limit =
     map (\<lambda>e. (stale_of env e)\<lparr>v_TimeoutExpired := True\<rparr>)
       (page (\<lambda>e. or_zero (je_timeout_at e))
             (\<lambda>e. in_flight (je_status e) \<and> cap_elapsed env e) limit db)"

definition CancelRequested :: "env \<Rightarrow> db \<Rightarrow> int \<Rightarrow> int \<Rightarrow> Stale list" where
  "CancelRequested env db afterID limit =
     map (stale_of env)
       (page je_id
             (\<lambda>e. je_status e = StatusCancelRequested \<and> je_dispatched_to e \<noteq> None \<and> je_id e > afterID) limit db)"

definition Silent :: "env \<Rightarrow> db \<Rightarrow> int \<Rightarrow> Stale list" where
  "Silent env db limit =
     map (stale_of env)
       (page (\<lambda>e. or_zero (je_deadline_at e))
             (\<lambda>e. je_status e \<in> {StatusRunning, StatusCancelRequested} \<and>
                  sql_lt (je_deadline_at e) (utc env) \<and> sql_ge (je_lease_until e) (utc env)) limit db)"

definition OwnedByInstance :: "env \<Rightarrow> db \<Rightarrow> string \<Rightarrow> int \<Rightarrow> Stale list" where
  "OwnedByInstance env db owner limit =
     map (stale_of env)
       (page je_id (\<lambda>e. je_owner_instance e = Some owner \<and> in_flight (je_status e)) limit db)"

lemma stale_of_simps [simp]:
  "v_ID (stale_of env e) = je_id e"
  "v_ExecutionKey (stale_of env e) = je_execution_key e"
  "v_JobName (stale_of env e) = je_job_name e"
  "v_Status (stale_of env e) = je_status e"
  "v_DispatchedTo (stale_of env e) = coalesce_str (je_dispatched_to e)"
  "v_RunToken (stale_of env e) = coalesce_str (je_run_token e)"
  "v_FenceEpoch (stale_of env e) = je_fence_epoch e"
  "v_AttemptNo (stale_of env e) = je_attempt_no e"
  "v_MaxAttempts (stale_of env e) = je_max_attempts e"
  "v_RecoveryCount (stale_of env e) = je_recovery_count e"
  "v_MaxRecoveries (stale_of env e) = je_max_recoveries e"
  "v_TimeoutExpired (stale_of env e) = cap_elapsed env e"
  "v_SilenceExpired (stale_of env e) = sql_lt (je_deadline_at e) (utc env)"
  "v_LeaseLive (stale_of env e) = sql_ge (je_lease_until e) (utc env)"
  by (simp_all add: stale_of_def)

lemma lockExecution_Inr:
  "lockExecution env db i = Inr v \<longleftrightarrow> (\<exists>e. exec_row db i = Some e \<and> v = stale_of env e)"
  by (auto simp: lockExecution_def split: option.splits)

lemma page_mem: "e \<in> set (page c P limit db) \<Longrightarrow> e \<in> set (execs db) \<and> P e"
  by (auto simp: page_def dest: in_set_takeD)

lemma page_bounded: "length (page c P limit db) \<le> nat limit"
  by (simp add: page_def)

end
