(* ===== verification/Lease.thy ===== *)
theory Lease
  imports Reads
begin

text \<open>
  Ownership and its renewal (\<^verbatim>\<open>src/internal/store/lease.go\<close>). A \<open>Holder\<close> is what one attempt
  knows of its own ownership, and every write it makes carries it. The assignment list of each
  UPDATE is a definition of its own, so that the contract of a guarded write can be stated of it.
\<close>

record Holder =
  h_JobName :: string
  h_ExecutionID :: int
  h_ExecutionKey :: string
  h_Owner :: string
  h_RunToken :: string
  h_FenceEpoch :: int

text \<open>The guards of the ownership-bearing statements on the two rows.\<close>

definition holds_lock :: "string \<Rightarrow> string \<Rightarrow> int \<Rightarrow> job_state \<Rightarrow> bool" where
  "holds_lock jobName token epoch s \<longleftrightarrow>
     js_job_name s = jobName \<and> js_active_run_token s = Some token \<and> js_fence_epoch s = epoch"

definition owns_exec :: "int \<Rightarrow> string \<Rightarrow> int \<Rightarrow> job_execution \<Rightarrow> bool" where
  "owns_exec eid token epoch e \<longleftrightarrow>
     je_id e = eid \<and> je_run_token e = Some token \<and> je_fence_epoch e = epoch"

definition renew_lock_set :: "env \<Rightarrow> int \<Rightarrow> job_state \<Rightarrow> job_state" where
  "renew_lock_set env leaseSeconds s =
     s\<lparr>js_write_seq := js_write_seq s + 1,
       js_lease_until := Some (add_seconds (utc env) leaseSeconds),
       js_heartbeat_at := Some (utc env), js_updated_at := now env\<rparr>"

definition renew_exec_set :: "env \<Rightarrow> int \<Rightarrow> job_execution \<Rightarrow> job_execution" where
  "renew_exec_set env leaseSeconds e =
     e\<lparr>je_write_seq := je_write_seq e + 1,
       je_lease_until := Some (add_seconds (utc env) leaseSeconds),
       je_heartbeat_at := Some (utc env), je_updated_at := now env\<rparr>"

definition Renew :: "env \<Rightarrow> Holder \<Rightarrow> int \<Rightarrow> db \<Rightarrow> db result" where
  "Renew env h leaseSeconds db =
     bindE (assertSome ErrFenced
              (update_state (holds_lock (h_JobName h) (h_RunToken h) (h_FenceEpoch h))
                            (renew_lock_set env leaseSeconds) db)) (\<lambda>db.
     assertSome ErrFenced
       (update_exec (\<lambda>e. owns_exec (h_ExecutionID h) (h_RunToken h) (h_FenceEpoch h) e \<and>
                         in_flight (je_status e) \<and> je_owner_instance e = Some (h_Owner h) \<and>
                         sql_ge (je_lease_until e) (utc env))
                    (renew_exec_set env leaseSeconds) db))"

definition extend_deadline_set :: "env \<Rightarrow> int \<Rightarrow> job_execution \<Rightarrow> job_execution" where
  "extend_deadline_set env silenceSeconds e =
     e\<lparr>je_write_seq := je_write_seq e + 1,
       je_deadline_at := Some (add_seconds (utc env) silenceSeconds), je_updated_at := now env\<rparr>"

definition ExtendDeadline :: "env \<Rightarrow> Holder \<Rightarrow> int \<Rightarrow> db \<Rightarrow> db result" where
  "ExtendDeadline env h silenceSeconds db =
     assertSome ErrFenced
       (update_exec (\<lambda>e. owns_exec (h_ExecutionID h) (h_RunToken h) (h_FenceEpoch h) e \<and>
                         in_flight (je_status e) \<and> within_cap env e)
                    (extend_deadline_set env silenceSeconds) db)"

interpretation renew_lock: state_write "renew_lock_set env n" for env n
  by unfold_locales (simp_all add: renew_lock_set_def)

interpretation renew_exec: exec_write "renew_exec_set env n" for env n
  by unfold_locales (simp_all add: renew_exec_set_def)

interpretation extend_deadline: exec_write "extend_deadline_set env n" for env n
  by unfold_locales (simp_all add: extend_deadline_set_def)

lemma holds_lock_job: "holds_lock j t e s \<Longrightarrow> js_job_name s = j"
  by (simp add: holds_lock_def)

lemma owns_exec_id: "owns_exec i t e x \<Longrightarrow> je_id x = i"
  by (simp add: owns_exec_def)

end
