(* ===== verification/Utf8.thy ===== *)
theory Utf8
  imports Prelude
begin

text \<open>
  Strings are byte sequences, as in Go. \<open>[]rune(s)\<close> decodes UTF-8, reading every byte that does
  not start a valid encoding as U+FFFD, and converting the runes back encodes them again; so a
  rune is modelled by the bytes it is encoded as. \<open>clip\<close> (\<^verbatim>\<open>src/internal/store/complete.go\<close>)
  bounds a string to the number of characters its VARCHAR column holds.
\<close>

definition byte_at :: "string \<Rightarrow> nat \<Rightarrow> nat" where
  "byte_at s i = of_char (s ! i)"

definition byte_in :: "string \<Rightarrow> nat \<Rightarrow> nat \<Rightarrow> nat \<Rightarrow> bool" where
  "byte_in s i lo hi \<longleftrightarrow> i < length s \<and> lo \<le> byte_at s i \<and> byte_at s i \<le> hi"

text \<open>The width of the valid encoding a non-empty string starts with, 0 when there is none.\<close>

definition rune_width :: "string \<Rightarrow> nat" where
  "rune_width s =
     (let b = byte_at s 0 in
      if b < 128 then 1
      else if byte_in s 0 194 223 \<and> byte_in s 1 128 191 then 2
      else if byte_in s 0 224 239 \<and> byte_in s 1 (if b = 224 then 160 else 128) (if b = 237 then 159 else 191)
              \<and> byte_in s 2 128 191 then 3
      else if byte_in s 0 240 244 \<and> byte_in s 1 (if b = 240 then 144 else 128) (if b = 244 then 143 else 191)
              \<and> byte_in s 2 128 191 \<and> byte_in s 3 128 191 then 4
      else 0)"

definition replacement :: string where
  "replacement = [char_of (239::nat), char_of (191::nat), char_of (189::nat)]"

function runes :: "string \<Rightarrow> string list" where
  "runes [] = []"
| "runes (c # cs) =
     (let w = rune_width (c # cs) in
      if w = 0 then replacement # runes cs
      else take w (c # cs) # runes (drop w (c # cs)))"
  by pat_completeness auto
termination
  by (relation "measure length") (auto simp: Let_def)

declare runes.simps(2) [simp del]

definition clip :: "string \<Rightarrow> nat \<Rightarrow> string" where
  "clip s n =
     (if length s \<le> n then s
      else if length (runes s) \<le> n then s
      else concat (take n (runes s)))"

lemma rune_width_le: "s \<noteq> [] \<Longrightarrow> rune_width s \<le> length s"
  by (auto simp: rune_width_def byte_in_def Let_def Suc_le_eq)

lemma rune_width_cases:
  "rune_width s = 1 \<longleftrightarrow> byte_at s 0 < 128"
  "rune_width s = 2 \<longleftrightarrow> byte_in s 0 194 223 \<and> byte_in s 1 128 191"
  "rune_width s = 3 \<longleftrightarrow> byte_in s 0 224 239 \<and> byte_in s 2 128 191 \<and>
     byte_in s 1 (if byte_at s 0 = 224 then 160 else 128) (if byte_at s 0 = 237 then 159 else 191)"
  "rune_width s = 4 \<longleftrightarrow> byte_in s 0 240 244 \<and> byte_in s 2 128 191 \<and> byte_in s 3 128 191 \<and>
     byte_in s 1 (if byte_at s 0 = 240 then 144 else 128) (if byte_at s 0 = 244 then 143 else 191)"
  unfolding rune_width_def Let_def by (auto simp: byte_in_def [of s 0])

lemma rune_width_agree:
  assumes "rune_width s = w" and "0 < w" and "w \<le> length u"
    and "\<And>i. i < w \<Longrightarrow> byte_at u i = byte_at s i"
  shows "rune_width u = w"
proof -
  from assms(1,2) consider "w = 1" | "w = 2" | "w = 3" | "w = 4"
    by (auto simp: rune_width_def Let_def split: if_splits)
  then show ?thesis
  proof cases
    case 1
    with assms show ?thesis by (simp add: rune_width_cases(1) [unfolded One_nat_def])
  next
    case 2
    with assms show ?thesis by (auto simp: rune_width_cases byte_in_def)
  next
    case 3
    with assms show ?thesis by (auto simp: rune_width_cases byte_in_def)
  next
    case 4
    with assms show ?thesis by (auto simp: rune_width_cases byte_in_def)
  qed
qed

lemma rune_width_prefix:
  assumes "s \<noteq> []" and "rune_width s = w" and "0 < w"
  shows "rune_width (take w s @ t) = w"
proof (rule rune_width_agree [OF assms(2,3)])
  have len: "w \<le> length s" using rune_width_le [OF assms(1)] assms(2) by simp
  then show "w \<le> length (take w s @ t)" by simp
  show "byte_at (take w s @ t) i = byte_at s i" if "i < w" for i
    using that len by (simp add: byte_at_def nth_append)
qed

lemma rune_width_replacement: "rune_width (replacement @ t) = 3"
  by (simp add: rune_width_def replacement_def byte_in_def byte_at_def)

text \<open>A chunk the decoder produces decodes to itself whatever follows it.\<close>

lemma runes_chunk:
  assumes "u \<noteq> []" "rune_width u = length u"
  shows "runes (u @ t) = u # runes t"
proof -
  have "rune_width (u @ t) = length u"
    using rune_width_prefix [of u "length u" t] assms by simp
  then show ?thesis using assms(1) by (cases u) (simp_all add: runes.simps(2))
qed

lemma runes_chunks: "u \<in> set (runes s) \<Longrightarrow> u \<noteq> [] \<and> rune_width u = length u"
proof (induction s rule: runes.induct)
  case 1
  then show ?case by simp
next
  case (2 c cs)
  let ?s = "c # cs"
  let ?w = "rune_width ?s"
  have rep: "replacement \<noteq> [] \<and> rune_width replacement = length replacement"
    using rune_width_replacement [of "[]"] by (simp add: replacement_def)
  have head: "take ?w ?s \<noteq> [] \<and> rune_width (take ?w ?s) = length (take ?w ?s)" if "?w \<noteq> 0"
    using rune_width_prefix [of ?s ?w "[]"] rune_width_le [of ?s] that by (auto simp: min_def)
  show ?case
  proof (cases "?w = 0")
    case True
    with 2 rep show ?thesis by (auto simp: runes.simps(2))
  next
    case False
    then have eq: "runes ?s = take ?w ?s # runes (drop ?w ?s)"
      by (simp add: runes.simps(2) Let_def)
    from "2.prems" consider "u = take ?w ?s" | "u \<in> set (runes (drop ?w ?s))"
      unfolding eq by (metis set_ConsD)
    then show ?thesis
    proof cases
      case 1
      with head [OF False] show ?thesis by simp
    next
      case 2
      with "2.IH"(2) [OF refl False] show ?thesis by simp
    qed
  qed
qed

lemma runes_concat: "\<forall>u \<in> set us. u \<noteq> [] \<and> rune_width u = length u \<Longrightarrow> runes (concat us) = us"
  by (induction us) (simp_all add: runes_chunk)

lemma runes_le_bytes: "length (runes s) \<le> length s"
proof (induction s rule: runes.induct)
  case 1
  then show ?case by simp
next
  case (2 c cs)
  show ?case
  proof (cases "rune_width (c # cs) = 0")
    case True
    with 2 show ?thesis by (simp add: runes.simps(2))
  next
    case False
    then have "length (drop (rune_width (c # cs)) (c # cs)) < length (c # cs)" by simp
    moreover have "length (runes (drop (rune_width (c # cs)) (c # cs))) \<le> length (drop (rune_width (c # cs)) (c # cs))"
      by (rule 2(2) [OF refl False])
    ultimately show ?thesis using False by (simp add: runes.simps(2) Let_def)
  qed
qed

lemma clip_runes: "length (runes (clip s n)) \<le> n"
proof -
  have "\<forall>u \<in> set (take n (runes s)). u \<noteq> [] \<and> rune_width u = length u"
    using runes_chunks [of _ s] in_set_takeD [of _ n "runes s"] by auto
  then have "runes (concat (take n (runes s))) = take n (runes s)"
    by (rule runes_concat)
  then show ?thesis using runes_le_bytes [of s] by (auto simp: clip_def)
qed

text \<open>Clipping text to a column keeps whole characters: decoded, the result is the first n characters of the input,
  whatever bytes the input holds.\<close>

lemma clip_prefix: "runes (clip s n) = take n (runes s)"
proof -
  have "\<forall>u \<in> set (take n (runes s)). u \<noteq> [] \<and> rune_width u = length u"
    using runes_chunks [of _ s] in_set_takeD [of _ n "runes s"] by auto
  then have "runes (concat (take n (runes s))) = take n (runes s)" by (rule runes_concat)
  then show ?thesis using runes_le_bytes [of s] by (auto simp: clip_def)
qed

end
