(* ===== verification/Completion.thy ===== *)
theory Completion
  imports Lease Utf8
begin

text \<open>
  Completion, retry, cancellation and attempt history
  (\<^verbatim>\<open>src/internal/store/complete.go\<close>). Every terminal path of the store is built from the four
  helpers defined here: \<open>releaseJobLock\<close>, \<open>chargeUnacceptedAttempt\<close>, \<open>recordAttempt\<close> and
  \<open>settlePollClock\<close>.
\<close>

section \<open>Outcomes and the columns that bound them\<close>

text \<open>A zero \<open>time.Time\<close> and an empty terminal reason are \<open>None\<close>.\<close>

record Outcome =
  o_Status :: Status
  o_TerminalReason :: "TerminalReason option"
  o_AttemptOutcome :: AttemptOutcome
  o_FailureKind :: string
  o_ErrorMessage :: string
  o_ResultSummary :: string
  o_ExecutorID :: string
  o_StartedAt :: "time option"
  o_FinishedAt :: "time option"

definition maxFailureKind :: nat where "maxFailureKind = 48"
definition maxMessage :: nat where "maxMessage = 512"

definition clipped :: "Outcome \<Rightarrow> Outcome" where
  "clipped o1 =
     o1\<lparr>o_FailureKind := clip (o_FailureKind o1) maxFailureKind,
        o_ErrorMessage := clip (o_ErrorMessage o1) maxMessage,
        o_ResultSummary := clip (o_ResultSummary o1) maxMessage\<rparr>"

section \<open>The helpers of every terminal path\<close>

definition release_lock_set :: "env \<Rightarrow> bool \<Rightarrow> job_state \<Rightarrow> job_state" where
  "release_lock_set env succeeded s =
     s\<lparr>js_write_seq := js_write_seq s + 1,
       js_active_kind := False, js_active_execution := None, js_active_owner := None,
       js_active_run_token := None, js_dispatched_to := None, js_lease_until := None,
       js_last_success_at := (if succeeded then Some (now env) else js_last_success_at s),
       js_last_failure_at := (if succeeded then js_last_failure_at s else Some (now env)),
       js_updated_at := now env\<rparr>"

definition releaseJobLock :: "env \<Rightarrow> Holder \<Rightarrow> bool \<Rightarrow> db \<Rightarrow> db result" where
  "releaseJobLock env h succeeded db =
     assertSome ErrFenced
       (update_state (holds_lock (h_JobName h) (h_RunToken h) (h_FenceEpoch h))
                     (release_lock_set env succeeded) db)"

definition charge_set :: "env \<Rightarrow> job_execution \<Rightarrow> job_execution" where
  "charge_set env e =
     e\<lparr>je_write_seq := je_write_seq e + 1,
       je_attempt_no := je_attempt_no e + 1,
       je_started_at := (case je_started_at e of None \<Rightarrow> Some (now env) | Some t \<Rightarrow> Some t),
       je_updated_at := now env\<rparr>"

definition chargeUnacceptedAttempt :: "env \<Rightarrow> Holder \<Rightarrow> db \<Rightarrow> db result" where
  "chargeUnacceptedAttempt env h db =
     assertAtMostOne
       (update_exec (\<lambda>e. owns_exec (h_ExecutionID h) (h_RunToken h) (h_FenceEpoch h) e \<and>
                         je_status e = StatusDispatching)
                    (charge_set env) db)"

definition settle_poll_set :: "env \<Rightarrow> duration \<Rightarrow> job_state \<Rightarrow> job_state" where
  "settle_poll_set env delay s =
     s\<lparr>js_write_seq := js_write_seq s + 1,
       js_next_poll_at := Some (now env + delay), js_updated_at := now env\<rparr>"

text \<open>The EXISTS subquery: the execution named is a poll pass of this job, and terminal.\<close>

definition ended_pass :: "db \<Rightarrow> int \<Rightarrow> string \<Rightarrow> bool" where
  "ended_pass db eid jobName =
     list_ex (\<lambda>e. je_id e = eid \<and> je_job_name e = jobName \<and> je_trigger_type e = TriggerPoll \<and>
                  Terminal (je_status e)) (execs db)"

definition settlePollClock :: "env \<Rightarrow> Holder \<Rightarrow> db \<Rightarrow> db result" where
  "settlePollClock env h db =
     bindE (readDefinition db (h_JobName h)) (\<lambda>def.
     if d_ScheduleKind def \<noteq> ScheduleFixedDelay then Inr db
     else bindE (Delay def) (\<lambda>delay.
       assertAtMostOne
         (update_state (\<lambda>s. js_job_name s = h_JobName h \<and> ended_pass db (h_ExecutionID h) (js_job_name s))
                       (settle_poll_set env delay) db)))"

text \<open>
  The attempt history is keyed by execution key and run token, and the first write wins: the
  duplicate-key clause updates nothing.
\<close>

definition attempt_of :: "env \<Rightarrow> Holder \<Rightarrow> Outcome \<Rightarrow> int \<Rightarrow> job_execution_attempt" where
  "attempt_of env h o1 attemptNo =
     \<lparr>ja_execution_key = h_ExecutionKey h, ja_run_token = h_RunToken h, ja_attempt_no = attemptNo,
      ja_executor_id = nullString (o_ExecutorID o1), ja_started_at = o_StartedAt o1,
      ja_finished_at = (case o_FinishedAt o1 of None \<Rightarrow> Some (now env) | Some t \<Rightarrow> Some t),
      ja_outcome = o_AttemptOutcome o1, ja_failure_kind = nullString (o_FailureKind o1),
      ja_summary = nullString (o_ResultSummary o1)\<rparr>"

definition recordAttempt :: "env \<Rightarrow> Holder \<Rightarrow> Outcome \<Rightarrow> db \<Rightarrow> db result" where
  "recordAttempt env h o1 db =
     (case exec_row db (h_ExecutionID h) of
        None \<Rightarrow> Inl ErrOther
      | Some e \<Rightarrow>
          if attempt_row db (h_ExecutionKey h, h_RunToken h) \<noteq> None then Inr db
          else Inr (db\<lparr>attempts := attempts db @ [attempt_of env h o1 (je_attempt_no e)]\<rparr>))"

definition audit :: "env \<Rightarrow> string \<Rightarrow> string \<Rightarrow> string \<Rightarrow> string \<Rightarrow> string \<Rightarrow> db \<Rightarrow> db" where
  "audit env actor action jobName executionKey detail db =
     db\<lparr>audits := audits db @
        [\<lparr>jl_actor = actor, jl_action = action, jl_job_name = nullString jobName,
          jl_execution = nullString executionKey, jl_detail = nullString detail,
          jl_created_at = now env\<rparr>]\<rparr>"

section \<open>Complete, Retry, RequestCancel\<close>

definition complete_set :: "env \<Rightarrow> Outcome \<Rightarrow> job_execution \<Rightarrow> job_execution" where
  "complete_set env o1 e =
     e\<lparr>je_write_seq := je_write_seq e + 1,
       je_status := o_Status o1, je_terminal_reason := o_TerminalReason o1,
       je_finished_at := Some (now env),
       je_failure_kind := nullString (o_FailureKind o1),
       je_error_message := nullString (o_ErrorMessage o1),
       je_result_summary := nullString (o_ResultSummary o1),
       je_lease_until := None, je_updated_at := now env\<rparr>"

definition Complete :: "env \<Rightarrow> Holder \<Rightarrow> Outcome \<Rightarrow> db \<Rightarrow> db result" where
  "Complete env h o0 db =
     (if \<not> Terminal (o_Status o0) then Inl ErrProtocol
      else let o1 = clipped o0 in
        bindE (releaseJobLock env h (o_Status o1 = StatusSuccess) db) (\<lambda>db.
        bindE (chargeUnacceptedAttempt env h db) (\<lambda>db.
        bindE (assertSome ErrFenced
                 (update_exec (\<lambda>e. owns_exec (h_ExecutionID h) (h_RunToken h) (h_FenceEpoch h) e \<and>
                                   in_flight (je_status e) \<and> within_cap env e)
                              (complete_set env o1) db)) (\<lambda>db.
        bindE (recordAttempt env h o1 db) (\<lambda>db.
        settlePollClock env h db)))))"

definition retry_set :: "env \<Rightarrow> Outcome \<Rightarrow> int \<Rightarrow> job_execution \<Rightarrow> job_execution" where
  "retry_set env o1 backoffSeconds e =
     (let spent = je_attempt_no e \<ge> je_max_attempts e in
      e\<lparr>je_write_seq := je_write_seq e + 1,
        je_status := (if spent then StatusDead else StatusReady),
        je_terminal_reason := (if spent then Some ReasonBudgetExhausted else None),
        je_finished_at := (if spent then Some (now env) else None),
        je_available_at := (if spent then je_available_at e else add_seconds (now env) backoffSeconds),
        je_timeout_at := (if spent then je_timeout_at e else None),
        je_owner_instance := None, je_dispatched_to := None, je_run_token := None,
        je_lease_until := None, je_heartbeat_at := None, je_deadline_at := None,
        je_failure_kind := nullString (o_FailureKind o1),
        je_error_message := nullString (o_ErrorMessage o1), je_updated_at := now env\<rparr>)"

definition Retry :: "env \<Rightarrow> Holder \<Rightarrow> Outcome \<Rightarrow> int \<Rightarrow> db \<Rightarrow> db result" where
  "Retry env h o0 backoffSeconds db =
     (let o1 = clipped o0 in
        bindE (releaseJobLock env h False db) (\<lambda>db.
        bindE (chargeUnacceptedAttempt env h db) (\<lambda>db.
        bindE (assertSome ErrFenced
                 (update_exec (\<lambda>e. owns_exec (h_ExecutionID h) (h_RunToken h) (h_FenceEpoch h) e \<and>
                                   in_flight (je_status e) \<and> within_cap env e)
                              (retry_set env o1 backoffSeconds) db)) (\<lambda>db.
        bindE (recordAttempt env h o1 db) (\<lambda>db.
        settlePollClock env h db)))))"

definition cancel_set :: "env \<Rightarrow> job_execution \<Rightarrow> job_execution" where
  "cancel_set env e =
     e\<lparr>je_write_seq := je_write_seq e + 1, je_status := StatusCancelRequested, je_updated_at := now env\<rparr>"

definition cancel_note :: string where
  "cancel_note = '' (the execution keeps its lease until it stops or is fenced)''"

definition RequestCancel :: "env \<Rightarrow> int \<Rightarrow> string \<Rightarrow> string \<Rightarrow> db \<Rightarrow> db result" where
  "RequestCancel env eid actor reason db =
     (if actor = [] \<or> reason = [] then Inl ErrProtocol
      else case exec_row db eid of
             None \<Rightarrow> Inl ErrNoSuchExecution
           | Some r \<Rightarrow>
               bindE (assertSome ErrContended
                        (update_exec (\<lambda>e. je_id e = eid \<and> je_status e \<in> {StatusDispatching, StatusRunning})
                                     (cancel_set env) db)) (\<lambda>db.
               Inr (audit env actor ''cancel_requested'' (je_job_name r) (je_execution_key r)
                      (reason @ cancel_note) db)))"

text \<open>\<open>Attempt\<close> answers a redelivered result from the history.\<close>

definition Attempt :: "db \<Rightarrow> string \<Rightarrow> string \<Rightarrow> job_execution_attempt result" where
  "Attempt db executionKey runToken =
     (case attempt_row db (executionKey, runToken) of
        None \<Rightarrow> Inl ErrNoSuchAttempt
      | Some a \<Rightarrow> Inr a)"

section \<open>The statements honour the contract of a guarded write\<close>

interpretation release_lock: state_write "release_lock_set env b" for env b
  by unfold_locales (simp_all add: release_lock_set_def)

interpretation settle_poll: state_write "settle_poll_set env d" for env d
  by unfold_locales (simp_all add: settle_poll_set_def)

interpretation charge: exec_write "charge_set env" for env
  by unfold_locales (simp_all add: charge_set_def)

interpretation complete: exec_write "complete_set env o1" for env o1
  by unfold_locales (simp_all add: complete_set_def)

interpretation retry: exec_write "retry_set env o1 n" for env o1 n
  by unfold_locales (simp_all add: retry_set_def Let_def)

interpretation cancel: exec_write "cancel_set env" for env
  by unfold_locales (simp_all add: cancel_set_def)

end
