(* ===== verification/Claiming.thy ===== *)
theory Claiming
  imports Completion
begin

text \<open>
  Discovery, the claim transaction, acceptance, refusal and re-targeting
  (\<^verbatim>\<open>src/internal/store/claim.go\<close>). The runnability callback the scheduler passes to \<open>Claim\<close> is
  a parameter here, an error or none as a function of what the transaction reads; the callback
  the engine builds is modelled with the executor registry.
\<close>

section \<open>Discovery\<close>

record Candidate =
  c_ID :: int
  c_JobName :: string
  c_ExecutionKey :: string

definition ReadyCandidates :: "env \<Rightarrow> db \<Rightarrow> bool \<Rightarrow> int \<Rightarrow> Candidate list" where
  "ReadyCandidates env db manualFirst limit =
     map (\<lambda>e. \<lparr>c_ID = je_id e, c_JobName = je_job_name e, c_ExecutionKey = je_execution_key e\<rparr>)
       (page je_available_at
             (\<lambda>e. je_status e = StatusReady \<and> je_manual_first e = manualFirst \<and> je_available_at e \<le> now env)
             limit db)"

section \<open>The claim transaction\<close>

type_synonym Runnable = "env \<Rightarrow> db \<Rightarrow> Definition \<Rightarrow> job_state \<Rightarrow> error option"

record ClaimParams =
  p_ExecutionID :: int
  p_JobName :: string
  p_ExecutionKey :: string
  p_Owner :: string
  p_ExecutorID :: string
  p_RunToken :: string
  p_BackoffSeconds :: int

datatype ClaimOutcome = ClaimAcquired | ClaimDeferred | ClaimSkipped | ClaimExpired

record ClaimResult =
  cr_Outcome :: ClaimOutcome
  cr_FenceEpoch :: int
  cr_Definition :: Definition
  cr_Reason :: "error option"

definition defer_set :: "env \<Rightarrow> int \<Rightarrow> job_execution \<Rightarrow> job_execution" where
  "defer_set env backoffSeconds e =
     e\<lparr>je_write_seq := je_write_seq e + 1,
       je_available_at := add_seconds (now env) backoffSeconds, je_updated_at := now env\<rparr>"

definition deferCandidate :: "env \<Rightarrow> int \<Rightarrow> int \<Rightarrow> db \<Rightarrow> db result" where
  "deferCandidate env eid backoffSeconds db =
     assertAtMostOne
       (update_exec (\<lambda>e. je_id e = eid \<and> je_status e = StatusReady) (defer_set env backoffSeconds) db)"

definition expire_ready_set :: "env \<Rightarrow> job_execution \<Rightarrow> job_execution" where
  "expire_ready_set env e =
     e\<lparr>je_write_seq := je_write_seq e + 1, je_status := StatusDead,
       je_terminal_reason := Some ReasonTimeout, je_failure_kind := Some ''timeout'',
       je_error_message := Some ''runtime cap elapsed before dispatch'',
       je_finished_at := Some (now env), je_updated_at := now env\<rparr>"

definition expireReadyExecution :: "env \<Rightarrow> int \<Rightarrow> db \<Rightarrow> db result" where
  "expireReadyExecution env eid db =
     assertOne (update_exec (\<lambda>e. je_id e = eid \<and> je_status e = StatusReady) (expire_ready_set env) db)"

definition isManual :: "db \<Rightarrow> int \<Rightarrow> bool result" where
  "isManual db eid =
     (case exec_row db eid of None \<Rightarrow> Inl ErrOther | Some e \<Rightarrow> Inr (je_manual_first e))"

definition forbid_skip_set :: "env \<Rightarrow> string \<Rightarrow> job_execution \<Rightarrow> job_execution" where
  "forbid_skip_set env heldBy e =
     e\<lparr>je_write_seq := je_write_seq e + 1, je_status := StatusSkipped,
       je_terminal_reason := Some ReasonConcurrencySkipped, je_finished_at := Some (now env),
       je_result_summary := Some (''skipped by FORBID; job held by '' @ heldBy),
       je_lease_until := None, je_updated_at := now env\<rparr>"

definition claim_holder :: "ClaimParams \<Rightarrow> Holder" where
  "claim_holder p =
     \<lparr>h_JobName = p_JobName p, h_ExecutionID = p_ExecutionID p, h_ExecutionKey = p_ExecutionKey p,
      h_Owner = [], h_RunToken = [], h_FenceEpoch = 0\<rparr>"

definition claim_result :: "ClaimOutcome \<Rightarrow> Definition \<Rightarrow> error option \<Rightarrow> ClaimResult" where
  "claim_result oc def reason =
     \<lparr>cr_Outcome = oc, cr_FenceEpoch = 0, cr_Definition = def, cr_Reason = reason\<rparr>"

definition applyContention ::
  "env \<Rightarrow> ClaimParams \<Rightarrow> Definition \<Rightarrow> job_state \<Rightarrow> db \<Rightarrow> (ClaimResult \<times> db) result" where
  "applyContention env p def st db =
     bindE (if d_Concurrency def = PolicyForbid then isManual db (p_ExecutionID p) else Inr True) (\<lambda>manual.
     if \<not> manual then
       bindE (assertOne
                (update_exec (\<lambda>e. je_id e = p_ExecutionID p \<and> je_status e = StatusReady)
                             (forbid_skip_set env (coalesce_str (js_active_execution st))) db)) (\<lambda>db.
       bindE (settlePollClock env (claim_holder p) db) (\<lambda>db.
       Inr (claim_result ClaimSkipped def (Some ErrContended), db)))
     else
       bindE (deferCandidate env (p_ExecutionID p) (p_BackoffSeconds p) db) (\<lambda>db.
       Inr (claim_result ClaimDeferred def (Some ErrContended), db)))"

definition acquire_lock_set :: "env \<Rightarrow> ClaimParams \<Rightarrow> int \<Rightarrow> int \<Rightarrow> job_state \<Rightarrow> job_state" where
  "acquire_lock_set env p epoch leaseSeconds s =
     s\<lparr>js_write_seq := js_write_seq s + 1, js_active_kind := True,
       js_active_execution := Some (p_ExecutionKey p), js_active_owner := Some (p_Owner p),
       js_active_run_token := Some (p_RunToken p), js_dispatched_to := nullString (p_ExecutorID p),
       js_fence_epoch := epoch, js_lease_until := Some (add_seconds (utc env) leaseSeconds),
       js_heartbeat_at := Some (utc env), js_updated_at := now env\<rparr>"

definition claim_exec_set :: "env \<Rightarrow> ClaimParams \<Rightarrow> int \<Rightarrow> int \<Rightarrow> int \<Rightarrow> job_execution \<Rightarrow> job_execution" where
  "claim_exec_set env p epoch leaseSeconds timeoutSeconds e =
     e\<lparr>je_write_seq := je_write_seq e + 1, je_status := StatusDispatching,
       je_owner_instance := Some (p_Owner p), je_dispatched_to := nullString (p_ExecutorID p),
       je_run_token := Some (p_RunToken p), je_fence_epoch := epoch,
       je_lease_until := Some (add_seconds (utc env) leaseSeconds),
       je_heartbeat_at := Some (utc env),
       je_timeout_at := (case je_timeout_at e of
                           None \<Rightarrow> Some (add_seconds (utc env) timeoutSeconds) | Some t \<Rightarrow> Some t),
       je_updated_at := now env\<rparr>"

definition acquire :: "env \<Rightarrow> ClaimParams \<Rightarrow> Definition \<Rightarrow> job_state \<Rightarrow> db \<Rightarrow> (ClaimResult \<times> db) result" where
  "acquire env p def st db =
     (let epoch = js_fence_epoch st + 1;
          leaseSeconds = d_Lease def div Second;
          timeoutSeconds = d_Timeout def div Second in
      bindE (assertOne
               (update_state (\<lambda>s. js_job_name s = p_JobName p \<and> \<not> js_ops_paused s \<and> \<not> js_active_kind s)
                             (acquire_lock_set env p epoch leaseSeconds) db)) (\<lambda>db.
      bindE (assertOne
               (update_exec (\<lambda>e. je_id e = p_ExecutionID p \<and> je_job_name e = p_JobName p \<and>
                                 je_status e = StatusReady \<and> je_attempt_no e < je_max_attempts e)
                            (claim_exec_set env p epoch leaseSeconds timeoutSeconds) db)) (\<lambda>db.
      Inr (\<lparr>cr_Outcome = ClaimAcquired, cr_FenceEpoch = epoch, cr_Definition = def, cr_Reason = None\<rparr>, db))))"

text \<open>The decision of the claim transaction, from the rows it has locked and read.\<close>

definition claim_decide ::
  "env \<Rightarrow> ClaimParams \<Rightarrow> Runnable \<Rightarrow> job_state \<Rightarrow> Definition \<Rightarrow> Stale \<Rightarrow> db \<Rightarrow> (ClaimResult \<times> db) result" where
  "claim_decide env p runnable st def cur db =
     (if v_JobName cur \<noteq> p_JobName p \<or> v_ExecutionKey cur \<noteq> p_ExecutionKey p then Inl ErrProtocol
      else if v_TimeoutExpired cur then
        bindE (expireReadyExecution env (p_ExecutionID p) db) (\<lambda>db.
        Inr (claim_result ClaimExpired def (Some ErrNotRunnable), db))
      else if js_ops_paused st then
        bindE (deferCandidate env (p_ExecutionID p) (p_BackoffSeconds p) db) (\<lambda>db.
        Inr (claim_result ClaimDeferred def (Some ErrNotRunnable), db))
      else case runnable env db def st of
        Some e \<Rightarrow>
          if e \<noteq> ErrNotRunnable then Inl e
          else bindE (deferCandidate env (p_ExecutionID p) (p_BackoffSeconds p) db) (\<lambda>db.
               Inr (claim_result ClaimDeferred def (Some e), db))
      | None \<Rightarrow>
          if Held st then applyContention env p def st db
          else acquire env p def st db)"

definition Claim :: "env \<Rightarrow> ClaimParams \<Rightarrow> Runnable \<Rightarrow> db \<Rightarrow> (ClaimResult \<times> db) result" where
  "Claim env p runnable db =
     bindE (lockState env db (p_JobName p)) (\<lambda>st.
     bindE (readDefinition db (p_JobName p)) (\<lambda>def.
     bindE (lockExecution env db (p_ExecutionID p)) (\<lambda>cur.
     claim_decide env p runnable st def cur db)))"

lemma Claim_reads:
  assumes "Claim env p runnable db = Inr x"
  obtains st d e where "state_row db (p_JobName p) = Some st" "\<not> locked env (p_JobName p)"
    "def_row db (p_JobName p) = Some d" "exec_row db (p_ExecutionID p) = Some e"
    "je_job_name e = p_JobName p" "je_execution_key e = p_ExecutionKey p"
    "claim_decide env p runnable st (definition_of d) (stale_of env e) db = Inr x"
proof -
  from assms obtain st def cur where
    "lockState env db (p_JobName p) = Inr st" "readDefinition db (p_JobName p) = Inr def"
    "lockExecution env db (p_ExecutionID p) = Inr cur" "claim_decide env p runnable st def cur db = Inr x"
    unfolding Claim_def bindE_Inr_iff by blast
  then show thesis
    by (auto simp: lockState_Inr readDefinition_Inr lockExecution_Inr claim_decide_def intro: that split: if_splits)
qed

lemma claim_decide_cases:
  assumes "claim_decide env p runnable st def cur db = Inr (r, db')"
  shows "v_TimeoutExpired cur \<and> cr_Outcome r = ClaimExpired \<and> expireReadyExecution env (p_ExecutionID p) db = Inr db' \<or>
    \<not> v_TimeoutExpired cur \<and> (js_ops_paused st \<or> runnable env db def st = Some ErrNotRunnable) \<and>
      cr_Outcome r = ClaimDeferred \<and> deferCandidate env (p_ExecutionID p) (p_BackoffSeconds p) db = Inr db' \<or>
    \<not> v_TimeoutExpired cur \<and> \<not> js_ops_paused st \<and> runnable env db def st = None \<and>
      (if Held st then applyContention env p def st db = Inr (r, db') else acquire env p def st db = Inr (r, db'))"
  using assms by (auto simp: claim_decide_def claim_result_def split: if_splits option.splits)

section \<open>Acceptance, refusal, re-targeting\<close>

definition accept_set :: "env \<Rightarrow> int \<Rightarrow> job_execution \<Rightarrow> job_execution" where
  "accept_set env silenceSeconds e =
     e\<lparr>je_write_seq := je_write_seq e + 1, je_status := StatusRunning,
       je_attempt_no := je_attempt_no e + 1,
       je_started_at := (case je_started_at e of None \<Rightarrow> Some (now env) | Some t \<Rightarrow> Some t),
       je_deadline_at := Some (add_seconds (utc env) silenceSeconds), je_updated_at := now env\<rparr>"

definition Accept :: "env \<Rightarrow> int \<Rightarrow> string \<Rightarrow> int \<Rightarrow> int \<Rightarrow> db \<Rightarrow> db result" where
  "Accept env eid runToken epoch silenceSeconds db =
     assertSome ErrFenced
       (update_exec (\<lambda>e. owns_exec eid runToken epoch e \<and> je_status e = StatusDispatching)
                    (accept_set env silenceSeconds) db)"

definition refuse_lock_set :: "env \<Rightarrow> job_state \<Rightarrow> job_state" where
  "refuse_lock_set env s =
     s\<lparr>js_write_seq := js_write_seq s + 1,
       js_active_kind := False, js_active_execution := None, js_active_owner := None,
       js_active_run_token := None, js_dispatched_to := None, js_lease_until := None,
       js_updated_at := now env\<rparr>"

definition refuse_exec_set :: "env \<Rightarrow> int \<Rightarrow> job_execution \<Rightarrow> job_execution" where
  "refuse_exec_set env backoffSeconds e =
     (let late = cap_elapsed env e in
      e\<lparr>je_write_seq := je_write_seq e + 1,
        je_status := (if late then StatusDead else StatusReady),
        je_terminal_reason := (if late then Some ReasonTimeout else None),
        je_failure_kind := (if late then Some ''timeout'' else je_failure_kind e),
        je_finished_at := (if late then Some (now env) else None),
        je_available_at := (if late then je_available_at e else add_seconds (now env) backoffSeconds),
        je_owner_instance := None, je_dispatched_to := None, je_run_token := None,
        je_lease_until := None, je_heartbeat_at := None, je_updated_at := now env\<rparr>)"

definition Refuse :: "env \<Rightarrow> ClaimParams \<Rightarrow> int \<Rightarrow> db \<Rightarrow> db result" where
  "Refuse env p epoch db =
     bindE (assertSome ErrFenced
              (update_state (holds_lock (p_JobName p) (p_RunToken p) epoch) (refuse_lock_set env) db)) (\<lambda>db.
     bindE (assertOne
              (update_exec (\<lambda>e. owns_exec (p_ExecutionID p) (p_RunToken p) epoch e \<and>
                                je_status e = StatusDispatching)
                           (refuse_exec_set env (p_BackoffSeconds p)) db)) (\<lambda>db.
     settlePollClock env (claim_holder p) db))"

definition retarget_set :: "env \<Rightarrow> string \<Rightarrow> job_execution \<Rightarrow> job_execution" where
  "retarget_set env executorID e =
     e\<lparr>je_write_seq := je_write_seq e + 1, je_dispatched_to := Some executorID, je_updated_at := now env\<rparr>"

definition Retarget :: "env \<Rightarrow> Holder \<Rightarrow> string \<Rightarrow> db \<Rightarrow> db result" where
  "Retarget env h executorID db =
     assertSome ErrFenced
       (update_exec (\<lambda>e. owns_exec (h_ExecutionID h) (h_RunToken h) (h_FenceEpoch h) e \<and>
                         je_status e = StatusDispatching)
                    (retarget_set env executorID) db)"

section \<open>The statements honour the contract of a guarded write\<close>

interpretation defer_cand: exec_write "defer_set env n" for env n
  by unfold_locales (simp_all add: defer_set_def)

interpretation expire_ready: exec_write "expire_ready_set env" for env
  by unfold_locales (simp_all add: expire_ready_set_def)

interpretation forbid_skip: exec_write "forbid_skip_set env k" for env k
  by unfold_locales (simp_all add: forbid_skip_set_def)

interpretation acquire_lock: state_write "acquire_lock_set env p n l" for env p n l
  by unfold_locales (simp_all add: acquire_lock_set_def)

interpretation claim_exec: exec_write "claim_exec_set env p n l t" for env p n l t
  by unfold_locales (simp_all add: claim_exec_set_def)

interpretation accept: exec_write "accept_set env n" for env n
  by unfold_locales (simp_all add: accept_set_def)

interpretation refuse_lock: state_write "refuse_lock_set env" for env
  by unfold_locales (simp_all add: refuse_lock_set_def)

interpretation refuse_exec: exec_write "refuse_exec_set env n" for env n
  by unfold_locales (simp_all add: refuse_exec_set_def Let_def)

interpretation retarget: exec_write "retarget_set env x" for env x
  by unfold_locales (simp_all add: retarget_set_def)

end
