(* ===== verification/Recovery.thy ===== *)
theory Recovery
  imports Claiming
begin

text \<open>
  Recovery (\<^verbatim>\<open>src/internal/store/recovery.go\<close>): the transactions that take an execution away from
  the attempt that holds it. The scans that feed them are in \<open>Reads\<close>. A transaction is given the
  \<open>Stale\<close> row its scan read earlier, and re-verifies it under the lock against the row as it is now.
\<close>

datatype Reconciliation = ReconcileUnknown | ReconcileRunning | ReconcileFinished

text \<open>\<open>!st.Held() || st.ActiveRunToken.String != token || st.FenceEpoch != epoch\<close>.\<close>

definition lock_moved :: "job_state \<Rightarrow> string \<Rightarrow> int \<Rightarrow> bool" where
  "lock_moved st token epoch \<longleftrightarrow>
     \<not> Held st \<or> coalesce_str (js_active_run_token st) \<noteq> token \<or> js_fence_epoch st \<noteq> epoch"

definition exec_moved :: "Stale \<Rightarrow> string \<Rightarrow> int \<Rightarrow> bool" where
  "exec_moved cur token epoch \<longleftrightarrow> v_RunToken cur \<noteq> token \<or> v_FenceEpoch cur \<noteq> epoch"

definition holder_of :: "Stale \<Rightarrow> Holder" where
  "holder_of v =
     \<lparr>h_JobName = v_JobName v, h_ExecutionID = v_ID v, h_ExecutionKey = v_ExecutionKey v,
      h_Owner = [], h_RunToken = v_RunToken v, h_FenceEpoch = v_FenceEpoch v\<rparr>"

definition unknown_outcome :: Outcome where
  "unknown_outcome =
     \<lparr>o_Status = StatusDead, o_TerminalReason = None, o_AttemptOutcome = AttemptUnknown,
      o_FailureKind = [], o_ErrorMessage = [], o_ResultSummary = [], o_ExecutorID = [],
      o_StartedAt = None, o_FinishedAt = None\<rparr>"

section \<open>Adopt\<close>

definition adopt_lock_set :: "env \<Rightarrow> string \<Rightarrow> int \<Rightarrow> int \<Rightarrow> job_state \<Rightarrow> job_state" where
  "adopt_lock_set env newOwner epoch leaseSeconds s =
     s\<lparr>js_write_seq := js_write_seq s + 1,
       js_active_owner := Some newOwner, js_fence_epoch := epoch,
       js_lease_until := Some (add_seconds (utc env) leaseSeconds),
       js_heartbeat_at := Some (utc env), js_updated_at := now env\<rparr>"

definition adopt_exec_set ::
  "env \<Rightarrow> string \<Rightarrow> int \<Rightarrow> int \<Rightarrow> int \<Rightarrow> bool \<Rightarrow> job_execution \<Rightarrow> job_execution" where
  "adopt_exec_set env newOwner epoch leaseSeconds silenceSeconds promoteNow e =
     e\<lparr>je_write_seq := je_write_seq e + 1,
       je_owner_instance := Some newOwner, je_fence_epoch := epoch,
       je_attempt_no := (if promoteNow then je_attempt_no e + 1 else je_attempt_no e),
       je_started_at := (if promoteNow
                         then (case je_started_at e of None \<Rightarrow> Some (now env) | Some t \<Rightarrow> Some t)
                         else je_started_at e),
       je_deadline_at := (if promoteNow then Some (add_seconds (utc env) silenceSeconds)
                          else je_deadline_at e),
       je_status := (if promoteNow then StatusRunning else je_status e),
       je_lease_until := Some (add_seconds (utc env) leaseSeconds),
       je_heartbeat_at := Some (utc env), je_updated_at := now env\<rparr>"

definition Adopt ::
  "env \<Rightarrow> Stale \<Rightarrow> string \<Rightarrow> int \<Rightarrow> int \<Rightarrow> bool \<Rightarrow> db \<Rightarrow> (int \<times> db) result" where
  "Adopt env v newOwner leaseSeconds silenceSeconds promote db =
     bindE (lockState env db (v_JobName v)) (\<lambda>st.
     if lock_moved st (v_RunToken v) (v_FenceEpoch v) then Inl ErrContended
     else bindE (lockExecution env db (v_ID v)) (\<lambda>cur.
     if exec_moved cur (v_RunToken v) (v_FenceEpoch v) then Inl ErrContended
     else if v_TimeoutExpired cur then Inl ErrCapElapsed
     else let epoch = v_FenceEpoch v + 1;
              promoteNow = (promote \<and> v_Status cur = StatusDispatching) in
       bindE (assertOne
                (update_state (\<lambda>s. holds_lock (v_JobName v) (v_RunToken v) (v_FenceEpoch v) s \<and>
                                   sql_lt (js_lease_until s) (utc env))
                              (adopt_lock_set env newOwner epoch leaseSeconds) db)) (\<lambda>db.
       bindE (assertOne
                (update_exec (\<lambda>e. owns_exec (v_ID v) (v_RunToken v) (v_FenceEpoch v) e \<and> in_flight (je_status e))
                             (adopt_exec_set env newOwner epoch leaseSeconds silenceSeconds promoteNow) db)) (\<lambda>db.
       Inr (epoch, db)))))"

section \<open>Resolve\<close>

definition resolvedStatus :: "Stale \<Rightarrow> Status" where
  "resolvedStatus v =
     (if v_Status v = StatusCancelRequested then StatusCancelled
      else if v_TimeoutExpired v then StatusDead
      else if v_AttemptNo v \<ge> v_MaxAttempts v \<or> v_RecoveryCount v + 1 \<ge> v_MaxRecoveries v then StatusDead
      else StatusReady)"

definition resolved_reason :: "Stale \<Rightarrow> TerminalReason option" where
  "resolved_reason cur =
     (case resolvedStatus cur of
        StatusDead \<Rightarrow> if v_TimeoutExpired cur then Some ReasonTimeout else Some ReasonBudgetExhausted
      | StatusReady \<Rightarrow> None
      | _ \<Rightarrow> Some ReasonFenced)"

definition resolve_lock_set :: "env \<Rightarrow> job_state \<Rightarrow> job_state" where
  "resolve_lock_set env s =
     s\<lparr>js_write_seq := js_write_seq s + 1,
       js_active_kind := False, js_active_execution := None, js_active_owner := None,
       js_active_run_token := None, js_dispatched_to := None, js_lease_until := None,
       js_last_failure_at := Some (now env), js_updated_at := now env\<rparr>"

definition resolve_exec_set ::
  "env \<Rightarrow> Status \<Rightarrow> TerminalReason option \<Rightarrow> int \<Rightarrow> job_execution \<Rightarrow> job_execution" where
  "resolve_exec_set env landed reason backoffSeconds e =
     e\<lparr>je_write_seq := je_write_seq e + 1,
       je_status := landed, je_terminal_reason := reason,
       je_finished_at := (if landed = StatusReady then None else Some (now env)),
       je_available_at := (if landed = StatusReady then add_seconds (now env) backoffSeconds
                           else je_available_at e),
       je_timeout_at := (if landed = StatusReady then None else je_timeout_at e),
       je_fence_epoch := je_fence_epoch e + 1, je_recovery_count := je_recovery_count e + 1,
       je_owner_instance := None, je_dispatched_to := None, je_run_token := None,
       je_lease_until := None, je_heartbeat_at := None, je_deadline_at := None,
       je_updated_at := now env\<rparr>"

definition resolve_outcome :: "env \<Rightarrow> Stale \<Rightarrow> Outcome" where
  "resolve_outcome env v =
     unknown_outcome\<lparr>o_ExecutorID := v_DispatchedTo v, o_FinishedAt := Some (now env),
       o_FailureKind := ''lease_expired'',
       o_ResultSummary := ''scheduler lost ownership; executor could not confirm the outcome''\<rparr>"

definition Resolve :: "env \<Rightarrow> Stale \<Rightarrow> int \<Rightarrow> db \<Rightarrow> (Status \<times> db) result" where
  "Resolve env v backoffSeconds db =
     bindE (lockState env db (v_JobName v)) (\<lambda>st.
     if lock_moved st (v_RunToken v) (v_FenceEpoch v) then Inl ErrContended
     else bindE (lockExecution env db (v_ID v)) (\<lambda>cur.
     if exec_moved cur (v_RunToken v) (v_FenceEpoch v) then Inl ErrContended
     else if Terminal (v_Status cur) then Inl ErrContended
     else
       bindE (assertOne
                (update_state (\<lambda>s. holds_lock (v_JobName v) (v_RunToken v) (v_FenceEpoch v) s \<and>
                                   sql_lt (js_lease_until s) (utc env))
                              (resolve_lock_set env) db)) (\<lambda>db.
       bindE (assertOne
                (update_exec (\<lambda>e. owns_exec (v_ID v) (v_RunToken v) (v_FenceEpoch v) e \<and> in_flight (je_status e))
                             (resolve_exec_set env (resolvedStatus cur) (resolved_reason cur) backoffSeconds) db)) (\<lambda>db.
       bindE (recordAttempt env (holder_of v) (resolve_outcome env v) db) (\<lambda>db.
       bindE (settlePollClock env (holder_of v) db) (\<lambda>db.
       Inr (resolvedStatus cur, db)))))))"

section \<open>FenceTimedOut\<close>

text \<open>
  \<open>FenceTimedOut\<close> and \<open>ExpireSilent\<close> share the shape of their terminal write: the status, the
  reason, the failure kind and the message are set, the epoch is bumped and the lease cleared,
  while the owner and the token stay as evidence.
\<close>

definition fence_exec_set ::
  "env \<Rightarrow> Status \<Rightarrow> TerminalReason \<Rightarrow> string \<Rightarrow> string \<Rightarrow> job_execution \<Rightarrow> job_execution" where
  "fence_exec_set env landed reason kind msg e =
     e\<lparr>je_write_seq := je_write_seq e + 1,
       je_status := landed, je_terminal_reason := Some reason, je_finished_at := Some (now env),
       je_failure_kind := Some kind, je_error_message := Some msg,
       je_fence_epoch := je_fence_epoch e + 1,
       je_lease_until := None, je_heartbeat_at := None, je_deadline_at := None,
       je_updated_at := now env\<rparr>"

definition FenceTimedOut :: "env \<Rightarrow> Stale \<Rightarrow> db \<Rightarrow> db result" where
  "FenceTimedOut env v db =
     bindE (lockState env db (v_JobName v)) (\<lambda>st.
     if lock_moved st (v_RunToken v) (v_FenceEpoch v) then Inl ErrContended
     else bindE (lockExecution env db (v_ID v)) (\<lambda>cur.
     if exec_moved cur (v_RunToken v) (v_FenceEpoch v) then Inl ErrContended
     else if Terminal (v_Status cur) then Inl ErrContended
     else let cancelling = (v_Status cur = StatusCancelRequested);
              landed = (if cancelling then StatusCancelled else StatusDead);
              reason = (if cancelling then ReasonFenced else ReasonTimeout);
              summary = (if cancelling
                         then ''cancel requested, then the runtime cap elapsed; side effects unverified''
                         else ''runtime cap elapsed; side effects unverified'') in
       bindE (releaseJobLock env (holder_of v) False db) (\<lambda>db.
       bindE (assertOne
                (update_exec (\<lambda>e. owns_exec (v_ID v) (v_RunToken v) (v_FenceEpoch v) e \<and> in_flight (je_status e))
                             (fence_exec_set env landed reason ''timeout''
                                ''runtime cap elapsed; execution fenced by the scheduler'') db)) (\<lambda>db.
       bindE (recordAttempt env (holder_of v)
                (unknown_outcome\<lparr>o_AttemptOutcome := AttemptFenced, o_ExecutorID := v_DispatchedTo v,
                   o_FinishedAt := Some (now env), o_FailureKind := ''timeout'',
                   o_ResultSummary := summary\<rparr>) db) (\<lambda>db.
       settlePollClock env (holder_of v) db)))))"

section \<open>ExpireSilent\<close>

definition ExpireSilent :: "env \<Rightarrow> Stale \<Rightarrow> db \<Rightarrow> db result" where
  "ExpireSilent env v db =
     bindE (lockState env db (v_JobName v)) (\<lambda>st.
     if lock_moved st (v_RunToken v) (v_FenceEpoch v) then Inl ErrContended
     else bindE (lockExecution env db (v_ID v)) (\<lambda>cur.
     if exec_moved cur (v_RunToken v) (v_FenceEpoch v) \<or> Terminal (v_Status cur) then Inl ErrContended
     else if \<not> v_SilenceExpired cur then Inl ErrContended
     else let landed = (if v_Status cur = StatusCancelRequested then StatusCancelled else StatusDead) in
       bindE (releaseJobLock env (holder_of v) False db) (\<lambda>db.
       bindE (assertOne
                (update_exec (\<lambda>e. owns_exec (v_ID v) (v_RunToken v) (v_FenceEpoch v) e \<and>
                                  je_status e \<in> {StatusRunning, StatusCancelRequested})
                             (fence_exec_set env landed ReasonFenced ''silence''
                                ''the executor stopped reporting progress within its silence budget'') db)) (\<lambda>db.
       bindE (recordAttempt env (holder_of v)
                (unknown_outcome\<lparr>o_ExecutorID := v_DispatchedTo v, o_FinishedAt := Some (now env),
                   o_FailureKind := ''silence'',
                   o_ResultSummary := ''no progress within the silence budget; side effects unverified''\<rparr>) db) (\<lambda>db.
       settlePollClock env (holder_of v) db)))))"

section \<open>ReleaseAsOwner, CompleteAsOwner\<close>

definition release_exec_set :: "env \<Rightarrow> Status \<Rightarrow> job_execution \<Rightarrow> job_execution" where
  "release_exec_set env landed e =
     e\<lparr>je_write_seq := je_write_seq e + 1,
       je_status := landed, je_terminal_reason := Some ReasonFenced, je_finished_at := Some (now env),
       je_failure_kind := Some ''tenant_retired'',
       je_error_message := Some ''the tenant was disabled while this attempt was in flight'',
       je_fence_epoch := je_fence_epoch e + 1, je_recovery_count := je_recovery_count e + 1,
       je_owner_instance := None, je_dispatched_to := None, je_run_token := None,
       je_lease_until := None, je_heartbeat_at := None, je_deadline_at := None,
       je_updated_at := now env\<rparr>"

definition ReleaseAsOwner :: "env \<Rightarrow> Holder \<Rightarrow> db \<Rightarrow> (Status \<times> db) result" where
  "ReleaseAsOwner env h db =
     bindE (lockState env db (h_JobName h)) (\<lambda>st.
     if lock_moved st (h_RunToken h) (h_FenceEpoch h) then Inl ErrContended
     else bindE (lockExecution env db (h_ExecutionID h)) (\<lambda>cur.
     if exec_moved cur (h_RunToken h) (h_FenceEpoch h) \<or> Terminal (v_Status cur) then Inl ErrContended
     else if \<not> v_LeaseLive cur then Inl ErrContended
     else let landed = (if v_Status cur = StatusCancelRequested then StatusCancelled else StatusDead) in
       bindE (releaseJobLock env h False db) (\<lambda>db.
       bindE (assertOne
                (update_exec (\<lambda>e. owns_exec (h_ExecutionID h) (h_RunToken h) (h_FenceEpoch h) e \<and>
                                  in_flight (je_status e))
                             (release_exec_set env landed) db)) (\<lambda>db.
       bindE (recordAttempt env h
                (unknown_outcome\<lparr>o_FinishedAt := Some (now env), o_FailureKind := ''tenant_retired'',
                   o_ResultSummary := ''the tenant was disabled while this attempt was in flight; outcome unknown''\<rparr>) db) (\<lambda>db.
       bindE (settlePollClock env h db) (\<lambda>db.
       Inr (landed, db)))))))"

definition CompleteAsOwner :: "env \<Rightarrow> Holder \<Rightarrow> Outcome \<Rightarrow> bool \<Rightarrow> int \<Rightarrow> db \<Rightarrow> db result" where
  "CompleteAsOwner env h o1 retryable backoffSeconds db =
     (if retryable then Retry env h o1 backoffSeconds db else Complete env h o1 db)"

section \<open>The statements honour the contract of a guarded write\<close>

interpretation adopt_lock: state_write "adopt_lock_set env w n l" for env w n l
  by unfold_locales (simp_all add: adopt_lock_set_def)

interpretation adopt_exec: exec_write "adopt_exec_set env w n l q b" for env w n l q b
  by unfold_locales (simp_all add: adopt_exec_set_def)

interpretation resolve_lock: state_write "resolve_lock_set env" for env
  by unfold_locales (simp_all add: resolve_lock_set_def)

interpretation resolve_exec: exec_write "resolve_exec_set env st r n" for env st r n
  by unfold_locales (simp_all add: resolve_exec_set_def)

interpretation fence_exec: exec_write "fence_exec_set env st r k m" for env st r k m
  by unfold_locales (simp_all add: fence_exec_set_def)

interpretation release_exec: exec_write "release_exec_set env st" for env st
  by unfold_locales (simp_all add: release_exec_set_def)

end
