(* ===== verification/Keys.thy ===== *)
theory Keys
  imports Sha256
begin

text \<open>
  Execution keys (\<^verbatim>\<open>src/internal/store/materialize.go\<close>, \<open>CronExecutionKey\<close> and \<open>ExecutionKey\<close>) and
  the identifiers that may appear in them (\<^verbatim>\<open>src/internal/admin/jobs.go\<close>, \<open>checkIdentifier\<close>).
\<close>

section \<open>strconv.FormatInt in base ten\<close>

definition digit_char :: "nat \<Rightarrow> char" where "digit_char d = ''0123456789'' ! (d mod 10)"

fun format_nat :: "nat \<Rightarrow> string" where
  "format_nat n = (if n < 10 then [digit_char n] else format_nat (n div 10) @ [digit_char n])"

declare format_nat.simps [simp del]

definition FormatInt :: "int \<Rightarrow> string" where
  "FormatInt n = (if n < 0 then ''-'' @ format_nat (nat (- n)) else format_nat (nat n))"

section \<open>The keys\<close>

definition maxExecutionKey :: nat where "maxExecutionKey = 160"

definition full_key :: "string \<Rightarrow> string \<Rightarrow> string \<Rightarrow> string" where
  "full_key prefix jobName discriminator = prefix @ '':'' @ jobName @ '':'' @ discriminator"

definition ExecutionKey :: "string \<Rightarrow> string \<Rightarrow> string \<Rightarrow> string" where
  "ExecutionKey prefix jobName discriminator =
     (let full = full_key prefix jobName discriminator in
      if length full \<le> maxExecutionKey then full
      else let suffix = ''~'' @ EncodeToString (take 12 (Sum256 full))
           in take (maxExecutionKey - length suffix) full @ suffix)"

text \<open>\<open>Unix()\<close> is the instant's second, rounded towards minus infinity.\<close>

definition CronExecutionKey :: "string \<Rightarrow> time \<Rightarrow> string" where
  "CronExecutionKey jobName fireAt = ExecutionKey ''c'' jobName (FormatInt (fireAt div Second))"

section \<open>Identifiers (checkIdentifier)\<close>

text \<open>
  The source ranges over the runes of the value. Every rune it admits is one ASCII byte, and a byte
  that is not ASCII belongs to a rune it refuses, so the check is bytewise.
\<close>

definition ident_char :: "char \<Rightarrow> bool" where
  "ident_char c =
     (let n = of_char c :: nat in
      (97 \<le> n \<and> n \<le> 122) \<or> (65 \<le> n \<and> n \<le> 90) \<or> (48 \<le> n \<and> n \<le> 57) \<or>
      c = CHR ''.'' \<or> c = CHR ''-'' \<or> c = CHR ''_'')"

definition checkIdentifier :: "string \<Rightarrow> nat \<Rightarrow> bool" where
  "checkIdentifier v limit \<longleftrightarrow> v \<noteq> [] \<and> length v \<le> limit \<and> list_all ident_char v"

section \<open>Formatting and parsing agree\<close>

lemma less_ten_cases:
  fixes d :: nat
  assumes "d < 10"
  shows "d \<in> {0, 1, 2, 3, 4, 5, 6, 7, 8, 9}"
  using assms by auto

lemma digit_val_digit_char: "digit_val (digit_char d) = Some (int (d mod 10))"
proof -
  have "d mod 10 \<in> {0, 1, 2, 3, 4, 5, 6, 7, 8, 9}" by (rule less_ten_cases) simp
  then show ?thesis by (auto simp: digit_char_def digit_val_def)
qed

lemma parse_digits_snoc:
  "parse_digits (s @ [c]) acc =
     (case parse_digits s acc of None \<Rightarrow> None
      | Some n \<Rightarrow> (case digit_val c of None \<Rightarrow> None | Some v \<Rightarrow> Some (10 * n + v)))"
  by (induction s arbitrary: acc) (auto split: option.splits)

lemma parse_format_nat: "parse_digits (format_nat n) 0 = Some (int n)"
proof (induction n rule: format_nat.induct)
  case (1 n)
  then show ?case
    by (cases "n < 10") (auto simp: format_nat.simps [of n] parse_digits_snoc digit_val_digit_char
        zdiv_int zmod_int)
qed

lemma format_nat_digits: "c \<in> set (format_nat n) \<Longrightarrow> digit_val c \<noteq> None"
proof (induction n rule: format_nat.induct)
  case (1 n)
  then show ?case
    by (cases "n < 10") (auto simp: format_nat.simps [of n] digit_val_digit_char)
qed

lemma digit_not_sign: "digit_val c \<noteq> None \<Longrightarrow> c \<noteq> CHR ''-'' \<and> c \<noteq> CHR ''+''"
  by (auto simp: digit_val_def)

lemma format_nat_inj: "format_nat m = format_nat n \<Longrightarrow> m = n"
  by (metis parse_format_nat option.inject of_nat_eq_iff)

lemma format_nat_Cons:
  obtains c cs where "format_nat n = c # cs" "c \<noteq> CHR ''-''" "c \<noteq> CHR ''+''"
proof (cases "format_nat n")
  case Nil
  then show thesis by (simp add: format_nat.simps [of n] split: if_splits)
next
  case (Cons c cs)
  with format_nat_digits [of c n] have "digit_val c \<noteq> None" by simp
  with digit_not_sign [of c] Cons that show thesis by blast
qed

lemma parseInt_FormatInt:
  assumes "- (2 ^ 63) \<le> n" "n < 2 ^ 63"
  shows "parseInt (FormatInt n) = Some n"
proof (cases "n < 0")
  case True
  obtain c cs where "format_nat (nat (- n)) = c # cs" by (rule format_nat_Cons)
  with parse_format_nat [of "nat (- n)"] True assms show ?thesis
    by (auto simp: parseInt_def FormatInt_def parse_magnitude_def)
next
  case False
  obtain c cs where "format_nat (nat n) = c # cs" "c \<noteq> CHR ''-''" "c \<noteq> CHR ''+''"
    by (rule format_nat_Cons)
  with parse_format_nat [of "nat n"] False assms show ?thesis
    by (auto simp: parseInt_def FormatInt_def parse_magnitude_def)
qed

lemma FormatInt_inj: "FormatInt m = FormatInt n \<Longrightarrow> m = n"
proof -
  assume eq: "FormatInt m = FormatInt n"
  have hd: "hd (FormatInt k) = CHR ''-'' \<longleftrightarrow> k < 0" for k
    by (cases "k < 0"; rule format_nat_Cons [of "nat k"]) (auto simp: FormatInt_def)
  have sign: "m < 0 \<longleftrightarrow> n < 0" using hd [of m] hd [of n] eq by simp
  show "m = n"
  proof (cases "m < 0")
    case True
    with sign eq have "format_nat (nat (- m)) = format_nat (nat (- n))" by (simp add: FormatInt_def)
    then have "nat (- m) = nat (- n)" by (rule format_nat_inj)
    with True sign show ?thesis by simp
  next
    case False
    with sign eq have "format_nat (nat m) = format_nat (nat n)" by (simp add: FormatInt_def)
    then have "nat m = nat n" by (rule format_nat_inj)
    with False sign show ?thesis by simp
  qed
qed

section \<open>Keys are bounded and separate their fields\<close>

lemma append_colon_eq:
  assumes "CHR '':'' \<notin> set a" "CHR '':'' \<notin> set b" "a @ '':'' @ x = b @ '':'' @ y"
  shows "a = b \<and> x = y"
proof -
  have take: "takeWhile (\<lambda>c. c \<noteq> CHR '':'') (l @ '':'' @ z) = l" if "CHR '':'' \<notin> set l" for l z
    using that by (induction l) auto
  from take [OF assms(1), of x] take [OF assms(2), of y] assms(3) have "a = b" by simp
  with assms(3) show ?thesis by simp
qed

lemma full_key_inj:
  assumes "CHR '':'' \<notin> set p" "CHR '':'' \<notin> set j" "CHR '':'' \<notin> set p'" "CHR '':'' \<notin> set j'"
    and "full_key p j d = full_key p' j' d'"
  shows "p = p' \<and> j = j' \<and> d = d'"
proof -
  have "p = p' \<and> j @ '':'' @ d = j' @ '':'' @ d'"
    by (rule append_colon_eq) (use assms in \<open>simp_all add: full_key_def\<close>)
  with append_colon_eq [of j j' d d'] assms show ?thesis by blast
qed

lemma ident_no_colon: "checkIdentifier v m \<Longrightarrow> CHR '':'' \<notin> set v"
  by (auto simp: checkIdentifier_def list_all_iff ident_char_def Let_def)

lemma length_ExecutionKey: "length (ExecutionKey p j d) \<le> maxExecutionKey"
  by (simp add: ExecutionKey_def Let_def maxExecutionKey_def length_Sum256)

section \<open>What the keys identify\<close>

lemma length_format_nat: "n < 10 ^ k \<Longrightarrow> 0 < k \<Longrightarrow> length (format_nat n) \<le> k"
proof (induction n arbitrary: k rule: format_nat.induct)
  case (1 n)
  show ?case
  proof (cases "n < 10")
    case True
    with 1 show ?thesis by (simp add: format_nat.simps [of n])
  next
    case False
    with 1(2,3) obtain k' where k: "k = Suc k'" "0 < k'" by (cases k; cases "k - 1") auto
    have "n div 10 < 10 ^ k'" using 1(2) k by (simp add: less_mult_imp_div_less mult.commute)
    from 1(1) [OF False this k(2)] False k show ?thesis by (simp add: format_nat.simps [of n])
  qed
qed

lemma length_FormatInt:
  assumes "- (2 ^ 63) \<le> n" "n < 2 ^ 63"
  shows "length (FormatInt n) \<le> 20"
proof -
  have "nat n < 10 ^ 19" "nat (- n) < 10 ^ 19" using assms by auto
  then show ?thesis using length_format_nat [of "nat n" 19] length_format_nat [of "nat (- n)" 19] by (simp add: FormatInt_def)
qed

text \<open>The key of a cron execution identifies the job and the second it fires at: for valid job names of up to 128
  bytes and instants whose Unix second is a 64-bit integer, two keys are equal only for the same job and second.\<close>

lemma cron_keys_injective:
  assumes "checkIdentifier j 128" "checkIdentifier j' 128"
    "- (2 ^ 63) \<le> t div Second" "t div Second < 2 ^ 63" "- (2 ^ 63) \<le> t' div Second" "t' div Second < 2 ^ 63"
  shows "CronExecutionKey j t = CronExecutionKey j' t' \<longleftrightarrow> j = j' \<and> t div Second = t' div Second"
proof -
  have full: "CronExecutionKey k u = full_key ''c'' k (FormatInt (u div Second))"
    if "checkIdentifier k 128" "- (2 ^ 63) \<le> u div Second" "u div Second < 2 ^ 63" for k u
    using length_FormatInt [OF that(2,3)] that(1)
    by (simp add: CronExecutionKey_def ExecutionKey_def full_key_def checkIdentifier_def maxExecutionKey_def)
  have c: "CHR '':'' \<notin> set ''c''" by simp
  show ?thesis
    unfolding full [OF assms(1,3,4)] full [OF assms(2,5,6)]
    using full_key_inj [OF c ident_no_colon [OF assms(1)] c ident_no_colon [OF assms(2)]] FormatInt_inj by metis
qed

lemma delay_round_trip:
  assumes "d_ScheduleKind d = ScheduleFixedDelay" "0 < ms" "ms \<le> 9223372036854" "d_ScheduleExpr d = FormatInt ms"
  shows "Delay d = Inr (ms * Millisecond)"
  using assms int64_id [of "ms * Millisecond"] parseInt_FormatInt [of ms] by (simp add: Delay_def)

text \<open>A fixed delay above about 292 years in milliseconds wraps around silently: the expression below is accepted as
  positive and yields a delay of less than half a millisecond.\<close>

lemma delay_wraps:
  "Delay (d\<lparr>d_ScheduleKind := ScheduleFixedDelay, d_ScheduleExpr := ''18446744073710''\<rparr>) = Inr 448384"
proof -
  have "parseInt ''18446744073710'' = Some 18446744073710" "int64 (18446744073710 * Millisecond) = 448384" by code_simp+
  then show ?thesis by (simp add: Delay_def)
qed

end
