(* ===== verification/Materialize.thy ===== *)
theory Materialize
  imports Completion Keys "HOL-Library.List_Lexorder" "HOL-Library.Char_ord"
begin

text \<open>
  Materialization (\<^verbatim>\<open>src/internal/store/materialize.go\<close>): due scans, the transactions that turn a
  due clock into an execution row, and the one path that rewrites a job's clocks from its
  definition. The compiled schedule is an interface of the source; a \<open>Schedule\<close> here is the record
  of its three methods and \<open>Compile\<close> the callback that yields one.
\<close>

section \<open>The schedule interface and due scans\<close>

record Schedule =
  Next :: "time \<Rightarrow> time result"
  Latest :: "time \<Rightarrow> duration \<Rightarrow> time option result"
  CountBetween :: "time \<Rightarrow> time \<Rightarrow> int \<Rightarrow> (int \<times> bool) result"

text \<open>What the store relies on in a schedule: the next fire is later, and the latest one is not later, than the instant asked about.\<close>

definition schedule_laws :: "Schedule \<Rightarrow> bool" where
  "schedule_laws sched \<longleftrightarrow>
     (\<forall>t n. Next sched t = Inr n \<longrightarrow> t < n) \<and> (\<forall>t h f. Latest sched t h = Inr (Some f) \<longrightarrow> f \<le> t)"

type_synonym Compile = "Definition \<Rightarrow> Schedule result"

record DueJob =
  u_JobName :: string
  u_DueAt :: time

definition due :: "(job_state \<Rightarrow> time option) \<Rightarrow> env \<Rightarrow> db \<Rightarrow> int \<Rightarrow> DueJob list" where
  "due clock env db limit =
     map (\<lambda>s. \<lparr>u_JobName = js_job_name s, u_DueAt = or_zero (clock s)\<rparr>)
       (take (nat limit)
         (sort_key (\<lambda>s. or_zero (clock s))
           (filter (\<lambda>s. sql_le (clock s) (now env) \<and> \<not> js_ops_paused s) (states db))))"

definition DueCron :: "env \<Rightarrow> db \<Rightarrow> int \<Rightarrow> DueJob list" where "DueCron = due js_next_fire_at"

definition DuePoll :: "env \<Rightarrow> db \<Rightarrow> int \<Rightarrow> DueJob list" where "DuePoll = due js_next_poll_at"

definition Drifted :: "db \<Rightarrow> int \<Rightarrow> string list" where
  "Drifted db limit =
     take (nat limit)
       (map js_job_name
         (sort_key js_job_name
           (filter (\<lambda>s. list_ex (\<lambda>d. jd_job_name d = js_job_name s \<and> js_config_version s \<noteq> jd_version d) (defs db))
             (states db))))"

section \<open>Rows and clocks\<close>

datatype MaterializeOutcome = MaterializedExecution | MaterializedSkipped | MaterializedSuspended

record MaterializeResult =
  m_Outcome :: MaterializeOutcome
  m_ExecutionKey :: string
  m_ScheduledAt :: "time option"
  m_NextFireAt :: "time option"
  m_Missed :: int
  m_MissedExact :: bool

definition empty_result :: MaterializeResult where
  "empty_result =
     \<lparr>m_Outcome = MaterializedExecution, m_ExecutionKey = [], m_ScheduledAt = None,
      m_NextFireAt = None, m_Missed = 0, m_MissedExact = False\<rparr>"

definition missedCountLimit :: int where "missedCountLimit = 1000"

record executionRow =
  r_Key :: string
  r_JobName :: string
  r_TriggerType :: TriggerType
  r_RequestID :: string
  r_ScheduledAt :: time
  r_AvailableAt :: time
  r_MaxAttempts :: int
  r_MaxRecoveries :: int
  r_Params :: string

definition execution_of :: "env \<Rightarrow> executionRow \<Rightarrow> int \<Rightarrow> job_execution" where
  "execution_of env r eid =
     \<lparr>je_id = eid, je_execution_key = r_Key r, je_job_name = r_JobName r,
      je_trigger_type = r_TriggerType r, je_manual_first = (r_TriggerType r = TriggerManual),
      je_request_id = nullString (r_RequestID r),
      je_scheduled_at = r_ScheduledAt r, je_available_at = r_AvailableAt r,
      je_status = StatusReady, je_attempt_no = 0, je_recovery_count = 0,
      je_max_attempts = r_MaxAttempts r, je_max_recoveries = r_MaxRecoveries r,
      je_params_json = nullString (r_Params r),
      je_owner_instance = None, je_dispatched_to = None, je_run_token = None, je_fence_epoch = 0,
      je_lease_until = None, je_heartbeat_at = None, je_deadline_at = None, je_timeout_at = None,
      je_started_at = None, je_finished_at = None, je_failure_kind = None,
      je_terminal_reason = None, je_result_summary = None, je_error_message = None,
      je_write_seq = 0, je_created_at = now env, je_updated_at = now env\<rparr>"

text \<open>The two unique keys of job_execution; a NULL request id collides with nothing.\<close>

definition duplicate_key :: "executionRow \<Rightarrow> db \<Rightarrow> bool" where
  "duplicate_key r db =
     list_ex (\<lambda>e. je_execution_key e = r_Key r \<or>
                  (r_RequestID r \<noteq> [] \<and> je_request_id e = Some (r_RequestID r))) (execs db)"

definition insertExecution :: "env \<Rightarrow> executionRow \<Rightarrow> db \<Rightarrow> bool \<times> db" where
  "insertExecution env r db =
     (if duplicate_key r db then (False, db)
      else (True, db\<lparr>execs := execs db @ [execution_of env r (next_id db)], next_id := next_id db + 1\<rparr>))"

definition manualPending :: "db \<Rightarrow> string \<Rightarrow> bool" where
  "manualPending db jobName =
     list_ex (\<lambda>e. je_job_name e = jobName \<and> je_manual_first e \<and> je_status e = StatusReady) (execs db)"

definition pollPassOutstanding :: "db \<Rightarrow> string \<Rightarrow> bool" where
  "pollPassOutstanding db jobName =
     list_ex (\<lambda>e. je_job_name e = jobName \<and> je_trigger_type e = TriggerPoll \<and>
                  (je_status e = StatusReady \<or> in_flight (je_status e))) (execs db)"

definition advance_fire_set :: "env \<Rightarrow> time \<Rightarrow> int \<Rightarrow> job_state \<Rightarrow> job_state" where
  "advance_fire_set env nxt version s =
     s\<lparr>js_write_seq := js_write_seq s + 1, js_next_fire_at := Some nxt,
       js_config_version := version, js_updated_at := now env\<rparr>"

definition advanceFireClock :: "env \<Rightarrow> string \<Rightarrow> time \<Rightarrow> int \<Rightarrow> db \<Rightarrow> db result" where
  "advanceFireClock env jobName nxt version db =
     assertOne (update_state (\<lambda>s. js_job_name s = jobName) (advance_fire_set env nxt version) db)"

definition clear_poll_set :: "env \<Rightarrow> job_state \<Rightarrow> job_state" where
  "clear_poll_set env s =
     s\<lparr>js_write_seq := js_write_seq s + 1, js_next_poll_at := None, js_updated_at := now env\<rparr>"

definition clearPollClock :: "env \<Rightarrow> string \<Rightarrow> db \<Rightarrow> db result" where
  "clearPollClock env jobName db =
     assertOne (update_state (\<lambda>s. js_job_name s = jobName \<and> js_next_poll_at s \<noteq> None) (clear_poll_set env) db)"

section \<open>normalizeClocks, Recompute\<close>

definition normalize_set :: "env \<Rightarrow> time option \<Rightarrow> time option \<Rightarrow> int \<Rightarrow> job_state \<Rightarrow> job_state" where
  "normalize_set env fireArg pollArg version s =
     s\<lparr>js_write_seq := js_write_seq s + 1, js_next_fire_at := fireArg, js_next_poll_at := pollArg,
       js_config_version := version, js_updated_at := now env\<rparr>"

definition normalized :: "env \<Rightarrow> job_state \<Rightarrow> Definition \<Rightarrow> Compile \<Rightarrow> db \<Rightarrow> (time option \<times> time option) result" where
  "normalized env st def compile db =
     (if \<not> d_Enabled def \<or> d_Retired def then Inr (None, None)
      else if d_ScheduleKind def = ScheduleCron then
        bindE (compile def) (\<lambda>sched.
        bindE (Next sched (now env - Nanosecond)) (\<lambda>nextFire.
        Inr (Some nextFire, None)))
      else case js_next_poll_at st of
             Some t \<Rightarrow> Inr (None, Some t)
           | None \<Rightarrow> Inr (None, if pollPassOutstanding db (d_JobName def) then None else Some (now env)))"

definition normalizeClocks ::
  "env \<Rightarrow> job_state \<Rightarrow> Definition \<Rightarrow> Compile \<Rightarrow> db \<Rightarrow> (time option \<times> db) result" where
  "normalizeClocks env st def compile db =
     bindE (normalized env st def compile db) (\<lambda>(fireArg, pollArg).
     bindE (assertOne (update_state (\<lambda>s. js_job_name s = d_JobName def)
                                    (normalize_set env fireArg pollArg (d_Version def)) db)) (\<lambda>db.
     Inr (fireArg, db)))"

definition Recompute :: "env \<Rightarrow> string \<Rightarrow> Compile \<Rightarrow> db \<Rightarrow> (time option \<times> db) result" where
  "Recompute env jobName compile db =
     bindE (lockState env db jobName) (\<lambda>st.
     bindE (readDefinition db jobName) (\<lambda>def.
     normalizeClocks env st def compile db))"

section \<open>MaterializeCron\<close>

text \<open>
  What one due instant means: the instant to create an execution for, if any, and the instant the
  clock advances past.
\<close>

definition misfire :: "Schedule \<Rightarrow> MisfirePolicy \<Rightarrow> int \<Rightarrow> time \<Rightarrow> time \<Rightarrow> time option result" where
  "misfire sched policy missed dueAt onTimeFrom =
     (if missed = 0 then Inr (Some dueAt)
      else if policy = MisfireSkip then Inr None
      else Latest sched (onTimeFrom - Nanosecond) MisfireHorizon)"

definition fire_anchor :: "MisfirePolicy \<Rightarrow> time option \<Rightarrow> time \<Rightarrow> time \<Rightarrow> time" where
  "fire_anchor policy created dueAt nw =
     (case created of Some f \<Rightarrow> f | None \<Rightarrow> if policy = MisfireSkip then nw else dueAt)"

definition cron_row :: "string \<Rightarrow> Definition \<Rightarrow> time \<Rightarrow> executionRow" where
  "cron_row jobName def fireAt =
     \<lparr>r_Key = CronExecutionKey jobName fireAt, r_JobName = jobName, r_TriggerType = TriggerCron,
      r_RequestID = [], r_ScheduledAt = fireAt, r_AvailableAt = fireAt,
      r_MaxAttempts = d_MaxAttempts def, r_MaxRecoveries = d_MaxRecoveries def, r_Params = d_Params def\<rparr>"

text \<open>The end of the transaction: the row, if one is created, and the advanced clock.\<close>

definition cron_commit ::
  "env \<Rightarrow> string \<Rightarrow> Definition \<Rightarrow> time option \<Rightarrow> time \<Rightarrow> MaterializeResult \<Rightarrow> db \<Rightarrow> (MaterializeResult \<times> db) result" where
  "cron_commit env jobName def created nxt out db =
     (case created of
        None \<Rightarrow>
          bindE (advanceFireClock env jobName nxt (d_Version def) db) (\<lambda>db.
          Inr (out\<lparr>m_Outcome := MaterializedSkipped\<rparr>, db))
      | Some fireAt \<Rightarrow>
          let ins = insertExecution env (cron_row jobName def fireAt) db in
          bindE (advanceFireClock env jobName nxt (d_Version def) (snd ins)) (\<lambda>db.
          Inr (out\<lparr>m_Outcome := (if fst ins then MaterializedExecution else MaterializedSkipped),
                   m_ExecutionKey := CronExecutionKey jobName fireAt,
                   m_ScheduledAt := Some fireAt\<rparr>, db)))"

text \<open>A due instant: how many fires were missed, what to create, and where the clock goes next.\<close>

definition cron_due ::
  "env \<Rightarrow> string \<Rightarrow> Definition \<Rightarrow> Schedule \<Rightarrow> duration \<Rightarrow> time \<Rightarrow> db \<Rightarrow> (MaterializeResult \<times> db) result" where
  "cron_due env jobName def sched grace dueAt db =
     (let onTimeFrom = now env - grace in
      bindE (CountBetween sched (dueAt - Nanosecond) (onTimeFrom - Nanosecond) missedCountLimit) (\<lambda>counted.
      bindE (misfire sched (d_Misfire def) (fst counted) dueAt onTimeFrom) (\<lambda>created.
      bindE (Next sched (fire_anchor (d_Misfire def) created dueAt (now env))) (\<lambda>nxt.
      cron_commit env jobName def created nxt
        (empty_result\<lparr>m_NextFireAt := Some nxt, m_Missed := fst counted, m_MissedExact := snd counted\<rparr>) db))))"

text \<open>An in-date cron job: suspended behind a manual run, not due after all, or due.\<close>

definition cron_live ::
  "env \<Rightarrow> string \<Rightarrow> Definition \<Rightarrow> Schedule \<Rightarrow> duration \<Rightarrow> job_state \<Rightarrow> db \<Rightarrow> (MaterializeResult \<times> db) result" where
  "cron_live env jobName def sched grace st db =
     (if manualPending db jobName then Inr (empty_result\<lparr>m_Outcome := MaterializedSuspended\<rparr>, db)
      else case js_next_fire_at st of
        None \<Rightarrow> Inl ErrProtocol
      | Some dueAt \<Rightarrow>
         if dueAt > now env then
           Inr (empty_result\<lparr>m_Outcome := MaterializedSuspended, m_NextFireAt := Some dueAt\<rparr>, db)
         else cron_due env jobName def sched grace dueAt db)"

definition MaterializeCron ::
  "env \<Rightarrow> string \<Rightarrow> Compile \<Rightarrow> duration \<Rightarrow> db \<Rightarrow> (MaterializeResult \<times> db) result" where
  "MaterializeCron env jobName compile grace db =
     bindE (lockState env db jobName) (\<lambda>st.
     bindE (readDefinition db jobName) (\<lambda>def.
     if \<not> d_Enabled def \<or> d_Retired def \<or> d_ScheduleKind def \<noteq> ScheduleCron \<or>
        js_config_version st \<noteq> d_Version def then
       bindE (normalizeClocks env st def compile db) (\<lambda>(nxt, db).
       Inr (empty_result\<lparr>m_Outcome := MaterializedSkipped, m_NextFireAt := nxt\<rparr>, db))
     else bindE (compile def) (\<lambda>sched. cron_live env jobName def sched grace st db)))"

section \<open>MaterializePoll\<close>

definition poll_row :: "env \<Rightarrow> string \<Rightarrow> string \<Rightarrow> Definition \<Rightarrow> executionRow" where
  "poll_row env jobName executionKey def =
     \<lparr>r_Key = executionKey, r_JobName = jobName, r_TriggerType = TriggerPoll, r_RequestID = [],
      r_ScheduledAt = now env, r_AvailableAt = now env,
      r_MaxAttempts = d_MaxAttempts def, r_MaxRecoveries = d_MaxRecoveries def, r_Params = d_Params def\<rparr>"

definition MaterializePoll ::
  "env \<Rightarrow> string \<Rightarrow> string \<Rightarrow> Compile \<Rightarrow> db \<Rightarrow> (MaterializeResult \<times> db) result" where
  "MaterializePoll env jobName executionKey compile db =
     bindE (lockState env db jobName) (\<lambda>st.
     bindE (readDefinition db jobName) (\<lambda>def.
     if \<not> sql_le (js_next_poll_at st) (now env) then
       Inr (empty_result\<lparr>m_Outcome := MaterializedSuspended\<rparr>, db)
     else if \<not> d_Enabled def \<or> d_Retired def \<or> d_ScheduleKind def \<noteq> ScheduleFixedDelay \<or>
             js_config_version st \<noteq> d_Version def then
       bindE (normalizeClocks env st def compile db) (\<lambda>(nxt, db).
       Inr (empty_result\<lparr>m_Outcome := MaterializedSkipped, m_NextFireAt := nxt\<rparr>, db))
     else if manualPending db jobName then
       Inr (empty_result\<lparr>m_Outcome := MaterializedSuspended\<rparr>, db)
     else let ins = insertExecution env (poll_row env jobName executionKey def) db in
       if \<not> fst ins then Inl ErrProtocol
       else bindE (clearPollClock env jobName (snd ins)) (\<lambda>db.
         Inr (empty_result\<lparr>m_Outcome := MaterializedExecution, m_ExecutionKey := executionKey,
                m_ScheduledAt := Some (now env)\<rparr>, db))))"

section \<open>The statements honour the contract of a guarded write\<close>

interpretation advance_fire: state_write "advance_fire_set env t n" for env t n
  by unfold_locales (simp_all add: advance_fire_set_def)

interpretation clear_poll: state_write "clear_poll_set env" for env
  by unfold_locales (simp_all add: clear_poll_set_def)

interpretation normalize: state_write "normalize_set env f p n" for env f p n
  by unfold_locales (simp_all add: normalize_set_def)

end
