(* ===== verification/Admin.thy ===== *)
theory Admin
  imports Materialize
begin

text \<open>
  The administrative operations of the store (\<^verbatim>\<open>src/internal/store/admin.go\<close>): creating, editing,
  copying and synchronising definitions, pausing and retiring jobs, manual triggers and authorized
  retries, and the reads the API is built on. The JSON codec \<open>mergeParams\<close> calls is a parameter of it.
\<close>

section \<open>Definitions as rows\<close>

text \<open>The CHECK constraints of job_definition that are not already types of the model.\<close>

definition checks_ok :: "job_definition \<Rightarrow> bool" where
  "checks_ok r \<longleftrightarrow>
     1 \<le> jd_max_attempts r \<and> jd_max_attempts r \<le> 100 \<and>
     1 \<le> jd_max_recoveries r \<and> jd_max_recoveries r \<le> 100 \<and>
     10 \<le> jd_lease_seconds r \<and> 1 \<le> jd_timeout_seconds r \<and> jd_timeout_seconds r \<le> 604800"

text \<open>The widths of its columns, in characters.\<close>

definition fits :: "nat \<Rightarrow> string \<Rightarrow> bool" where
  "fits n s \<longleftrightarrow> length s \<le> n \<or> length (runes s) \<le> n"

definition widths_ok :: "job_definition \<Rightarrow> bool" where
  "widths_ok r \<longleftrightarrow>
     fits 128 (jd_job_name r) \<and> fits 128 (jd_handler_key r) \<and> fits 64 (coalesce_str (jd_executor_group r)) \<and>
     fits 128 (jd_schedule_expr r) \<and> fits 512 (coalesce_str (jd_description r)) \<and> fits 64 (coalesce_str (jd_updated_by r))"

text \<open>The columns an INSERT or an UPDATE of job_definition takes from a \<open>Definition\<close>.\<close>

definition assign_def :: "env \<Rightarrow> Definition \<Rightarrow> string \<Rightarrow> job_definition \<Rightarrow> job_definition" where
  "assign_def env d actor r =
     r\<lparr>jd_handler_key := d_HandlerKey d, jd_executor_group := nullString (d_ExecutorGroup d),
       jd_schedule_kind := d_ScheduleKind d, jd_schedule_expr := d_ScheduleExpr d,
       jd_enabled := d_Enabled d, jd_concurrency_policy := d_Concurrency d,
       jd_misfire_policy := d_Misfire d, jd_max_attempts := d_MaxAttempts d,
       jd_max_recoveries := d_MaxRecoveries d, jd_lease_seconds := d_Lease d div Second,
       jd_timeout_seconds := d_Timeout d div Second, jd_params_json := nullString (d_Params d),
       jd_description := nullString (d_Description d), jd_updated_by := Some actor,
       jd_updated_at := now env\<rparr>"

definition new_def :: "env \<Rightarrow> Definition \<Rightarrow> string \<Rightarrow> job_definition" where
  "new_def env d actor =
     \<lparr>jd_job_name = d_JobName d, jd_handler_key = d_HandlerKey d,
      jd_executor_group = nullString (d_ExecutorGroup d),
      jd_schedule_kind = d_ScheduleKind d, jd_schedule_expr = d_ScheduleExpr d,
      jd_enabled = d_Enabled d, jd_retired = False, jd_concurrency_policy = d_Concurrency d,
      jd_misfire_policy = d_Misfire d, jd_max_attempts = d_MaxAttempts d,
      jd_max_recoveries = d_MaxRecoveries d, jd_lease_seconds = d_Lease d div Second,
      jd_timeout_seconds = d_Timeout d div Second, jd_params_json = nullString (d_Params d),
      jd_description = nullString (d_Description d), jd_version = 1, jd_updated_by = Some actor,
      jd_created_at = now env, jd_updated_at = now env\<rparr>"

definition new_state :: "env \<Rightarrow> Definition \<Rightarrow> time \<Rightarrow> job_state" where
  "new_state env d nextFire =
     \<lparr>js_job_name = d_JobName d,
      js_next_fire_at = (if d_Enabled d \<and> d_ScheduleKind d = ScheduleCron then Some nextFire else None),
      js_next_poll_at = (if d_Enabled d \<and> d_ScheduleKind d \<noteq> ScheduleCron then Some (now env) else None),
      js_ops_paused = False, js_active_kind = False, js_active_execution = None,
      js_active_owner = None, js_active_run_token = None, js_dispatched_to = None,
      js_fence_epoch = 0, js_lease_until = None, js_heartbeat_at = None, js_last_success_at = None,
      js_last_failure_at = None, js_config_version = 1, js_write_seq = 0, js_updated_at = now env\<rparr>"

text \<open>
  The two INSERTs of a new job. A name already present in either table, a value a CHECK
  constraint refuses or one too wide for its column fails the transaction; \<open>CreateJob\<close> alone turns the duplicate definition
  into a protocol error.
\<close>

definition insert_job :: "env \<Rightarrow> Definition \<Rightarrow> time \<Rightarrow> string \<Rightarrow> error \<Rightarrow> db \<Rightarrow> db result" where
  "insert_job env d nextFire actor dup db =
     (let r = new_def env d actor in
      if def_row db (d_JobName d) \<noteq> None then Inl dup
      else if \<not> checks_ok r \<or> \<not> widths_ok r then Inl ErrOther
      else if state_row db (d_JobName d) \<noteq> None then Inl ErrOther
      else Inr (db\<lparr>defs := defs db @ [r], states := states db @ [new_state env d nextFire]\<rparr>))"

definition kind_name :: "ScheduleKind \<Rightarrow> string" where
  "kind_name k = (case k of ScheduleCron \<Rightarrow> ''CRON'' | ScheduleFixedDelay \<Rightarrow> ''FIXED_DELAY'')"

definition shape_note :: "string \<Rightarrow> Definition \<Rightarrow> string" where
  "shape_note reason d =
     reason @ '' (handler='' @ d_HandlerKey d @ '' schedule='' @ kind_name (d_ScheduleKind d) @ '' '' @
     d_ScheduleExpr d @ '')''"

definition CreateJob :: "env \<Rightarrow> Definition \<Rightarrow> time \<Rightarrow> string \<Rightarrow> string \<Rightarrow> db \<Rightarrow> db result" where
  "CreateJob env d nextFire actor reason db =
     (if actor = [] \<or> reason = [] then Inl ErrProtocol
      else bindE (insert_job env d nextFire actor ErrProtocol db) (\<lambda>db.
      Inr (audit env actor ''job_created'' (d_JobName d) [] (shape_note reason d) db)))"

section \<open>Copying a catalogue\<close>

record JobSeed =
  sd_Definition :: Definition
  sd_NextFire :: time

definition insertCopiedJob ::
  "env \<Rightarrow> Definition \<Rightarrow> time \<Rightarrow> string \<Rightarrow> string \<Rightarrow> string \<Rightarrow> db \<Rightarrow> db result" where
  "insertCopiedJob env d nextFire source actor reason db =
     bindE (insert_job env d nextFire actor ErrOther db) (\<lambda>db.
     Inr (audit env actor ''job_created'' (d_JobName d) []
            (''copied from tenant '' @ source @ '': '' @ shape_note reason d) db))"

fun copy_each ::
  "env \<Rightarrow> string \<Rightarrow> string \<Rightarrow> string \<Rightarrow> JobSeed list \<Rightarrow> string list \<Rightarrow> db \<Rightarrow>
   (string list \<times> string list \<times> db) result" where
  "copy_each env source actor reason [] existing db = Inr ([], [], db)"
| "copy_each env source actor reason (s # ss) existing db =
     (let d = sd_Definition s in
      if d_JobName d \<in> set existing then
        bindE (copy_each env source actor reason ss existing db) (\<lambda>(created, skipped, db).
        Inr (created, d_JobName d # skipped, db))
      else bindE (insertCopiedJob env d (sd_NextFire s) source actor reason db) (\<lambda>db.
        bindE (copy_each env source actor reason ss (d_JobName d # existing) db) (\<lambda>(created, skipped, db).
        Inr (d_JobName d # created, skipped, db))))"

definition CopyJobs ::
  "env \<Rightarrow> JobSeed list \<Rightarrow> string \<Rightarrow> string \<Rightarrow> string \<Rightarrow> db \<Rightarrow> (string list \<times> string list \<times> db) result" where
  "CopyJobs env seeds source actor reason db =
     (if source = [] \<or> actor = [] \<or> reason = [] then Inl ErrProtocol
      else copy_each env source actor reason seeds (map jd_job_name (defs db)) db)"

section \<open>Synchronising a catalogue\<close>

record JobDefinitionFieldChange =
  fch_Field :: string
  fch_Before :: string
  fch_After :: string

record JobDefinitionChange =
  ch_JobName :: string
  ch_Fields :: "JobDefinitionFieldChange list"

record JobSyncResult =
  sy_Created :: "string list"
  sy_Updated :: "JobDefinitionChange list"
  sy_Unchanged :: "string list"
  sy_BlockedRetired :: "string list"

definition emptyJobSyncResult :: JobSyncResult where
  "emptyJobSyncResult = \<lparr>sy_Created = [], sy_Updated = [], sy_Unchanged = [], sy_BlockedRetired = []\<rparr>"

definition FormatBool :: "bool \<Rightarrow> string" where "FormatBool b = (if b then ''true'' else ''false'')"

definition concurrency_name :: "ConcurrencyPolicy \<Rightarrow> string" where
  "concurrency_name p = (case p of PolicyQueue \<Rightarrow> ''QUEUE'' | PolicyForbid \<Rightarrow> ''FORBID'')"

definition misfire_name :: "MisfirePolicy \<Rightarrow> string" where
  "misfire_name p = (case p of MisfireSkip \<Rightarrow> ''SKIP'' | MisfireFireOnce \<Rightarrow> ''FIRE_ONCE'')"

definition field_change :: "string \<Rightarrow> string \<Rightarrow> string \<Rightarrow> JobDefinitionFieldChange list" where
  "field_change field old new =
     (if old \<noteq> new then [\<lparr>fch_Field = field, fch_Before = old, fch_After = new\<rparr>] else [])"

definition definitionChanges :: "Definition \<Rightarrow> Definition \<Rightarrow> JobDefinitionFieldChange list" where
  "definitionChanges b a =
     field_change ''handler_key'' (d_HandlerKey b) (d_HandlerKey a) @
     field_change ''executor_group'' (d_ExecutorGroup b) (d_ExecutorGroup a) @
     field_change ''schedule_kind'' (kind_name (d_ScheduleKind b)) (kind_name (d_ScheduleKind a)) @
     field_change ''schedule_expr'' (d_ScheduleExpr b) (d_ScheduleExpr a) @
     field_change ''enabled'' (FormatBool (d_Enabled b)) (FormatBool (d_Enabled a)) @
     field_change ''concurrency_policy'' (concurrency_name (d_Concurrency b)) (concurrency_name (d_Concurrency a)) @
     field_change ''misfire_policy'' (misfire_name (d_Misfire b)) (misfire_name (d_Misfire a)) @
     field_change ''max_attempts'' (FormatInt (d_MaxAttempts b)) (FormatInt (d_MaxAttempts a)) @
     field_change ''max_recoveries'' (FormatInt (d_MaxRecoveries b)) (FormatInt (d_MaxRecoveries a)) @
     field_change ''lease_seconds'' (FormatInt (d_Lease b div Second)) (FormatInt (d_Lease a div Second)) @
     field_change ''timeout_seconds'' (FormatInt (d_Timeout b div Second)) (FormatInt (d_Timeout a div Second)) @
     field_change ''params'' (d_Params b) (d_Params a) @
     field_change ''description'' (d_Description b) (d_Description a)"

fun planJobSync :: "JobSeed list \<Rightarrow> (string \<Rightarrow> Definition option) \<Rightarrow> JobSyncResult" where
  "planJobSync [] existing = emptyJobSyncResult"
| "planJobSync (s # ss) existing =
     (let r = planJobSync ss existing; d = sd_Definition s in
      case existing (d_JobName d) of
        None \<Rightarrow> r\<lparr>sy_Created := d_JobName d # sy_Created r\<rparr>
      | Some target \<Rightarrow>
          if d_Retired target then r\<lparr>sy_BlockedRetired := d_JobName d # sy_BlockedRetired r\<rparr>
          else let fields = definitionChanges target d in
            if fields = [] then r\<lparr>sy_Unchanged := d_JobName d # sy_Unchanged r\<rparr>
            else r\<lparr>sy_Updated := \<lparr>ch_JobName = d_JobName d, ch_Fields = fields\<rparr> # sy_Updated r\<rparr>)"

definition lockedDefinitions :: "db \<Rightarrow> string \<Rightarrow> Definition option" where
  "lockedDefinitions db name =
     map_option (\<lambda>r. (definition_of r)\<lparr>d_UpdatedBy := coalesce_str (jd_updated_by r)\<rparr>) (def_row db name)"

definition sync_def_set :: "env \<Rightarrow> Definition \<Rightarrow> string \<Rightarrow> job_definition \<Rightarrow> job_definition" where
  "sync_def_set env d actor r = (assign_def env d actor r)\<lparr>jd_version := jd_version r + 1\<rparr>"

text \<open>
  An UPDATE that would leave a row outside the CHECK constraints or the widths of its columns fails the whole transaction.
\<close>

definition update_def_checked ::
  "(job_definition \<Rightarrow> bool) \<Rightarrow> (job_definition \<Rightarrow> job_definition) \<Rightarrow> db \<Rightarrow> (nat \<times> db) result" where
  "update_def_checked P f db =
     (if list_ex (\<lambda>r. P r \<and> \<not> (checks_ok (f r) \<and> widths_ok (f r))) (defs db) then Inl ErrOther else Inr (update_def P f db))"

lemma update_def_checked_Inr:
  "update_def_checked P f db = Inr u \<longleftrightarrow>
     (\<forall>r \<in> set (defs db). P r \<longrightarrow> checks_ok (f r) \<and> widths_ok (f r)) \<and> u = update_def P f db"
  by (auto simp: update_def_checked_def list_ex_iff)

fun space_sep :: "string list \<Rightarrow> string" where
  "space_sep [] = []"
| "space_sep [s] = s"
| "space_sep (s # ss) = s @ '' '' @ space_sep ss"

text \<open>One seed of the plan: created, updated, or left alone.\<close>

definition sync_one :: "env \<Rightarrow> string \<Rightarrow> string \<Rightarrow> string \<Rightarrow> JobSyncResult \<Rightarrow> JobSeed \<Rightarrow> db \<Rightarrow> db result" where
  "sync_one env source actor reason plan s db =
     (let d = sd_Definition s in
      if d_JobName d \<in> set (sy_Created plan)
      then insertCopiedJob env d (sd_NextFire s) source actor reason db
      else case find (\<lambda>c. ch_JobName c = d_JobName d) (rev (sy_Updated plan)) of
             None \<Rightarrow> Inr db
           | Some c \<Rightarrow>
               bindE (update_def_checked (\<lambda>r. jd_job_name r = d_JobName d \<and> \<not> jd_retired r)
                                         (sync_def_set env d actor) db) (\<lambda>u.
               bindE (assertOne u) (\<lambda>db.
               Inr (audit env actor ''job_synced'' (d_JobName d) []
                      (''synced from tenant '' @ source @ '': '' @ reason @ '' (fields=['' @
                       space_sep (map fch_Field (ch_Fields c)) @ ''])'') db))))"

fun sync_each ::
  "env \<Rightarrow> string \<Rightarrow> string \<Rightarrow> string \<Rightarrow> JobSyncResult \<Rightarrow> JobSeed list \<Rightarrow> db \<Rightarrow> db result" where
  "sync_each env source actor reason plan [] db = Inr db"
| "sync_each env source actor reason plan (s # ss) db =
     bindE (sync_one env source actor reason plan s db) (\<lambda>db.
     sync_each env source actor reason plan ss db)"

definition SyncJobs ::
  "env \<Rightarrow> JobSeed list \<Rightarrow> string \<Rightarrow> string \<Rightarrow> string \<Rightarrow> db \<Rightarrow> (JobSyncResult \<times> db) result" where
  "SyncJobs env seeds source actor reason db =
     (if source = [] \<or> actor = [] \<or> reason = [] then Inl ErrProtocol
      else let plan = planJobSync seeds (lockedDefinitions db) in
        if sy_BlockedRetired plan \<noteq> [] then Inl ErrProtocol
        else bindE (sync_each env source actor reason plan seeds db) (\<lambda>db. Inr (plan, db)))"

section \<open>UpdateJob\<close>

definition UpdateJob :: "env \<Rightarrow> Definition \<Rightarrow> int \<Rightarrow> string \<Rightarrow> string \<Rightarrow> db \<Rightarrow> db result" where
  "UpdateJob env d expectVersion actor reason db =
     (if actor = [] \<or> reason = [] then Inl ErrProtocol
      else bindE (update_def_checked (\<lambda>r. jd_job_name r = d_JobName d \<and> jd_version r = expectVersion)
                                     (sync_def_set env d actor) db) (\<lambda>u.
      bindE (assertSome ErrStaleVersion u) (\<lambda>db.
      Inr (audit env actor ''job_updated'' (d_JobName d) [] reason db))))"

section \<open>SyncJobDescriptions\<close>

record JobDescriptionChange =
  dch_JobName :: string
  dch_HandlerKey :: string
  dch_Before :: string
  dch_After :: string

record JobDescriptionSync =
  ds_Changes :: "JobDescriptionChange list"
  ds_Missing :: "string list"
  ds_Unchanged :: nat

definition empty_description_sync :: JobDescriptionSync where
  "empty_description_sync = \<lparr>ds_Changes = [], ds_Missing = [], ds_Unchanged = 0\<rparr>"

text \<open>The plan reads jobs through \<open>JobView\<close>; it uses only the definition embedded in it.\<close>

fun descriptionSyncPlan :: "Definition list \<Rightarrow> (string \<Rightarrow> string option) \<Rightarrow> JobDescriptionSync" where
  "descriptionSyncPlan [] descriptions = empty_description_sync"
| "descriptionSyncPlan (j # js) descriptions =
     (let r = descriptionSyncPlan js descriptions; nxt = coalesce_str (descriptions (d_HandlerKey j)) in
      if d_Retired j then r
      else if nxt = [] then r\<lparr>ds_Missing := d_JobName j # ds_Missing r\<rparr>
      else if d_Description j = nxt then r\<lparr>ds_Unchanged := ds_Unchanged r + 1\<rparr>
      else r\<lparr>ds_Changes := \<lparr>dch_JobName = d_JobName j, dch_HandlerKey = d_HandlerKey j,
                            dch_Before = d_Description j, dch_After = nxt\<rparr> # ds_Changes r\<rparr>)"

definition describe_set :: "env \<Rightarrow> string \<Rightarrow> string \<Rightarrow> job_definition \<Rightarrow> job_definition" where
  "describe_set env nxt actor r =
     r\<lparr>jd_description := Some nxt, jd_version := jd_version r + 1, jd_updated_by := Some actor,
       jd_updated_at := now env\<rparr>"

definition describe_one ::
  "env \<Rightarrow> (string \<Rightarrow> string option) \<Rightarrow> string \<Rightarrow> string \<Rightarrow> job_definition \<Rightarrow>
   JobDescriptionSync \<times> db \<Rightarrow> (JobDescriptionSync \<times> db) result" where
  "describe_one env descriptions actor reason j = (\<lambda>(r, db).
     (let nxt = coalesce_str (descriptions (jd_handler_key j));
          before = coalesce_str (jd_description j) in
      if jd_retired j then Inr (r, db)
      else if nxt = [] then Inr (r\<lparr>ds_Missing := ds_Missing r @ [jd_job_name j]\<rparr>, db)
      else if before = nxt then Inr (r\<lparr>ds_Unchanged := ds_Unchanged r + 1\<rparr>, db)
      else
        bindE (assertOne (update_def (\<lambda>r. jd_job_name r = jd_job_name j \<and> jd_version r = jd_version j)
                                     (describe_set env nxt actor) db)) (\<lambda>db.
        Inr (r\<lparr>ds_Changes := ds_Changes r @ [\<lparr>dch_JobName = jd_job_name j, dch_HandlerKey = jd_handler_key j,
                                             dch_Before = before, dch_After = nxt\<rparr>]\<rparr>,
             audit env actor ''job_description_synced'' (jd_job_name j) []
               (reason @ '' (handler='' @ jd_handler_key j @ '')'') db))))"

fun describe_each ::
  "env \<Rightarrow> (string \<Rightarrow> string option) \<Rightarrow> string \<Rightarrow> string \<Rightarrow> job_definition list \<Rightarrow>
   JobDescriptionSync \<times> db \<Rightarrow> (JobDescriptionSync \<times> db) result" where
  "describe_each env descriptions actor reason [] s = Inr s"
| "describe_each env descriptions actor reason (j # js) s =
     bindE (describe_one env descriptions actor reason j s) (\<lambda>s.
     describe_each env descriptions actor reason js s)"

definition SyncJobDescriptions ::
  "env \<Rightarrow> (string \<times> string) list \<Rightarrow> string \<Rightarrow> string \<Rightarrow> db \<Rightarrow> (JobDescriptionSync \<times> db) result" where
  "SyncJobDescriptions env descriptions actor reason db =
     (if actor = [] \<or> reason = [] then Inl ErrProtocol
      else if list_ex (\<lambda>(_, d). length d > 512) descriptions then Inl ErrProtocol
      else describe_each env (map_of descriptions) actor reason (sort_key jd_job_name (defs db))
             (empty_description_sync, db))"

section \<open>SetPaused, Retire\<close>

definition pause_set :: "env \<Rightarrow> bool \<Rightarrow> job_state \<Rightarrow> job_state" where
  "pause_set env paused s =
     s\<lparr>js_write_seq := js_write_seq s + 1, js_ops_paused := paused, js_updated_at := now env\<rparr>"

definition SetPaused :: "env \<Rightarrow> string \<Rightarrow> bool \<Rightarrow> string \<Rightarrow> string \<Rightarrow> db \<Rightarrow> db result" where
  "SetPaused env jobName paused actor reason db =
     (if actor = [] \<or> reason = [] then Inl ErrProtocol
      else bindE (lockState env db jobName) (\<lambda>_.
      bindE (assertOne (update_state (\<lambda>s. js_job_name s = jobName) (pause_set env paused) db)) (\<lambda>db.
      Inr (audit env actor (if paused then ''job_paused'' else ''job_resumed'') jobName [] reason db))))"

definition retire_def_set :: "env \<Rightarrow> string \<Rightarrow> job_definition \<Rightarrow> job_definition" where
  "retire_def_set env actor r =
     r\<lparr>jd_retired := True, jd_enabled := False, jd_version := jd_version r + 1,
       jd_updated_by := Some actor, jd_updated_at := now env\<rparr>"

definition retire_ready_set :: "env \<Rightarrow> job_execution \<Rightarrow> job_execution" where
  "retire_ready_set env e =
     e\<lparr>je_write_seq := je_write_seq e + 1, je_status := StatusCancelled,
       je_terminal_reason := Some ReasonRetired, je_finished_at := Some (now env),
       je_result_summary := Some ''the job was retired before this run started'',
       je_updated_at := now env\<rparr>"

definition Retire :: "env \<Rightarrow> string \<Rightarrow> string \<Rightarrow> string \<Rightarrow> db \<Rightarrow> db result" where
  "Retire env jobName actor reason db =
     (if actor = [] \<or> reason = [] then Inl ErrProtocol
      else bindE (lockState env db jobName) (\<lambda>_.
      bindE (assertSome ErrProtocol
               (update_def (\<lambda>r. jd_job_name r = jobName \<and> \<not> jd_retired r) (retire_def_set env actor) db)) (\<lambda>db.
      let db = snd (update_exec (\<lambda>e. je_job_name e = jobName \<and> je_status e = StatusReady) (retire_ready_set env) db);
          db = snd (update_exec (\<lambda>e. je_job_name e = jobName \<and> je_status e \<in> {StatusDispatching, StatusRunning})
                                (cancel_set env) db)
      in Inr (audit env actor ''job_retired'' jobName [] reason db))))"

section \<open>Trigger\<close>

text \<open>
  \<open>encoding/json\<close> as \<open>mergeParams\<close> uses it: \<open>decode\<close> of a byte string is an error (\<open>None\<close>), JSON null
  (\<open>Some None\<close>), or an object as a map from keys to raw values; \<open>encode\<close> renders such a map.
\<close>

record json_codec =
  decode :: "string \<Rightarrow> (string \<rightharpoonup> string) option option"
  encode :: "(string \<rightharpoonup> string) \<Rightarrow> string"

definition MaxParamsBytes :: nat where "MaxParamsBytes = 65536"

definition mergeParams :: "json_codec \<Rightarrow> string \<Rightarrow> string \<Rightarrow> string result" where
  "mergeParams json defaults override =
     (if override = [] then Inr defaults
      else if defaults = [] then Inr override
      else case decode json defaults of
             None \<Rightarrow> Inl ErrProtocol
           | Some base \<Rightarrow>
               (case decode json override of
                  None \<Rightarrow> Inl ErrProtocol
                | Some None \<Rightarrow> Inl ErrProtocol
                | Some (Some over) \<Rightarrow>
                    let out = encode json ((case base of None \<Rightarrow> Map.empty | Some b \<Rightarrow> b) ++ over)
                    in if length out > MaxParamsBytes then Inl ErrProtocol else Inr out))"

definition executionByRequest :: "db \<Rightarrow> string \<Rightarrow> string \<Rightarrow> string option result" where
  "executionByRequest db requestID jobName =
     (case find (\<lambda>e. je_request_id e = Some requestID) (execs db) of
        None \<Rightarrow> Inr None
      | Some e \<Rightarrow> if je_job_name e \<noteq> jobName then Inl ErrProtocol else Inr (Some (je_execution_key e)))"

definition trigger_row :: "env \<Rightarrow> string \<Rightarrow> string \<Rightarrow> string \<Rightarrow> Definition \<Rightarrow> executionRow" where
  "trigger_row env jobName requestID merged def =
     \<lparr>r_Key = ExecutionKey ''m'' jobName requestID, r_JobName = jobName, r_TriggerType = TriggerManual,
      r_RequestID = requestID, r_ScheduledAt = now env, r_AvailableAt = now env,
      r_MaxAttempts = d_MaxAttempts def, r_MaxRecoveries = d_MaxRecoveries def, r_Params = merged\<rparr>"

text \<open>
  \<open>trigger_tx\<close> is the transaction of \<open>Trigger\<close>, which runs after the lookup outside it found no
  execution for the request; another caller may have created one in between, so the transaction is
  given the database it finds and reads back the winner of the race.
\<close>

definition trigger_tx ::
  "json_codec \<Rightarrow> env \<Rightarrow> string \<Rightarrow> string \<Rightarrow> string \<Rightarrow> string \<Rightarrow> string \<Rightarrow> db \<Rightarrow> (string \<times> db) result" where
  "trigger_tx json env jobName requestID actor reason params db =
     bindE (lockState env db jobName) (\<lambda>_.
     bindE (readDefinition db jobName) (\<lambda>def.
     if d_Retired def then Inl ErrNotRunnable
     else bindE (mergeParams json (d_Params def) params) (\<lambda>merged.
     let ins = insertExecution env (trigger_row env jobName requestID merged def) db in
     if fst ins then
       Inr (ExecutionKey ''m'' jobName requestID,
            audit env actor ''job_triggered'' jobName (ExecutionKey ''m'' jobName requestID) reason (snd ins))
     else case find (\<lambda>e. je_request_id e = Some requestID) (execs db) of
            None \<Rightarrow> Inl ErrOther
          | Some e \<Rightarrow> if je_job_name e \<noteq> jobName then Inl ErrProtocol
                      else Inr (je_execution_key e, db))))"

definition Trigger ::
  "json_codec \<Rightarrow> env \<Rightarrow> string \<Rightarrow> string \<Rightarrow> string \<Rightarrow> string \<Rightarrow> string \<Rightarrow> db \<Rightarrow> (string \<times> db) result" where
  "Trigger json env jobName requestID actor reason params db =
     (if actor = [] \<or> reason = [] then Inl ErrProtocol
      else if requestID = [] then Inl ErrProtocol
      else bindE (executionByRequest db requestID jobName) (\<lambda>known.
        case known of
          Some key \<Rightarrow> Inr (key, db)
        | None \<Rightarrow> trigger_tx json env jobName requestID actor reason params db))"

section \<open>AuthorizedRetry\<close>

definition jobOf :: "db \<Rightarrow> string \<Rightarrow> string result" where
  "jobOf db key =
     (case find (\<lambda>e. je_execution_key e = key) (execs db) of
        None \<Rightarrow> Inl ErrNoSuchExecution
      | Some e \<Rightarrow> Inr (je_job_name e))"

definition revive_set :: "env \<Rightarrow> job_execution \<Rightarrow> job_execution" where
  "revive_set env e =
     e\<lparr>je_write_seq := je_write_seq e + 1, je_status := StatusReady,
       je_max_attempts := je_attempt_no e + 1, je_available_at := now env,
       je_terminal_reason := None, je_finished_at := None, je_timeout_at := None,
       je_updated_at := now env\<rparr>"

definition AuthorizedRetry :: "env \<Rightarrow> string \<Rightarrow> string \<Rightarrow> string \<Rightarrow> db \<Rightarrow> db result" where
  "AuthorizedRetry env key actor reason db =
     (if actor = [] \<or> reason = [] then Inl ErrProtocol
      else bindE (jobOf db key) (\<lambda>jobName.
      bindE (lockState env db jobName) (\<lambda>_.
      bindE (readDefinition db jobName) (\<lambda>def.
      if d_Retired def then Inl ErrNotRunnable
      else bindE (assertSome ErrProtocol
                    (update_exec (\<lambda>e. je_execution_key e = key \<and> je_job_name e = jobName \<and>
                                      je_status e = StatusDead) (revive_set env) db)) (\<lambda>db.
      Inr (audit env actor ''execution_retried'' [] key reason db))))))"

section \<open>Quiescence\<close>

record Quiescence =
  q_Held :: nat
  q_InFlight :: nat
  q_Queued :: nat

definition Quiet :: "Quiescence \<Rightarrow> bool" where
  "Quiet q \<longleftrightarrow> q_Held q = 0 \<and> q_InFlight q = 0"

definition Quiescent :: "db \<Rightarrow> Quiescence" where
  "Quiescent db =
     \<lparr>q_Held = rows_matched js_active_kind (states db),
      q_InFlight = rows_matched (\<lambda>e. in_flight (je_status e)) (execs db),
      q_Queued = rows_matched (\<lambda>e. je_status e = StatusReady) (execs db)\<rparr>"

section \<open>The statements honour the contract of a guarded write\<close>

interpretation sync_def: guarded_write jd_job_name jd_version "sync_def_set env d a" for env d a
  by unfold_locales (simp_all add: sync_def_set_def assign_def_def)

interpretation describe: guarded_write jd_job_name jd_version "describe_set env n a" for env n a
  by unfold_locales (simp_all add: describe_set_def)

interpretation retire_def: guarded_write jd_job_name jd_version "retire_def_set env a" for env a
  by unfold_locales (simp_all add: retire_def_set_def)

interpretation pause: state_write "pause_set env b" for env b
  by unfold_locales (simp_all add: pause_set_def)

interpretation retire_ready: exec_write "retire_ready_set env" for env
  by unfold_locales (simp_all add: retire_ready_set_def)

interpretation revive: exec_write "revive_set env" for env
  by unfold_locales (simp_all add: revive_set_def)

end
