(* ===== verification/Rows.thy ===== *)
theory Rows
  imports Recovery Admin
begin

text \<open>
  The life of one execution row. \<open>row_move\<close> has a rule per UPDATE of job_execution, with the guard the
  statement carries on the row and the assignment it makes; \<open>born\<close> is a row as \<open>insertExecution\<close>
  writes it. What every row obeys follows from the rules alone: its identity, its budget, and the
  edges of the state machine.
\<close>

section \<open>Moves\<close>

text \<open>An attempt that ends before its acceptance was recorded is charged first.\<close>

definition charged :: "env \<Rightarrow> Holder \<Rightarrow> job_execution \<Rightarrow> job_execution" where
  "charged env h e =
     (if owns_exec (h_ExecutionID h) (h_RunToken h) (h_FenceEpoch h) e \<and> je_status e = StatusDispatching
      then charge_set env e else e)"

definition stopped :: "job_execution \<Rightarrow> Status" where
  "stopped e = (if je_status e = StatusCancelRequested then StatusCancelled else StatusDead)"

inductive row_move :: "job_execution \<Rightarrow> job_execution \<Rightarrow> bool" where
  claim: "je_status e = StatusReady \<Longrightarrow> je_attempt_no e < je_max_attempts e \<Longrightarrow>
    row_move e (claim_exec_set env p n l t e)"
| defer_row: "je_status e = StatusReady \<Longrightarrow> row_move e (defer_set env b e)"
| expire: "je_status e = StatusReady \<Longrightarrow> row_move e (expire_ready_set env e)"
| skip: "je_status e = StatusReady \<Longrightarrow> row_move e (forbid_skip_set env k e)"
| retire: "je_status e = StatusReady \<Longrightarrow> row_move e (retire_ready_set env e)"
| accept: "je_status e = StatusDispatching \<Longrightarrow> row_move e (accept_set env q e)"
| retarget: "je_status e = StatusDispatching \<Longrightarrow> row_move e (retarget_set env x e)"
| refuse: "je_status e = StatusDispatching \<Longrightarrow> row_move e (refuse_exec_set env b e)"
| cancel: "je_status e \<in> {StatusDispatching, StatusRunning} \<Longrightarrow> row_move e (cancel_set env e)"
| renew: "in_flight (je_status e) \<Longrightarrow> row_move e (renew_exec_set env n e)"
| extend: "in_flight (je_status e) \<Longrightarrow> row_move e (extend_deadline_set env n e)"
| adopt: "in_flight (je_status e) \<Longrightarrow>
    row_move e (adopt_exec_set env w n l q (pr \<and> je_status e = StatusDispatching) e)"
| complete: "in_flight (je_status e) \<Longrightarrow> Terminal (o_Status o1) \<Longrightarrow> owns_exec (h_ExecutionID h) (h_RunToken h) (h_FenceEpoch h) e \<Longrightarrow>
    row_move e (complete_set env (clipped o1) (charged env h e))"
| retry: "in_flight (je_status e) \<Longrightarrow> owns_exec (h_ExecutionID h) (h_RunToken h) (h_FenceEpoch h) e \<Longrightarrow>
    row_move e (retry_set env o1 b (charged env h e))"
| resolve: "in_flight (je_status e) \<Longrightarrow>
    row_move e (resolve_exec_set env (resolvedStatus (stale_of env e)) (resolved_reason (stale_of env e)) b e)"
| fence: "in_flight (je_status e) \<Longrightarrow> row_move e (fence_exec_set env (stopped e) reason k m e)"
| release: "in_flight (je_status e) \<Longrightarrow> row_move e (release_exec_set env (stopped e) e)"
| revive: "je_status e = StatusDead \<Longrightarrow> row_move e (revive_set env e)"

text \<open>The key a row is created under: its fire instant or its request; a poll pass carries a fresh identifier.\<close>

definition key_shape :: "job_execution \<Rightarrow> bool" where
  "key_shape e =
     (case je_trigger_type e of
        TriggerCron \<Rightarrow> je_execution_key e = CronExecutionKey (je_job_name e) (je_scheduled_at e)
      | TriggerManual \<Rightarrow> je_request_id e \<noteq> None \<and>
          je_execution_key e = ExecutionKey ''m'' (je_job_name e) (coalesce_str (je_request_id e))
      | TriggerPoll \<Rightarrow> True)"

definition born :: "job_execution \<Rightarrow> bool" where
  "born e \<longleftrightarrow>
     je_status e = StatusReady \<and> je_attempt_no e = 0 \<and> je_recovery_count e = 0 \<and> je_fence_epoch e = 0 \<and>
     je_run_token e = None \<and> je_owner_instance e = None \<and> je_lease_until e = None \<and> je_timeout_at e = None \<and>
     1 \<le> je_max_attempts e \<and> (je_manual_first e \<longleftrightarrow> je_trigger_type e = TriggerManual) \<and>
     key_shape e"

lemmas move_set_defs = claim_exec_set_def defer_set_def expire_ready_set_def forbid_skip_set_def
  retire_ready_set_def accept_set_def retarget_set_def refuse_exec_set_def cancel_set_def renew_exec_set_def
  extend_deadline_set_def adopt_exec_set_def complete_set_def retry_set_def resolve_exec_set_def
  fence_exec_set_def release_exec_set_def revive_set_def charge_set_def

lemma charged_simps [simp]:
  "je_status (charged env h e) = je_status e" "je_job_name (charged env h e) = je_job_name e"
  "je_execution_key (charged env h e) = je_execution_key e" "je_run_token (charged env h e) = je_run_token e"
  "je_fence_epoch (charged env h e) = je_fence_epoch e" "je_id (charged env h e) = je_id e"
  "je_max_attempts (charged env h e) = je_max_attempts e" "je_timeout_at (charged env h e) = je_timeout_at e"
  "je_trigger_type (charged env h e) = je_trigger_type e" "je_request_id (charged env h e) = je_request_id e"
  "je_manual_first (charged env h e) = je_manual_first e" "je_recovery_count (charged env h e) = je_recovery_count e"
  by (simp_all add: charged_def charge_set_def)

lemma owns_exec_charged [simp]: "owns_exec i t n (charged env h e) = owns_exec i t n e"
  by (simp add: owns_exec_def)

lemma stopped_terminal [simp]: "Terminal (stopped e)"
  by (simp add: stopped_def)

lemma resolvedStatus_cases: "resolvedStatus v = StatusReady \<or> Terminal (resolvedStatus v)"
  by (simp add: resolvedStatus_def)

section \<open>What every row obeys\<close>

subsection \<open>Identity\<close>

definition same_execution :: "job_execution \<Rightarrow> job_execution \<Rightarrow> bool" where
  "same_execution e e' \<longleftrightarrow>
     je_id e' = je_id e \<and> je_execution_key e' = je_execution_key e \<and> je_job_name e' = je_job_name e \<and>
     je_trigger_type e' = je_trigger_type e \<and> je_request_id e' = je_request_id e \<and>
     je_scheduled_at e' = je_scheduled_at e \<and> je_params_json e' = je_params_json e"

lemma row_move_same: "row_move e e' \<Longrightarrow> same_execution e e'"
  by (induction rule: row_move.induct) (simp_all add: same_execution_def move_set_defs charged_def Let_def)

lemma row_moves_same: "row_move\<^sup>*\<^sup>* e e' \<Longrightarrow> same_execution e e'"
  by (induction rule: rtranclp_induct) (auto simp: same_execution_def dest!: row_move_same)

lemma row_moves_key_shape: "row_move\<^sup>*\<^sup>* e e' \<Longrightarrow> key_shape e \<Longrightarrow> key_shape e'"
  by (drule row_moves_same) (simp add: key_shape_def same_execution_def split: TriggerType.splits)

subsection \<open>Budgets\<close>

definition budget_ok :: "job_execution \<Rightarrow> bool" where
  "budget_ok e \<longleftrightarrow>
     0 \<le> je_attempt_no e \<and> je_attempt_no e \<le> je_max_attempts e \<and>
     (je_status e = StatusDispatching \<longrightarrow> je_attempt_no e < je_max_attempts e)"

lemma row_move_budget: "row_move e e' \<Longrightarrow> budget_ok e \<Longrightarrow> budget_ok e'"
proof (induction rule: row_move.induct)
  case (complete e o1 h env)
  then have "o_Status o1 \<noteq> StatusDispatching" by (cases "o_Status o1") auto
  with complete show ?case by (auto simp: budget_ok_def move_set_defs charged_def clipped_def)
next
  case (retry e h env o1 b)
  then show ?case by (auto simp: budget_ok_def move_set_defs charged_def Let_def)
next
  case (resolve e env b)
  then show ?case using resolvedStatus_cases [of "stale_of env e"] by (auto simp: budget_ok_def move_set_defs)
next
  case (fence e env reason k m)
  then show ?case by (auto simp: budget_ok_def move_set_defs stopped_def)
next
  case (release e env)
  then show ?case by (auto simp: budget_ok_def move_set_defs stopped_def)
qed (auto simp: budget_ok_def move_set_defs Let_def)

lemma row_moves_budget: "row_move\<^sup>*\<^sup>* e e' \<Longrightarrow> budget_ok e \<Longrightarrow> budget_ok e'"
  by (induction rule: rtranclp_induct) (auto dest: row_move_budget)

lemma born_budget: "born e \<Longrightarrow> budget_ok e"
  by (auto simp: born_def budget_ok_def)

subsection \<open>The state machine\<close>

text \<open>The edges of the state machine of \<^verbatim>\<open>src/doc/protocol.md\<close>, section 8, as the code takes them.\<close>

fun edge :: "Status \<Rightarrow> Status \<Rightarrow> bool" where
  "edge StatusReady s \<longleftrightarrow> s \<in> {StatusDispatching, StatusSkipped, StatusCancelled, StatusDead}"
| "edge StatusDispatching s \<longleftrightarrow> s \<noteq> StatusSkipped"
| "edge StatusRunning s \<longleftrightarrow> s \<notin> {StatusSkipped, StatusDispatching}"
| "edge StatusCancelRequested s \<longleftrightarrow> s \<in> {StatusSuccess, StatusDead, StatusReady, StatusCancelled}"
| "edge StatusDead s \<longleftrightarrow> s = StatusReady"
| "edge _ s \<longleftrightarrow> False"

definition outcome_statuses :: "Status set" where
  "outcome_statuses = {StatusSuccess, StatusDead, StatusCancelled}"

lemma row_move_terminal:
  "row_move e e' \<Longrightarrow> Terminal (je_status e) \<Longrightarrow>
   je_status e = StatusDead \<and> je_status e' = StatusReady \<and> je_max_attempts e' = je_attempt_no e + 1 \<and>
   je_attempt_no e' = je_attempt_no e"
  by (induction rule: row_move.induct) (auto simp: revive_set_def dest: terminal_not_in_flight)

lemma row_moves_final:
  assumes "row_move\<^sup>*\<^sup>* e e'" "Terminal (je_status e)" "je_status e \<noteq> StatusDead"
  shows "e' = e"
  using assms(1)
proof (cases rule: converse_rtranclpE)
  case (step y)
  with row_move_terminal [OF step(1) assms(2)] assms(3) show ?thesis by simp
qed simp

end
