(* ===== verification/Ownership.thy ===== *)
theory Ownership
  imports Gojob
begin

text \<open>
  The abstract specification of exclusive ownership, with nothing of the schema in it. A job has a
  lock: an epoch, and at most one holder naming an execution key and a hold (run token, lease and
  owner). An execution has a claim: its job, its key, and at most one hold with the epoch it was
  taken under. Eight steps change them, and the invariant \<open>own_ok\<close> says that lock and claim always
  agree. The operations of the store are shown to implement these steps.
\<close>

section \<open>Locks and claims\<close>

datatype hold = Hold (hd_token: "string option") (hd_lease: "time option") (hd_owner: "string option")

datatype lock = Lock (lk_epoch: int) (lk_holder: "(string option \<times> hold) option")

datatype claim = Claim_of (cl_job: string) (cl_key: string) (cl_hold: "(int \<times> hold) option")

record own =
  locks :: "string \<Rightarrow> lock option"
  claims :: "int \<Rightarrow> claim option"

section \<open>Steps\<close>

inductive own_step :: "own \<Rightarrow> own \<Rightarrow> bool" where
  stutter: "own_step a a"
| new_job: "locks a j = None \<Longrightarrow> own_step a (a\<lparr>locks := (locks a)(j \<mapsto> Lock 0 None)\<rparr>)"
| new_execution:
    "claims a i = None \<Longrightarrow> (\<And>i' c. claims a i' = Some c \<Longrightarrow> cl_key c \<noteq> k) \<Longrightarrow>
     own_step a (a\<lparr>claims := (claims a)(i \<mapsto> Claim_of j k None)\<rparr>)"
| forget:
    "claims a i = Some (Claim_of j k None) \<Longrightarrow> own_step a (a\<lparr>claims := (claims a)(i := None)\<rparr>)"
| acquire:
    "locks a j = Some (Lock n None) \<Longrightarrow> claims a i = Some (Claim_of j k None) \<Longrightarrow>
     own_step a (a\<lparr>locks := (locks a)(j \<mapsto> Lock (n + 1) (Some (Some k, h))),
                   claims := (claims a)(i \<mapsto> Claim_of j k (Some (n + 1, h)))\<rparr>)"
| renew:
    "locks a j = Some (Lock n (Some (ke, Hold t l w))) \<Longrightarrow>
     claims a i = Some (Claim_of j k (Some (n, Hold t l' w'))) \<Longrightarrow>
     own_step a (a\<lparr>locks := (locks a)(j \<mapsto> Lock n (Some (ke, Hold t l2 w))),
                   claims := (claims a)(i \<mapsto> Claim_of j k (Some (n, Hold t l2 w')))\<rparr>)"
| transfer:
    "locks a j = Some (Lock n (Some (ke, Hold t l w))) \<Longrightarrow>
     claims a i = Some (Claim_of j k (Some (n, Hold t l' w'))) \<Longrightarrow>
     own_step a (a\<lparr>locks := (locks a)(j \<mapsto> Lock (n + 1) (Some (ke, Hold t l2 w2))),
                   claims := (claims a)(i \<mapsto> Claim_of j k (Some (n + 1, Hold t l2 w2)))\<rparr>)"
| release:
    "locks a j = Some (Lock n (Some (ke, Hold t l w))) \<Longrightarrow>
     claims a i = Some (Claim_of j k (Some (n, Hold t l' w'))) \<Longrightarrow>
     own_step a (a\<lparr>locks := (locks a)(j \<mapsto> Lock n None),
                   claims := (claims a)(i \<mapsto> Claim_of j k None)\<rparr>)"

definition no_owner :: own where "no_owner = \<lparr>locks = Map.empty, claims = Map.empty\<rparr>"

section \<open>The invariant\<close>

definition claims_locked :: "own \<Rightarrow> bool" where
  "claims_locked a \<longleftrightarrow>
     (\<forall>i j k n h. claims a i = Some (Claim_of j k (Some (n, h))) \<longrightarrow> locks a j = Some (Lock n (Some (Some k, h))))"

definition locks_claimed :: "own \<Rightarrow> bool" where
  "locks_claimed a \<longleftrightarrow>
     (\<forall>j n k h. locks a j = Some (Lock n (Some (k, h))) \<longrightarrow>
        (\<exists>i k'. k = Some k' \<and> claims a i = Some (Claim_of j k' (Some (n, h)))))"

definition claim_keys_unique :: "own \<Rightarrow> bool" where
  "claim_keys_unique a \<longleftrightarrow>
     (\<forall>i i' c c'. claims a i = Some c \<longrightarrow> claims a i' = Some c' \<longrightarrow> cl_key c = cl_key c' \<longrightarrow> i = i')"

definition own_ok :: "own \<Rightarrow> bool" where
  "own_ok a \<longleftrightarrow> claims_locked a \<and> locks_claimed a \<and> claim_keys_unique a"

lemma claims_lockedD:
  "claims_locked a \<Longrightarrow> claims a i = Some (Claim_of j k (Some (n, h))) \<Longrightarrow> locks a j = Some (Lock n (Some (Some k, h)))"
  by (simp add: claims_locked_def)

lemma locks_claimedE:
  assumes "locks_claimed a" "locks a j = Some (Lock n (Some (k, h)))"
  obtains i k' where "k = Some k'" "claims a i = Some (Claim_of j k' (Some (n, h)))"
  using assms unfolding locks_claimed_def by blast

lemma claim_keys_uniqueD:
  "claim_keys_unique a \<Longrightarrow> claims a i = Some c \<Longrightarrow> claims a i' = Some c' \<Longrightarrow> cl_key c = cl_key c' \<Longrightarrow> i = i'"
  by (auto simp: claim_keys_unique_def)

lemma held_claim_unique:
  assumes "own_ok a" "claims a i = Some (Claim_of j k (Some h))" "claims a i' = Some (Claim_of j k' (Some h'))"
  shows "i = i'"
proof -
  obtain n d n' d' where hs: "h = (n, d)" "h' = (n', d')" by (cases h, cases h')
  have "locks a j = Some (Lock n (Some (Some k, d)))" "locks a j = Some (Lock n' (Some (Some k', d')))"
    using assms hs by (auto simp: own_ok_def intro: claims_lockedD)
  then have "k = k'" by simp
  with assms show ?thesis by (auto simp: own_ok_def dest: claim_keys_uniqueD)
qed

lemma holder_is_linked:
  assumes "own_ok a" "locks a j = Some (Lock n (Some (ke, h)))" "claims a i = Some (Claim_of j k (Some h'))"
  shows "ke = Some k \<and> h' = (n, h)"
  using assms by (cases h') (auto simp: own_ok_def dest: claims_lockedD)

lemma own_ok_init: "own_ok no_owner"
  by (simp add: own_ok_def no_owner_def claims_locked_def locks_claimed_def claim_keys_unique_def)

text \<open>Moving the linked pair of a lock and its claim together keeps the invariant.\<close>

lemma own_ok_moved:
  assumes ok: "own_ok a" and lock: "locks a j = Some (Lock n (Some (ke, h)))"
    and claim: "claims a i = Some (Claim_of j k (Some h0))"
    and new: "ho = None \<and> co = None \<or> (\<exists>h'. ho = Some (ke, h') \<and> co = Some (n', h'))"
  shows "own_ok (a\<lparr>locks := (locks a)(j \<mapsto> Lock n' ho), claims := (claims a)(i \<mapsto> Claim_of j k co)\<rparr>)"
proof -
  note link = holder_is_linked [OF ok lock claim]
  have other: "j' \<noteq> j" if "claims a i' = Some (Claim_of j' k' (Some c))" "i' \<noteq> i" for i' j' k' c
    using held_claim_unique [OF ok, of i j k h0 i' k' c] claim that by blast
  from ok have ok': "claims_locked a" "locks_claimed a" "claim_keys_unique a" by (simp_all add: own_ok_def)
  have "claims_locked (a\<lparr>locks := (locks a)(j \<mapsto> Lock n' ho), claims := (claims a)(i \<mapsto> Claim_of j k co)\<rparr>)"
    using new link by (auto simp: claims_locked_def dest: claims_lockedD [OF ok'(1)] other)
  moreover have "locks_claimed (a\<lparr>locks := (locks a)(j \<mapsto> Lock n' ho), claims := (claims a)(i \<mapsto> Claim_of j k co)\<rparr>)"
    unfolding locks_claimed_def
  proof (intro allI impI)
    fix j' m kk hh
    assume l: "locks (a\<lparr>locks := (locks a)(j \<mapsto> Lock n' ho), claims := (claims a)(i \<mapsto> Claim_of j k co)\<rparr>) j' =
        Some (Lock m (Some (kk, hh)))"
    show "\<exists>i' k'. kk = Some k' \<and>
        claims (a\<lparr>locks := (locks a)(j \<mapsto> Lock n' ho), claims := (claims a)(i \<mapsto> Claim_of j k co)\<rparr>) i' =
        Some (Claim_of j' k' (Some (m, hh)))"
    proof (cases "j' = j")
      case True
      with l new link show ?thesis by (intro exI [of _ i]) auto
    next
      case False
      with l obtain i' k' where "kk = Some k'" "claims a i' = Some (Claim_of j' k' (Some (m, hh)))"
        by (auto elim: locks_claimedE [OF ok'(2)])
      with False claim show ?thesis by (intro exI [of _ i'] exI [of _ k']) auto
    qed
  qed
  moreover have "claim_keys_unique (a\<lparr>locks := (locks a)(j \<mapsto> Lock n' ho), claims := (claims a)(i \<mapsto> Claim_of j k co)\<rparr>)"
    using claim by (auto simp: claim_keys_unique_def dest: claim_keys_uniqueD [OF ok'(3)])
  ultimately show ?thesis by (simp add: own_ok_def)
qed

lemma own_ok_acquired:
  assumes ok: "own_ok a" and lock: "locks a j = Some (Lock n None)" and claim: "claims a i = Some (Claim_of j k None)"
  shows "own_ok (a\<lparr>locks := (locks a)(j \<mapsto> Lock m (Some (Some k, h))), claims := (claims a)(i \<mapsto> Claim_of j k (Some (m, h)))\<rparr>)"
proof -
  from ok have ok': "claims_locked a" "locks_claimed a" "claim_keys_unique a" by (simp_all add: own_ok_def)
  have other: "j' \<noteq> j" if "claims a i' = Some (Claim_of j' k' (Some c))" for i' j' k' c
    using claims_lockedD [OF ok'(1), of i' j' k' "fst c" "snd c"] that lock by auto
  let ?b = "a\<lparr>locks := (locks a)(j \<mapsto> Lock m (Some (Some k, h))), claims := (claims a)(i \<mapsto> Claim_of j k (Some (m, h)))\<rparr>"
  have "claims_locked ?b"
    by (auto simp: claims_locked_def dest: claims_lockedD [OF ok'(1)] other)
  moreover have "locks_claimed ?b"
    unfolding locks_claimed_def
  proof (intro allI impI)
    fix j' m' kk hh
    assume l: "locks ?b j' = Some (Lock m' (Some (kk, hh)))"
    show "\<exists>i' k'. kk = Some k' \<and> claims ?b i' = Some (Claim_of j' k' (Some (m', hh)))"
    proof (cases "j' = j")
      case True
      with l show ?thesis by (intro exI [of _ i]) auto
    next
      case False
      with l obtain i' k' where "kk = Some k'" "claims a i' = Some (Claim_of j' k' (Some (m', hh)))"
        by (auto elim: locks_claimedE [OF ok'(2)])
      with False claim show ?thesis by (intro exI [of _ i'] exI [of _ k']) auto
    qed
  qed
  moreover have "claim_keys_unique ?b"
    using claim by (auto simp: claim_keys_unique_def dest: claim_keys_uniqueD [OF ok'(3)])
  ultimately show ?thesis by (simp add: own_ok_def)
qed

text \<open>A claim nobody holds may come and go.\<close>

lemma own_ok_unheld:
  assumes ok: "own_ok a" and free: "\<And>j k h. claims a i \<noteq> Some (Claim_of j k (Some h))"
    and new: "c = None \<or> (\<exists>j k. c = Some (Claim_of j k None) \<and> (\<forall>i' c'. i' \<noteq> i \<longrightarrow> claims a i' = Some c' \<longrightarrow> cl_key c' \<noteq> k))"
  shows "own_ok (a\<lparr>claims := (claims a)(i := c)\<rparr>)"
proof -
  from ok have ok': "claims_locked a" "locks_claimed a" "claim_keys_unique a" by (simp_all add: own_ok_def)
  have "claims_locked (a\<lparr>claims := (claims a)(i := c)\<rparr>)"
    using new by (auto simp: claims_locked_def dest: claims_lockedD [OF ok'(1)])
  moreover have "locks_claimed (a\<lparr>claims := (claims a)(i := c)\<rparr>)"
    unfolding locks_claimed_def
  proof (intro allI impI)
    fix j n k h
    assume "locks (a\<lparr>claims := (claims a)(i := c)\<rparr>) j = Some (Lock n (Some (k, h)))"
    then obtain i' k' where "k = Some k'" "claims a i' = Some (Claim_of j k' (Some (n, h)))"
      by (auto elim: locks_claimedE [OF ok'(2)])
    with free show "\<exists>i' k'. k = Some k' \<and> claims (a\<lparr>claims := (claims a)(i := c)\<rparr>) i' = Some (Claim_of j k' (Some (n, h)))"
      by (intro exI [of _ i'] exI [of _ k']) auto
  qed
  moreover have "claim_keys_unique (a\<lparr>claims := (claims a)(i := c)\<rparr>)"
    using new by (auto simp: claim_keys_unique_def dest: claim_keys_uniqueD [OF ok'(3)])
  ultimately show ?thesis by (simp add: own_ok_def)
qed

lemma own_step_ok: "own_step a b \<Longrightarrow> own_ok a \<Longrightarrow> own_ok b"
proof (induction rule: own_step.induct)
  case (new_job a j)
  then show ?case
    by (auto simp: own_ok_def claims_locked_def locks_claimed_def claim_keys_unique_def)
next
  case (new_execution a i k j)
  then show ?case by (intro own_ok_unheld) auto
next
  case (forget a i j k)
  then show ?case by (intro own_ok_unheld) auto
next
  case (acquire a j n i k h)
  then show ?case by (intro own_ok_acquired)
next
  case (renew a j n ke t l w i k l' w' l2)
  from holder_is_linked [OF renew(3,1,2)] have "w' = w" by simp
  then show ?case by (intro own_ok_moved [OF renew(3,1,2)]) simp
next
  case (transfer a j n ke t l w i k l' w' l2 w2)
  show ?case by (intro own_ok_moved [OF transfer(3,1,2)]) simp
next
  case (release a j n ke t l w i k l' w')
  show ?case by (intro own_ok_moved [OF release(3,1,2)]) simp
qed auto

lemma own_steps_ok: "own_step\<^sup>*\<^sup>* a b \<Longrightarrow> own_ok a \<Longrightarrow> own_ok b"
  by (induction rule: rtranclp_induct) (auto intro: own_step_ok)

section \<open>Fencing\<close>

text \<open>
  An attempt that knows a token and an epoch owns the job when the lock carries both. Epochs only
  grow, and a lock takes a holder only by moving to a fresh epoch; so an attempt that does not own
  the job at an epoch the lock has reached never owns it again.
\<close>

definition owns_lock :: "own \<Rightarrow> string \<Rightarrow> string \<Rightarrow> int \<Rightarrow> bool" where
  "owns_lock a j t n \<longleftrightarrow> (\<exists>ke l w. locks a j = Some (Lock n (Some (ke, Hold (Some t) l w))))"

definition reached :: "own \<Rightarrow> string \<Rightarrow> int \<Rightarrow> bool" where
  "reached a j n \<longleftrightarrow> (\<exists>m h. locks a j = Some (Lock m h) \<and> n \<le> m)"

lemma own_step_fenced:
  "own_step a b \<Longrightarrow> reached a j n \<Longrightarrow> \<not> owns_lock a j t n \<Longrightarrow> reached b j n \<and> \<not> owns_lock b j t n"
  by (induction rule: own_step.induct) (auto simp: reached_def owns_lock_def)

lemma own_steps_fenced:
  "own_step\<^sup>*\<^sup>* a b \<Longrightarrow> reached a j n \<Longrightarrow> \<not> owns_lock a j t n \<Longrightarrow> reached b j n \<and> \<not> owns_lock b j t n"
  by (induction rule: rtranclp_induct) (auto dest: own_step_fenced)

lemma own_step_epoch: "own_step a b \<Longrightarrow> reached a j n \<Longrightarrow> reached b j n"
  by (induction rule: own_step.induct) (auto simp: reached_def)

lemma own_steps_epoch: "own_step\<^sup>*\<^sup>* a b \<Longrightarrow> reached a j n \<Longrightarrow> reached b j n"
  by (induction rule: rtranclp_induct) (auto intro: own_step_epoch)

section \<open>Implementations\<close>

text \<open>
  What a concrete system owes to implement the specification, and what it gets for it: its runs are
  runs of the specification, so everything shown of those holds of it.
\<close>

locale ownership_refinement =
  fixes step :: "'s \<Rightarrow> 's \<Rightarrow> bool" and inv :: "'s \<Rightarrow> bool" and abs :: "'s \<Rightarrow> own"
  assumes inv_step: "inv s \<Longrightarrow> step s s' \<Longrightarrow> inv s'"
    and simulates: "inv s \<Longrightarrow> own_ok (abs s) \<Longrightarrow> step s s' \<Longrightarrow> own_step\<^sup>*\<^sup>* (abs s) (abs s')"
begin

lemma run:
  "step\<^sup>*\<^sup>* s s' \<Longrightarrow> inv s \<Longrightarrow> own_ok (abs s) \<Longrightarrow>
   inv s' \<and> own_ok (abs s') \<and> own_step\<^sup>*\<^sup>* (abs s) (abs s')"
proof (induction rule: rtranclp_induct)
  case (step y z)
  then have "own_step\<^sup>*\<^sup>* (abs y) (abs z)" by (blast intro: simulates)
  with step show ?case by (meson inv_step own_steps_ok rtranclp_trans)
qed auto

lemma run_fenced:
  assumes "step\<^sup>*\<^sup>* s s'" "inv s" "own_ok (abs s)" "reached (abs s) j n" "\<not> owns_lock (abs s) j t n"
  shows "\<not> owns_lock (abs s') j t n"
  using run [OF assms(1-3)] own_steps_fenced assms(4,5) by blast

end

end
