(* ===== verification/Releases.thy ===== *)
theory Releases
  imports Rows Ownership
begin

text \<open>
  The abstraction from a database to its locks and claims, and the contract shared by the seven
  transactions that end an attempt's ownership: \<open>Complete\<close>, \<open>Retry\<close>, \<open>Refuse\<close>, \<open>Resolve\<close>,
  \<open>FenceTimedOut\<close>, \<open>ExpireSilent\<close> and \<open>ReleaseAsOwner\<close>.
\<close>

section \<open>Abstraction\<close>

definition abs_lock :: "job_state \<Rightarrow> lock" where
  "abs_lock s =
     Lock (js_fence_epoch s)
       (if js_active_kind s
        then Some (js_active_execution s, Hold (js_active_run_token s) (js_lease_until s) (js_active_owner s))
        else None)"

definition abs_claim :: "job_execution \<Rightarrow> claim" where
  "abs_claim e =
     Claim_of (je_job_name e) (je_execution_key e)
       (if in_flight (je_status e)
        then Some (je_fence_epoch e, Hold (je_run_token e) (je_lease_until e) (je_owner_instance e))
        else None)"

definition abs_db :: "db \<Rightarrow> own" where
  "abs_db db = \<lparr>locks = map_option abs_lock \<circ> state_row db, claims = map_option abs_claim \<circ> exec_row db\<rparr>"

text \<open>
  A state row has a run token exactly while it is held, and every definition satisfies the CHECK
  constraints.
\<close>

definition wf_state :: "job_state \<Rightarrow> bool" where
  "wf_state s \<longleftrightarrow> (js_active_kind s \<longleftrightarrow> js_active_run_token s \<noteq> None)"

definition wf_db :: "db \<Rightarrow> bool" where
  "wf_db db \<longleftrightarrow>
     keys_ok db \<and> (\<forall>j s. state_row db j = Some s \<longrightarrow> wf_state s) \<and> (\<forall>d \<in> set (defs db). checks_ok d)"

lemma wf_dbD: "wf_db db \<Longrightarrow> keys_ok db" "wf_db db \<Longrightarrow> state_row db j = Some s \<Longrightarrow> wf_state s"
  by (simp_all add: wf_db_def)

lemma locks_abs [simp]: "locks (abs_db db) j = map_option abs_lock (state_row db j)"
  by (simp add: abs_db_def)

lemma claims_abs [simp]: "claims (abs_db db) i = map_option abs_claim (exec_row db i)"
  by (simp add: abs_db_def)

lemma abs_db_eqI:
  assumes "state_row db' = S" "exec_row db' = X"
    and "map_option abs_lock \<circ> S = L" "map_option abs_claim \<circ> X = C"
  shows "abs_db db' = \<lparr>locks = L, claims = C\<rparr>"
  using assms by (simp add: abs_db_def)

lemma map_option_comp_upd: "map_option f \<circ> m(k \<mapsto> v) = (map_option f \<circ> m)(k \<mapsto> f v)"
  by (rule ext) simp

section \<open>What the helpers leave alone\<close>

definition lets_go :: "job_state \<Rightarrow> job_state \<Rightarrow> bool" where
  "lets_go s s' \<longleftrightarrow> \<not> js_active_kind s' \<and> js_active_run_token s' = None \<and> js_fence_epoch s' = js_fence_epoch s"

definition gives_up :: "job_execution \<Rightarrow> job_execution \<Rightarrow> bool" where
  "gives_up e e' \<longleftrightarrow>
     row_move e e' \<and> \<not> in_flight (je_status e') \<and> je_job_name e' = je_job_name e \<and>
     je_execution_key e' = je_execution_key e"

text \<open>
  \<open>settles env d e s s'\<close>: under definition \<open>d\<close>, ending execution \<open>e\<close> takes state row \<open>s\<close> to \<open>s'\<close>. The
  poll clock restarts, one delay from now, exactly when the execution is a terminal pass of this
  fixed-delay job.
\<close>

definition settles :: "env \<Rightarrow> Definition \<Rightarrow> job_execution \<Rightarrow> job_state \<Rightarrow> job_state \<Rightarrow> bool" where
  "settles env d e s s' \<longleftrightarrow>
     (if d_ScheduleKind d = ScheduleFixedDelay
      then \<exists>del. Delay d = Inr del \<and>
        s' = (if je_job_name e = js_job_name s \<and> je_trigger_type e = TriggerPoll \<and> Terminal (je_status e)
              then settle_poll_set env del s else s)
      else s' = s)"

lemma settles_lets_go: "settles env d e s s' \<Longrightarrow> lets_go s0 s \<Longrightarrow> lets_go s0 s'"
  by (auto simp: settles_def lets_go_def settle_poll_set_def split: if_splits)

lemma ended_pass_row:
  assumes "keys_ok db" "exec_row db i = Some e"
  shows "ended_pass db i j \<longleftrightarrow> je_job_name e = j \<and> je_trigger_type e = TriggerPoll \<and> Terminal (je_status e)"
proof -
  have "e \<in> set (execs db)" "je_id e = i" using row_of_Some [OF assms(2)] by simp_all
  moreover have "e' = e" if "e' \<in> set (execs db)" "je_id e' = i" for e'
    using exec_row_mem [OF assms(1) that(1)] that(2) assms(2) by simp
  ultimately show ?thesis unfolding ended_pass_def list_ex_iff by blast
qed

lemma settleE:
  assumes settle: "settlePollClock env h db = Inr db'" and ok: "keys_ok db"
    and rows: "state_row db (h_JobName h) = Some s" "exec_row db (h_ExecutionID h) = Some e"
  obtains d s' where "readDefinition db (h_JobName h) = Inr d"
    "state_row db' = (state_row db)(h_JobName h \<mapsto> s')" "settles env d e s s'"
    "execs db' = execs db" "keys_ok db'" "defs db' = defs db" "attempts db' = attempts db"
    "next_id db' = next_id db"
proof -
  from settle obtain d where d: "readDefinition db (h_JobName h) = Inr d"
    by (auto simp: settlePollClock_def)
  have job: "js_job_name s = h_JobName h" using rows(1) by (auto dest: row_of_Some)
  show thesis
  proof (cases "d_ScheduleKind d = ScheduleFixedDelay")
    case False
    with settle d have "db' = db" by (simp add: settlePollClock_def)
    with False rows ok d show thesis by (intro that [of d s]) (auto simp: settles_def)
  next
    case True
    with settle d obtain del where del: "Delay d = Inr del" and upd: "assertAtMostOne
         (update_state (\<lambda>s. js_job_name s = h_JobName h \<and> ended_pass db (h_ExecutionID h) (js_job_name s))
                       (settle_poll_set env del) db) = Inr db'"
      by (auto simp: settlePollClock_def)
    show thesis
    proof (rule settle_poll.atMostOneE [OF upd ok])
      show "js_job_name s = h_JobName h"
        if "js_job_name s = h_JobName h \<and> ended_pass db (h_ExecutionID h) (js_job_name s)" for s
        using that by simp
    next
      assume "db' = db" "\<And>s. state_row db (h_JobName h) = Some s \<Longrightarrow>
        \<not> (js_job_name s = h_JobName h \<and> ended_pass db (h_ExecutionID h) (js_job_name s))"
      with True rows ok d del job show thesis
        by (intro that [of d s]) (auto simp: settles_def ended_pass_row)
    next
      fix s0
      assume "state_row db (h_JobName h) = Some s0"
        and "js_job_name s0 = h_JobName h \<and> ended_pass db (h_ExecutionID h) (js_job_name s0)"
        and "db' = db\<lparr>states := sql_update (\<lambda>s. js_job_name s = h_JobName h \<and>
               ended_pass db (h_ExecutionID h) (js_job_name s)) (settle_poll_set env del) (states db)\<rparr>"
        and "state_row db' = (state_row db)(h_JobName h \<mapsto> settle_poll_set env del s0)" "keys_ok db'"
      with True rows ok d del job show thesis
        by (intro that [of d "settle_poll_set env del s"]) (auto simp: settles_def ended_pass_row)
    qed
  qed
qed

lemma chargeE:
  assumes "chargeUnacceptedAttempt env h db = Inr db'" "keys_ok db"
  shows "exec_row db' = (exec_row db)(h_ExecutionID h := map_option (charged env h) (exec_row db (h_ExecutionID h)))"
    "states db' = states db" "keys_ok db'" "defs db' = defs db" "attempts db' = attempts db" "next_id db' = next_id db"
proof -
  have "exec_row db' = (exec_row db)(h_ExecutionID h := map_option (charged env h) (exec_row db (h_ExecutionID h))) \<and>
    states db' = states db \<and> keys_ok db' \<and> defs db' = defs db \<and> attempts db' = attempts db \<and> next_id db' = next_id db"
  proof (rule charge.atMostOneE [OF assms(1) [unfolded chargeUnacceptedAttempt_def] assms(2)])
    show "je_id e = h_ExecutionID h"
      if "owns_exec (h_ExecutionID h) (h_RunToken h) (h_FenceEpoch h) e \<and> je_status e = StatusDispatching" for e
      using that by (simp add: owns_exec_def)
  next
    assume "db' = db" and no: "\<And>e. exec_row db (h_ExecutionID h) = Some e \<Longrightarrow>
        \<not> (owns_exec (h_ExecutionID h) (h_RunToken h) (h_FenceEpoch h) e \<and> je_status e = StatusDispatching)"
    with assms show ?thesis
      by (cases "exec_row db (h_ExecutionID h)") (auto simp: charged_def fun_upd_idem)
  qed (auto simp: charged_def)
  then show "exec_row db' = (exec_row db)(h_ExecutionID h := map_option (charged env h) (exec_row db (h_ExecutionID h)))"
    "states db' = states db" "keys_ok db'" "defs db' = defs db" "attempts db' = attempts db" "next_id db' = next_id db" by blast+
qed

lemma recordE:
  assumes "recordAttempt env h o1 db = Inr db'" "keys_ok db"
  shows "states db' = states db" "execs db' = execs db" "keys_ok db'" "defs db' = defs db" "next_id db' = next_id db"
  using assms by (auto simp: recordAttempt_def db_key_defs row_of_None attempt_of_def
      split: option.splits if_splits)

lemma releaseE:
  assumes "releaseJobLock env h b db = Inr db'" "keys_ok db"
  obtains s where "state_row db (h_JobName h) = Some s" "holds_lock (h_JobName h) (h_RunToken h) (h_FenceEpoch h) s"
    "state_row db' = (state_row db)(h_JobName h \<mapsto> release_lock_set env b s)"
    "execs db' = execs db" "keys_ok db'" "defs db' = defs db" "attempts db' = attempts db" "next_id db' = next_id db"
  by (rule release_lock.someE [OF assms(1) [unfolded releaseJobLock_def] assms(2), of "h_JobName h"])
     (auto intro: that simp: holds_lock_def)

section \<open>The contract of a release\<close>

text \<open>
  \<open>op\<close> is a transaction run by, or against, the attempt that holds job \<open>j\<close> through execution \<open>i\<close>
  with token \<open>t\<close> at epoch \<open>n\<close>. When it commits, the two rows were that attempt's and both have let
  go of it, the epoch of the lock is unchanged, and no other row of either table has moved.
\<close>

definition given_up :: "db \<Rightarrow> string \<Rightarrow> int \<Rightarrow> string \<Rightarrow> int \<Rightarrow> db \<Rightarrow> bool" where
  "given_up db j i t n db' \<longleftrightarrow>
     (\<exists>s e s' e'. state_row db j = Some s \<and> holds_lock j t n s \<and>
       exec_row db i = Some e \<and> owns_exec i t n e \<and> in_flight (je_status e) \<and>
       state_row db' = (state_row db)(j \<mapsto> s') \<and> lets_go s s' \<and>
       exec_row db' = (exec_row db)(i \<mapsto> e') \<and> gives_up e e' \<and> keys_ok db' \<and>
       defs db' = defs db \<and> next_id db' = next_id db)"

locale lock_releaser =
  fixes op :: "db \<Rightarrow> db result" and j :: string and i :: int and t :: string and n :: int
  assumes released: "op db = Inr db' \<Longrightarrow> keys_ok db \<Longrightarrow> given_up db j i t n db'"
begin

lemma wf_after: "op db = Inr db' \<Longrightarrow> wf_db db \<Longrightarrow> wf_db db'"
  using released [of db db'] by (auto simp: given_up_def wf_db_def lets_go_def wf_state_def split: if_splits)

lemma release_step:
  assumes "op db = Inr db'" "wf_db db" "\<And>e. exec_row db i = Some e \<Longrightarrow> je_job_name e = j"
  shows "own_step (abs_db db) (abs_db db')"
proof -
  from released [OF assms(1)] assms(2) obtain s e s' e' where rows:
    "state_row db j = Some s" "holds_lock j t n s" "exec_row db i = Some e" "owns_exec i t n e"
    "in_flight (je_status e)" "state_row db' = (state_row db)(j \<mapsto> s')" "lets_go s s'"
    "exec_row db' = (exec_row db)(i \<mapsto> e')" "gives_up e e'"
    by (auto simp: wf_db_def given_up_def)
  have "wf_state s" using assms(2) rows(1) by (rule wf_dbD)
  with rows have "js_active_kind s" by (simp add: wf_state_def holds_lock_def)
  have "own_step (abs_db db)
     ((abs_db db)\<lparr>locks := (locks (abs_db db))(j \<mapsto> Lock n None),
                  claims := (claims (abs_db db))(i \<mapsto> Claim_of j (je_execution_key e) None)\<rparr>)"
    by (rule own_step.release)
       (use rows assms(3) \<open>js_active_kind s\<close> in \<open>auto simp: abs_lock_def abs_claim_def holds_lock_def owns_exec_def\<close>)
  moreover have "abs_db db' = (abs_db db)\<lparr>locks := (locks (abs_db db))(j \<mapsto> Lock n None),
                  claims := (claims (abs_db db))(i \<mapsto> Claim_of j (je_execution_key e) None)\<rparr>"
    using rows assms(3)
    by (auto simp: abs_db_def map_option_comp_upd abs_lock_def abs_claim_def lets_go_def gives_up_def holds_lock_def
        intro!: ext)
  ultimately show ?thesis by simp
qed

lemma releases_lock:
  assumes "op db = Inr db'" "keys_ok db"
  shows "\<exists>s. state_row db' j = Some s \<and> \<not> Held s \<and> js_fence_epoch s = n"
    and "\<exists>e. exec_row db' i = Some e \<and> \<not> in_flight (je_status e)"
  using released [OF assms] by (auto simp: given_up_def lets_go_def gives_up_def Held_def holds_lock_def)

lemma fenced_fails:
  assumes "keys_ok db" "\<And>s. state_row db j = Some s \<Longrightarrow> \<not> holds_lock j t n s"
  shows "\<exists>err. op db = Inl err"
  using released [of db] assms by (cases "op db") (auto simp: given_up_def)

lemma others_kept:
  assumes "op db = Inr db'" "keys_ok db"
  shows "j' \<noteq> j \<Longrightarrow> state_row db' j' = state_row db j'" and "i' \<noteq> i \<Longrightarrow> exec_row db' i' = exec_row db i'"
  using released [OF assms] by (auto simp: given_up_def)

end

section \<open>The seven releases\<close>

text \<open>
  The tail the releases share: the landing write of the execution, the attempt history, the poll
  clock.
\<close>

lemma finishE:
  assumes upd: "assertOne (update_exec P f db1) = Inr db2 \<or> assertSome err (update_exec P f db1) = Inr db2"
    and wr: "exec_write f" and ok: "keys_ok db1" and at: "\<And>e. P e \<Longrightarrow> je_id e = h_ExecutionID h"
    and tail: "recordAttempt env h o1 db2 = Inr db3" "settlePollClock env h db3 = Inr db'"
    and row: "state_row db1 (h_JobName h) = Some s1"
  obtains e d s' where "exec_row db1 (h_ExecutionID h) = Some e" "P e"
    "exec_row db' = (exec_row db1)(h_ExecutionID h \<mapsto> f e)"
    "state_row db' = (state_row db1)(h_JobName h \<mapsto> s')" "readDefinition db1 (h_JobName h) = Inr d"
    "settles env d (f e) s1 s'" "keys_ok db'" "defs db' = defs db1" "next_id db' = next_id db1"
proof -
  obtain e where e: "exec_row db1 (h_ExecutionID h) = Some e" "P e"
    "db2 = db1\<lparr>execs := sql_update P f (execs db1)\<rparr>"
    "exec_row db2 = (exec_row db1)(h_ExecutionID h \<mapsto> f e)" "keys_ok db2"
    using upd
  proof
    assume "assertOne (update_exec P f db1) = Inr db2"
    then show thesis by (rule exec_write.oneE [OF wr _ ok at]) (assumption | rule that)+
  next
    assume "assertSome err (update_exec P f db1) = Inr db2"
    then show thesis by (rule exec_write.someE [OF wr _ ok at]) (assumption | rule that)+
  qed
  note r = recordE [OF tail(1) e(5)]
  have "state_row db3 (h_JobName h) = Some s1" "exec_row db3 (h_ExecutionID h) = Some (f e)"
    using r e row by simp_all
  then show thesis
    by (rule settleE [OF tail(2) r(3)])
       (use r e that in \<open>auto simp: readDefinition_def\<close>)
qed

definition ended ::
  "env \<Rightarrow> db \<Rightarrow> string \<Rightarrow> int \<Rightarrow> string \<Rightarrow> int \<Rightarrow> (job_state \<Rightarrow> job_state) \<Rightarrow> (job_execution \<Rightarrow> job_execution) \<Rightarrow>
   (job_execution \<Rightarrow> bool) \<Rightarrow> db \<Rightarrow> bool" where
  "ended env db j i t n setl sete Q db' \<longleftrightarrow>
     (\<exists>s e d s'. state_row db j = Some s \<and> holds_lock j t n s \<and>
       exec_row db i = Some e \<and> owns_exec i t n e \<and> in_flight (je_status e) \<and> Q e \<and>
       readDefinition db j = Inr d \<and> settles env d (sete e) (setl s) s' \<and>
       state_row db' = (state_row db)(j \<mapsto> s') \<and>
       exec_row db' = (exec_row db)(i \<mapsto> sete e) \<and> keys_ok db' \<and> defs db' = defs db \<and> next_id db' = next_id db)"

text \<open>
  \<open>ended\<close> is the effect of a release in full: the rows it required, and the rows it left, with the
  assignments \<open>setl\<close> to the lock and \<open>sete\<close> to the execution. It gives the contract of a release.
\<close>

lemma ended_released:
  assumes "ended env db j i t n setl sete Q db'"
    and "\<And>s. lets_go s (setl s)"
    and "\<And>e. exec_row db i = Some e \<Longrightarrow> Q e \<Longrightarrow> in_flight (je_status e) \<Longrightarrow> owns_exec i t n e \<Longrightarrow> gives_up e (sete e)"
  shows "given_up db j i t n db'"
  using assms unfolding ended_def given_up_def by (blast intro: settles_lets_go)

lemma lets_go_sets:
  "lets_go s (release_lock_set env b s)" "lets_go s (resolve_lock_set env s)" "lets_go s (refuse_lock_set env s)"
  by (simp_all add: lets_go_def release_lock_set_def resolve_lock_set_def refuse_lock_set_def)

lemma charged_finish:
  assumes steps: "releaseJobLock env h b db = Inr db1" "chargeUnacceptedAttempt env h db1 = Inr db2"
      "assertSome err (update_exec (\<lambda>e. owns_exec (h_ExecutionID h) (h_RunToken h) (h_FenceEpoch h) e \<and>
          in_flight (je_status e) \<and> within_cap env e) f db2) = Inr db3"
      "recordAttempt env h o1 db3 = Inr db4" "settlePollClock env h db4 = Inr db'"
    and wr: "exec_write f" and ok: "keys_ok db"
  shows "ended env db (h_JobName h) (h_ExecutionID h) (h_RunToken h) (h_FenceEpoch h)
    (release_lock_set env b) (\<lambda>e. f (charged env h e)) (within_cap env) db'"
proof -
  from steps(1) ok obtain s where lock: "state_row db (h_JobName h) = Some s"
    "holds_lock (h_JobName h) (h_RunToken h) (h_FenceEpoch h) s"
    "state_row db1 = (state_row db)(h_JobName h \<mapsto> release_lock_set env b s)"
    "execs db1 = execs db" "keys_ok db1" "defs db1 = defs db" "next_id db1 = next_id db"
    by (rule releaseE)
  note ch = chargeE [OF steps(2) lock(5)]
  obtain e2 d s' where fin: "exec_row db2 (h_ExecutionID h) = Some e2"
    "owns_exec (h_ExecutionID h) (h_RunToken h) (h_FenceEpoch h) e2 \<and> in_flight (je_status e2) \<and> within_cap env e2"
    "exec_row db' = (exec_row db2)(h_ExecutionID h \<mapsto> f e2)"
    "state_row db' = (state_row db2)(h_JobName h \<mapsto> s')" "readDefinition db2 (h_JobName h) = Inr d"
    "settles env d (f e2) (release_lock_set env b s) s'" "keys_ok db'" "defs db' = defs db2" "next_id db' = next_id db2"
    by (rule finishE [OF disjI2 [OF steps(3)] wr ch(3) _ steps(4,5)])
       (auto simp: owns_exec_def ch(2) lock(3))
  from lock(4) ch(1) fin(1) obtain e where e: "exec_row db (h_ExecutionID h) = Some e" "e2 = charged env h e"
    by auto
  have "within_cap env e" using fin(2) e by (auto simp: within_cap_def charged_def charge_set_def split: if_splits)
  moreover have "exec_row db' = (exec_row db)(h_ExecutionID h \<mapsto> f (charged env h e))"
    by (simp add: fin(3) ch(1) lock(4) e)
  moreover have "state_row db' = (state_row db)(h_JobName h \<mapsto> s')" by (simp add: fin(4) ch(2) lock(3))
  moreover have "readDefinition db (h_JobName h) = Inr d" using fin(5) ch(4) lock(6) by (simp add: readDefinition_def)
  ultimately show ?thesis unfolding ended_def using lock(1,2,6,7) e fin(2,6-9) ch(4,6) by auto
qed

lemma plain_finish:
  assumes lock: "state_row db (h_JobName h) = Some s" "holds_lock (h_JobName h) (h_RunToken h) (h_FenceEpoch h) s"
      "state_row db1 = (state_row db)(h_JobName h \<mapsto> setl s)" "execs db1 = execs db" "defs db1 = defs db" "keys_ok db1" "next_id db1 = next_id db"
    and steps: "assertOne (update_exec P f db1) = Inr db2"
      "recordAttempt env h o1 db2 = Inr db3" "settlePollClock env h db3 = Inr db'"
    and wr: "exec_write f"
    and P: "\<And>e. P e \<Longrightarrow> owns_exec (h_ExecutionID h) (h_RunToken h) (h_FenceEpoch h) e \<and> in_flight (je_status e)"
  shows "ended env db (h_JobName h) (h_ExecutionID h) (h_RunToken h) (h_FenceEpoch h) setl f P db'"
proof -
  obtain e d s' where "exec_row db1 (h_ExecutionID h) = Some e" "P e"
    "exec_row db' = (exec_row db1)(h_ExecutionID h \<mapsto> f e)"
    "state_row db' = (state_row db1)(h_JobName h \<mapsto> s')" "readDefinition db1 (h_JobName h) = Inr d"
    "settles env d (f e) (setl s) s'" "keys_ok db'" "defs db' = defs db1" "next_id db' = next_id db1"
    by (rule finishE [OF disjI1 [OF steps(1)] wr lock(6) _ steps(2,3)])
       (use P lock(3) in \<open>auto simp: owns_exec_def\<close>)
  with lock P show ?thesis unfolding ended_def by (auto simp: readDefinition_def)
qed

lemma gives_up_sets:
  "in_flight (je_status e) \<Longrightarrow> owns_exec (h_ExecutionID h) (h_RunToken h) (h_FenceEpoch h) e \<Longrightarrow> Terminal (o_Status o0) \<Longrightarrow>
   gives_up e (complete_set env (clipped o0) (charged env h e))"
  "in_flight (je_status e) \<Longrightarrow> owns_exec (h_ExecutionID h) (h_RunToken h) (h_FenceEpoch h) e \<Longrightarrow>
   gives_up e (retry_set env o1 b (charged env h e))"
  "in_flight (je_status e) \<Longrightarrow>
   gives_up e (resolve_exec_set env (resolvedStatus (stale_of env e)) (resolved_reason (stale_of env e)) b e)"
  "in_flight (je_status e) \<Longrightarrow> gives_up e (fence_exec_set env (stopped e) reason k m e)"
  "in_flight (je_status e) \<Longrightarrow> gives_up e (release_exec_set env (stopped e) e)"
  "je_status e = StatusDispatching \<Longrightarrow> gives_up e (refuse_exec_set env b e)"
  using resolvedStatus_cases [of "stale_of env e"]
  by (auto simp: gives_up_def row_move.intros)
     (auto simp: complete_set_def clipped_def retry_set_def resolve_exec_set_def fence_exec_set_def
      release_exec_set_def refuse_exec_set_def Let_def terminal_not_in_flight split: if_splits)

subsection \<open>Complete and Retry\<close>

lemma Complete_ended:
  assumes "Complete env h o0 db = Inr db'" "keys_ok db"
  shows "Terminal (o_Status o0)"
    and "ended env db (h_JobName h) (h_ExecutionID h) (h_RunToken h) (h_FenceEpoch h)
      (release_lock_set env (o_Status o0 = StatusSuccess)) (\<lambda>e. complete_set env (clipped o0) (charged env h e))
      (within_cap env) db'"
proof -
  have oc: "o_Status (clipped o0) = o_Status o0" by (simp add: clipped_def)
  show "Terminal (o_Status o0)" using assms(1) by (auto simp: Complete_def split: if_splits)
  then obtain db1 db2 db3 db4 where
    "releaseJobLock env h (o_Status o0 = StatusSuccess) db = Inr db1" "chargeUnacceptedAttempt env h db1 = Inr db2"
    "assertSome ErrFenced (update_exec (\<lambda>e. owns_exec (h_ExecutionID h) (h_RunToken h) (h_FenceEpoch h) e \<and>
        in_flight (je_status e) \<and> within_cap env e) (complete_set env (clipped o0)) db2) = Inr db3"
    "recordAttempt env h (clipped o0) db3 = Inr db4" "settlePollClock env h db4 = Inr db'"
    using assms(1) by (auto simp: Complete_def Let_def oc)
  then show "ended env db (h_JobName h) (h_ExecutionID h) (h_RunToken h) (h_FenceEpoch h)
      (release_lock_set env (o_Status o0 = StatusSuccess)) (\<lambda>e. complete_set env (clipped o0) (charged env h e))
      (within_cap env) db'"
    by (rule charged_finish [OF _ _ _ _ _ complete.exec_write_axioms assms(2)])
qed

lemma Retry_ended:
  assumes "Retry env h o0 b db = Inr db'" "keys_ok db"
  shows "ended env db (h_JobName h) (h_ExecutionID h) (h_RunToken h) (h_FenceEpoch h)
    (release_lock_set env False) (\<lambda>e. retry_set env (clipped o0) b (charged env h e)) (within_cap env) db'"
proof -
  from assms(1) obtain db1 db2 db3 db4 where
    "releaseJobLock env h False db = Inr db1" "chargeUnacceptedAttempt env h db1 = Inr db2"
    "assertSome ErrFenced (update_exec (\<lambda>e. owns_exec (h_ExecutionID h) (h_RunToken h) (h_FenceEpoch h) e \<and>
        in_flight (je_status e) \<and> within_cap env e) (retry_set env (clipped o0) b) db2) = Inr db3"
    "recordAttempt env h (clipped o0) db3 = Inr db4" "settlePollClock env h db4 = Inr db'"
    by (auto simp: Retry_def Let_def)
  then show ?thesis by (rule charged_finish [OF _ _ _ _ _ retry.exec_write_axioms assms(2)])
qed

interpretation complete_tx: lock_releaser "Complete env h o0" "h_JobName h" "h_ExecutionID h" "h_RunToken h" "h_FenceEpoch h"
  for env h o0
  by unfold_locales
     (rule ended_released [OF Complete_ended(2) lets_go_sets(1) gives_up_sets(1)], assumption+,
      rule Complete_ended(1))

interpretation retry_tx: lock_releaser "Retry env h o0 b" "h_JobName h" "h_ExecutionID h" "h_RunToken h" "h_FenceEpoch h"
  for env h o0 b
  by unfold_locales (rule ended_released [OF Retry_ended lets_go_sets(1) gives_up_sets(2)])

subsection \<open>FenceTimedOut, ExpireSilent, ReleaseAsOwner\<close>

lemma holder_of_simps [simp]:
  "h_JobName (holder_of v) = v_JobName v" "h_ExecutionID (holder_of v) = v_ID v"
  "h_ExecutionKey (holder_of v) = v_ExecutionKey v" "h_RunToken (holder_of v) = v_RunToken v"
  "h_FenceEpoch (holder_of v) = v_FenceEpoch v"
  by (simp_all add: holder_of_def)

lemma released_finish:
  assumes steps: "releaseJobLock env h b db = Inr db1" "assertOne (update_exec P f db1) = Inr db2"
      "recordAttempt env h o1 db2 = Inr db3" "settlePollClock env h db3 = Inr db'"
    and wr: "exec_write f" and ok: "keys_ok db"
    and P: "\<And>e. P e \<Longrightarrow> owns_exec (h_ExecutionID h) (h_RunToken h) (h_FenceEpoch h) e \<and> in_flight (je_status e)"
  shows "ended env db (h_JobName h) (h_ExecutionID h) (h_RunToken h) (h_FenceEpoch h) (release_lock_set env b) f P db'"
  by (rule releaseE [OF steps(1) ok], rule plain_finish [OF _ _ _ _ _ _ _ steps(2-4) wr P], assumption+)

lemma FenceTimedOut_ended:
  assumes "FenceTimedOut env v db = Inr db'" "keys_ok db"
  obtains e0 reason where "exec_row db (v_ID v) = Some e0"
    "reason = (if je_status e0 = StatusCancelRequested then ReasonFenced else ReasonTimeout)"
    "ended env db (v_JobName v) (v_ID v) (v_RunToken v) (v_FenceEpoch v) (release_lock_set env False)
       (fence_exec_set env (stopped e0) reason ''timeout'' ''runtime cap elapsed; execution fenced by the scheduler'')
       (\<lambda>e. owns_exec (v_ID v) (v_RunToken v) (v_FenceEpoch v) e \<and> in_flight (je_status e)) db'"
proof -
  from assms(1) obtain e0 db1 db2 db3 o1 where e0: "exec_row db (v_ID v) = Some e0" and
    "releaseJobLock env (holder_of v) False db = Inr db1"
    "assertOne (update_exec (\<lambda>e. owns_exec (v_ID v) (v_RunToken v) (v_FenceEpoch v) e \<and> in_flight (je_status e))
       (fence_exec_set env (stopped e0) (if je_status e0 = StatusCancelRequested then ReasonFenced else ReasonTimeout)
          ''timeout'' ''runtime cap elapsed; execution fenced by the scheduler'') db1) = Inr db2"
    "recordAttempt env (holder_of v) o1 db2 = Inr db3" "settlePollClock env (holder_of v) db3 = Inr db'"
    by (auto simp: FenceTimedOut_def Let_def lockState_Inr lockExecution_Inr stopped_def split: if_splits)
  from released_finish [OF this(2-5) fence_exec.exec_write_axioms assms(2)] that e0 show thesis by simp
qed

lemma ExpireSilent_ended:
  assumes "ExpireSilent env v db = Inr db'" "keys_ok db"
  obtains e0 where "exec_row db (v_ID v) = Some e0" "sql_lt (je_deadline_at e0) (utc env)"
    "ended env db (v_JobName v) (v_ID v) (v_RunToken v) (v_FenceEpoch v) (release_lock_set env False)
       (fence_exec_set env (stopped e0) ReasonFenced ''silence''
          ''the executor stopped reporting progress within its silence budget'')
       (\<lambda>e. owns_exec (v_ID v) (v_RunToken v) (v_FenceEpoch v) e \<and> je_status e \<in> {StatusRunning, StatusCancelRequested}) db'"
proof -
  from assms(1) obtain e0 db1 db2 db3 o1 where e0: "exec_row db (v_ID v) = Some e0" "sql_lt (je_deadline_at e0) (utc env)" and
    "releaseJobLock env (holder_of v) False db = Inr db1"
    "assertOne (update_exec (\<lambda>e. owns_exec (v_ID v) (v_RunToken v) (v_FenceEpoch v) e \<and>
         je_status e \<in> {StatusRunning, StatusCancelRequested})
       (fence_exec_set env (stopped e0) ReasonFenced ''silence''
          ''the executor stopped reporting progress within its silence budget'') db1) = Inr db2"
    "recordAttempt env (holder_of v) o1 db2 = Inr db3" "settlePollClock env (holder_of v) db3 = Inr db'"
    by (auto simp: ExpireSilent_def Let_def lockState_Inr lockExecution_Inr stopped_def split: if_splits)
  then have "ended env db (h_JobName (holder_of v)) (h_ExecutionID (holder_of v)) (h_RunToken (holder_of v))
      (h_FenceEpoch (holder_of v)) (release_lock_set env False)
       (fence_exec_set env (stopped e0) ReasonFenced ''silence''
          ''the executor stopped reporting progress within its silence budget'')
       (\<lambda>e. owns_exec (v_ID v) (v_RunToken v) (v_FenceEpoch v) e \<and> je_status e \<in> {StatusRunning, StatusCancelRequested}) db'"
    by (intro released_finish [OF _ _ _ _ fence_exec.exec_write_axioms assms(2)]) auto
  with that e0 show thesis by simp
qed

lemma ReleaseAsOwner_ended:
  assumes "ReleaseAsOwner env h db = Inr (landed, db')" "keys_ok db"
  obtains e0 where "exec_row db (h_ExecutionID h) = Some e0" "landed = stopped e0" "sql_ge (je_lease_until e0) (utc env)"
    "ended env db (h_JobName h) (h_ExecutionID h) (h_RunToken h) (h_FenceEpoch h) (release_lock_set env False)
       (release_exec_set env (stopped e0))
       (\<lambda>e. owns_exec (h_ExecutionID h) (h_RunToken h) (h_FenceEpoch h) e \<and> in_flight (je_status e)) db'"
proof -
  from assms(1) obtain e0 db1 db2 db3 o1 where
    e0: "exec_row db (h_ExecutionID h) = Some e0" "landed = stopped e0" "sql_ge (je_lease_until e0) (utc env)" and
    "releaseJobLock env h False db = Inr db1"
    "assertOne (update_exec (\<lambda>e. owns_exec (h_ExecutionID h) (h_RunToken h) (h_FenceEpoch h) e \<and> in_flight (je_status e))
       (release_exec_set env (stopped e0)) db1) = Inr db2"
    "recordAttempt env h o1 db2 = Inr db3" "settlePollClock env h db3 = Inr db'"
    by (auto simp: ReleaseAsOwner_def Let_def lockState_Inr lockExecution_Inr stopped_def split: if_splits)
  from released_finish [OF this(4-7) release_exec.exec_write_axioms assms(2)] that e0 show thesis by auto
qed

interpretation fence_tx: lock_releaser "FenceTimedOut env v" "v_JobName v" "v_ID v" "v_RunToken v" "v_FenceEpoch v" for env v
  by unfold_locales
     (erule (1) FenceTimedOut_ended, erule ended_released, simp_all add: lets_go_sets gives_up_sets)

interpretation silent_tx: lock_releaser "ExpireSilent env v" "v_JobName v" "v_ID v" "v_RunToken v" "v_FenceEpoch v" for env v
  by unfold_locales
     (erule (1) ExpireSilent_ended, erule ended_released, simp_all add: lets_go_sets gives_up_sets)

text \<open>\<open>ReleaseAsOwner\<close> and \<open>Resolve\<close> also return where the row landed.\<close>

definition db_of :: "('a \<times> db) result \<Rightarrow> db result" where
  "db_of r = bindE r (\<lambda>(_, db). Inr db)"

lemma db_of_Inr: "db_of r = Inr db \<longleftrightarrow> (\<exists>x. r = Inr (x, db))"
  by (cases r) (auto simp: db_of_def)

interpretation owner_tx: lock_releaser "\<lambda>db. db_of (ReleaseAsOwner env h db)"
    "h_JobName h" "h_ExecutionID h" "h_RunToken h" "h_FenceEpoch h" for env h
  by unfold_locales
     (clarsimp simp: db_of_Inr, erule (1) ReleaseAsOwner_ended, erule ended_released,
      simp_all add: lets_go_sets gives_up_sets)

subsection \<open>Resolve\<close>

lemma Resolve_ended:
  assumes "Resolve env v b db = Inr (landed, db')" "keys_ok db"
  obtains e0 where "exec_row db (v_ID v) = Some e0" "landed = resolvedStatus (stale_of env e0)"
    "sql_lt (js_lease_until (the (state_row db (v_JobName v)))) (utc env)"
    "ended env db (v_JobName v) (v_ID v) (v_RunToken v) (v_FenceEpoch v) (resolve_lock_set env)
       (resolve_exec_set env landed (resolved_reason (stale_of env e0)) b)
       (\<lambda>e. owns_exec (v_ID v) (v_RunToken v) (v_FenceEpoch v) e \<and> in_flight (je_status e)) db'"
proof -
  from assms(1) obtain e0 db1 db2 db3 where
    e0: "exec_row db (v_ID v) = Some e0" "landed = resolvedStatus (stale_of env e0)" and
    steps: "assertOne (update_state (\<lambda>s. holds_lock (v_JobName v) (v_RunToken v) (v_FenceEpoch v) s \<and>
         sql_lt (js_lease_until s) (utc env)) (resolve_lock_set env) db) = Inr db1"
    "assertOne (update_exec (\<lambda>e. owns_exec (v_ID v) (v_RunToken v) (v_FenceEpoch v) e \<and> in_flight (je_status e))
       (resolve_exec_set env landed (resolved_reason (stale_of env e0)) b) db1) = Inr db2"
    "recordAttempt env (holder_of v) (resolve_outcome env v) db2 = Inr db3" "settlePollClock env (holder_of v) db3 = Inr db'"
    by (auto simp: Resolve_def lockState_Inr lockExecution_Inr split: if_splits)
  obtain s where lock: "state_row db (v_JobName v) = Some s" "holds_lock (v_JobName v) (v_RunToken v) (v_FenceEpoch v) s"
    "sql_lt (js_lease_until s) (utc env)" "state_row db1 = (state_row db)(v_JobName v \<mapsto> resolve_lock_set env s)"
    "execs db1 = execs db" "defs db1 = defs db" "keys_ok db1" "next_id db1 = next_id db"
    by (rule resolve_lock.oneE [OF steps(1) assms(2), of "v_JobName v"]) (auto simp: holds_lock_def)
  have "ended env db (h_JobName (holder_of v)) (h_ExecutionID (holder_of v)) (h_RunToken (holder_of v))
      (h_FenceEpoch (holder_of v)) (resolve_lock_set env)
      (resolve_exec_set env landed (resolved_reason (stale_of env e0)) b)
      (\<lambda>e. owns_exec (v_ID v) (v_RunToken v) (v_FenceEpoch v) e \<and> in_flight (je_status e)) db'"
    by (rule plain_finish [OF _ _ _ _ _ _ _ steps(2-4) resolve_exec.exec_write_axioms]) (use lock in auto)
  with that e0 lock show thesis by simp
qed

interpretation resolve_tx: lock_releaser "\<lambda>db. db_of (Resolve env v b db)" "v_JobName v" "v_ID v" "v_RunToken v" "v_FenceEpoch v"
  for env v b
  by unfold_locales
     (clarsimp simp: db_of_Inr, erule (1) Resolve_ended, erule ended_released,
      simp_all add: lets_go_sets gives_up_sets resolvedStatus_cases)

subsection \<open>Refuse\<close>

lemma Refuse_ended:
  assumes "Refuse env p n db = Inr db'" "keys_ok db"
  shows "ended env db (p_JobName p) (p_ExecutionID p) (p_RunToken p) n (refuse_lock_set env)
    (refuse_exec_set env (p_BackoffSeconds p)) (\<lambda>e. je_status e = StatusDispatching) db'"
proof -
  from assms(1) obtain db1 db2 where steps:
    "assertSome ErrFenced (update_state (holds_lock (p_JobName p) (p_RunToken p) n) (refuse_lock_set env) db) = Inr db1"
    "assertOne (update_exec (\<lambda>e. owns_exec (p_ExecutionID p) (p_RunToken p) n e \<and> je_status e = StatusDispatching)
       (refuse_exec_set env (p_BackoffSeconds p)) db1) = Inr db2"
    "settlePollClock env (claim_holder p) db2 = Inr db'"
    by (auto simp: Refuse_def)
  obtain s where lock: "state_row db (p_JobName p) = Some s" "holds_lock (p_JobName p) (p_RunToken p) n s"
    "state_row db1 = (state_row db)(p_JobName p \<mapsto> refuse_lock_set env s)"
    "execs db1 = execs db" "defs db1 = defs db" "keys_ok db1" "next_id db1 = next_id db"
    by (rule refuse_lock.someE [OF steps(1) assms(2), of "p_JobName p"]) (auto simp: holds_lock_def)
  obtain e where ex: "exec_row db1 (p_ExecutionID p) = Some e"
    "owns_exec (p_ExecutionID p) (p_RunToken p) n e \<and> je_status e = StatusDispatching"
    "exec_row db2 = (exec_row db1)(p_ExecutionID p \<mapsto> refuse_exec_set env (p_BackoffSeconds p) e)"
    "states db2 = states db1" "defs db2 = defs db1" "keys_ok db2" "next_id db2 = next_id db1"
    by (rule refuse_exec.oneE [OF steps(2) lock(6), of "p_ExecutionID p"]) (auto simp: owns_exec_def)
  obtain d s' where "readDefinition db2 (p_JobName p) = Inr d"
    "state_row db' = (state_row db2)(p_JobName p \<mapsto> s')"
    "settles env d (refuse_exec_set env (p_BackoffSeconds p) e) (refuse_lock_set env s) s'"
    "execs db' = execs db2" "keys_ok db'" "defs db' = defs db2" "next_id db' = next_id db2"
    by (rule settleE [OF steps(3) ex(6)]) (use ex lock in \<open>auto simp: claim_holder_def\<close>)
  with lock ex show ?thesis unfolding ended_def by (auto simp: readDefinition_def)
qed

interpretation refuse_tx: lock_releaser "Refuse env p n" "p_JobName p" "p_ExecutionID p" "p_RunToken p" n for env p n
  by unfold_locales (rule ended_released [OF Refuse_ended lets_go_sets(3) gives_up_sets(6)])

end
