(* ===== verification/Executors.thy ===== *)
theory Executors
  imports Claiming "HOL-Library.List_Lexorder" "HOL-Library.Char_ord"
begin

text \<open>
  The executor registry (\<^verbatim>\<open>src/internal/store/executor.go\<close>) and the runnability check the engine
  hands to the claim transaction (\<^verbatim>\<open>src/internal/engine/passes.go\<close>, \<open>runnableFor\<close>).
\<close>

definition seconds :: "duration \<Rightarrow> int" where
  "seconds d = (let s = (d + Second - 1) div Second in if s < 1 then 1 else s)"

record Executor =
  x_ExecutorID :: string
  x_Identity :: string
  x_Group :: string
  x_Address :: string
  x_ContractVersion :: string
  x_Revision :: string
  x_Capacity :: int
  x_Running :: int
  x_Capabilities :: string
  x_Handlers :: "string list"
  x_HandlerDescriptions :: "(string \<times> string) list"
  x_StartedAt :: time
  x_HeartbeatAt :: time
  x_Live :: bool

text \<open>\<open>heartbeat_at >= TIMESTAMPADD(SECOND, -n, UTC_TIMESTAMP())\<close>.\<close>

definition live :: "env \<Rightarrow> int \<Rightarrow> job_executor \<Rightarrow> bool" where
  "live env n x \<longleftrightarrow> jx_heartbeat_at x \<ge> add_seconds (utc env) (- n)"

section \<open>Register\<close>

definition executor_of :: "env \<Rightarrow> Executor \<Rightarrow> job_executor" where
  "executor_of env e =
     \<lparr>jx_executor_id = x_ExecutorID e, jx_executor_group = x_Group e, jx_address = x_Address e,
      jx_contract_version = x_ContractVersion e, jx_revision = x_Revision e,
      jx_capacity = x_Capacity e, jx_running = 0, jx_capabilities = nullString (x_Capabilities e),
      jx_identity = x_Identity e, jx_started_at = utc env, jx_heartbeat_at = utc env,
      jx_write_seq = 0\<rparr>"

text \<open>The ON DUPLICATE KEY UPDATE list: \<open>running\<close>, \<open>started_at\<close> and \<open>write_seq\<close> are not in it.\<close>

definition reregister_set :: "env \<Rightarrow> Executor \<Rightarrow> job_executor \<Rightarrow> job_executor" where
  "reregister_set env e x =
     x\<lparr>jx_executor_group := x_Group e, jx_address := x_Address e,
       jx_contract_version := x_ContractVersion e, jx_revision := x_Revision e,
       jx_capacity := x_Capacity e, jx_capabilities := nullString (x_Capabilities e),
       jx_identity := x_Identity e, jx_heartbeat_at := utc env\<rparr>"

definition upsert_executor :: "env \<Rightarrow> Executor \<Rightarrow> db \<Rightarrow> db" where
  "upsert_executor env e db =
     (if executor_row db (x_ExecutorID e) = None
      then db\<lparr>executors := executors db @ [executor_of env e]\<rparr>
      else db\<lparr>executors := sql_update (\<lambda>x. jx_executor_id x = x_ExecutorID e) (reregister_set env e) (executors db)\<rparr>)"

definition description_of :: "Executor \<Rightarrow> string \<Rightarrow> string" where
  "description_of e h = (case map_of (x_HandlerDescriptions e) h of None \<Rightarrow> [] | Some d \<Rightarrow> d)"

fun declare_handlers :: "Executor \<Rightarrow> string list \<Rightarrow> job_executor_handler list \<Rightarrow> job_executor_handler list result" where
  "declare_handlers e [] t = Inr t"
| "declare_handlers e (h # hs) t =
     (if h = [] then Inl ErrProtocol
      else if list_ex (\<lambda>r. jh_executor_id r = x_ExecutorID e \<and> jh_handler_key r = h) t then Inl ErrOther
      else declare_handlers e hs
             (t @ [\<lparr>jh_executor_id = x_ExecutorID e, jh_handler_key = h, jh_description = description_of e h\<rparr>]))"

definition Register :: "env \<Rightarrow> Executor \<Rightarrow> int \<Rightarrow> db \<Rightarrow> db result" where
  "Register env e livenessSeconds db =
     (if x_ExecutorID e = [] \<or> x_Group e = [] \<or> x_Address e = [] then Inl ErrProtocol
      else if x_Handlers e = [] then Inl ErrProtocol
      else if list_ex (\<lambda>(_, d). length (runes d) > 512) (x_HandlerDescriptions e) then Inl ErrProtocol
      else if (case executor_row db (x_ExecutorID e) of
                 None \<Rightarrow> False
               | Some x \<Rightarrow> live env livenessSeconds x \<and> jx_address x \<noteq> x_Address e) then Inl ErrProtocol
      else let db = upsert_executor env e db in
        bindE (declare_handlers e (x_Handlers e)
                 (sql_delete (\<lambda>h. jh_executor_id h = x_ExecutorID e) (handlers db))) (\<lambda>hs.
        Inr (db\<lparr>handlers := hs\<rparr>)))"

section \<open>Heartbeat, deregistration, reaping\<close>

definition beat_set :: "env \<Rightarrow> int \<Rightarrow> job_executor \<Rightarrow> job_executor" where
  "beat_set env running x =
     x\<lparr>jx_write_seq := jx_write_seq x + 1, jx_heartbeat_at := utc env, jx_running := running\<rparr>"

definition ExecutorHeartbeat :: "env \<Rightarrow> string \<Rightarrow> string \<Rightarrow> int \<Rightarrow> db \<Rightarrow> bool \<times> db" where
  "ExecutorHeartbeat env executorID identity running db =
     (let (n, db) = update_executor (\<lambda>x. jx_executor_id x = executorID \<and> jx_identity x = identity)
                                    (beat_set env running) db
      in (n = 1, db))"

text \<open>Deleting an executor deletes its handler rows (\<open>ON DELETE CASCADE\<close>).\<close>

definition delete_executors :: "(job_executor \<Rightarrow> bool) \<Rightarrow> db \<Rightarrow> db" where
  "delete_executors P db =
     db\<lparr>executors := sql_delete P (executors db),
        handlers := sql_delete (\<lambda>h. list_ex (\<lambda>x. P x \<and> jx_executor_id x = jh_executor_id h) (executors db))
                      (handlers db)\<rparr>"

definition Deregister :: "string \<Rightarrow> db \<Rightarrow> db" where
  "Deregister executorID db = delete_executors (\<lambda>x. jx_executor_id x = executorID) db"

definition ReapExecutors :: "env \<Rightarrow> duration \<Rightarrow> db \<Rightarrow> nat \<times> db" where
  "ReapExecutors env retention db =
     (let P = (\<lambda>x. jx_heartbeat_at x < add_seconds (utc env) (- seconds retention))
      in (rows_matched P (executors db), delete_executors P db))"

section \<open>Routing reads\<close>

definition declares :: "db \<Rightarrow> job_executor \<Rightarrow> string \<Rightarrow> bool" where
  "declares db x handlerKey =
     list_ex (\<lambda>h. jh_executor_id h = jx_executor_id x \<and> jh_handler_key h = handlerKey) (handlers db)"

definition view_of :: "job_executor \<Rightarrow> Executor" where
  "view_of x =
     \<lparr>x_ExecutorID = jx_executor_id x, x_Identity = jx_identity x, x_Group = jx_executor_group x,
      x_Address = jx_address x, x_ContractVersion = jx_contract_version x, x_Revision = jx_revision x,
      x_Capacity = jx_capacity x, x_Running = jx_running x,
      x_Capabilities = coalesce_str (jx_capabilities x), x_Handlers = [], x_HandlerDescriptions = [],
      x_StartedAt = jx_started_at x, x_HeartbeatAt = jx_heartbeat_at x, x_Live = False\<rparr>"

definition LiveExecutors :: "env \<Rightarrow> db \<Rightarrow> string \<Rightarrow> string \<Rightarrow> duration \<Rightarrow> Executor list" where
  "LiveExecutors env db handlerKey grp liveness =
     map view_of
       (sort_key (\<lambda>x. (- jx_heartbeat_at x, jx_executor_id x))
         (filter (\<lambda>x. declares db x handlerKey \<and> live env (seconds liveness) x \<and>
                      (grp = [] \<or> jx_executor_group x = grp)) (executors db)))"

record Orphan =
  on_JobName :: string
  on_HandlerKey :: string
  on_Group :: string

definition Orphans :: "env \<Rightarrow> db \<Rightarrow> duration \<Rightarrow> Orphan list" where
  "Orphans env db liveness =
     map (\<lambda>d. \<lparr>on_JobName = jd_job_name d, on_HandlerKey = jd_handler_key d,
               on_Group = coalesce_str (jd_executor_group d)\<rparr>)
       (sort_key jd_job_name
         (filter (\<lambda>d. jd_enabled d \<and> \<not> jd_retired d \<and>
                      \<not> list_ex (\<lambda>x. declares db x (jd_handler_key d) \<and> live env (seconds liveness) x \<and>
                                    (jd_executor_group d = None \<or> Some (jx_executor_group x) = jd_executor_group d))
                          (executors db)) (defs db)))"

definition HandlerIsServed :: "env \<Rightarrow> db \<Rightarrow> Definition \<Rightarrow> duration \<Rightarrow> bool" where
  "HandlerIsServed env db def liveness =
     list_ex (\<lambda>x. declares db x (d_HandlerKey def) \<and> live env (seconds liveness) x \<and>
                  (d_ExecutorGroup def = [] \<or> jx_executor_group x = d_ExecutorGroup def)) (executors db)"

definition ExecutorAddress :: "db \<Rightarrow> string \<Rightarrow> string" where
  "ExecutorAddress db executorID =
     (case executor_row db executorID of None \<Rightarrow> [] | Some x \<Rightarrow> jx_address x)"

definition runnableFor :: "duration \<Rightarrow> Executor list \<Rightarrow> Runnable" where
  "runnableFor liveness targets env db def st =
     (if \<not> d_Enabled def \<or> d_Retired def then Some ErrNotRunnable
      else if \<not> HandlerIsServed env db def liveness then Some ErrNotRunnable
      else if targets = [] then Some ErrNotRunnable
      else None)"

interpretation beat: guarded_write jx_executor_id jx_write_seq "beat_set env n" for env n
  by unfold_locales (simp_all add: beat_set_def)

section \<open>What routing decides\<close>

lemma seconds_pos: "1 \<le> seconds d"
  by (simp add: seconds_def Let_def)

lemma seconds_covers: "d \<le> seconds d * Second"
  by (simp add: seconds_def Let_def) linarith

lemma LiveExecutors_served:
  "LiveExecutors env db (d_HandlerKey def) (d_ExecutorGroup def) liveness \<noteq> [] \<longleftrightarrow>
   HandlerIsServed env db def liveness"
proof -
  have "sort_key k xs = [] \<longleftrightarrow> xs = []" for k :: "job_executor \<Rightarrow> int \<times> string" and xs
    by (metis length_0_conv length_sort)
  then show ?thesis
    by (simp add: LiveExecutors_def HandlerIsServed_def filter_empty_conv list_ex_iff Bex_def conj_ac)
qed

end
