(* ===== verification/Retention.thy ===== *)
theory Retention
  imports Completion
begin

text \<open>History retention (\<^verbatim>\<open>src/internal/store/retention.go\<close>).\<close>

definition reapable :: "time \<Rightarrow> time \<Rightarrow> job_execution \<Rightarrow> bool" where
  "reapable successBefore otherBefore e \<longleftrightarrow>
     (je_status e = StatusSuccess \<and> sql_lt (je_finished_at e) successBefore) \<or>
     (je_status e \<in> {StatusDead, StatusCancelled, StatusSkipped} \<and> sql_lt (je_finished_at e) otherBefore)"

fun reap_each :: "job_execution list \<Rightarrow> nat \<Rightarrow> db \<Rightarrow> (nat \<times> db) result" where
  "reap_each [] deleted db = Inr (deleted, db)"
| "reap_each (c # cs) deleted db =
     (let P = (\<lambda>e. je_id e = je_id c \<and> je_execution_key e = je_execution_key c \<and>
                   je_status e \<in> {StatusSuccess, StatusDead, StatusCancelled, StatusSkipped}) in
      if rows_matched P (execs db) \<noteq> 1 then Inl ErrOther
      else reap_each cs (deleted + 1)
             (db\<lparr>attempts := sql_delete (\<lambda>a. ja_execution_key a = je_execution_key c) (attempts db),
                 execs := sql_delete P (execs db)\<rparr>))"

definition ReapExecutions :: "env \<Rightarrow> duration \<Rightarrow> duration \<Rightarrow> int \<Rightarrow> db \<Rightarrow> (nat \<times> db) result" where
  "ReapExecutions env successRetention otherRetention limit db =
     (if successRetention \<le> 0 \<or> otherRetention \<le> 0 \<or> limit \<le> 0 then Inl ErrOther
      else reap_each
             (page (\<lambda>e. or_zero (je_finished_at e))
                (reapable (now env - successRetention) (now env - otherRetention)) limit db) 0 db)"

end
