(* ===== verification/Outcomes.thy ===== *)
theory Outcomes
  imports Completion
begin

text \<open>
  From a reported disposition to a transition (\<^verbatim>\<open>src/internal/outcome/outcome.go\<close>). The protobuf
  message is generated code; the model keeps the four fields \<open>Apply\<close> reads, and a wire value outside
  the enum is \<open>DISPOSITION_OTHER\<close>.
\<close>

datatype Disposition =
    DISPOSITION_UNSPECIFIED | DISPOSITION_SUCCESS | DISPOSITION_FAILED | DISPOSITION_STOPPED
  | DISPOSITION_TIMED_OUT | DISPOSITION_OTHER int

record ExecutionOutcome =
  eo_Disposition :: Disposition
  eo_FailureKind :: string
  eo_ErrorDetail :: string
  eo_Summary :: string

record Decision =
  dc_Status :: Status
  dc_TerminalReason :: "TerminalReason option"
  dc_Attempt :: AttemptOutcome
  dc_Retryable :: bool

definition Permanent :: "string \<Rightarrow> bool" where
  "Permanent kind \<longleftrightarrow> kind = ''permanent'' \<or> take (length ''permanent.'') kind = ''permanent.''"

definition decision :: "Status \<Rightarrow> TerminalReason option \<Rightarrow> AttemptOutcome \<Rightarrow> bool \<Rightarrow> Decision" where
  "decision s r a b = \<lparr>dc_Status = s, dc_TerminalReason = r, dc_Attempt = a, dc_Retryable = b\<rparr>"

definition Classify :: "Disposition \<Rightarrow> string \<Rightarrow> Decision" where
  "Classify d failureKind =
     (case d of
        DISPOSITION_SUCCESS \<Rightarrow> decision StatusSuccess (Some ReasonHandlerConfirmed) AttemptSuccess False
      | DISPOSITION_STOPPED \<Rightarrow> decision StatusCancelled (Some ReasonHandlerConfirmed) AttemptFailed False
      | DISPOSITION_TIMED_OUT \<Rightarrow> decision StatusDead (Some ReasonTimeout) AttemptFailed False
      | _ \<Rightarrow> if Permanent failureKind then decision StatusDead (Some ReasonPermanentFailure) AttemptFailed False
            else decision StatusDead None AttemptFailed True)"

definition reported :: "Decision \<Rightarrow> ExecutionOutcome \<Rightarrow> string \<Rightarrow> Outcome" where
  "reported d oc executorID =
     \<lparr>o_Status = dc_Status d, o_TerminalReason = dc_TerminalReason d, o_AttemptOutcome = dc_Attempt d,
      o_FailureKind = eo_FailureKind oc, o_ErrorMessage = eo_ErrorDetail oc,
      o_ResultSummary = eo_Summary oc, o_ExecutorID = executorID, o_StartedAt = None,
      o_FinishedAt = None\<rparr>"

definition Apply :: "env \<Rightarrow> Holder \<Rightarrow> ExecutionOutcome \<Rightarrow> string \<Rightarrow> int \<Rightarrow> db \<Rightarrow> db result" where
  "Apply env h oc executorID backoffSeconds db =
     (let d = Classify (eo_Disposition oc) (eo_FailureKind oc);
          o1 = reported d oc executorID in
      if dc_Retryable d then Retry env h o1 backoffSeconds db else Complete env h o1 db)"

lemma Classify_terminal: "Terminal (dc_Status (Classify d k))"
  by (simp add: Classify_def decision_def split: Disposition.split)

end
