(* ===== verification/Protocol.thy ===== *)
theory Protocol
  imports Releases Admin Executors Retention Outcomes
begin

text \<open>
  Every operation of the store as a step of one transition system on databases, and the proof that
  this system implements the ownership specification: \<open>db_step\<close> has a rule per operation, \<open>sim\<close> says
  that a database change keeps the databases well formed and is a run of the specification, and the
  refinement is the interpretation at the end.
\<close>

section \<open>Simulated changes\<close>

text \<open>
  How the rows of job_execution evolve: an id below the counter keeps its row, moved along the rules
  of \<open>row_move\<close>, or loses it for good; an id at or above it belongs to a row born since.
\<close>

definition rows_evolve :: "db \<Rightarrow> db \<Rightarrow> bool" where
  "rows_evolve db db' \<longleftrightarrow>
     next_id db \<le> next_id db' \<and>
     (\<forall>i e'. exec_row db' i = Some e' \<longrightarrow>
        (if i < next_id db then \<exists>e. exec_row db i = Some e \<and> row_move\<^sup>*\<^sup>* e e'
         else \<exists>e0. born e0 \<and> row_move\<^sup>*\<^sup>* e0 e'))"

lemma rows_evolve_trans: "rows_evolve a b \<Longrightarrow> rows_evolve b c \<Longrightarrow> rows_evolve a c"
  unfolding rows_evolve_def
proof (intro conjI allI impI)
  fix i e
  assume ab: "next_id a \<le> next_id b \<and> (\<forall>i e'. exec_row b i = Some e' \<longrightarrow>
        (if i < next_id a then \<exists>e. exec_row a i = Some e \<and> row_move\<^sup>*\<^sup>* e e' else \<exists>e0. born e0 \<and> row_move\<^sup>*\<^sup>* e0 e'))"
    and bc: "next_id b \<le> next_id c \<and> (\<forall>i e'. exec_row c i = Some e' \<longrightarrow>
        (if i < next_id b then \<exists>e. exec_row b i = Some e \<and> row_move\<^sup>*\<^sup>* e e' else \<exists>e0. born e0 \<and> row_move\<^sup>*\<^sup>* e0 e'))"
    and row: "exec_row c i = Some e"
  show "if i < next_id a then \<exists>e'. exec_row a i = Some e' \<and> row_move\<^sup>*\<^sup>* e' e else \<exists>e0. born e0 \<and> row_move\<^sup>*\<^sup>* e0 e"
  proof (cases "i < next_id b")
    case True
    with bc row obtain e1 where "exec_row b i = Some e1" "row_move\<^sup>*\<^sup>* e1 e" by (auto split: if_splits)
    with ab show ?thesis by (meson rtranclp_trans)
  next
    case False
    with ab bc row show ?thesis by (auto split: if_splits)
  qed
qed auto

lemma rows_evolve_kept:
  assumes "keys_ok db" "next_id db' = next_id db"
    and "\<And>i e'. exec_row db' i = Some e' \<Longrightarrow> \<exists>e. exec_row db i = Some e \<and> (e' = e \<or> row_move e e')"
  shows "rows_evolve db db'"
proof -
  have "i < next_id db" if "exec_row db i = Some e" for i e
    using assms(1) row_of_Some [OF that] by (auto simp: keys_ok_def)
  with assms(2,3) show ?thesis unfolding rows_evolve_def by (metis order_refl r_into_rtranclp rtranclp.rtrancl_refl)
qed

definition sim :: "db \<Rightarrow> db \<Rightarrow> bool" where
  "sim db db' \<longleftrightarrow> wf_db db' \<and> own_step\<^sup>*\<^sup>* (abs_db db) (abs_db db') \<and> rows_evolve db db'"

lemma sim_trans: "sim a b \<Longrightarrow> sim b c \<Longrightarrow> sim a c"
  by (auto simp: sim_def intro: rows_evolve_trans)

lemma sim_wf: "sim db db' \<Longrightarrow> wf_db db'"
  by (simp add: sim_def)

lemma sim_quiet:
  assumes "wf_db db" "wf_db db'" "abs_db db' = abs_db db" "next_id db' = next_id db"
    and "\<And>i e'. exec_row db' i = Some e' \<Longrightarrow> \<exists>e. exec_row db i = Some e \<and> (e' = e \<or> row_move e e')"
  shows "sim db db'"
  using assms rows_evolve_kept [of db db'] by (simp add: sim_def wf_db_def)

lemma sim_refl: "wf_db db \<Longrightarrow> sim db db"
  by (rule sim_quiet) auto

lemma assert_snd:
  "assertOne u = Inr db' \<Longrightarrow> db' = snd u" "assertSome err u = Inr db' \<Longrightarrow> db' = snd u"
  "assertAtMostOne u = Inr db' \<Longrightarrow> db' = snd u"
  by (auto simp: assert_defs split: if_splits)

text \<open>Statements that move no column the abstraction reads.\<close>

lemma sim_exec_update:
  assumes "exec_write f" "wf_db db"
    and "\<And>e. e \<in> set (execs db) \<Longrightarrow> P e \<Longrightarrow> abs_claim (f e) = abs_claim e \<and> row_move e (f e)"
  shows "sim db (snd (update_exec P f db))"
proof (rule sim_quiet [OF assms(2)])
  note rows = exec_write.rows_after [OF assms(1)]
  show "wf_db (snd (update_exec P f db))"
    using assms(2) exec_write.keys_ok_update [OF assms(1)] by (simp add: wf_db_def update_exec_def)
  have "map_option abs_claim (exec_row (snd (update_exec P f db)) i) = map_option abs_claim (exec_row db i)" for i
    using assms(3) by (cases "exec_row db i") (auto simp: rows dest: row_of_Some)
  then show "abs_db (snd (update_exec P f db)) = abs_db db"
    by (auto simp: abs_db_def update_exec_def)
  show "next_id (snd (update_exec P f db)) = next_id db" by (simp add: update_exec_def)
  show "\<exists>e. exec_row db i = Some e \<and> (e' = e \<or> row_move e e')"
    if "exec_row (snd (update_exec P f db)) i = Some e'" for i e'
    using that assms(3) by (auto simp: rows dest: row_of_Some split: if_splits)
qed

lemma sim_state_update:
  assumes "state_write f" "wf_db db"
    "\<And>s. P s \<Longrightarrow> wf_state s \<Longrightarrow> abs_lock (f s) = abs_lock s \<and> wf_state (f s)"
  shows "sim db (snd (update_state P f db))"
proof (rule sim_quiet [OF assms(2)])
  note rows = state_write.rows_after [OF assms(1)]
  show "wf_db (snd (update_state P f db))"
    unfolding wf_db_def
  proof (intro conjI allI impI)
    show "keys_ok (snd (update_state P f db))"
      using assms(2) state_write.keys_ok_update [OF assms(1)] by (simp add: wf_db_def update_state_def)
    show "wf_state s" if "state_row (snd (update_state P f db)) j = Some s" for j s
      using that assms(2,3) by (auto simp: rows wf_db_def split: if_splits)
    show "\<forall>d \<in> set (defs (snd (update_state P f db))). checks_ok d"
      using assms(2) by (simp add: wf_db_def update_state_def)
  qed
  have "map_option abs_lock (state_row (snd (update_state P f db)) j) = map_option abs_lock (state_row db j)" for j
    using assms(2,3) by (cases "state_row db j") (auto simp: rows wf_db_def)
  then show "abs_db (snd (update_state P f db)) = abs_db db"
    by (auto simp: abs_db_def update_state_def)
qed (simp_all add: update_state_def)

text \<open>Tables the abstraction does not read.\<close>

lemma sim_other:
  assumes "wf_db db" "states db' = states db" "execs db' = execs db" "keys_ok db'" "next_id db' = next_id db"
    and "\<forall>d \<in> set (defs db'). checks_ok d"
  shows "sim db db'"
  using assms by (intro sim_quiet) (auto simp: wf_db_def abs_db_def)

lemma sim_audit: "wf_db db \<Longrightarrow> sim db (audit env a b c d e db)"
  by (rule sim_other) (auto simp: audit_def db_key_defs wf_db_def)

lemma sim_audited: "sim db db1 \<Longrightarrow> sim db (audit env a b c d e db1)"
  using sim_audit sim_trans sim_wf by blast

lemma sim_record: "recordAttempt env h o1 db = Inr db' \<Longrightarrow> wf_db db \<Longrightarrow> sim db db'"
  by (rule sim_other) (auto simp: recordE wf_db_def)

text \<open>The assignment lists that keep locks, and those that keep claims.\<close>

lemma keep_lock:
  "abs_lock (settle_poll_set env d s) = abs_lock s" "abs_lock (advance_fire_set env t v s) = abs_lock s"
  "abs_lock (clear_poll_set env s) = abs_lock s" "abs_lock (normalize_set env f p v s) = abs_lock s"
  "abs_lock (pause_set env b s) = abs_lock s"
  "wf_state (settle_poll_set env d s) = wf_state s" "wf_state (advance_fire_set env t v s) = wf_state s"
  "wf_state (clear_poll_set env s) = wf_state s" "wf_state (normalize_set env f p v s) = wf_state s"
  "wf_state (pause_set env b s) = wf_state s"
  by (simp_all add: abs_lock_def wf_state_def settle_poll_set_def advance_fire_set_def clear_poll_set_def
      normalize_set_def pause_set_def)

lemma keep_claim:
  "abs_claim (extend_deadline_set env n e) = abs_claim e"
  "je_status e = StatusDispatching \<Longrightarrow> abs_claim (accept_set env n e) = abs_claim e"
  "abs_claim (retarget_set env x e) = abs_claim e"
  "abs_claim (charge_set env e) = abs_claim e"
  "je_status e \<in> {StatusDispatching, StatusRunning} \<Longrightarrow> abs_claim (cancel_set env e) = abs_claim e"
  "abs_claim (defer_set env n e) = abs_claim e"
  "je_status e = StatusReady \<Longrightarrow> abs_claim (expire_ready_set env e) = abs_claim e"
  "je_status e = StatusReady \<Longrightarrow> abs_claim (forbid_skip_set env k e) = abs_claim e"
  "je_status e = StatusReady \<Longrightarrow> abs_claim (retire_ready_set env e) = abs_claim e"
  "je_status e = StatusDead \<Longrightarrow> abs_claim (revive_set env e) = abs_claim e"
  by (auto simp: abs_claim_def extend_deadline_set_def accept_set_def retarget_set_def charge_set_def cancel_set_def
      defer_set_def expire_ready_set_def forbid_skip_set_def retire_ready_set_def revive_set_def)

section \<open>Operations that keep every lock and claim\<close>

lemma ExtendDeadline_sim: "ExtendDeadline env h n db = Inr db' \<Longrightarrow> wf_db db \<Longrightarrow> sim db db'"
  unfolding ExtendDeadline_def
  by (drule assert_snd(2)) (auto intro!: sim_exec_update [OF extend_deadline.exec_write_axioms] simp: keep_claim row_move.intros)

lemma Accept_sim: "Accept env i t n q db = Inr db' \<Longrightarrow> wf_db db \<Longrightarrow> sim db db'"
  unfolding Accept_def
  by (drule assert_snd(2)) (auto intro!: sim_exec_update [OF accept.exec_write_axioms] simp: keep_claim row_move.intros)

lemma Retarget_sim: "Retarget env h x db = Inr db' \<Longrightarrow> wf_db db \<Longrightarrow> sim db db'"
  unfolding Retarget_def
  by (drule assert_snd(2)) (auto intro!: sim_exec_update [OF retarget.exec_write_axioms] simp: keep_claim row_move.intros)

lemma RequestCancel_sim: "RequestCancel env i a r db = Inr db' \<Longrightarrow> wf_db db \<Longrightarrow> sim db db'"
proof (cases "exec_row db i")
  case (Some e)
  assume op: "RequestCancel env i a r db = Inr db'" and wf: "wf_db db"
  with Some obtain db1 where st: "assertSome ErrContended
      (update_exec (\<lambda>e. je_id e = i \<and> je_status e \<in> {StatusDispatching, StatusRunning}) (cancel_set env) db) = Inr db1"
    "db' = audit env a ''cancel_requested'' (je_job_name e) (je_execution_key e) (r @ cancel_note) db1"
    by (auto simp: RequestCancel_def split: if_splits)
  have "sim db db1"
    unfolding assert_snd(2) [OF st(1)]
    by (rule sim_exec_update [OF cancel.exec_write_axioms wf]) (auto simp: keep_claim row_move.intros)
  then show ?thesis unfolding st(2) by (rule sim_audited)
qed (simp add: RequestCancel_def split: if_splits)

lemma settle_sim: "settlePollClock env h db = Inr db' \<Longrightarrow> wf_db db \<Longrightarrow> sim db db'"
  by (auto simp: settlePollClock_def sim_refl keep_lock dest!: assert_snd(3) split: if_splits
      intro!: sim_state_update [OF settle_poll.state_write_axioms])

lemma defer_sim: "deferCandidate env i b db = Inr db' \<Longrightarrow> wf_db db \<Longrightarrow> sim db db'"
  unfolding deferCandidate_def
  by (drule assert_snd(3)) (auto intro!: sim_exec_update [OF defer_cand.exec_write_axioms] simp: keep_claim row_move.intros)

lemma expire_sim: "expireReadyExecution env i db = Inr db' \<Longrightarrow> wf_db db \<Longrightarrow> sim db db'"
  unfolding expireReadyExecution_def
  by (drule assert_snd(1)) (auto intro!: sim_exec_update [OF expire_ready.exec_write_axioms] simp: keep_claim row_move.intros)

lemma contention_sim:
  assumes "applyContention env p def st db = Inr (r, db')" "wf_db db"
  shows "sim db db'"
proof -
  consider db1 where "assertOne (update_exec (\<lambda>e. je_id e = p_ExecutionID p \<and> je_status e = StatusReady)
        (forbid_skip_set env (coalesce_str (js_active_execution st))) db) = Inr db1"
      "settlePollClock env (claim_holder p) db1 = Inr db'"
    | "deferCandidate env (p_ExecutionID p) (p_BackoffSeconds p) db = Inr db'"
    using assms(1) by (auto simp: applyContention_def split: if_splits)
  then show ?thesis
  proof cases
    case 1
    have "sim db db1"
      unfolding assert_snd(1) [OF 1(1)]
      by (rule sim_exec_update [OF forbid_skip.exec_write_axioms assms(2)]) (auto simp: keep_claim row_move.intros)
    then show ?thesis using settle_sim [OF 1(2)] by (blast intro: sim_trans dest: sim_wf)
  next
    case 2
    then show ?thesis using assms(2) by (rule defer_sim)
  qed
qed

section \<open>Acquiring, renewing and transferring\<close>

text \<open>The two rows of a job moving together, as a change of the abstraction.\<close>

lemma abs_pair:
  assumes "state_row db' = (state_row db)(j \<mapsto> s')" "exec_row db' = (exec_row db)(i \<mapsto> e')"
  shows "abs_db db' = (abs_db db)\<lparr>locks := (locks (abs_db db))(j \<mapsto> abs_lock s'),
                                 claims := (claims (abs_db db))(i \<mapsto> abs_claim e')\<rparr>"
  using assms by (auto simp: abs_db_def map_option_comp_upd intro!: ext)

lemma sim_pair:
  assumes "own_step (abs_db db) (abs_db db')"
    and "wf_db db" "keys_ok db'" "defs db' = defs db" "next_id db' = next_id db"
    and "state_row db' = (state_row db)(j \<mapsto> s')" "wf_state s'"
    and "exec_row db' = (exec_row db)(i \<mapsto> e')" "exec_row db i = Some e" "row_move e e'"
  shows "sim db db'"
proof -
  have "rows_evolve db db'"
    using assms by (intro rows_evolve_kept) (auto simp: wf_db_def split: if_splits)
  with assms show ?thesis by (auto simp: sim_def wf_db_def split: if_splits)
qed

lemma acquire_rows:
  assumes "acquire env p def st db = Inr (r, db')" "keys_ok db"
  obtains s e where "state_row db (p_JobName p) = Some s" "\<not> js_ops_paused s" "\<not> js_active_kind s"
    "exec_row db (p_ExecutionID p) = Some e" "je_job_name e = p_JobName p" "je_status e = StatusReady"
    "je_attempt_no e < je_max_attempts e"
    "state_row db' = (state_row db)(p_JobName p \<mapsto>
       acquire_lock_set env p (js_fence_epoch st + 1) (d_Lease def div Second) s)"
    "exec_row db' = (exec_row db)(p_ExecutionID p \<mapsto>
       claim_exec_set env p (js_fence_epoch st + 1) (d_Lease def div Second) (d_Timeout def div Second) e)"
    "keys_ok db'" "defs db' = defs db" "next_id db' = next_id db"
    "r = \<lparr>cr_Outcome = ClaimAcquired, cr_FenceEpoch = js_fence_epoch st + 1, cr_Definition = def, cr_Reason = None\<rparr>"
proof -
  let ?n = "js_fence_epoch st + 1"
  from assms(1) obtain db1 where steps:
    "assertOne (update_state (\<lambda>s. js_job_name s = p_JobName p \<and> \<not> js_ops_paused s \<and> \<not> js_active_kind s)
       (acquire_lock_set env p ?n (d_Lease def div Second)) db) = Inr db1"
    "assertOne (update_exec (\<lambda>e. je_id e = p_ExecutionID p \<and> je_job_name e = p_JobName p \<and>
         je_status e = StatusReady \<and> je_attempt_no e < je_max_attempts e)
       (claim_exec_set env p ?n (d_Lease def div Second) (d_Timeout def div Second)) db1) = Inr db'"
    and r: "r = \<lparr>cr_Outcome = ClaimAcquired, cr_FenceEpoch = ?n, cr_Definition = def, cr_Reason = None\<rparr>"
    by (auto simp: acquire_def Let_def)
  obtain s where lock: "state_row db (p_JobName p) = Some s"
    "js_job_name s = p_JobName p \<and> \<not> js_ops_paused s \<and> \<not> js_active_kind s"
    "state_row db1 = (state_row db)(p_JobName p \<mapsto> acquire_lock_set env p ?n (d_Lease def div Second) s)"
    "execs db1 = execs db" "keys_ok db1" "defs db1 = defs db" "next_id db1 = next_id db"
    by (rule acquire_lock.oneE [OF steps(1) assms(2), of "p_JobName p"]) auto
  obtain e where "exec_row db1 (p_ExecutionID p) = Some e"
    "je_id e = p_ExecutionID p \<and> je_job_name e = p_JobName p \<and> je_status e = StatusReady \<and> je_attempt_no e < je_max_attempts e"
    "exec_row db' = (exec_row db1)(p_ExecutionID p \<mapsto>
       claim_exec_set env p ?n (d_Lease def div Second) (d_Timeout def div Second) e)"
    "states db' = states db1" "keys_ok db'" "defs db' = defs db1" "next_id db' = next_id db1"
    by (rule claim_exec.oneE [OF steps(2) lock(5), of "p_ExecutionID p"]) auto
  with lock r that show thesis by auto
qed

lemma acquire_sim:
  assumes "acquire env p def st db = Inr (r, db')" "wf_db db" "state_row db (p_JobName p) = Some st"
    and key: "\<And>e. exec_row db (p_ExecutionID p) = Some e \<Longrightarrow> je_execution_key e = p_ExecutionKey p"
  shows "sim db db'"
proof -
  obtain e where rows: "\<not> js_active_kind st" "exec_row db (p_ExecutionID p) = Some e" "je_job_name e = p_JobName p"
    "je_status e = StatusReady"
    "state_row db' = (state_row db)(p_JobName p \<mapsto>
       acquire_lock_set env p (js_fence_epoch st + 1) (d_Lease def div Second) st)"
    "exec_row db' = (exec_row db)(p_ExecutionID p \<mapsto>
       claim_exec_set env p (js_fence_epoch st + 1) (d_Lease def div Second) (d_Timeout def div Second) e)"
    "keys_ok db'" "defs db' = defs db" "next_id db' = next_id db" "je_attempt_no e < je_max_attempts e"
    by (rule acquire_rows [OF assms(1) wf_dbD(1) [OF assms(2)]]) (use assms(3) in auto)
  have "own_step (abs_db db) (abs_db db')"
    unfolding abs_pair [OF rows(5,6)]
    using own_step.acquire [of "abs_db db" "p_JobName p" "js_fence_epoch st" "p_ExecutionID p" "p_ExecutionKey p"
        "Hold (Some (p_RunToken p)) (Some (add_seconds (utc env) (d_Lease def div Second))) (Some (p_Owner p))"]
      rows(1-4) assms(3) key
    by (simp add: abs_lock_def abs_claim_def acquire_lock_set_def claim_exec_set_def)
  then show ?thesis
    by (rule sim_pair [OF _ assms(2) rows(7-9,5) _ rows(6,2)])
       (simp_all add: wf_state_def acquire_lock_set_def row_move.intros rows)
qed

lemma Claim_sim:
  assumes "Claim env p runnable db = Inr (r, db')" "wf_db db"
  shows "sim db db'"
proof -
  obtain st d e where pre: "state_row db (p_JobName p) = Some st" "exec_row db (p_ExecutionID p) = Some e"
    "je_execution_key e = p_ExecutionKey p"
    and dec: "claim_decide env p runnable st (definition_of d) (stale_of env e) db = Inr (r, db')"
    by (rule Claim_reads [OF assms(1)])
  have acq: "sim db db'" if "acquire env p (definition_of d) st db = Inr (r, db')"
    using acquire_sim [OF that assms(2) pre(1)] pre(2,3) by auto
  from claim_decide_cases [OF dec] show ?thesis
    using acq expire_sim [OF _ assms(2)] defer_sim [OF _ assms(2)] contention_sim [OF _ assms(2)]
    by (auto split: if_splits)
qed

text \<open>
  A holder, and a scanned row, name an execution together with the job it belongs to. They are built
  from rows of the database, whose id and job never change.
\<close>

definition belongs :: "db \<Rightarrow> int \<Rightarrow> string \<Rightarrow> bool" where
  "belongs db i j \<longleftrightarrow> (case exec_row db i of None \<Rightarrow> True | Some e \<Rightarrow> je_job_name e = j)"

lemma belongsD: "belongs db i j \<Longrightarrow> exec_row db i = Some e \<Longrightarrow> je_job_name e = j"
  by (simp add: belongs_def)

lemma release_sim:
  assumes "lock_releaser op j i t n" "op db = Inr db'" "wf_db db" "belongs db i j"
  shows "sim db db'"
proof -
  have ok: "keys_ok db" using assms(3) by (rule wf_dbD)
  from lock_releaser.released [OF assms(1,2) ok] have "rows_evolve db db'"
    by (intro rows_evolve_kept [OF ok]) (auto simp: given_up_def gives_up_def split: if_splits)
  with lock_releaser.release_step [OF assms(1-3) belongsD [OF assms(4)]] lock_releaser.wf_after [OF assms(1-3)]
  show ?thesis by (auto simp: sim_def)
qed

lemma Renew_rows:
  assumes "Renew env h n db = Inr db'" "keys_ok db"
  obtains s e where "state_row db (h_JobName h) = Some s" "holds_lock (h_JobName h) (h_RunToken h) (h_FenceEpoch h) s"
    "exec_row db (h_ExecutionID h) = Some e" "owns_exec (h_ExecutionID h) (h_RunToken h) (h_FenceEpoch h) e"
    "in_flight (je_status e)" "je_owner_instance e = Some (h_Owner h)" "sql_ge (je_lease_until e) (utc env)"
    "state_row db' = (state_row db)(h_JobName h \<mapsto> renew_lock_set env n s)"
    "exec_row db' = (exec_row db)(h_ExecutionID h \<mapsto> renew_exec_set env n e)" "keys_ok db'"
    "defs db' = defs db" "next_id db' = next_id db"
proof -
  from assms(1) obtain db1 where steps:
    "assertSome ErrFenced (update_state (holds_lock (h_JobName h) (h_RunToken h) (h_FenceEpoch h)) (renew_lock_set env n) db) = Inr db1"
    "assertSome ErrFenced (update_exec (\<lambda>e. owns_exec (h_ExecutionID h) (h_RunToken h) (h_FenceEpoch h) e \<and>
        in_flight (je_status e) \<and> je_owner_instance e = Some (h_Owner h) \<and> sql_ge (je_lease_until e) (utc env))
      (renew_exec_set env n) db1) = Inr db'"
    by (auto simp: Renew_def)
  obtain s where lock: "state_row db (h_JobName h) = Some s" "holds_lock (h_JobName h) (h_RunToken h) (h_FenceEpoch h) s"
    "state_row db1 = (state_row db)(h_JobName h \<mapsto> renew_lock_set env n s)" "execs db1 = execs db" "keys_ok db1"
    "defs db1 = defs db" "next_id db1 = next_id db"
    by (rule renew_lock.someE [OF steps(1) assms(2), of "h_JobName h"]) (auto simp: holds_lock_def)
  obtain e where "exec_row db1 (h_ExecutionID h) = Some e"
    "owns_exec (h_ExecutionID h) (h_RunToken h) (h_FenceEpoch h) e \<and> in_flight (je_status e) \<and>
     je_owner_instance e = Some (h_Owner h) \<and> sql_ge (je_lease_until e) (utc env)"
    "exec_row db' = (exec_row db1)(h_ExecutionID h \<mapsto> renew_exec_set env n e)" "states db' = states db1" "keys_ok db'"
    "defs db' = defs db1" "next_id db' = next_id db1"
    by (rule renew_exec.someE [OF steps(2) lock(5), of "h_ExecutionID h"]) (auto simp: owns_exec_def)
  with lock that show thesis by auto
qed

lemma Renew_sim:
  assumes "Renew env h n db = Inr db'" "wf_db db" "belongs db (h_ExecutionID h) (h_JobName h)"
  shows "sim db db'"
proof -
  obtain s e where rows: "state_row db (h_JobName h) = Some s" "holds_lock (h_JobName h) (h_RunToken h) (h_FenceEpoch h) s"
    "exec_row db (h_ExecutionID h) = Some e" "owns_exec (h_ExecutionID h) (h_RunToken h) (h_FenceEpoch h) e"
    "in_flight (je_status e)"
    "state_row db' = (state_row db)(h_JobName h \<mapsto> renew_lock_set env n s)"
    "exec_row db' = (exec_row db)(h_ExecutionID h \<mapsto> renew_exec_set env n e)" "keys_ok db'"
    "defs db' = defs db" "next_id db' = next_id db"
    by (rule Renew_rows [OF assms(1) wf_dbD(1) [OF assms(2)]])
  have act: "js_active_kind s" using wf_dbD(2) [OF assms(2) rows(1)] rows(2) by (simp add: wf_state_def holds_lock_def)
  have "own_step (abs_db db) (abs_db db')"
    unfolding abs_pair [OF rows(6,7)]
    using own_step.renew [of "abs_db db" "h_JobName h" "h_FenceEpoch h" "js_active_execution s" "Some (h_RunToken h)"
        "js_lease_until s" "js_active_owner s" "h_ExecutionID h" "je_execution_key e" "je_lease_until e" "je_owner_instance e"
        "Some (add_seconds (utc env) n)"]
      rows(1-5) act belongsD [OF assms(3) rows(3)]
    by (simp add: abs_lock_def abs_claim_def renew_lock_set_def renew_exec_set_def holds_lock_def owns_exec_def)
  then show ?thesis
    by (rule sim_pair [OF _ assms(2) rows(8-10,6) _ rows(7,3)])
       (use act rows(2,5) in \<open>simp_all add: wf_state_def renew_lock_set_def holds_lock_def row_move.intros\<close>)
qed

lemma Adopt_rows:
  assumes "Adopt env v w l q pr db = Inr (n, db')" "keys_ok db"
  obtains s e where "state_row db (v_JobName v) = Some s" "holds_lock (v_JobName v) (v_RunToken v) (v_FenceEpoch v) s"
    "sql_lt (js_lease_until s) (utc env)"
    "exec_row db (v_ID v) = Some e" "owns_exec (v_ID v) (v_RunToken v) (v_FenceEpoch v) e"
    "in_flight (je_status e)" "\<not> cap_elapsed env e" "n = v_FenceEpoch v + 1"
    "state_row db' = (state_row db)(v_JobName v \<mapsto> adopt_lock_set env w n l s)"
    "exec_row db' = (exec_row db)(v_ID v \<mapsto> adopt_exec_set env w n l q (pr \<and> je_status e = StatusDispatching) e)"
    "keys_ok db'" "defs db' = defs db" "next_id db' = next_id db"
proof -
  from assms(1) obtain e0 db1 where e0: "exec_row db (v_ID v) = Some e0" "\<not> cap_elapsed env e0" "n = v_FenceEpoch v + 1"
    and steps: "assertOne (update_state (\<lambda>s. holds_lock (v_JobName v) (v_RunToken v) (v_FenceEpoch v) s \<and>
         sql_lt (js_lease_until s) (utc env)) (adopt_lock_set env w n l) db) = Inr db1"
    "assertOne (update_exec (\<lambda>e. owns_exec (v_ID v) (v_RunToken v) (v_FenceEpoch v) e \<and> in_flight (je_status e))
       (adopt_exec_set env w n l q (pr \<and> je_status e0 = StatusDispatching)) db1) = Inr db'"
    by (auto simp: Adopt_def Let_def lockState_Inr lockExecution_Inr split: if_splits)
  obtain s where lock: "state_row db (v_JobName v) = Some s" "holds_lock (v_JobName v) (v_RunToken v) (v_FenceEpoch v) s"
    "sql_lt (js_lease_until s) (utc env)"
    "state_row db1 = (state_row db)(v_JobName v \<mapsto> adopt_lock_set env w n l s)" "execs db1 = execs db" "keys_ok db1"
    "defs db1 = defs db" "next_id db1 = next_id db"
    by (rule adopt_lock.oneE [OF steps(1) assms(2), of "v_JobName v"]) (auto simp: holds_lock_def)
  obtain e where "exec_row db1 (v_ID v) = Some e"
    "owns_exec (v_ID v) (v_RunToken v) (v_FenceEpoch v) e \<and> in_flight (je_status e)"
    "exec_row db' = (exec_row db1)(v_ID v \<mapsto> adopt_exec_set env w n l q (pr \<and> je_status e0 = StatusDispatching) e)"
    "states db' = states db1" "keys_ok db'" "defs db' = defs db1" "next_id db' = next_id db1"
    by (rule adopt_exec.oneE [OF steps(2) lock(6), of "v_ID v"]) (auto simp: owns_exec_def)
  with lock e0 that show thesis by auto
qed

lemma Adopt_sim:
  assumes "Adopt env v w l q pr db = Inr (n, db')" "wf_db db" "belongs db (v_ID v) (v_JobName v)"
  shows "sim db db'"
proof -
  obtain s e where rows: "state_row db (v_JobName v) = Some s" "holds_lock (v_JobName v) (v_RunToken v) (v_FenceEpoch v) s"
    "exec_row db (v_ID v) = Some e" "owns_exec (v_ID v) (v_RunToken v) (v_FenceEpoch v) e"
    "in_flight (je_status e)" "n = v_FenceEpoch v + 1"
    "state_row db' = (state_row db)(v_JobName v \<mapsto> adopt_lock_set env w n l s)"
    "exec_row db' = (exec_row db)(v_ID v \<mapsto> adopt_exec_set env w n l q (pr \<and> je_status e = StatusDispatching) e)"
    "keys_ok db'" "defs db' = defs db" "next_id db' = next_id db"
    by (rule Adopt_rows [OF assms(1) wf_dbD(1) [OF assms(2)]])
  have act: "js_active_kind s" using wf_dbD(2) [OF assms(2) rows(1)] rows(2) by (simp add: wf_state_def holds_lock_def)
  have "own_step (abs_db db) (abs_db db')"
    unfolding abs_pair [OF rows(7,8)]
    using own_step.transfer [of "abs_db db" "v_JobName v" "v_FenceEpoch v" "js_active_execution s" "Some (v_RunToken v)"
        "js_lease_until s" "js_active_owner s" "v_ID v" "je_execution_key e" "je_lease_until e" "je_owner_instance e"
        "Some (add_seconds (utc env) l)" "Some w"]
      rows(1-6) act belongsD [OF assms(3) rows(3)]
    by (simp add: abs_lock_def abs_claim_def adopt_lock_set_def adopt_exec_set_def holds_lock_def owns_exec_def)
  then show ?thesis
    by (rule sim_pair [OF _ assms(2) rows(9-11,7) _ rows(8,3)])
       (use act rows(2,5) in \<open>simp_all add: wf_state_def adopt_lock_set_def holds_lock_def row_move.adopt\<close>)
qed

section \<open>New executions and new jobs\<close>

lemma fresh_exec_row:
  assumes "keys_ok db" "je_id e = next_id db"
  shows "row_of je_id (execs db @ [e]) = (exec_row db)(next_id db \<mapsto> e)"
proof
  fix i
  have "exec_row db (next_id db) = None"
    using assms(1) by (auto simp: row_of_None keys_ok_def)
  then show "row_of je_id (execs db @ [e]) i = ((exec_row db)(next_id db \<mapsto> e)) i"
    using assms(2) by (auto simp: row_of_append split: option.splits)
qed

lemma map_filter_append: "List.map_filter f (xs @ ys) = List.map_filter f xs @ List.map_filter f ys"
  by (simp add: List.map_filter_def)

lemma keys_ok_insert:
  assumes "keys_ok db" "\<not> duplicate_key r db"
  shows "keys_ok (db\<lparr>execs := execs db @ [execution_of env r (next_id db)], next_id := next_id db + 1\<rparr>)"
proof -
  let ?e = "execution_of env r (next_id db)"
  have old: "distinct (map je_id (execs db))" "distinct (map je_execution_key (execs db))"
    "distinct (List.map_filter je_request_id (execs db))" "\<forall>e \<in> set (execs db). je_id e < next_id db"
    using assms(1) by (simp_all add: db_key_defs)
  have new: "je_execution_key e \<noteq> r_Key r" "r_RequestID r \<noteq> [] \<Longrightarrow> je_request_id e \<noteq> Some (r_RequestID r)"
    if "e \<in> set (execs db)" for e
    using assms(2) that by (auto simp: duplicate_key_def list_ex_iff)
  have "distinct (map je_id (execs db @ [?e]))" using old(1,4) by (auto simp: execution_of_def)
  moreover have "distinct (map je_execution_key (execs db @ [?e]))"
    using old(2) new(1) by (fastforce simp: execution_of_def)
  moreover have "distinct (List.map_filter je_request_id (execs db @ [?e]))"
  proof (cases "r_RequestID r = []")
    case True
    with old(3) show ?thesis by (simp add: map_filter_append execution_of_def nullString_def List.map_filter_simps)
  next
    case False
    have "r_RequestID r \<notin> set (List.map_filter je_request_id (execs db))"
      using new(2) False by (auto simp: List.map_filter_def)
    with False old(3) show ?thesis
      by (simp add: map_filter_append execution_of_def nullString_def List.map_filter_simps)
  qed
  moreover have "\<forall>e \<in> set (execs db @ [?e]). je_id e < next_id db + 1"
    using old(4) by (auto simp: execution_of_def)
  ultimately show ?thesis using assms(1) by (simp add: db_key_defs)
qed

lemma insert_sim:
  assumes "db' = snd (insertExecution env r db)" "wf_db db" "1 \<le> r_MaxAttempts r"
    and shape: "\<And>i. key_shape (execution_of env r i)"
  shows "sim db db'"
proof (cases "duplicate_key r db")
  case True
  with assms show ?thesis by (auto simp: insertExecution_def sim_refl)
next
  case False
  let ?e = "execution_of env r (next_id db)"
  from False assms(1) have db': "db' = db\<lparr>execs := execs db @ [?e], next_id := next_id db + 1\<rparr>"
    by (simp add: insertExecution_def)
  have row: "exec_row db' = (exec_row db)(next_id db \<mapsto> ?e)"
    unfolding db' using fresh_exec_row [OF wf_dbD(1) [OF assms(2)], of ?e] by (simp add: execution_of_def)
  have "own_step (abs_db db) ((abs_db db)\<lparr>claims := (claims (abs_db db))(next_id db \<mapsto> Claim_of (r_JobName r) (r_Key r) None)\<rparr>)"
  proof (rule own_step.new_execution)
    show "claims (abs_db db) (next_id db) = None"
      using assms(2) by (auto simp: wf_db_def keys_ok_def row_of_None)
    show "cl_key c \<noteq> r_Key r" if "claims (abs_db db) i' = Some c" for i' c
      using that False by (auto simp: duplicate_key_def list_ex_iff abs_claim_def dest: row_of_Some)
  qed
  moreover have "abs_db db' = (abs_db db)\<lparr>claims := (claims (abs_db db))(next_id db \<mapsto> Claim_of (r_JobName r) (r_Key r) None)\<rparr>"
    using row by (auto simp: abs_db_def map_option_comp_upd abs_claim_def execution_of_def db' intro!: ext)
  moreover have "wf_db db'"
    using keys_ok_insert [OF wf_dbD(1) [OF assms(2)] False] assms(2) by (simp add: wf_db_def db')
  moreover have "rows_evolve db db'"
  proof -
    have "i < next_id db" if "exec_row db i = Some e" for i e
      using assms(2) row_of_Some [OF that] by (auto simp: wf_db_def keys_ok_def)
    moreover have "born ?e" using assms(3) shape by (simp add: born_def) (simp add: execution_of_def)
    moreover have "next_id db \<le> next_id db'" by (simp add: db')
    ultimately show ?thesis unfolding rows_evolve_def row by (auto split: if_splits)
  qed
  ultimately show ?thesis by (auto simp: sim_def)
qed

lemma read_attempts: "readDefinition db j = Inr def \<Longrightarrow> wf_db db \<Longrightarrow> 1 \<le> d_MaxAttempts def"
  by (auto simp: readDefinition_Inr wf_db_def checks_ok_def definition_of_def dest: row_of_Some)

lemma insert_job_sim:
  assumes "insert_job env d nf a dup db = Inr db'" "wf_db db"
  shows "sim db db'"
proof -
  from assms(1) have new: "def_row db (d_JobName d) = None" "state_row db (d_JobName d) = None"
    and db': "db' = db\<lparr>defs := defs db @ [new_def env d a], states := states db @ [new_state env d nf]\<rparr>"
    by (auto simp: insert_job_def Let_def split: if_splits)
  have row: "state_row db' = (state_row db)(d_JobName d \<mapsto> new_state env d nf)"
    using new(2) by (auto simp: db' row_of_append new_state_def intro!: ext split: option.splits)
  have "own_step (abs_db db) ((abs_db db)\<lparr>locks := (locks (abs_db db))(d_JobName d \<mapsto> Lock 0 None)\<rparr>)"
    by (rule own_step.new_job) (simp add: new)
  moreover have "abs_db db' = (abs_db db)\<lparr>locks := (locks (abs_db db))(d_JobName d \<mapsto> Lock 0 None)\<rparr>"
    using row by (auto simp: abs_db_def map_option_comp_upd abs_lock_def new_state_def db' intro!: ext)
  moreover have "keys_ok db'"
    using assms(2) new by (auto simp: db' wf_db_def db_key_defs new_def_def new_state_def row_of_None)
  moreover have "rows_evolve db db'"
    using assms(2) by (intro rows_evolve_kept) (auto simp: wf_db_def db')
  moreover have "checks_ok (new_def env d a)" "wf_state (new_state env d nf)"
    using assms(1) by (auto simp: insert_job_def Let_def wf_state_def new_state_def split: if_splits)
  ultimately show ?thesis
    using assms(2) row by (auto simp: sim_def wf_db_def db' split: if_splits)
qed

section \<open>Materialization and administration\<close>

lemma normalize_sim:
  assumes "normalizeClocks env st def c db = Inr (x, db')" "wf_db db"
  shows "sim db db'"
proof -
  from assms(1) obtain fa pa where "assertOne (update_state (\<lambda>s. js_job_name s = d_JobName def)
      (normalize_set env fa pa (d_Version def)) db) = Inr db'"
    by (auto simp: normalizeClocks_def)
  from assert_snd(1) [OF this] show ?thesis
    by (simp add: sim_state_update [OF normalize.state_write_axioms assms(2)] keep_lock)
qed

lemma advance_sim: "advanceFireClock env j t v db = Inr db' \<Longrightarrow> wf_db db \<Longrightarrow> sim db db'"
  unfolding advanceFireClock_def
  by (drule assert_snd(1)) (simp add: sim_state_update [OF advance_fire.state_write_axioms] keep_lock)

lemma clear_sim: "clearPollClock env j db = Inr db' \<Longrightarrow> wf_db db \<Longrightarrow> sim db db'"
  unfolding clearPollClock_def
  by (drule assert_snd(1)) (simp add: sim_state_update [OF clear_poll.state_write_axioms] keep_lock)

lemma cron_commit_sim:
  assumes "cron_commit env j def cr nxt out db = Inr (r, db')" "wf_db db" "1 \<le> d_MaxAttempts def"
  shows "sim db db'"
proof (cases cr)
  case None
  with assms show ?thesis by (auto simp: cron_commit_def intro: advance_sim)
next
  case (Some t)
  with assms(1) have "advanceFireClock env j nxt (d_Version def) (snd (insertExecution env (cron_row j def t) db)) = Inr db'"
    by (auto simp: cron_commit_def Let_def)
  moreover have "sim db (snd (insertExecution env (cron_row j def t) db))"
    by (rule insert_sim [OF refl assms(2)]) (simp_all add: cron_row_def assms(3) key_shape_def execution_of_def)
  ultimately show ?thesis by (blast intro: sim_trans advance_sim dest: sim_wf)
qed

lemma cron_live_sim:
  "cron_live env j def sched g st db = Inr (r, db') \<Longrightarrow> wf_db db \<Longrightarrow> 1 \<le> d_MaxAttempts def \<Longrightarrow> sim db db'"
  by (auto simp: cron_live_def cron_due_def Let_def sim_refl split: if_splits option.splits intro: cron_commit_sim)

lemma MaterializeCron_sim:
  assumes "MaterializeCron env j c g db = Inr (r, db')" "wf_db db"
  shows "sim db db'"
  using assms
  by (auto simp: MaterializeCron_def split: if_splits intro: normalize_sim cron_live_sim read_attempts)

lemma MaterializePoll_sim:
  assumes "MaterializePoll env j k c db = Inr (r, db')" "wf_db db"
  shows "sim db db'"
proof -
  have ins: "sim db db'" if "clearPollClock env j (snd (insertExecution env (poll_row env j k def) db)) = Inr db'"
      "1 \<le> d_MaxAttempts def" for def
  proof -
    have "sim db (snd (insertExecution env (poll_row env j k def) db))"
      by (rule insert_sim [OF refl assms(2)]) (simp_all add: poll_row_def that(2) key_shape_def execution_of_def)
    with clear_sim [OF that(1)] show ?thesis by (blast intro: sim_trans dest: sim_wf)
  qed
  from assms show ?thesis
    by (auto simp: MaterializePoll_def Let_def sim_refl split: if_splits intro: normalize_sim ins read_attempts)
qed

lemma Recompute_sim: "Recompute env j c db = Inr (x, db') \<Longrightarrow> wf_db db \<Longrightarrow> sim db db'"
  by (auto simp: Recompute_def intro: normalize_sim)

lemma CreateJob_sim: "CreateJob env d nf a r db = Inr db' \<Longrightarrow> wf_db db \<Longrightarrow> sim db db'"
  by (auto simp: CreateJob_def split: if_splits intro!: sim_audited intro: insert_job_sim)

lemma insertCopied_sim: "insertCopiedJob env d nf src a r db = Inr db' \<Longrightarrow> wf_db db \<Longrightarrow> sim db db'"
  by (auto simp: insertCopiedJob_def intro!: sim_audited intro: insert_job_sim)

lemma copy_each_sim:
  "copy_each env src a r ss ex db = Inr (c, k, db') \<Longrightarrow> wf_db db \<Longrightarrow> sim db db'"
proof (induction ss arbitrary: ex db c k)
  case (Cons s ss)
  show ?case
  proof (cases "d_JobName (sd_Definition s) \<in> set ex")
    case True
    with Cons.prems(1) obtain c' k' where "copy_each env src a r ss ex db = Inr (c', k', db')"
      by (auto simp: Let_def)
    with Cons.IH Cons.prems(2) show ?thesis by blast
  next
    case False
    with Cons.prems(1) obtain db1 c' k' where
      "insertCopiedJob env (sd_Definition s) (sd_NextFire s) src a r db = Inr db1"
      "copy_each env src a r ss (d_JobName (sd_Definition s) # ex) db1 = Inr (c', k', db')"
      by (auto simp: Let_def)
    then show ?thesis using Cons.IH insertCopied_sim [OF _ Cons.prems(2)] sim_trans sim_wf by metis
  qed
qed (simp add: sim_refl)

lemma CopyJobs_sim: "CopyJobs env ss src a r db = Inr (c, k, db') \<Longrightarrow> wf_db db \<Longrightarrow> sim db db'"
  by (auto simp: CopyJobs_def split: if_splits intro: copy_each_sim)

text \<open>Edits of job_definition alone.\<close>

lemma sim_def_update:
  assumes "wf_db db" "\<And>r. jd_job_name (f r) = jd_job_name r"
    and "\<And>r. r \<in> set (defs db) \<Longrightarrow> checks_ok r \<Longrightarrow> P r \<Longrightarrow> checks_ok (f r)"
  shows "sim db (snd (update_def P f db))"
  using assms by (intro sim_other) (auto simp: update_def_def wf_db_def db_key_defs keys_update set_sql_update)

lemma checked_sim:
  assumes "update_def_checked P (sync_def_set env d a) db = Inr u" "wf_db db"
  shows "sim db (snd u)"
  using assms sim_def_update [OF assms(2), of "sync_def_set env d a" P] sync_def.key_kept
  by (auto simp: update_def_checked_Inr)

lemma sync_one_sim:
  assumes "sync_one env src a r plan s db = Inr db'" "wf_db db"
  shows "sim db db'"
  using assms
  by (auto simp: sync_one_def Let_def sim_refl simp del: split_paired_Ex
      split: if_splits option.splits dest!: assert_snd(1) intro!: sim_audited intro: checked_sim insertCopied_sim)

lemma sync_each_sim: "sync_each env src a r plan ss db = Inr db' \<Longrightarrow> wf_db db \<Longrightarrow> sim db db'"
proof (induction ss arbitrary: db)
  case (Cons s ss)
  then obtain db1 where st: "sync_one env src a r plan s db = Inr db1" "sync_each env src a r plan ss db1 = Inr db'"
    by auto
  have "sim db db1" by (rule sync_one_sim [OF st(1) Cons.prems(2)])
  with Cons.IH [OF st(2)] show ?case by (blast intro: sim_trans dest: sim_wf)
qed (simp add: sim_refl)

lemma SyncJobs_sim: "SyncJobs env ss src a r db = Inr (x, db') \<Longrightarrow> wf_db db \<Longrightarrow> sim db db'"
  by (auto simp: SyncJobs_def Let_def split: if_splits intro: sync_each_sim)

lemma UpdateJob_sim: "UpdateJob env d v a r db = Inr db' \<Longrightarrow> wf_db db \<Longrightarrow> sim db db'"
  by (auto simp: UpdateJob_def simp del: split_paired_Ex split: if_splits
      dest!: assert_snd(2) intro!: sim_audited intro: checked_sim)

lemma describe_each_sim:
  "describe_each env m a r js x = Inr (y, db') \<Longrightarrow> wf_db (snd x) \<Longrightarrow> sim (snd x) db'"
proof (induction js arbitrary: x)
  case (Cons j js)
  then obtain z where z: "describe_one env m a r j x = Inr z" "describe_each env m a r js z = Inr (y, db')" by auto
  have upd: "sim (snd x) db1" if "assertOne (update_def P (describe_set env n a) (snd x)) = Inr db1" for P n db1
    unfolding assert_snd(1) [OF that] using Cons.prems(2)
    by (rule sim_def_update) (simp_all add: describe_set_def checks_ok_def)
  have "sim (snd x) (snd z)"
    using z(1) Cons.prems(2) upd
    by (cases x) (auto simp: describe_one_def Let_def sim_refl split: if_splits intro!: sim_audited)
  with Cons.IH [OF z(2)] show ?case by (blast intro: sim_trans dest: sim_wf)
qed (auto simp: sim_refl)

lemma SyncJobDescriptions_sim: "SyncJobDescriptions env m a r db = Inr (x, db') \<Longrightarrow> wf_db db \<Longrightarrow> sim db db'"
  by (auto simp: SyncJobDescriptions_def split: if_splits dest: describe_each_sim)

lemma SetPaused_sim: "SetPaused env j b a r db = Inr db' \<Longrightarrow> wf_db db \<Longrightarrow> sim db db'"
  by (auto simp: SetPaused_def keep_lock dest!: assert_snd(1) split: if_splits
      intro!: sim_audited sim_state_update [OF pause.state_write_axioms])

lemma Retire_sim:
  assumes "Retire env j a r db = Inr db'" "wf_db db"
  shows "sim db db'"
proof -
  from assms(1) obtain db1 where
    d: "assertSome ErrProtocol (update_def (\<lambda>r. jd_job_name r = j \<and> \<not> jd_retired r) (retire_def_set env a) db) = Inr db1"
    and db': "db' = audit env a ''job_retired'' j [] r
       (snd (update_exec (\<lambda>e. je_job_name e = j \<and> je_status e \<in> {StatusDispatching, StatusRunning}) (cancel_set env)
         (snd (update_exec (\<lambda>e. je_job_name e = j \<and> je_status e = StatusReady) (retire_ready_set env) db1))))"
    by (auto simp: Retire_def Let_def split: if_splits)
  have s1: "sim db db1"
    unfolding assert_snd(2) [OF d] using assms(2)
    by (rule sim_def_update) (simp_all add: retire_def_set_def checks_ok_def)
  have s2: "sim db1 (snd (update_exec (\<lambda>e. je_job_name e = j \<and> je_status e = StatusReady) (retire_ready_set env) db1))"
    by (rule sim_exec_update [OF retire_ready.exec_write_axioms sim_wf [OF s1]]) (auto simp: keep_claim row_move.intros)
  have s3: "sim db' (audit env a' b c d' e db')" if "wf_db db'" for a' b c d' e using that by (rule sim_audit)
  show ?thesis
    unfolding db'
    by (intro sim_audited sim_trans [OF sim_trans [OF s1 s2]]
        sim_exec_update [OF cancel.exec_write_axioms sim_wf [OF s2]]) (auto simp: keep_claim row_move.intros)
qed

lemma Trigger_sim:
  assumes "Trigger json env j q a r ps db = Inr (k, db')" "wf_db db"
  shows "sim db db'"
proof -
  have ins: "sim db (snd (insertExecution env (trigger_row env j q m def) db))"
    if "readDefinition db j = Inr def" "q \<noteq> []" for j m def
    using read_attempts [OF that(1) assms(2)] that(2)
    by (intro insert_sim [OF refl assms(2)]) (simp_all add: trigger_row_def key_shape_def execution_of_def nullString_def)
  have "sim db db'" if "trigger_tx json env j q a r ps db = Inr (k, db')" "q \<noteq> []"
    using that assms(2)
    by (auto simp: trigger_tx_def Let_def sim_refl split: if_splits option.splits intro!: sim_audited intro: ins)
  with assms show ?thesis by (auto simp: Trigger_def sim_refl split: if_splits option.splits)
qed

lemma AuthorizedRetry_sim:
  assumes "AuthorizedRetry env k a r db = Inr db'" "wf_db db"
  shows "sim db db'"
proof -
  have "sim db db1" if "assertSome err (update_exec (\<lambda>e. je_execution_key e = k \<and> je_job_name e = j \<and>
      je_status e = StatusDead) (revive_set env) db) = Inr db1" for err j db1
    unfolding assert_snd(2) [OF that]
    by (rule sim_exec_update [OF revive.exec_write_axioms assms(2)]) (auto simp: keep_claim row_move.intros)
  with assms(1) show ?thesis by (auto simp: AuthorizedRetry_def split: if_splits intro!: sim_audited)
qed

section \<open>Retention and the executor registry\<close>

lemma distinct_sql_delete: "distinct (map f t) \<Longrightarrow> distinct (map f (sql_delete P t))"
  by (simp add: sql_delete_def distinct_map_filter)

lemma map_filter_delete_distinct:
  "distinct (List.map_filter f t) \<Longrightarrow> distinct (List.map_filter f (sql_delete P t))"
proof -
  have "filter Q (sql_delete P t) = filter (\<lambda>x. \<not> P x) (filter Q t)" for Q
    by (simp add: sql_delete_def conj_commute)
  then show "distinct (List.map_filter f t) \<Longrightarrow> distinct (List.map_filter f (sql_delete P t))"
    unfolding List.map_filter_def by (simp only: distinct_map_filter)
qed

lemma keys_ok_delete:
  "keys_ok db \<Longrightarrow> keys_ok (db\<lparr>attempts := sql_delete Q (attempts db), execs := sql_delete P (execs db)\<rparr>)"
  by (auto simp: db_key_defs distinct_sql_delete map_filter_delete_distinct)
     (simp add: sql_delete_def)

lemma reap_one_sim:
  assumes wf: "wf_db db" and P: "P = (\<lambda>e. je_id e = je_id c \<and> je_execution_key e = je_execution_key c \<and>
      je_status e \<in> {StatusSuccess, StatusDead, StatusCancelled, StatusSkipped})"
    and one: "rows_matched P (execs db) = 1"
  shows "sim db (db\<lparr>attempts := sql_delete Q (attempts db), execs := sql_delete P (execs db)\<rparr>)" (is "sim db ?db'")
proof -
  have dist: "distinct (map je_id (execs db))" using wf by (simp add: wf_db_def keys_ok_def)
  have "P r \<Longrightarrow> je_id r = je_id c" for r by (simp add: P)
  from rows_matched_unique [OF dist this] one obtain e where e: "exec_row db (je_id c) = Some e" "P e"
    by (auto split: option.splits if_splits)
  have row: "row_of je_id (sql_delete P (execs db)) = (exec_row db)(je_id c := None)"
  proof
    fix i
    show "row_of je_id (sql_delete P (execs db)) i = ((exec_row db)(je_id c := None)) i"
      using e by (auto simp: row_of_delete [OF dist] P split: option.splits dest: row_of_Some)
  qed
  have "own_step (abs_db db) ((abs_db db)\<lparr>claims := (claims (abs_db db))(je_id c := None)\<rparr>)"
    by (rule own_step.forget [of _ _ "je_job_name e" "je_execution_key e"]) (use e in \<open>auto simp: P abs_claim_def\<close>)
  moreover have "abs_db ?db' = (abs_db db)\<lparr>claims := (claims (abs_db db))(je_id c := None)\<rparr>"
    using row by (auto simp: abs_db_def intro!: ext)
  moreover have "wf_db ?db'" using wf keys_ok_delete by (simp add: wf_db_def)
  moreover have "rows_evolve db ?db'"
    using wf row by (intro rows_evolve_kept) (auto simp: wf_db_def split: if_splits)
  ultimately show ?thesis by (auto simp: sim_def)
qed

lemma reap_each_sim: "reap_each cs n db = Inr (m, db') \<Longrightarrow> wf_db db \<Longrightarrow> sim db db'"
proof (induction cs arbitrary: n db)
  case (Cons c cs)
  let ?P = "\<lambda>e. je_id e = je_id c \<and> je_execution_key e = je_execution_key c \<and>
      je_status e \<in> {StatusSuccess, StatusDead, StatusCancelled, StatusSkipped}"
  let ?db = "db\<lparr>attempts := sql_delete (\<lambda>a. ja_execution_key a = je_execution_key c) (attempts db),
                 execs := sql_delete ?P (execs db)\<rparr>"
  from Cons.prems(1) have st: "rows_matched ?P (execs db) = 1" "reap_each cs (n + 1) ?db = Inr (m, db')"
    by (auto simp: Let_def split: if_splits)
  have "sim db ?db" by (rule reap_one_sim [OF Cons.prems(2) refl st(1)])
  with Cons.IH [OF st(2)] show ?case by (blast intro: sim_trans dest: sim_wf)
qed (simp add: sim_refl)

lemma ReapExecutions_sim: "ReapExecutions env a b l db = Inr (n, db') \<Longrightarrow> wf_db db \<Longrightarrow> sim db db'"
  by (auto simp: ReapExecutions_def split: if_splits intro: reap_each_sim)

lemma declare_handlers_keys:
  "declare_handlers e hs t = Inr t' \<Longrightarrow> distinct (map (\<lambda>h. (jh_executor_id h, jh_handler_key h)) t) \<Longrightarrow>
   distinct (map (\<lambda>h. (jh_executor_id h, jh_handler_key h)) t')"
proof (induction hs arbitrary: t)
  case (Cons h hs)
  let ?t = "t @ [\<lparr>jh_executor_id = x_ExecutorID e, jh_handler_key = h, jh_description = description_of e h\<rparr>]"
  from Cons.prems(1) have "\<forall>r \<in> set t. jh_executor_id r = x_ExecutorID e \<longrightarrow> jh_handler_key r \<noteq> h"
    and "declare_handlers e hs ?t = Inr t'"
    by (auto simp: list_ex_iff split: if_splits)
  moreover from this(1) Cons.prems(2) have "distinct (map (\<lambda>h. (jh_executor_id h, jh_handler_key h)) ?t)"
    by auto
  ultimately show ?case using Cons.IH by blast
qed simp

lemma keys_ok_upsert: "keys_ok db \<Longrightarrow> keys_ok (upsert_executor env e db)"
  by (auto simp: upsert_executor_def db_key_defs row_of_None executor_of_def keys_update reregister_set_def)

lemma Register_sim:
  assumes "Register env e n db = Inr db'" "wf_db db"
  shows "sim db db'"
proof -
  from assms(1) obtain hs where
    hs: "declare_handlers e (x_Handlers e)
      (sql_delete (\<lambda>h. jh_executor_id h = x_ExecutorID e) (handlers (upsert_executor env e db))) = Inr hs"
    and db': "db' = (upsert_executor env e db)\<lparr>handlers := hs\<rparr>"
    by (auto simp: Register_def Let_def split: if_splits)
  have ok: "keys_ok (upsert_executor env e db)" using assms(2) by (simp add: wf_db_def keys_ok_upsert)
  then have "distinct (map (\<lambda>h. (jh_executor_id h, jh_handler_key h)) hs)"
    by (intro declare_handlers_keys [OF hs] distinct_sql_delete) (simp add: keys_ok_def)
  with ok have "keys_ok db'" by (simp add: db' db_key_defs)
  then show ?thesis using assms(2) by (intro sim_other) (auto simp: db' upsert_executor_def wf_db_def)
qed

lemma Heartbeat_sim: "wf_db db \<Longrightarrow> sim db (snd (ExecutorHeartbeat env x y n db))"
  by (rule sim_other)
     (simp_all add: ExecutorHeartbeat_def update_executor_def wf_db_def db_key_defs keys_update beat.key_kept)

lemma delete_executors_sim: "wf_db db \<Longrightarrow> sim db (delete_executors P db)"
  by (rule sim_other) (simp_all add: delete_executors_def wf_db_def db_key_defs distinct_sql_delete)

section \<open>The transition system\<close>

text \<open>
  One rule per operation of the store that can change the database. The environment of a step is
  arbitrary: any pair of clocks, any set of rows locked by other transactions. \<open>belongs\<close> says that the
  caller's holder or scanned row names an execution together with its job.
\<close>

inductive db_step :: "db \<Rightarrow> db \<Rightarrow> bool" where
  "Renew env h n db = Inr db' \<Longrightarrow> belongs db (h_ExecutionID h) (h_JobName h) \<Longrightarrow> db_step db db'"
| "ExtendDeadline env h n db = Inr db' \<Longrightarrow> db_step db db'"
| "Complete env h o1 db = Inr db' \<Longrightarrow> belongs db (h_ExecutionID h) (h_JobName h) \<Longrightarrow> db_step db db'"
| "Retry env h o1 b db = Inr db' \<Longrightarrow> belongs db (h_ExecutionID h) (h_JobName h) \<Longrightarrow> db_step db db'"
| "RequestCancel env i a r db = Inr db' \<Longrightarrow> db_step db db'"
| "Claim env p run db = Inr (cr, db') \<Longrightarrow> db_step db db'"
| "Accept env i t n q db = Inr db' \<Longrightarrow> db_step db db'"
| "Refuse env p n db = Inr db' \<Longrightarrow> belongs db (p_ExecutionID p) (p_JobName p) \<Longrightarrow> db_step db db'"
| "Retarget env h x db = Inr db' \<Longrightarrow> db_step db db'"
| "Adopt env v w l q pr db = Inr (n, db') \<Longrightarrow> belongs db (v_ID v) (v_JobName v) \<Longrightarrow> db_step db db'"
| "Resolve env v b db = Inr (st, db') \<Longrightarrow> belongs db (v_ID v) (v_JobName v) \<Longrightarrow> db_step db db'"
| "FenceTimedOut env v db = Inr db' \<Longrightarrow> belongs db (v_ID v) (v_JobName v) \<Longrightarrow> db_step db db'"
| "ExpireSilent env v db = Inr db' \<Longrightarrow> belongs db (v_ID v) (v_JobName v) \<Longrightarrow> db_step db db'"
| "ReleaseAsOwner env h db = Inr (st, db') \<Longrightarrow> belongs db (h_ExecutionID h) (h_JobName h) \<Longrightarrow> db_step db db'"
| "MaterializeCron env j c g db = Inr (m, db') \<Longrightarrow> db_step db db'"
| "MaterializePoll env j k c db = Inr (m, db') \<Longrightarrow> db_step db db'"
| "Recompute env j c db = Inr (t, db') \<Longrightarrow> db_step db db'"
| "CreateJob env d nf a r db = Inr db' \<Longrightarrow> db_step db db'"
| "CopyJobs env ss src a r db = Inr (cs, sk, db') \<Longrightarrow> db_step db db'"
| "SyncJobs env ss src a r db = Inr (sy, db') \<Longrightarrow> db_step db db'"
| "UpdateJob env d v a r db = Inr db' \<Longrightarrow> db_step db db'"
| "SyncJobDescriptions env m a r db = Inr (ds, db') \<Longrightarrow> db_step db db'"
| "SetPaused env j paused a r db = Inr db' \<Longrightarrow> db_step db db'"
| "Retire env j a r db = Inr db' \<Longrightarrow> db_step db db'"
| "Trigger json env j q a r ps db = Inr (k, db') \<Longrightarrow> db_step db db'"
| "AuthorizedRetry env k a r db = Inr db' \<Longrightarrow> db_step db db'"
| "ReapExecutions env sr ot l db = Inr (n, db') \<Longrightarrow> db_step db db'"
| "Register env e n db = Inr db' \<Longrightarrow> db_step db db'"
| "ExecutorHeartbeat env x y n db = (ok, db') \<Longrightarrow> db_step db db'"
| "Deregister x db = db' \<Longrightarrow> db_step db db'"
| "ReapExecutors env rt db = (n, db') \<Longrightarrow> db_step db db'"

lemma db_step_sim: "db_step db db' \<Longrightarrow> wf_db db \<Longrightarrow> sim db db'"
proof (induction rule: db_step.induct)
  case (3 env h o1 db db')
  then show ?case by (blast intro: release_sim [OF complete_tx.lock_releaser_axioms])
next
  case (4 env h o1 b db db')
  then show ?case by (blast intro: release_sim [OF retry_tx.lock_releaser_axioms])
next
  case (8 env p n db db')
  then show ?case by (blast intro: release_sim [OF refuse_tx.lock_releaser_axioms])
next
  case (11 env v b db st db')
  then show ?case
    using release_sim [OF resolve_tx.lock_releaser_axioms, of env v b db db'] by (auto simp: db_of_Inr)
next
  case (12 env v db db')
  then show ?case by (blast intro: release_sim [OF fence_tx.lock_releaser_axioms])
next
  case (13 env v db db')
  then show ?case by (blast intro: release_sim [OF silent_tx.lock_releaser_axioms])
next
  case (14 env h db st db')
  then show ?case
    using release_sim [OF owner_tx.lock_releaser_axioms, of env h db db'] by (auto simp: db_of_Inr)
next
  case (29 env x y n db ok db')
  then show ?case using Heartbeat_sim [of db env x y n] by simp
next
  case (30 x db db')
  then show ?case by (auto simp: Deregister_def intro: delete_executors_sim)
next
  case (31 env rt db n db')
  then show ?case by (auto simp: ReapExecutors_def Let_def intro: delete_executors_sim)
qed (blast intro: Renew_sim ExtendDeadline_sim RequestCancel_sim Claim_sim Accept_sim Retarget_sim Adopt_sim
    MaterializeCron_sim MaterializePoll_sim Recompute_sim CreateJob_sim CopyJobs_sim SyncJobs_sim UpdateJob_sim
    SyncJobDescriptions_sim SetPaused_sim Retire_sim Trigger_sim AuthorizedRetry_sim ReapExecutions_sim Register_sim)+

interpretation store: ownership_refinement db_step wf_db abs_db
  by unfold_locales (auto dest: db_step_sim simp: sim_def)

section \<open>Reachable databases\<close>

definition empty_db :: db where
  "empty_db =
     \<lparr>defs = [], states = [], execs = [], attempts = [], executors = [], handlers = [], audits = [], next_id = 1\<rparr>"

abbreviation reachable :: "db \<Rightarrow> bool" where "reachable db \<equiv> db_step\<^sup>*\<^sup>* empty_db db"

lemma wf_empty: "wf_db empty_db" "abs_db empty_db = no_owner"
  by (auto simp: wf_db_def empty_db_def db_key_defs abs_db_def no_owner_def List.map_filter_simps)

lemma reachable_ok:
  assumes "reachable db"
  shows "wf_db db" "own_ok (abs_db db)" "own_step\<^sup>*\<^sup>* no_owner (abs_db db)"
  using store.run [OF assms wf_empty(1)] own_ok_init by (simp_all add: wf_empty)

lemma reachable_keys: "reachable db \<Longrightarrow> keys_ok db"
  by (rule wf_dbD(1) [OF reachable_ok(1)])

lemma steps_evolve: "db_step\<^sup>*\<^sup>* db db' \<Longrightarrow> wf_db db \<Longrightarrow> rows_evolve db db' \<and> wf_db db'"
proof (induction rule: rtranclp_induct)
  case base
  then show ?case using sim_refl by (simp add: sim_def)
next
  case (step y z)
  then have "sim y z" by (blast intro: db_step_sim)
  with step show ?case by (auto simp: sim_def intro: rows_evolve_trans)
qed

lemma reachable_born:
  assumes "reachable db" "exec_row db i = Some e"
  shows "\<exists>e0. born e0 \<and> row_move\<^sup>*\<^sup>* e0 e"
  using steps_evolve [OF assms(1) wf_empty(1)] assms(2)
  unfolding rows_evolve_def by (auto simp: empty_db_def split: if_splits)

text \<open>A row of a reachable database is, at every later moment, gone or the end of a run of its moves.\<close>

lemma row_later:
  assumes "reachable db" "db_step\<^sup>*\<^sup>* db db'" "exec_row db i = Some e" "exec_row db' i = Some e'"
  shows "row_move\<^sup>*\<^sup>* e e'"
proof -
  have "i < next_id db" using reachable_keys [OF assms(1)] row_of_Some [OF assms(3)] by (auto simp: keys_ok_def)
  moreover have "rows_evolve db db'" using steps_evolve [OF assms(2)] reachable_ok(1) [OF assms(1)] by blast
  ultimately show ?thesis using assms(3,4) unfolding rows_evolve_def by fastforce
qed

lemma same_later:
  assumes "reachable db" "db_step\<^sup>*\<^sup>* db db'" "exec_row db i = Some e" "exec_row db' i = Some e'"
  shows "same_execution e e'"
  by (rule row_moves_same [OF row_later [OF assms]])

text \<open>In a reachable database an owned execution and its job's lock carry the same hold.\<close>

definition linked :: "job_state \<Rightarrow> job_execution \<Rightarrow> bool" where
  "linked s e \<longleftrightarrow>
     Held s \<and> js_active_execution s = Some (je_execution_key e) \<and>
     js_active_run_token s = je_run_token e \<and> js_fence_epoch s = je_fence_epoch e \<and>
     js_lease_until s = je_lease_until e \<and> js_active_owner s = je_owner_instance e"

lemma in_flight_linked:
  assumes "own_ok (abs_db db)" "exec_row db i = Some e" "in_flight (je_status e)"
  obtains s where "state_row db (je_job_name e) = Some s" "linked s e"
proof -
  have "claims (abs_db db) i = Some (Claim_of (je_job_name e) (je_execution_key e)
      (Some (je_fence_epoch e, Hold (je_run_token e) (je_lease_until e) (je_owner_instance e))))"
    using assms(2,3) by (simp add: abs_claim_def)
  with assms(1) have "locks (abs_db db) (je_job_name e) = Some (Lock (je_fence_epoch e)
      (Some (Some (je_execution_key e), Hold (je_run_token e) (je_lease_until e) (je_owner_instance e))))"
    unfolding own_ok_def by (blast intro: claims_lockedD)
  then show thesis by (auto simp: abs_lock_def linked_def Held_def intro: that split: if_splits)
qed

lemma held_linked:
  assumes "own_ok (abs_db db)" "state_row db j = Some s" "Held s"
  obtains i e where "exec_row db i = Some e" "je_job_name e = j" "in_flight (je_status e)" "linked s e"
proof -
  have "locks (abs_db db) j = Some (Lock (js_fence_epoch s)
      (Some (js_active_execution s, Hold (js_active_run_token s) (js_lease_until s) (js_active_owner s))))"
    using assms(2,3) by (simp add: abs_lock_def Held_def)
  with assms(1) obtain i k where "js_active_execution s = Some k"
    "claims (abs_db db) i = Some (Claim_of j k (Some (js_fence_epoch s,
        Hold (js_active_run_token s) (js_lease_until s) (js_active_owner s))))"
    unfolding own_ok_def by (blast elim: locks_claimedE)
  with assms(3) show thesis by (auto simp: abs_claim_def linked_def intro: that split: if_splits)
qed

lemma one_in_flight:
  assumes "own_ok (abs_db db)" "exec_row db i = Some e" "exec_row db i' = Some e'"
    "in_flight (je_status e)" "in_flight (je_status e')" "je_job_name e = je_job_name e'"
  shows "i = i'"
  using held_claim_unique [OF assms(1), of i "je_job_name e" "je_execution_key e" _ i' "je_execution_key e'"] assms(2-6)
  by (auto simp: abs_claim_def)

end
