(* ===== verification/Progress.thy ===== *)
theory Progress
  imports Protocol
begin

text \<open>
  When the transactions that end an attempt commit. A guarded write that finds its row succeeds, so
  what a release needs is the two rows of the attempt and, for the poll clock, a readable definition
  whose delay parses (\<open>clock_ok\<close>). In a reachable database an in-flight row always has its lock beside
  it, so what the recovery scans return is exactly what the recovery transactions can act on.
\<close>

definition clock_ok :: "db \<Rightarrow> string \<Rightarrow> bool" where
  "clock_ok db j \<longleftrightarrow>
     (case readDefinition db j of
        Inl _ \<Rightarrow> False
      | Inr d \<Rightarrow> d_ScheduleKind d = ScheduleFixedDelay \<longrightarrow> \<not> isl (Delay d))"

lemma clock_okE:
  assumes "clock_ok db j"
  obtains d where "readDefinition db j = Inr d"
    "d_ScheduleKind d = ScheduleFixedDelay \<longrightarrow> (\<exists>del. Delay d = Inr del)"
proof -
  from assms obtain d where d: "readDefinition db j = Inr d" "d_ScheduleKind d = ScheduleFixedDelay \<longrightarrow> \<not> isl (Delay d)"
    by (auto simp: clock_ok_def split: sum.splits)
  from d(2) have "d_ScheduleKind d = ScheduleFixedDelay \<longrightarrow> (\<exists>del. Delay d = Inr del)"
    by (cases "Delay d") auto
  with d(1) show thesis by (rule that)
qed

lemma clock_ok_cong: "defs db' = defs db \<Longrightarrow> clock_ok db' j = clock_ok db j"
  by (simp add: clock_ok_def readDefinition_def)

lemma release_ok:
  assumes "keys_ok db" "state_row db (h_JobName h) = Some s" "holds_lock (h_JobName h) (h_RunToken h) (h_FenceEpoch h) s"
  obtains db' where "releaseJobLock env h b db = Inr db'" "execs db' = execs db" "defs db' = defs db" "keys_ok db'"
proof -
  let ?P = "holds_lock (h_JobName h) (h_RunToken h) (h_FenceEpoch h)"
  have "update_state ?P (release_lock_set env b) db = (1, db\<lparr>states := sql_update ?P (release_lock_set env b) (states db)\<rparr>)"
    by (rule release_lock.one_row [where P = ?P, OF assms(1) holds_lock_job assms(2,3)])
  then show thesis using release_lock.keys_ok_update [OF assms(1)] that
    by (simp add: releaseJobLock_def assertSome_def)
qed

lemma charge_ok: "keys_ok db \<Longrightarrow> \<exists>db'. chargeUnacceptedAttempt env h db = Inr db'"
  unfolding chargeUnacceptedAttempt_def by (erule charge.at_most_one_ok) (simp add: owns_exec_def)

lemma settle_ok:
  assumes "keys_ok db" "clock_ok db (h_JobName h)"
  shows "\<exists>db'. settlePollClock env h db = Inr db'"
proof -
  obtain d where d: "readDefinition db (h_JobName h) = Inr d"
    "d_ScheduleKind d = ScheduleFixedDelay \<longrightarrow> (\<exists>del. Delay d = Inr del)"
    using assms(2) by (rule clock_okE)
  have "\<exists>db'. assertAtMostOne (update_state (\<lambda>s. js_job_name s = h_JobName h \<and> ended_pass db (h_ExecutionID h) (js_job_name s))
      (settle_poll_set env del) db) = Inr db'" for del
    by (rule settle_poll.at_most_one_ok [OF assms(1), of _ "h_JobName h"]) simp
  with d show ?thesis by (cases "d_ScheduleKind d = ScheduleFixedDelay") (auto simp: settlePollClock_def)
qed

text \<open>The tail of a release always commits once its landing write finds the row.\<close>

lemma tail_ok:
  assumes "exec_write f" "keys_ok db" "exec_row db (h_ExecutionID h) = Some e" "P e"
    "\<And>e. P e \<Longrightarrow> je_id e = h_ExecutionID h" "clock_ok db (h_JobName h)"
  obtains db1 db2 db3 where "assertOne (update_exec P f db) = Inr db1" "assertSome err (update_exec P f db) = Inr db1"
    "recordAttempt env h o1 db1 = Inr db2" "settlePollClock env h db2 = Inr db3"
proof -
  let ?db1 = "db\<lparr>execs := sql_update P f (execs db)\<rparr>"
  have upd: "update_exec P f db = (1, ?db1)" by (rule exec_write.one_row [where P = P, OF assms(1,2,5,3,4)])
  have ok1: "keys_ok ?db1" by (rule exec_write.keys_ok_update [OF assms(1,2)])
  have "exec_row ?db1 (h_ExecutionID h) = Some (f e)"
    using exec_write.rows_after [OF assms(1), of P db "h_ExecutionID h"] assms(3,4) by (simp add: update_exec_def)
  then obtain db2 where db2: "recordAttempt env h o1 ?db1 = Inr db2" by (cases "attempt_row db (h_ExecutionKey h, h_RunToken h)") (auto simp: recordAttempt_def)
  note r = recordE [OF db2 ok1]
  have "clock_ok db2 (h_JobName h)" using assms(6) r(4) by (simp add: clock_ok_cong [of db2 db])
  with r(3) obtain db3 where "settlePollClock env h db2 = Inr db3" using settle_ok by blast
  with db2 upd show thesis by (intro that) (simp_all add: assertOne_def assertSome_def)
qed

lemma charged_tail_ok:
  assumes "exec_write f" "keys_ok db"
    "state_row db (h_JobName h) = Some s" "holds_lock (h_JobName h) (h_RunToken h) (h_FenceEpoch h) s"
    "exec_row db (h_ExecutionID h) = Some e" "owns_exec (h_ExecutionID h) (h_RunToken h) (h_FenceEpoch h) e"
    "in_flight (je_status e)" "within_cap env e" "clock_ok db (h_JobName h)"
  obtains db1 db2 db3 db4 db5 where "releaseJobLock env h b db = Inr db1" "chargeUnacceptedAttempt env h db1 = Inr db2"
    "assertSome err (update_exec (\<lambda>e. owns_exec (h_ExecutionID h) (h_RunToken h) (h_FenceEpoch h) e \<and>
        in_flight (je_status e) \<and> within_cap env e) f db2) = Inr db3"
    "recordAttempt env h o1 db3 = Inr db4" "settlePollClock env h db4 = Inr db5"
proof -
  let ?P = "\<lambda>e. owns_exec (h_ExecutionID h) (h_RunToken h) (h_FenceEpoch h) e \<and> in_flight (je_status e) \<and> within_cap env e"
  obtain db1 where db1: "releaseJobLock env h b db = Inr db1" "execs db1 = execs db" "defs db1 = defs db" "keys_ok db1"
    by (rule release_ok [OF assms(2-4)])
  obtain db2 where db2: "chargeUnacceptedAttempt env h db1 = Inr db2" using charge_ok [OF db1(4)] by blast
  note ch = chargeE [OF db2 db1(4)]
  have row: "exec_row db2 (h_ExecutionID h) = Some (charged env h e)" by (simp add: ch(1) db1(2) assms(5))
  have P: "?P (charged env h e)" using assms(6-8) by (simp add: within_cap_def)
  have clk: "clock_ok db2 (h_JobName h)" using assms(9) ch(4) db1(3) by (simp add: clock_ok_cong [of db2 db])
  have "je_id e = h_ExecutionID h" if "?P e" for e using that by (simp add: owns_exec_def)
  from tail_ok [where P = ?P, OF assms(1) ch(3) row P this clk] obtain db3 db4 db5 where
    "assertSome err (update_exec ?P f db2) = Inr db3" "recordAttempt env h o1 db3 = Inr db4" "settlePollClock env h db4 = Inr db5"
    by metis
  with db1(1) db2 show thesis by (rule that)
qed

lemma Complete_ok:
  assumes "keys_ok db" "state_row db (h_JobName h) = Some s" "holds_lock (h_JobName h) (h_RunToken h) (h_FenceEpoch h) s"
    "exec_row db (h_ExecutionID h) = Some e" "owns_exec (h_ExecutionID h) (h_RunToken h) (h_FenceEpoch h) e"
    "in_flight (je_status e)" "within_cap env e" "clock_ok db (h_JobName h)" "Terminal (o_Status o0)"
  shows "\<exists>db'. Complete env h o0 db = Inr db'"
  by (rule charged_tail_ok [OF complete.exec_write_axioms assms(1-8), where b = "o_Status o0 = StatusSuccess"
        and err = ErrFenced and ?o1.0 = "clipped o0"])
     (use assms(9) in \<open>auto simp: Complete_def Let_def clipped_def\<close>)

lemma Retry_ok:
  assumes "keys_ok db" "state_row db (h_JobName h) = Some s" "holds_lock (h_JobName h) (h_RunToken h) (h_FenceEpoch h) s"
    "exec_row db (h_ExecutionID h) = Some e" "owns_exec (h_ExecutionID h) (h_RunToken h) (h_FenceEpoch h) e"
    "in_flight (je_status e)" "within_cap env e" "clock_ok db (h_JobName h)"
  shows "\<exists>db'. Retry env h o0 b db = Inr db'"
  by (rule charged_tail_ok [OF retry.exec_write_axioms assms, where b = False and err = ErrFenced and ?o1.0 = "clipped o0"])
     (auto simp: Retry_def Let_def)


text \<open>An in-flight row of a reachable database, as a scan reads it, passes every re-verification.\<close>

lemma in_flight_verified:
  assumes "reachable db" "exec_row db i = Some e" "in_flight (je_status e)"
  obtains s where "state_row db (je_job_name e) = Some s" "linked s e"
    "holds_lock (je_job_name e) (coalesce_str (je_run_token e)) (je_fence_epoch e) s"
    "owns_exec i (coalesce_str (je_run_token e)) (je_fence_epoch e) e"
    "\<not> lock_moved s (coalesce_str (je_run_token e)) (je_fence_epoch e)"
proof -
  obtain s where s: "state_row db (je_job_name e) = Some s" "linked s e"
    using reachable_ok(2) [OF assms(1)] assms(2,3) by (rule in_flight_linked)
  have "wf_state s" using wf_dbD(2) [OF reachable_ok(1) [OF assms(1)] s(1)] .
  with s(2) obtain t where "js_active_run_token s = Some t" "je_run_token e = Some t"
    by (auto simp: wf_state_def linked_def Held_def)
  with s row_of_Some [OF s(1)] row_of_Some [OF assms(2)] show thesis
    by (intro that) (auto simp: linked_def holds_lock_def owns_exec_def lock_moved_def)
qed

lemma Resolve_ok:
  assumes "reachable db" "exec_row db i = Some e" "in_flight (je_status e)"
    "sql_lt (je_lease_until e) (utc env)" "\<not> locked env (je_job_name e)" "clock_ok db (je_job_name e)"
  shows "\<exists>db'. Resolve env (stale_of env e) b db = Inr (resolvedStatus (stale_of env e), db')"
proof -
  let ?v = "stale_of env e" and ?j = "je_job_name e" and ?t = "coalesce_str (je_run_token e)" and ?n = "je_fence_epoch e"
  let ?L = "\<lambda>s. holds_lock ?j ?t ?n s \<and> sql_lt (js_lease_until s) (utc env)"
  let ?P = "\<lambda>e. owns_exec i ?t ?n e \<and> in_flight (je_status e)"
  note keys = reachable_keys [OF assms(1)]
  have id: "je_id e = i" using row_of_Some [OF assms(2)] by simp
  obtain s where s: "state_row db ?j = Some s" "linked s e" "holds_lock ?j ?t ?n s" "owns_exec i ?t ?n e" "\<not> lock_moved s ?t ?n"
    by (rule in_flight_verified [OF assms(1-3)])
  have L: "?L s" using s(2,3) assms(4) by (simp add: linked_def)
  let ?db1 = "db\<lparr>states := sql_update ?L (resolve_lock_set env) (states db)\<rparr>"
  have upd: "update_state ?L (resolve_lock_set env) db = (1, ?db1)"
    by (rule resolve_lock.one_row [where P = ?L, OF keys _ s(1) L]) (simp add: holds_lock_def)
  have "keys_ok ?db1" by (rule resolve_lock.keys_ok_update [OF keys])
  moreover have "exec_row ?db1 (h_ExecutionID (holder_of ?v)) = Some e" using assms(2) id by simp
  moreover have "?P e" using s(4) assms(3) by simp
  moreover have "je_id x = h_ExecutionID (holder_of ?v)" if "?P x" for x using that id by (simp add: owns_exec_def)
  moreover have "clock_ok ?db1 (h_JobName (holder_of ?v))" using assms(6) by (simp add: clock_ok_cong [of ?db1 db])
  ultimately obtain db2 db3 db4 where
    "assertOne (update_exec ?P (resolve_exec_set env (resolvedStatus ?v) (resolved_reason ?v) b) ?db1) = Inr db2"
    "recordAttempt env (holder_of ?v) (resolve_outcome env ?v) db2 = Inr db3" "settlePollClock env (holder_of ?v) db3 = Inr db4"
    by (rule tail_ok [OF resolve_exec.exec_write_axioms])
  with upd s(1,5) assms(2,3,5) id show ?thesis
    by (auto simp: Resolve_def lockState_def lockExecution_def exec_moved_def assertOne_def dest: terminal_not_in_flight)
qed

text \<open>The shape of the other two recoveries: release, landing write, history, poll clock.\<close>

lemma fence_tail_ok:
  assumes "reachable db" "exec_row db i = Some e" "in_flight (je_status e)" "clock_ok db (je_job_name e)" "Q e"
    and h: "h_JobName h = je_job_name e" "h_ExecutionID h = i" "h_RunToken h = coalesce_str (je_run_token e)"
      "h_FenceEpoch h = je_fence_epoch e"
    and f: "exec_write f"
  obtains db1 db2 db3 db4 where "releaseJobLock env h False db = Inr db1"
    "assertOne (update_exec (\<lambda>x. owns_exec i (coalesce_str (je_run_token e)) (je_fence_epoch e) x \<and> Q x) f db1) = Inr db2"
    "recordAttempt env h o1 db2 = Inr db3" "settlePollClock env h db3 = Inr db4"
proof -
  let ?P = "\<lambda>x. owns_exec i (coalesce_str (je_run_token e)) (je_fence_epoch e) x \<and> Q x"
  obtain s where s: "state_row db (je_job_name e) = Some s"
    "holds_lock (je_job_name e) (coalesce_str (je_run_token e)) (je_fence_epoch e) s"
    "owns_exec i (coalesce_str (je_run_token e)) (je_fence_epoch e) e"
    by (rule in_flight_verified [OF assms(1-3)])
  obtain db1 where db1: "releaseJobLock env h False db = Inr db1" "execs db1 = execs db" "defs db1 = defs db" "keys_ok db1"
    by (rule release_ok [OF reachable_keys [OF assms(1)], of h]) (use s h in simp_all)
  have "exec_row db1 (h_ExecutionID h) = Some e" using db1(2) assms(2) h by simp
  moreover have "?P e" using s(3) assms(5) by simp
  moreover have "je_id x = h_ExecutionID h" if "?P x" for x using that h by (simp add: owns_exec_def)
  moreover have "clock_ok db1 (h_JobName h)" using assms(4) db1(3) h by (simp add: clock_ok_cong [of db1 db])
  ultimately obtain db2 db3 db4 where "assertOne (update_exec ?P f db1) = Inr db2"
    "recordAttempt env h o1 db2 = Inr db3" "settlePollClock env h db3 = Inr db4"
    by (rule tail_ok [where P = ?P, OF f db1(4)])
  with db1(1) show thesis by (rule that)
qed

lemma FenceTimedOut_ok:
  assumes "reachable db" "exec_row db i = Some e" "in_flight (je_status e)" "\<not> locked env (je_job_name e)" "clock_ok db (je_job_name e)"
    and v: "v_JobName v = je_job_name e" "v_ID v = i" "v_RunToken v = coalesce_str (je_run_token e)" "v_FenceEpoch v = je_fence_epoch e"
  shows "\<exists>db'. FenceTimedOut env v db = Inr db'"
proof -
  obtain s where s: "state_row db (je_job_name e) = Some s" "\<not> lock_moved s (coalesce_str (je_run_token e)) (je_fence_epoch e)"
    by (rule in_flight_verified [OF assms(1-3)])
  have hv: "h_JobName (holder_of v) = je_job_name e" "h_ExecutionID (holder_of v) = i"
    "h_RunToken (holder_of v) = coalesce_str (je_run_token e)" "h_FenceEpoch (holder_of v) = je_fence_epoch e"
    using v by simp_all
  let ?c = "je_status e = StatusCancelRequested"
  obtain db1 db2 db3 db4 where "releaseJobLock env (holder_of v) False db = Inr db1"
    "assertOne (update_exec (\<lambda>x. owns_exec i (coalesce_str (je_run_token e)) (je_fence_epoch e) x \<and> in_flight (je_status x))
       (fence_exec_set env (if ?c then StatusCancelled else StatusDead) (if ?c then ReasonFenced else ReasonTimeout) ''timeout''
          ''runtime cap elapsed; execution fenced by the scheduler'') db1) = Inr db2"
    "recordAttempt env (holder_of v) (unknown_outcome\<lparr>o_AttemptOutcome := AttemptFenced, o_ExecutorID := v_DispatchedTo v,
        o_FinishedAt := Some (now env), o_FailureKind := ''timeout'',
        o_ResultSummary := if ?c then ''cancel requested, then the runtime cap elapsed; side effects unverified''
                           else ''runtime cap elapsed; side effects unverified''\<rparr>) db2 = Inr db3"
    "settlePollClock env (holder_of v) db3 = Inr db4"
    by (rule fence_tail_ok [where Q = "\<lambda>x. in_flight (je_status x)", OF assms(1-3,5) assms(3) hv fence_exec.exec_write_axioms])
  moreover have "\<not> Terminal (je_status e)" using assms(3) terminal_not_in_flight by blast
  ultimately show ?thesis using s assms(2,4) v
    by (simp add: FenceTimedOut_def lockState_def lockExecution_def exec_moved_def Let_def)
qed

lemma ExpireSilent_ok:
  assumes "reachable db" "exec_row db i = Some e" "je_status e \<in> {StatusRunning, StatusCancelRequested}"
    "sql_lt (je_deadline_at e) (utc env)" "\<not> locked env (je_job_name e)" "clock_ok db (je_job_name e)"
  shows "\<exists>db'. ExpireSilent env (stale_of env e) db = Inr db'"
proof -
  let ?v = "stale_of env e"
  have fl: "in_flight (je_status e)" "\<not> Terminal (je_status e)" using assms(3) by auto
  have id: "je_id e = i" using row_of_Some [OF assms(2)] by simp
  obtain s where s: "state_row db (je_job_name e) = Some s" "\<not> lock_moved s (coalesce_str (je_run_token e)) (je_fence_epoch e)"
    by (rule in_flight_verified [OF assms(1,2) fl(1)])
  have hv: "h_JobName (holder_of ?v) = je_job_name e" "h_ExecutionID (holder_of ?v) = i"
    "h_RunToken (holder_of ?v) = coalesce_str (je_run_token e)" "h_FenceEpoch (holder_of ?v) = je_fence_epoch e"
    using id by simp_all
  obtain db1 db2 db3 db4 where "releaseJobLock env (holder_of ?v) False db = Inr db1"
    "assertOne (update_exec (\<lambda>x. owns_exec i (coalesce_str (je_run_token e)) (je_fence_epoch e) x \<and>
         je_status x \<in> {StatusRunning, StatusCancelRequested})
       (fence_exec_set env (if je_status e = StatusCancelRequested then StatusCancelled else StatusDead) ReasonFenced ''silence''
          ''the executor stopped reporting progress within its silence budget'') db1) = Inr db2"
    "recordAttempt env (holder_of ?v) (unknown_outcome\<lparr>o_ExecutorID := v_DispatchedTo ?v, o_FinishedAt := Some (now env),
        o_FailureKind := ''silence'',
        o_ResultSummary := ''no progress within the silence budget; side effects unverified''\<rparr>) db2 = Inr db3"
    "settlePollClock env (holder_of ?v) db3 = Inr db4"
    by (rule fence_tail_ok [where Q = "\<lambda>x. je_status x \<in> {StatusRunning, StatusCancelRequested}",
          OF assms(1,2) fl(1) assms(6) assms(3) hv fence_exec.exec_write_axioms])
  with s assms(2,4,5) fl id show ?thesis
    by (simp add: ExpireSilent_def lockState_def lockExecution_def exec_moved_def Let_def)
qed

end
