(* ===== verification/Examples.thy ===== *)
theory Examples
  imports Progress
begin

text \<open>
  A concrete run of the store, from the empty schema: a job is created, triggered by hand, claimed,
  accepted, completed. The databases along it are the inputs the properties are instantiated at.
\<close>

definition env_at :: "time \<Rightarrow> env" where
  "env_at t = \<lparr>utc = t * Second, now = t * Second, locked = (\<lambda>_. False), burned = 0\<rparr>"

definition job_a :: Definition where
  "job_a =
     \<lparr>d_JobName = ''a'', d_HandlerKey = ''h'', d_ExecutorGroup = [], d_ScheduleKind = ScheduleFixedDelay,
      d_ScheduleExpr = ''5000'', d_Enabled = True, d_Retired = False, d_Concurrency = PolicyQueue,
      d_Misfire = MisfireFireOnce, d_MaxAttempts = 3, d_MaxRecoveries = 3, d_Lease = 60 * Second,
      d_Timeout = 600 * Second, d_Params = [], d_Description = [], d_Version = 0, d_UpdatedBy = []\<rparr>"

definition no_json :: json_codec where
  "no_json = \<lparr>decode = (\<lambda>_. None), encode = (\<lambda>_. [])\<rparr>"

definition ok_db :: "db result \<Rightarrow> db" where
  "ok_db r = (case r of Inl _ \<Rightarrow> empty_db | Inr db \<Rightarrow> db)"

definition ok_snd :: "('a \<times> db) result \<Rightarrow> db" where
  "ok_snd r = (case r of Inl _ \<Rightarrow> empty_db | Inr (_, db) \<Rightarrow> db)"

definition created :: db where "created = ok_db (CreateJob (env_at 100) job_a 0 ''op'' ''new'' empty_db)"

definition polled :: db where
  "polled = ok_snd (MaterializePoll (env_at 100) ''a'' ''p:a:1'' (\<lambda>_. Inl ErrOther) created)"

definition claim_a :: ClaimParams where
  "claim_a =
     \<lparr>p_ExecutionID = 1, p_JobName = ''a'', p_ExecutionKey = ''p:a:1'', p_Owner = ''s1'', p_ExecutorID = ''x1'',
      p_RunToken = ''t1'', p_BackoffSeconds = 5\<rparr>"

definition claimed :: db where
  "claimed = ok_snd (Claim (env_at 101) claim_a (\<lambda>_ _ _ _. None) polled)"

definition running :: db where "running = ok_db (Accept (env_at 102) 1 ''t1'' 1 60 claimed)"

lemma created_run: "CreateJob (env_at 100) job_a 0 ''op'' ''new'' empty_db = Inr created"
  by code_simp

lemma polled_run:
  "MaterializePoll (env_at 100) ''a'' ''p:a:1'' (\<lambda>_. Inl ErrOther) created =
   Inr (empty_result\<lparr>m_Outcome := MaterializedExecution, m_ExecutionKey := ''p:a:1'', m_ScheduledAt := Some (100 * Second)\<rparr>, polled)"
  by code_simp

lemma claimed_run:
  "Claim (env_at 101) claim_a (\<lambda>_ _ _ _. None) polled =
   Inr (\<lparr>cr_Outcome = ClaimAcquired, cr_FenceEpoch = 1, cr_Definition = job_a\<lparr>d_Version := 1\<rparr>, cr_Reason = None\<rparr>, claimed)"
  by code_simp

lemma running_run: "Accept (env_at 102) 1 ''t1'' 1 60 claimed = Inr running"
  by code_simp

lemma reach_created: "reachable created"
  by (rule r_into_rtranclp) (rule db_step.intros(18) [OF created_run])

lemma reach_polled: "reachable polled"
  by (rule rtranclp.rtrancl_into_rtrancl [OF reach_created]) (rule db_step.intros(16) [OF polled_run])

lemma reach_claimed: "reachable claimed"
  by (rule rtranclp.rtrancl_into_rtrancl [OF reach_polled]) (rule db_step.intros(6) [OF claimed_run])

lemma reach_running: "reachable running"
  by (rule rtranclp.rtrancl_into_rtrancl [OF reach_claimed]) (rule db_step.intros(7) [OF running_run])

definition the_run :: job_execution where "the_run = hd (execs running)"

lemma the_run_facts:
  "the_run \<in> set (execs running)" "je_status the_run = StatusRunning" "je_job_name the_run = ''a''"
  "je_fence_epoch the_run = 1" "je_run_token the_run = Some ''t1''" "je_id the_run = 1"
  "exec_row running 1 = Some the_run" "in_flight (je_status the_run)"
  by code_simp+

definition holder_a :: Holder where
  "holder_a =
     \<lparr>h_JobName = ''a'', h_ExecutionID = 1, h_ExecutionKey = ''p:a:1'', h_Owner = ''s1'', h_RunToken = ''t1'', h_FenceEpoch = 1\<rparr>"

definition success :: Outcome where
  "success =
     \<lparr>o_Status = StatusSuccess, o_TerminalReason = Some ReasonHandlerConfirmed, o_AttemptOutcome = AttemptSuccess,
      o_FailureKind = [], o_ErrorMessage = [], o_ResultSummary = ''done'', o_ExecutorID = ''x1'',
      o_StartedAt = None, o_FinishedAt = None\<rparr>"

definition finished :: db where "finished = ok_db (Complete (env_at 110) holder_a success running)"

lemma finished_run: "Complete (env_at 110) holder_a success running = Inr finished"
  by code_simp

lemma belongs_running: "belongs running (h_ExecutionID holder_a) (h_JobName holder_a)"
  by code_simp

lemma finished_step: "db_step\<^sup>*\<^sup>* running finished"
  by (rule r_into_rtranclp) (rule db_step.intros(3) [OF finished_run belongs_running])

lemma reach_finished: "reachable finished"
  using reach_running finished_step by (rule rtranclp_trans)

lemma polled_step: "db_step created polled" by (rule db_step.intros(16) [OF polled_run])
lemma claimed_step: "db_step polled claimed" by (rule db_step.intros(6) [OF claimed_run])
lemma running_step: "db_step claimed running" by (rule db_step.intros(7) [OF running_run])

lemma created_to_running: "db_step\<^sup>*\<^sup>* created running"
  using polled_step claimed_step running_step by (meson rtranclp.rtrancl_into_rtrancl r_into_rtranclp)

section \<open>Around the run\<close>

definition failure :: Outcome where
  "failure = success\<lparr>o_Status := StatusDead, o_TerminalReason := None, o_AttemptOutcome := AttemptFailed, o_FailureKind := ''transient''\<rparr>"

definition requeued :: db where "requeued = ok_db (Retry (env_at 110) holder_a failure 5 running)"
definition refused :: db where "refused = ok_db (Refuse (env_at 103) claim_a 1 claimed)"
definition renewed :: db where "renewed = ok_db (Renew (env_at 150) holder_a 60 running)"
definition resolved :: db where "resolved = ok_snd (Resolve (env_at 300) (hd (StaleExecutions (env_at 300) running 10)) 5 running)"
definition expired :: db where "expired = ok_snd (Claim (env_at 800) (claim_a\<lparr>p_RunToken := ''t2''\<rparr>) (\<lambda>_ _ _ _. None) refused)"
definition retired :: db where "retired = ok_db (Retire (env_at 105) ''a'' ''op'' ''done'' running)"
definition stray :: db where "stray = ok_db (Retry (env_at 110) holder_a failure 5 retired)"
definition triggered :: db where
  "triggered = ok_snd (Trigger no_json (env_at 105) ''a'' ''r1'' ''op'' ''now'' [] running)"

definition claim_b :: ClaimParams where
  "claim_b = claim_a\<lparr>p_ExecutionID := 2, p_ExecutionKey := ''m:a:r1'', p_RunToken := ''t2''\<rparr>"

definition waiting :: db where "waiting = ok_snd (Claim (env_at 106) claim_b (\<lambda>_ _ _ _. None) triggered)"

lemma around_run:
  "Retry (env_at 110) holder_a failure 5 running = Inr requeued"
  "Refuse (env_at 103) claim_a 1 claimed = Inr refused"
  "Renew (env_at 150) holder_a 60 running = Inr renewed"
  "Resolve (env_at 300) (hd (StaleExecutions (env_at 300) running 10)) 5 running = Inr (StatusReady, resolved)"
  "Claim (env_at 800) (claim_a\<lparr>p_RunToken := ''t2''\<rparr>) (\<lambda>_ _ _ _. None) refused =
     Inr (claim_result ClaimExpired (job_a\<lparr>d_Version := 1\<rparr>) (Some ErrNotRunnable), expired)"
  "Retire (env_at 105) ''a'' ''op'' ''done'' running = Inr retired"
  "Retry (env_at 110) holder_a failure 5 retired = Inr stray"
  "Trigger no_json (env_at 105) ''a'' ''r1'' ''op'' ''now'' [] running = Inr (''m:a:r1'', triggered)"
  "Claim (env_at 106) claim_b (\<lambda>_ _ _ _. None) triggered =
     Inr (claim_result ClaimDeferred (job_a\<lparr>d_Version := 1\<rparr>) (Some ErrContended), waiting)"
  by code_simp+

lemma belongs_facts: "belongs claimed (p_ExecutionID claim_a) (p_JobName claim_a)" "belongs retired (h_ExecutionID holder_a) (h_JobName holder_a)"
  by code_simp+

lemma reach_renewed: "reachable renewed"
  by (rule rtranclp.rtrancl_into_rtrancl [OF reach_running]) (rule db_step.intros(1) [OF around_run(3) belongs_running])

lemma reach_refused: "reachable refused"
  by (rule rtranclp.rtrancl_into_rtrancl [OF reach_claimed]) (rule db_step.intros(8) [OF around_run(2) belongs_facts(1)])

lemma reach_expired: "reachable expired"
  by (rule rtranclp.rtrancl_into_rtrancl [OF reach_refused]) (rule db_step.intros(6) [OF around_run(5)])

lemma reach_retired: "reachable retired"
  by (rule rtranclp.rtrancl_into_rtrancl [OF reach_running]) (rule db_step.intros(24) [OF around_run(6)])

lemma reach_stray: "reachable stray"
  by (rule rtranclp.rtrancl_into_rtrancl [OF reach_retired]) (rule db_step.intros(4) [OF around_run(7) belongs_facts(2)])

lemma reach_triggered: "reachable triggered"
  by (rule rtranclp.rtrancl_into_rtrancl [OF reach_running]) (rule db_step.intros(25) [OF around_run(8)])

lemma free_locks: "\<not> locked (env_at t) j"
  by (simp add: env_at_def)

lemma key_facts: "keys_ok running" "keys_ok claimed" "keys_ok polled" "keys_ok triggered"
  by (simp_all add: reachable_keys reach_running reach_claimed reach_polled reach_triggered)

lemma stale_row: "hd (StaleExecutions (env_at 300) running 10) = stale_of (env_at 300) the_run"
  by code_simp

section \<open>A cron job, and the end of a run\<close>

definition minutely :: Schedule where
  "minutely =
     \<lparr>Next = (\<lambda>t. Inr ((t div Minute + 1) * Minute)),
      Latest = (\<lambda>t horizon. Inr (if t - t div Minute * Minute \<le> horizon then Some (t div Minute * Minute) else None)),
      CountBetween = (\<lambda>a b limit. Inr (min limit (max 0 (b div Minute - a div Minute)), b div Minute - a div Minute \<le> limit))\<rparr>"

lemma minutely_laws: "schedule_laws minutely"
proof -
  have "t < (t div Minute + 1) * Minute" "t div Minute * Minute \<le> t" for t :: int
    using div_mult_mod_eq [of t Minute] pos_mod_bound [of Minute t] pos_mod_sign [of Minute t]
    by (simp_all add: distrib_right)
  then show ?thesis by (simp add: schedule_laws_def minutely_def split: if_split)
qed

definition job_c :: Definition where
  "job_c = job_a\<lparr>d_JobName := ''c'', d_ScheduleKind := ScheduleCron, d_ScheduleExpr := ''0 * * * * *''\<rparr>"

definition cron_created :: db where
  "cron_created = ok_db (CreateJob (env_at 100) job_c (120 * Second) ''op'' ''new'' empty_db)"

definition fired :: db where
  "fired = ok_snd (MaterializeCron (env_at 125) ''c'' (\<lambda>_. Inr minutely) Minute cron_created)"

definition fired_result :: MaterializeResult where
  "fired_result =
     empty_result\<lparr>m_ExecutionKey := ''c:c:120'', m_ScheduledAt := Some (120 * Second),
       m_NextFireAt := Some (180 * Second), m_MissedExact := True\<rparr>"

definition edited :: db where
  "edited = ok_db (UpdateJob (env_at 130) (job_c\<lparr>d_HandlerKey := ''h2''\<rparr>) 1 ''op'' ''move'' fired)"

definition recomputed :: db where
  "recomputed = ok_snd (Recompute (env_at 131) ''c'' (\<lambda>_. Inr minutely) edited)"

definition fenced_db :: db where
  "fenced_db = ok_db (FenceTimedOut (env_at 800) (hd (TimedOut (env_at 800) running 10)) running)"

definition revived :: db where
  "revived = ok_db (AuthorizedRetry (env_at 900) ''p:a:1'' ''op'' ''again'' fenced_db)"

lemma schedule_runs:
  "CreateJob (env_at 100) job_c (120 * Second) ''op'' ''new'' empty_db = Inr cron_created"
  "MaterializeCron (env_at 125) ''c'' (\<lambda>_. Inr minutely) Minute cron_created = Inr (fired_result, fired)"
  "UpdateJob (env_at 130) (job_c\<lparr>d_HandlerKey := ''h2''\<rparr>) 1 ''op'' ''move'' fired = Inr edited"
  "Recompute (env_at 131) ''c'' (\<lambda>_. Inr minutely) edited = Inr (Some (180 * Second), recomputed)"
  "FenceTimedOut (env_at 800) (hd (TimedOut (env_at 800) running 10)) running = Inr fenced_db"
  "AuthorizedRetry (env_at 900) ''p:a:1'' ''op'' ''again'' fenced_db = Inr revived"
  by code_simp+

lemma reach_cron_created: "reachable cron_created"
  by (rule r_into_rtranclp) (rule db_step.intros(18) [OF schedule_runs(1)])

lemma reach_fired: "reachable fired"
  by (rule rtranclp.rtrancl_into_rtrancl [OF reach_cron_created]) (rule db_step.intros(15) [OF schedule_runs(2)])

lemma reach_edited: "reachable edited"
  by (rule rtranclp.rtrancl_into_rtrancl [OF reach_fired]) (rule db_step.intros(21) [OF schedule_runs(3)])

lemma reach_fenced: "reachable fenced_db"
  by (rule rtranclp.rtrancl_into_rtrancl [OF reach_running], rule db_step.intros(12) [OF schedule_runs(5)]) code_simp

definition exec_x :: Executor where
  "exec_x = \<lparr>x_ExecutorID = ''x1'', x_Identity = ''id'', x_Group = ''g'', x_Address = ''h:1'', x_ContractVersion = ''1'',
     x_Revision = ''r'', x_Capacity = 4, x_Running = 0, x_Capabilities = [], x_Handlers = [''h''], x_HandlerDescriptions = [],
     x_StartedAt = 0, x_HeartbeatAt = 0, x_Live = False\<rparr>"

definition registered :: db where "registered = ok_db (Register (env_at 100) exec_x 30 created)"

lemma registered_run: "Register (env_at 100) exec_x 30 created = Inr registered"
  by code_simp

lemma reach_registered: "reachable registered"
  by (rule rtranclp.rtrancl_into_rtrancl [OF reach_created]) (rule db_step.intros(28) [OF registered_run])

end
