(* ===== verification/Lifecycle.thy ===== *)
theory Lifecycle
  imports Examples Outcomes
begin

text \<open>
  The life of an attempt: what a claim, an acceptance, a report and a recovery do to the two rows, the
  attempt history and the poll clock, when they commit, and two runs in which the code does less than
  its comments promise.
\<close>

lemma record_row:
  assumes "recordAttempt env h o1 db = Inr db'" "exec_row db (h_ExecutionID h) = Some e"
  shows "attempt_row db' (h_ExecutionKey h, h_RunToken h) =
    (case attempt_row db (h_ExecutionKey h, h_RunToken h) of
       None \<Rightarrow> Some (attempt_of env h o1 (je_attempt_no e)) | Some a \<Rightarrow> Some a)"
    "k \<noteq> (h_ExecutionKey h, h_RunToken h) \<Longrightarrow> attempt_row db' k = attempt_row db k"
  using assms by (auto simp: recordAttempt_def row_of_append attempt_of_def split: option.splits if_splits)

lemma settle_history: "settlePollClock env h db = Inr db' \<Longrightarrow> attempts db' = attempts db"
  by (auto simp: settlePollClock_def assertAtMostOne_def update_state_def split: if_splits)

lemma update_exec_history: "assertSome err (update_exec P f db) = Inr db' \<Longrightarrow> attempts db' = attempts db"
  by (auto simp: assertSome_def update_exec_def split: if_splits)

lemma Complete_history:
  assumes "Complete env h o0 db = Inr db'" "keys_ok db" "exec_row db (h_ExecutionID h) = Some e"
    "attempt_row db (h_ExecutionKey h, h_RunToken h) = None"
  shows "attempt_row db' (h_ExecutionKey h, h_RunToken h) =
    Some (attempt_of env h (clipped o0) (je_attempt_no (charged env h e)))"
proof -
  let ?P = "\<lambda>e. owns_exec (h_ExecutionID h) (h_RunToken h) (h_FenceEpoch h) e \<and> in_flight (je_status e) \<and> within_cap env e"
  from assms(1) obtain db1 db2 db3 db4 where st:
    "releaseJobLock env h (o_Status (clipped o0) = StatusSuccess) db = Inr db1" "chargeUnacceptedAttempt env h db1 = Inr db2"
    "assertSome ErrFenced (update_exec ?P (complete_set env (clipped o0)) db2) = Inr db3"
    "recordAttempt env h (clipped o0) db3 = Inr db4" "settlePollClock env h db4 = Inr db'"
    by (auto simp: Complete_def Let_def split: if_splits)
  from st(1) assms(2) obtain s where lock: "execs db1 = execs db" "keys_ok db1" "attempts db1 = attempts db"
    by (rule releaseE)
  note ch = chargeE [OF st(2) lock(2)]
  have "exec_row db2 (h_ExecutionID h) = Some (charged env h e)" by (simp add: ch(1) lock(1) assms(3))
  with st(3) obtain e3 where "exec_row db3 (h_ExecutionID h) = Some e3" "je_attempt_no e3 = je_attempt_no (charged env h e)"
    by (auto elim!: complete.someE [OF _ ch(3), of _ _ _ _ _ "h_ExecutionID h"] simp: owns_exec_def complete_set_def)
  with record_row(1) [OF st(4)] settle_history [OF st(5)] update_exec_history [OF st(3)] ch(5) lock(3) assms(4)
  show ?thesis by (simp split: option.splits)
qed

text \<open>C28: What a committed completion did. The caller owned both rows, the execution was in flight and within its runtime
  cap; the execution now carries the reported terminal status, was charged the attempt if its acceptance had never
  been recorded and is otherwise the same execution; the lock is free at the same epoch; no other row of either
  table moved.\<close>

theorem complete_effect:
  assumes "keys_ok db" "Complete env h o0 db = Inr db'"
  shows "\<exists>s e s' e'. state_row db (h_JobName h) = Some s \<and> holds_lock (h_JobName h) (h_RunToken h) (h_FenceEpoch h) s \<and>
    exec_row db (h_ExecutionID h) = Some e \<and> owns_exec (h_ExecutionID h) (h_RunToken h) (h_FenceEpoch h) e \<and>
    in_flight (je_status e) \<and> within_cap env e \<and>
    state_row db' = (state_row db)(h_JobName h \<mapsto> s') \<and> \<not> Held s' \<and> js_fence_epoch s' = h_FenceEpoch h \<and>
    js_last_success_at s' = (if o_Status o0 = StatusSuccess then Some (now env) else js_last_success_at s) \<and>
    exec_row db' = (exec_row db)(h_ExecutionID h \<mapsto> e') \<and> same_execution e e' \<and> je_status e' = o_Status o0 \<and>
    Terminal (je_status e') \<and> je_finished_at e' = Some (now env) \<and>
    je_attempt_no e' = je_attempt_no e + (if je_status e = StatusDispatching then 1 else 0)"
proof -
  from Complete_ended(2) [OF assms(2,1)] obtain s e d s' where r:
    "state_row db (h_JobName h) = Some s" "holds_lock (h_JobName h) (h_RunToken h) (h_FenceEpoch h) s"
    "exec_row db (h_ExecutionID h) = Some e" "owns_exec (h_ExecutionID h) (h_RunToken h) (h_FenceEpoch h) e"
    "in_flight (je_status e)" "within_cap env e"
    "settles env d (complete_set env (clipped o0) (charged env h e)) (release_lock_set env (o_Status o0 = StatusSuccess) s) s'"
    "state_row db' = (state_row db)(h_JobName h \<mapsto> s')"
    "exec_row db' = (exec_row db)(h_ExecutionID h \<mapsto> complete_set env (clipped o0) (charged env h e))"
    unfolding ended_def by blast
  note T = Complete_ended(1) [OF assms(2,1)]
  have "lets_go s s'" by (rule settles_lets_go [OF r(7) lets_go_sets(1)])
  moreover have "js_last_success_at s' = (if o_Status o0 = StatusSuccess then Some (now env) else js_last_success_at s)"
    using r(7) by (auto simp: settles_def settle_poll_set_def release_lock_set_def split: if_splits)
  moreover have "same_execution e (complete_set env (clipped o0) (charged env h e))"
    by (rule row_move_same) (rule row_move.complete [OF r(5) T r(4)])
  ultimately show ?thesis using r T
    by (intro exI [of _ s] exI [of _ e] exI [of _ s'] exI [of _ "complete_set env (clipped o0) (charged env h e)"])
       (auto simp: lets_go_def Held_def holds_lock_def complete_set_def clipped_def charged_def charge_set_def)
qed

theorem complete_effect_witness:
  "\<exists>e'. exec_row finished 1 = Some e' \<and> je_status e' = StatusSuccess \<and> same_execution the_run e' \<and>
    je_finished_at e' = Some (110 * Second)"
  using complete_effect [OF reachable_keys [OF reach_running] finished_run] the_run_facts(7)
  by (auto simp: holder_a_def success_def env_at_def)

text \<open>A report by the owner commits. In a reachable database, for an in-flight execution within its runtime cap whose
  job's definition is readable, the holder that names the row's own job, token and epoch can complete it with any
  terminal outcome and can hand it back for retry.\<close>

lemma reports_commit:
  assumes "reachable db" "exec_row db (h_ExecutionID h) = Some e" "in_flight (je_status e)" "within_cap env e"
    "clock_ok db (je_job_name e)" "h_JobName h = je_job_name e" "je_run_token e = Some (h_RunToken h)" "h_FenceEpoch h = je_fence_epoch e"
    "Terminal (o_Status o0)"
  shows "\<exists>done again. Complete env h o0 db = Inr done \<and> Retry env h o1 b db = Inr again"
proof -
  obtain s where s: "state_row db (h_JobName h) = Some s" "holds_lock (h_JobName h) (h_RunToken h) (h_FenceEpoch h) s"
    "owns_exec (h_ExecutionID h) (h_RunToken h) (h_FenceEpoch h) e"
    by (rule in_flight_verified [OF assms(1-3)]) (use assms(6-8) in simp)
  note rows = reachable_keys [OF assms(1)] s(1,2) assms(2) s(3) assms(3,4)
  have "clock_ok db (h_JobName h)" using assms(5,6) by simp
  with Complete_ok [OF rows _ assms(9)] Retry_ok [OF rows] show ?thesis by blast
qed

text \<open>The attempt history keeps the first report. A completion records its outcome under the execution key and run
  token when none was recorded, and no later write of the history, by any caller, changes what Attempt answers.\<close>

lemma first_report_wins:
  assumes "keys_ok db" "Complete env h o0 db = Inr db'" "Attempt db (h_ExecutionKey h) (h_RunToken h) = Inl ErrNoSuchAttempt"
  shows "\<exists>a. Attempt db' (h_ExecutionKey h) (h_RunToken h) = Inr a \<and> ja_outcome a = o_AttemptOutcome o0 \<and>
    (\<forall>env' h' o' db''. recordAttempt env' h' o' db' = Inr db'' \<longrightarrow> Attempt db'' (h_ExecutionKey h) (h_RunToken h) = Inr a)"
proof -
  obtain e where e: "exec_row db (h_ExecutionID h) = Some e"
    using complete_tx.released [OF assms(2,1)] by (auto simp: given_up_def)
  have "attempt_row db (h_ExecutionKey h, h_RunToken h) = None" using assms(3) by (auto simp: Attempt_def split: option.splits)
  note a = Complete_history [OF assms(2,1) e this]
  have "attempt_row db'' k = Some x" if "recordAttempt env' h' o' db' = Inr db''" "attempt_row db' k = Some x" for env' h' o' db'' k x
    using that by (auto simp: recordAttempt_def row_of_append split: option.splits if_splits)
  with a show ?thesis by (auto simp: Attempt_def attempt_of_def clipped_def)
qed

text \<open>Where a reported disposition lands the execution: success, stopped and timed out are terminal as reported; a
  permanent failure is dead; any other failure goes back to the queue while attempts remain and is dead when they
  are spent, the attempt being charged first if its acceptance was never recorded.\<close>

lemma apply_landing:
  assumes "keys_ok db" "Apply env h oc x b db = Inr db'" "exec_row db (h_ExecutionID h) = Some e"
  shows "\<exists>e'. exec_row db' (h_ExecutionID h) = Some e' \<and>
    je_attempt_no e' = je_attempt_no e + (if je_status e = StatusDispatching then 1 else 0) \<and>
    je_status e' = (case eo_Disposition oc of
       DISPOSITION_SUCCESS \<Rightarrow> StatusSuccess
     | DISPOSITION_STOPPED \<Rightarrow> StatusCancelled
     | DISPOSITION_TIMED_OUT \<Rightarrow> StatusDead
     | _ \<Rightarrow> if Permanent (eo_FailureKind oc) \<or> je_attempt_no e' \<ge> je_max_attempts e then StatusDead else StatusReady)"
proof (cases "dc_Retryable (Classify (eo_Disposition oc) (eo_FailureKind oc))")
  case True
  then have "Retry env h (reported (Classify (eo_Disposition oc) (eo_FailureKind oc)) oc x) b db = Inr db'"
    using assms(2) by (simp add: Apply_def Let_def)
  from Retry_ended [OF this assms(1)] assms(3) have own: "owns_exec (h_ExecutionID h) (h_RunToken h) (h_FenceEpoch h) e"
    and row: "exec_row db' = (exec_row db)(h_ExecutionID h \<mapsto>
      retry_set env (clipped (reported (Classify (eo_Disposition oc) (eo_FailureKind oc)) oc x)) b (charged env h e))"
    by (auto simp: ended_def)
  from True have "\<not> Permanent (eo_FailureKind oc)"
    "eo_Disposition oc \<notin> {DISPOSITION_SUCCESS, DISPOSITION_STOPPED, DISPOSITION_TIMED_OUT}"
    by (auto simp: Classify_def decision_def split: Disposition.splits if_splits)
  with own row show ?thesis
    by (auto simp: retry_set_def charged_def charge_set_def Let_def split: Disposition.split)
next
  case False
  then have "Complete env h (reported (Classify (eo_Disposition oc) (eo_FailureKind oc)) oc x) db = Inr db'"
    using assms(2) by (simp add: Apply_def Let_def)
  from Complete_ended(2) [OF this assms(1)] assms(3) have own: "owns_exec (h_ExecutionID h) (h_RunToken h) (h_FenceEpoch h) e"
    and row: "exec_row db' = (exec_row db)(h_ExecutionID h \<mapsto>
      complete_set env (clipped (reported (Classify (eo_Disposition oc) (eo_FailureKind oc)) oc x)) (charged env h e))"
    by (auto simp: ended_def)
  from False own row show ?thesis
    by (auto simp: complete_set_def clipped_def reported_def charged_def charge_set_def Classify_def decision_def
        split: Disposition.splits if_splits)
qed

text \<open>Where a retry lands. The attempt is charged if it had not been; with the budget spent the execution is dead for
  that reason, otherwise it is ready again after the backoff, unowned, with a fresh runtime cap.\<close>

lemma retry_landing:
  assumes "keys_ok db" "Retry env h o0 b db = Inr db'" "exec_row db (h_ExecutionID h) = Some e"
  shows "\<exists>e'. exec_row db' (h_ExecutionID h) = Some e' \<and>
    je_attempt_no e' = je_attempt_no e + (if je_status e = StatusDispatching then 1 else 0) \<and>
    je_run_token e' = None \<and> je_owner_instance e' = None \<and>
    (if je_attempt_no e' \<ge> je_max_attempts e
     then je_status e' = StatusDead \<and> je_terminal_reason e' = Some ReasonBudgetExhausted \<and> je_finished_at e' = Some (now env)
     else je_status e' = StatusReady \<and> je_terminal_reason e' = None \<and> je_finished_at e' = None \<and>
          je_available_at e' = add_seconds (now env) b \<and> je_timeout_at e' = None)"
proof -
  from Retry_ended [OF assms(2,1)] assms(3) have "owns_exec (h_ExecutionID h) (h_RunToken h) (h_FenceEpoch h) e"
    "exec_row db' = (exec_row db)(h_ExecutionID h \<mapsto> retry_set env (clipped o0) b (charged env h e))"
    by (auto simp: ended_def)
  then show ?thesis by (auto simp: retry_set_def charged_def charge_set_def Let_def)
qed

text \<open>Where recovery of a lost execution lands, and when it may act. The lock's lease had lapsed. A cancelled execution
  is never requeued; one past its cap or out of attempts or recoveries is dead; any other is ready. The recovery is
  counted, the attempt is not charged, the row's epoch moves and its token is cleared, and the lock is free.\<close>

lemma resolve_landing:
  assumes "keys_ok db" "Resolve env v b db = Inr (st, db')" "exec_row db (v_ID v) = Some e"
  shows "st = (if je_status e = StatusCancelRequested then StatusCancelled
               else if cap_elapsed env e \<or> je_attempt_no e \<ge> je_max_attempts e \<or> je_recovery_count e + 1 \<ge> je_max_recoveries e
               then StatusDead else StatusReady) \<and>
    (\<exists>s e' s'. state_row db (v_JobName v) = Some s \<and> sql_lt (js_lease_until s) (utc env) \<and>
       state_row db' = (state_row db)(v_JobName v \<mapsto> s') \<and> \<not> Held s' \<and>
       exec_row db' = (exec_row db)(v_ID v \<mapsto> e') \<and> je_status e' = st \<and> je_attempt_no e' = je_attempt_no e \<and>
       je_recovery_count e' = je_recovery_count e + 1 \<and> je_fence_epoch e' = je_fence_epoch e + 1 \<and> je_run_token e' = None)"
proof -
  from assms(2,1) obtain e0 where e0: "exec_row db (v_ID v) = Some e0" "st = resolvedStatus (stale_of env e0)"
    "sql_lt (js_lease_until (the (state_row db (v_JobName v)))) (utc env)"
    "ended env db (v_JobName v) (v_ID v) (v_RunToken v) (v_FenceEpoch v) (resolve_lock_set env)
       (resolve_exec_set env st (resolved_reason (stale_of env e0)) b)
       (\<lambda>e. owns_exec (v_ID v) (v_RunToken v) (v_FenceEpoch v) e \<and> in_flight (je_status e)) db'"
    by (rule Resolve_ended)
  then have [simp]: "e0 = e" using assms(3) by simp
  from e0(4) obtain s d s' where r: "state_row db (v_JobName v) = Some s"
    "settles env d (resolve_exec_set env st (resolved_reason (stale_of env e)) b e) (resolve_lock_set env s) s'"
    "state_row db' = (state_row db)(v_JobName v \<mapsto> s')"
    "exec_row db' = (exec_row db)(v_ID v \<mapsto> resolve_exec_set env st (resolved_reason (stale_of env e)) b e)"
    unfolding ended_def using assms(3) by auto
  have "lets_go s s'" by (rule settles_lets_go [OF r(2) lets_go_sets(2)])
  then have "\<not> Held s'" by (simp add: lets_go_def Held_def)
  moreover have "st = (if je_status e = StatusCancelRequested then StatusCancelled
      else if cap_elapsed env e \<or> je_attempt_no e \<ge> je_max_attempts e \<or> je_recovery_count e + 1 \<ge> je_max_recoveries e
      then StatusDead else StatusReady)" using e0(2) by (simp add: resolvedStatus_def)
  ultimately show ?thesis using r e0(3)
    by (intro conjI exI [of _ s] exI [of _ "resolve_exec_set env st (resolved_reason (stale_of env e)) b e"] exI [of _ s'])
       (simp_all add: resolve_exec_set_def)
qed

text \<open>Nothing is stranded by a crashed scheduler: whatever the stale scan returns in a reachable database, Resolve
  commits on, when no other transaction holds the job's row, and the job's lock is free afterwards.\<close>

lemma stale_resolvable:
  assumes "reachable db" "v \<in> set (StaleExecutions env db limit)" "\<not> locked env (v_JobName v)" "clock_ok db (v_JobName v)"
  shows "\<exists>st db' s. Resolve env v b db = Inr (st, db') \<and> state_row db' (v_JobName v) = Some s \<and> \<not> Held s"
proof -
  from assms(2) obtain e where e: "e \<in> set (execs db)" "v = stale_of env e" "in_flight (je_status e)" "sql_lt (je_lease_until e) (utc env)"
    by (auto simp: StaleExecutions_def dest: page_mem)
  obtain db' where db': "Resolve env v b db = Inr (resolvedStatus v, db')"
    using Resolve_ok [OF assms(1) exec_row_mem [OF reachable_keys [OF assms(1)] e(1)] e(3,4), of b] assms(3,4) e(2) by auto
  then have "db_of (Resolve env v b db) = Inr db'" by (simp add: db_of_def)
  from resolve_tx.releases_lock(1) [OF this reachable_keys [OF assms(1)]] db' show ?thesis by blast
qed

text \<open>Nothing outlives its runtime cap: whatever the timeout scan returns in a reachable database, FenceTimedOut
  commits on, when no other transaction holds the job's row; the lock is free and the execution is dead or cancelled.\<close>

lemma timed_out_fenceable:
  assumes "reachable db" "v \<in> set (TimedOut env db limit)" "\<not> locked env (v_JobName v)" "clock_ok db (v_JobName v)"
  shows "\<exists>db' s e'. FenceTimedOut env v db = Inr db' \<and> state_row db' (v_JobName v) = Some s \<and> \<not> Held s \<and>
    exec_row db' (v_ID v) = Some e' \<and> je_status e' \<in> {StatusDead, StatusCancelled}"
proof -
  from assms(2) obtain e where e: "e \<in> set (execs db)" "v = (stale_of env e)\<lparr>v_TimeoutExpired := True\<rparr>" "in_flight (je_status e)"
    by (auto simp: TimedOut_def dest: page_mem)
  note keys = reachable_keys [OF assms(1)]
  note row = exec_row_mem [OF keys e(1)]
  obtain db' where db': "FenceTimedOut env v db = Inr db'"
    using FenceTimedOut_ok [OF assms(1) row e(3), of env v] assms(3,4) e(2) by auto
  then obtain e0 reason where "exec_row db (v_ID v) = Some e0"
    "ended env db (v_JobName v) (v_ID v) (v_RunToken v) (v_FenceEpoch v) (release_lock_set env False)
       (fence_exec_set env (stopped e0) reason ''timeout'' ''runtime cap elapsed; execution fenced by the scheduler'')
       (\<lambda>e. owns_exec (v_ID v) (v_RunToken v) (v_FenceEpoch v) e \<and> in_flight (je_status e)) db'"
    using keys by (rule FenceTimedOut_ended)
  then obtain e' where "exec_row db' (v_ID v) = Some e'" "je_status e' = stopped e0"
    by (auto simp: ended_def fence_exec_set_def)
  with fence_tx.releases_lock(1) [OF db' keys] db' show ?thesis by (auto simp: stopped_def)
qed

lemma silent_expirable:
  assumes "reachable db" "v \<in> set (Silent env db limit)" "\<not> locked env (v_JobName v)" "clock_ok db (v_JobName v)"
  shows "\<exists>db' s e'. ExpireSilent env v db = Inr db' \<and> state_row db' (v_JobName v) = Some s \<and> \<not> Held s \<and>
    exec_row db' (v_ID v) = Some e' \<and> je_status e' \<in> {StatusDead, StatusCancelled}"
proof -
  from assms(2) obtain e where e: "e \<in> set (execs db)" "v = stale_of env e" "je_status e \<in> {StatusRunning, StatusCancelRequested}"
    "sql_lt (je_deadline_at e) (utc env)"
    by (auto simp: Silent_def dest!: page_mem)
  note keys = reachable_keys [OF assms(1)]
  note row = exec_row_mem [OF keys e(1)]
  obtain db' where db': "ExpireSilent env v db = Inr db'"
    using ExpireSilent_ok [OF assms(1) row e(3,4)] assms(3,4) e(2) by auto
  then obtain e0 where "exec_row db (v_ID v) = Some e0"
    "ended env db (v_JobName v) (v_ID v) (v_RunToken v) (v_FenceEpoch v) (release_lock_set env False)
       (fence_exec_set env (stopped e0) ReasonFenced ''silence''
          ''the executor stopped reporting progress within its silence budget'')
       (\<lambda>e. owns_exec (v_ID v) (v_RunToken v) (v_FenceEpoch v) e \<and> je_status e \<in> {StatusRunning, StatusCancelRequested}) db'"
    using keys by (rule ExpireSilent_ended)
  then obtain e' where "exec_row db' (v_ID v) = Some e'" "je_status e' = stopped e0"
    by (auto simp: ended_def fence_exec_set_def)
  with silent_tx.releases_lock(1) [OF db' keys] db' show ?thesis by (auto simp: stopped_def)
qed

lemma contention_not_acquired: "applyContention env p def st db = Inr (r, db') \<Longrightarrow> cr_Outcome r \<noteq> ClaimAcquired"
  by (auto simp: applyContention_def claim_result_def split: if_splits)

text \<open>What a claim that does not acquire leaves alone: every lock, and every row that is not queued.\<close>

definition queue_only :: "db \<Rightarrow> db \<Rightarrow> bool" where
  "queue_only db db' \<longleftrightarrow>
     (\<forall>j. map_option abs_lock (state_row db' j) = map_option abs_lock (state_row db j)) \<and>
     (\<forall>i e. exec_row db i = Some e \<and> je_status e \<noteq> StatusReady \<longrightarrow> exec_row db' i = Some e)"

lemma queue_only_write:
  assumes "exec_write f" "\<And>e. P e \<Longrightarrow> je_status e = StatusReady"
  shows "queue_only db (snd (update_exec P f db))"
  using assms(2) exec_write.rows_after [OF assms(1), of P db] by (auto simp: queue_only_def update_exec_def)

lemma queue_only_trans: "queue_only a b \<Longrightarrow> queue_only b c \<Longrightarrow> queue_only a c"
  by (simp add: queue_only_def)

lemma queued_write_frame:
  assumes "exec_write f" "r = update_exec (\<lambda>e. je_id e = i \<and> je_status e = StatusReady) f db"
    "assertOne r = Inr db' \<or> assertAtMostOne r = Inr db'"
  shows "queue_only db db'"
proof -
  have "db' = snd r" using assms(3) by (auto simp: assertOne_def assertAtMostOne_def split: if_splits)
  with queue_only_write [OF assms(1), of "\<lambda>e. je_id e = i \<and> je_status e = StatusReady" db] assms(2) show ?thesis by simp
qed

lemma defer_frame: "deferCandidate env i b db = Inr db' \<Longrightarrow> queue_only db db'"
  unfolding deferCandidate_def by (blast intro: queued_write_frame [OF defer_cand.exec_write_axioms refl])

lemma expire_frame: "expireReadyExecution env i db = Inr db' \<Longrightarrow> queue_only db db'"
  unfolding expireReadyExecution_def by (blast intro: queued_write_frame [OF expire_ready.exec_write_axioms refl])

lemma settle_frame:
  assumes "settlePollClock env h db = Inr db'"
  shows "queue_only db db'"
proof -
  have "queue_only db (snd (update_state P (settle_poll_set env del) db))" for P del
  proof -
    have "map_option abs_lock (map_option (\<lambda>s. if P s then settle_poll_set env del s else s) r) = map_option abs_lock r" for r
      by (cases r) (auto simp: settle_poll_set_def abs_lock_def)
    then show ?thesis
      using settle_poll.rows_after [of P env del db] by (simp add: queue_only_def) (simp add: update_state_def)
  qed
  then show ?thesis using assms
    by (auto simp: settlePollClock_def assertAtMostOne_def queue_only_def split: if_splits)
qed

lemma contention_frame:
  assumes "applyContention env p def st db = Inr (r, db')"
  shows "queue_only db db'"
proof -
  from assms consider (skip) db1 where
      "assertOne (update_exec (\<lambda>e. je_id e = p_ExecutionID p \<and> je_status e = StatusReady)
         (forbid_skip_set env (coalesce_str (js_active_execution st))) db) = Inr db1"
      "settlePollClock env (claim_holder p) db1 = Inr db'"
    | (later) "deferCandidate env (p_ExecutionID p) (p_BackoffSeconds p) db = Inr db'"
    by (auto simp: applyContention_def split: if_splits)
  then show ?thesis
  proof cases
    case skip
    then show ?thesis
      by (blast intro: queue_only_trans [OF queued_write_frame settle_frame] forbid_skip.exec_write_axioms)
  next
    case later
    then show ?thesis by (rule defer_frame)
  qed
qed

text \<open>What an acquiring claim requires and does. The lock was free, the job not paused, the caller's runnability check
  passed, the execution was ready, within its cap and with an attempt left; now lock and execution carry the
  caller's token at the next epoch, the execution is dispatching, and no attempt has been charged.\<close>

lemma claim_takes_free_lock:
  assumes "keys_ok db" "Claim env p run db = Inr (r, db')" "cr_Outcome r = ClaimAcquired"
  shows "\<exists>s e d s' e'. state_row db (p_JobName p) = Some s \<and> \<not> Held s \<and> \<not> js_ops_paused s \<and>
    def_row db (p_JobName p) = Some d \<and> run env db (definition_of d) s = None \<and>
    exec_row db (p_ExecutionID p) = Some e \<and> je_status e = StatusReady \<and> je_attempt_no e < je_max_attempts e \<and>
    \<not> cap_elapsed env e \<and> cr_FenceEpoch r = js_fence_epoch s + 1 \<and>
    state_row db' = (state_row db)(p_JobName p \<mapsto> s') \<and> exec_row db' = (exec_row db)(p_ExecutionID p \<mapsto> e') \<and>
    holds_lock (p_JobName p) (p_RunToken p) (cr_FenceEpoch r) s' \<and>
    owns_exec (p_ExecutionID p) (p_RunToken p) (cr_FenceEpoch r) e' \<and> linked s' e' \<and>
    je_status e' = StatusDispatching \<and> je_attempt_no e' = je_attempt_no e"
proof -
  from assms(2) obtain st d e where rd: "state_row db (p_JobName p) = Some st" "def_row db (p_JobName p) = Some d"
    "exec_row db (p_ExecutionID p) = Some e" "je_job_name e = p_JobName p" "je_execution_key e = p_ExecutionKey p"
    and dec: "claim_decide env p run st (definition_of d) (stale_of env e) db = Inr (r, db')"
    by (rule Claim_reads)
  from claim_decide_cases [OF dec] contention_not_acquired assms(3) have
    open_: "\<not> cap_elapsed env e" "\<not> js_ops_paused st" "run env db (definition_of d) st = None" "\<not> Held st"
    and acq: "acquire env p (definition_of d) st db = Inr (r, db')"
    by (auto split: if_splits)
  let ?n = "js_fence_epoch st + 1" and ?l = "jd_lease_seconds d" and ?t = "jd_timeout_seconds d"
  have secs: "d_Lease (definition_of d) div Second = ?l" "d_Timeout (definition_of d) div Second = ?t"
    by (simp_all add: definition_of_def)
  from acq assms(1) have "je_status e = StatusReady" "je_attempt_no e < je_max_attempts e"
    "state_row db' = (state_row db)(p_JobName p \<mapsto> acquire_lock_set env p ?n ?l st)"
    "exec_row db' = (exec_row db)(p_ExecutionID p \<mapsto> claim_exec_set env p ?n ?l ?t e)" "cr_FenceEpoch r = ?n"
    by (rule acquire_rows; use rd(1,3) secs in simp)+
  with rd open_ row_of_Some [OF rd(1)] row_of_Some [OF rd(3)] show ?thesis
    by (intro exI [of _ st] exI [of _ e] exI [of _ d] exI [of _ "acquire_lock_set env p ?n ?l st"]
        exI [of _ "claim_exec_set env p ?n ?l ?t e"])
       (simp_all add: holds_lock_def owns_exec_def linked_def Held_def acquire_lock_set_def claim_exec_set_def)
qed

text \<open>A claim never disturbs the holder of the lock: on a held job it does not acquire, no lock of any job changes
  hands, epoch or lease, and every execution that is not queued keeps its row exactly.\<close>

lemma claim_never_steals:
  assumes "keys_ok db" "Claim env p run db = Inr (r, db')" "state_row db (p_JobName p) = Some s" "Held s"
  shows "cr_Outcome r \<noteq> ClaimAcquired \<and> (\<forall>j. map_option abs_lock (state_row db' j) = map_option abs_lock (state_row db j)) \<and>
    (\<forall>i e. exec_row db i = Some e \<and> je_status e \<noteq> StatusReady \<longrightarrow> exec_row db' i = Some e)"
proof -
  from assms(2) obtain st d e where st: "state_row db (p_JobName p) = Some st"
    and dec: "claim_decide env p run st (definition_of d) (stale_of env e) db = Inr (r, db')"
    by (rule Claim_reads)
  then have "Held st" using assms(3,4) by simp
  with claim_decide_cases [OF dec] consider
      (ex) "cr_Outcome r = ClaimExpired" "expireReadyExecution env (p_ExecutionID p) db = Inr db'"
    | (df) "cr_Outcome r = ClaimDeferred" "deferCandidate env (p_ExecutionID p) (p_BackoffSeconds p) db = Inr db'"
    | (ct) "applyContention env p (definition_of d) st db = Inr (r, db')"
    by (auto split: if_splits)
  then show ?thesis
  proof cases
    case ex
    then show ?thesis using expire_frame [OF ex(2)] by (simp add: queue_only_def)
  next
    case df
    then show ?thesis using defer_frame [OF df(2)] by (simp add: queue_only_def)
  next
    case ct
    then show ?thesis using contention_not_acquired [OF ct] contention_frame [OF ct] by (simp add: queue_only_def)
  qed
qed

text \<open>Acceptance moves a dispatching execution to running, charges exactly one attempt and starts the silence budget;
  repeated with the same token and epoch it answers ErrFenced, so a redelivered acceptance is never charged twice.\<close>

lemma accept_charges_once:
  assumes "keys_ok db" "Accept env i t n q db = Inr db'"
  shows "\<exists>e e'. exec_row db i = Some e \<and> je_status e = StatusDispatching \<and> owns_exec i t n e \<and>
    exec_row db' = (exec_row db)(i \<mapsto> e') \<and> je_status e' = StatusRunning \<and> je_attempt_no e' = je_attempt_no e + 1 \<and>
    je_deadline_at e' = Some (add_seconds (utc env) q) \<and> states db' = states db \<and>
    (\<forall>env' q'. Accept env' i t n q' db' = Inl ErrFenced)"
proof -
  let ?P = "\<lambda>e. owns_exec i t n e \<and> je_status e = StatusDispatching"
  obtain e where e: "exec_row db i = Some e" "?P e" "db' = db\<lparr>execs := sql_update ?P (accept_set env q) (execs db)\<rparr>"
    "exec_row db' = (exec_row db)(i \<mapsto> accept_set env q e)" "keys_ok db'"
    using assms(2)[unfolded Accept_def] assms(1) by (rule accept.someE [where i = i]) (auto simp: owns_exec_def)
  have "update_exec ?P (accept_set env' q') db' = (0, db')" for env' q'
    by (rule accept.no_row [where i = i, OF e(5)]) (use e(4) in \<open>auto simp: owns_exec_def accept_set_def\<close>)
  then have "\<forall>env' q'. Accept env' i t n q' db' = Inl ErrFenced" by (simp add: Accept_def assertSome_def)
  moreover have "states db' = states db" by (simp add: e(3))
  ultimately show ?thesis using e
    by (intro exI [of _ e] exI [of _ "accept_set env q e"]) (simp add: accept_set_def)
qed

lemma refuse_charges_nothing:
  assumes "keys_ok db" "Refuse env p n db = Inr db'" "exec_row db (p_ExecutionID p) = Some e"
  shows "je_status e = StatusDispatching \<and> (\<exists>e' s'. exec_row db' = (exec_row db)(p_ExecutionID p \<mapsto> e') \<and>
    state_row db' (p_JobName p) = Some s' \<and> \<not> Held s' \<and>
    je_attempt_no e' = je_attempt_no e \<and> je_run_token e' = None \<and> je_timeout_at e' = je_timeout_at e \<and>
    je_status e' = (if cap_elapsed env e then StatusDead else StatusReady) \<and> attempts db' = attempts db)"
proof -
  from Refuse_ended [OF assms(2,1)] assms(3) have "je_status e = StatusDispatching"
    "exec_row db' = (exec_row db)(p_ExecutionID p \<mapsto> refuse_exec_set env (p_BackoffSeconds p) e)"
    by (auto simp: ended_def)
  moreover have "attempts db' = attempts db"
    using assms(2) by (auto simp: Refuse_def assertOne_def assertSome_def update_exec_def update_state_def
        dest!: settle_history split: if_splits)
  moreover obtain s' where "state_row db' (p_JobName p) = Some s'" "\<not> Held s'"
    using refuse_tx.releases_lock(1) [OF assms(2,1)] by blast
  ultimately show ?thesis
    by (intro conjI exI [of _ "refuse_exec_set env (p_BackoffSeconds p) e"] exI [of _ s'])
       (simp_all add: refuse_exec_set_def Let_def)
qed

text \<open>The poll clock after a release: what \<open>settles\<close> says of a terminal pass.\<close>

lemma ended_restarts:
  assumes "ended env db j i t n setl sete Q db'" "readDefinition db j = Inr d" "d_ScheduleKind d = ScheduleFixedDelay"
    "exec_row db' i = Some e'" "je_job_name e' = j" "je_trigger_type e' = TriggerPoll" "Terminal (je_status e')"
    "\<And>s. js_job_name (setl s) = js_job_name s"
  shows "\<exists>s' del. state_row db' j = Some s' \<and> Delay d = Inr del \<and> js_next_poll_at s' = Some (now env + del)"
proof -
  from assms(1,2,4) obtain s e s' where "state_row db j = Some s" "settles env d (sete e) (setl s) s'"
    "state_row db' = (state_row db)(j \<mapsto> s')" "e' = sete e"
    by (auto simp: ended_def)
  moreover have "js_job_name s = j" using row_of_Some [OF calculation(1)] by simp
  ultimately show ?thesis using assms(3,5-8) by (auto simp: settles_def settle_poll_set_def)
qed

text \<open>A poller whose pass has ended polls again. When a completion, a retry or a release by the owner leaves a poll
  pass of a fixed-delay job terminal, the job's poll clock is set one delay from now.\<close>

lemma poll_clock_restarts:
  assumes "keys_ok db" "readDefinition db (h_JobName h) = Inr d" "d_ScheduleKind d = ScheduleFixedDelay"
    "Complete env h o1 db = Inr db' \<or> Retry env h o1 b db = Inr db' \<or> (\<exists>st. ReleaseAsOwner env h db = Inr (st, db'))"
    "exec_row db' (h_ExecutionID h) = Some e'" "je_job_name e' = h_JobName h" "je_trigger_type e' = TriggerPoll" "Terminal (je_status e')"
  shows "\<exists>s' del. state_row db' (h_JobName h) = Some s' \<and> Delay d = Inr del \<and> js_next_poll_at s' = Some (now env + del)"
  using assms(4)
proof (elim disjE exE)
  assume "Complete env h o1 db = Inr db'"
  from Complete_ended(2) [OF this assms(1)] show ?thesis
    by (rule ended_restarts [OF _ assms(2,3,5-8)]) (simp add: release_lock_set_def)
next
  assume "Retry env h o1 b db = Inr db'"
  from Retry_ended [OF this assms(1)] show ?thesis
    by (rule ended_restarts [OF _ assms(2,3,5-8)]) (simp add: release_lock_set_def)
next
  fix st
  assume "ReleaseAsOwner env h db = Inr (st, db')"
  then show ?thesis using assms(1)
    by (rule ReleaseAsOwner_ended) (erule ended_restarts [OF _ assms(2,3,5-8)], simp add: release_lock_set_def)
qed

text \<open>The same for the scheduler's own ends of a pass: recovery, the runtime cap and the silence budget.\<close>

lemma recovery_restarts_poll:
  assumes "keys_ok db" "readDefinition db (v_JobName v) = Inr d" "d_ScheduleKind d = ScheduleFixedDelay"
    "(\<exists>st. Resolve env v b db = Inr (st, db')) \<or> FenceTimedOut env v db = Inr db' \<or> ExpireSilent env v db = Inr db'"
    "exec_row db' (v_ID v) = Some e'" "je_job_name e' = v_JobName v" "je_trigger_type e' = TriggerPoll" "Terminal (je_status e')"
  shows "\<exists>s' del. state_row db' (v_JobName v) = Some s' \<and> Delay d = Inr del \<and> js_next_poll_at s' = Some (now env + del)"
  using assms(4)
proof (elim disjE exE)
  fix st
  assume "Resolve env v b db = Inr (st, db')"
  then show ?thesis using assms(1)
    by (rule Resolve_ended) (erule ended_restarts [OF _ assms(2,3,5-8)], simp add: resolve_lock_set_def)
next
  assume "FenceTimedOut env v db = Inr db'"
  then show ?thesis using assms(1)
    by (rule FenceTimedOut_ended) (erule ended_restarts [OF _ assms(2,3,5-8)], simp add: release_lock_set_def)
next
  assume "ExpireSilent env v db = Inr db'"
  then show ?thesis using assms(1)
    by (rule ExpireSilent_ended) (erule ended_restarts [OF _ assms(2,3,5-8)], simp add: release_lock_set_def)
qed

section \<open>Where the code falls short\<close>

text \<open>C31: One terminal path leaves the poll clock stopped. A pass refused before acceptance keeps its runtime cap; when it
  is claimed again after the cap, Claim expires it without restarting the clock. The run shown ends with no live
  execution, no drift to repair, and a poller for which MaterializePoll creates nothing at any time.\<close>

theorem expired_pass_strands_poller:
  "reachable expired \<and> list_all (\<lambda>e. Terminal (je_status e)) (execs expired) \<and>
   (\<forall>env k c. MaterializePoll env ''a'' k c expired =
      (if locked env ''a'' then Inl ErrContended else Inr (empty_result\<lparr>m_Outcome := MaterializedSuspended\<rparr>, expired))) \<and>
   Drifted expired 10 = []"
proof -
  have "state_row expired ''a'' = Some (hd (states expired))" "js_next_poll_at (hd (states expired)) = None"
    "list_all (\<lambda>e. Terminal (je_status e)) (execs expired)" "Drifted expired 10 = []"
    "map_option definition_of (def_row expired ''a'') = Some (job_a\<lparr>d_Version := 1\<rparr>)" by code_simp+
  then show ?thesis
    by (auto simp: MaterializePoll_def lockState_def readDefinition_def reach_expired)
qed

text \<open>C32: Retiring a job does not keep its queue empty. An execution in flight at retirement that then reports a retryable
  failure goes back to ready, on a job that is retired and never runnable again.\<close>

theorem retired_job_requeued:
  "reachable stray \<and> (\<exists>d e. def_row stray ''a'' = Some d \<and> jd_retired d \<and> exec_row stray 1 = Some e \<and>
     je_job_name e = ''a'' \<and> je_status e = StatusReady)"
proof -
  have "def_row stray ''a'' = Some (hd (defs stray))" "jd_retired (hd (defs stray))"
    "exec_row stray 1 = Some (hd (execs stray))" "je_job_name (hd (execs stray)) = ''a''"
    "je_status (hd (execs stray)) = StatusReady" by code_simp+
  with reach_stray show ?thesis by blast
qed

end
