(* ===== verification/Scheduling.thy ===== *)
theory Scheduling
  imports Examples
begin

text \<open>
  Schedules and administration: what materialization creates and where it leaves the clocks, and what the
  administrative operations promise of a job and of its queue.
\<close>

lemma reachable_key_shape: "reachable db \<Longrightarrow> e \<in> set (execs db) \<Longrightarrow> key_shape e"
  using reachable_born [OF _ exec_row_mem [OF reachable_keys]] row_moves_key_shape by (fastforce simp: born_def)

text \<open>C33: A cron instant runs at most once: in every reachable database two cron executions of one job whose scheduled
  instants fall in the same second are the same row.\<close>

theorem one_run_per_instant:
  assumes "reachable db" "e \<in> set (execs db)" "e' \<in> set (execs db)"
    "je_trigger_type e = TriggerCron" "je_trigger_type e' = TriggerCron"
    "je_job_name e = je_job_name e'" "je_scheduled_at e div Second = je_scheduled_at e' div Second"
  shows "e = e'"
  using exec_keys_unique [OF reachable_keys [OF assms(1)] assms(2,3)]
    reachable_key_shape [OF assms(1,2)] reachable_key_shape [OF assms(1,3)] assms(4-7)
  by (simp add: key_shape_def CronExecutionKey_def)

theorem one_run_per_instant_witness:
  "{e \<in> set (execs fired). je_trigger_type e = TriggerCron \<and> je_job_name e = ''c'' \<and> je_scheduled_at e div Second = 120} = {hd (execs fired)}"
proof -
  have f: "hd (execs fired) \<in> set (execs fired)" "je_trigger_type (hd (execs fired)) = TriggerCron"
    "je_job_name (hd (execs fired)) = ''c''" "je_scheduled_at (hd (execs fired)) div Second = 120" by code_simp+
  have "x = hd (execs fired)" if "x \<in> set (execs fired)" "je_trigger_type x = TriggerCron" "je_job_name x = ''c''"
      "je_scheduled_at x div Second = 120" for x
    by (rule one_run_per_instant [OF reach_fired that(1) f(1) that(2) f(2)]) (use that f in \<open>simp_all only:\<close>)
  with f show ?thesis by blast
qed

lemma request_unique:
  assumes "distinct (List.map_filter f xs)" "x \<in> set xs" "y \<in> set xs" "f x = Some r" "f y = Some r"
  shows "x = y"
  using assms
proof (induction xs)
  case (Cons z zs)
  have "r \<in> set (List.map_filter f zs)" if "w \<in> set zs" "f w = Some r" for w
    using that by (force simp: List.map_filter_def)
  with Cons show ?case by (auto simp: List.map_filter_simps split: option.splits)
qed simp

lemma one_run_per_request:
  assumes "reachable db" "e \<in> set (execs db)" "e' \<in> set (execs db)" "je_request_id e = Some r" "je_request_id e' = Some r"
  shows "e = e'"
  using reachable_keys [OF assms(1)] request_unique assms(2-5) by (auto simp: keys_ok_def request_ids_def)

lemma misfire_not_early:
  assumes "misfire sched pol n dueAt from = Inr (Some t)" "dueAt \<le> nw" "from \<le> nw"
    and "\<And>x h f. Latest sched x h = Inr (Some f) \<Longrightarrow> f \<le> x"
  shows "t \<le> nw"
  using assms(1-3) assms(4) [of "from - Nanosecond" MisfireHorizon t]
  by (auto simp: misfire_def split: if_splits)

lemma cron_commit_cases:
  assumes "cron_commit env j def cr nxt out db = Inr (m, db')" "keys_ok db"
  shows "\<exists>s'. state_row db' j = Some s' \<and> js_next_fire_at s' = Some nxt \<and> m_NextFireAt m = m_NextFireAt out \<and>
    (if m_Outcome m = MaterializedExecution
     then \<exists>t. cr = Some t \<and> m_ScheduledAt m = Some t \<and> execs db' = execs db @ [execution_of env (cron_row j def t) (next_id db)]
     else execs db' = execs db)"
proof -
  have adv: "\<exists>s'. state_row db' j = Some s' \<and> js_next_fire_at s' = Some nxt \<and> execs db' = execs d"
    if "advanceFireClock env j nxt v d = Inr db'" "keys_ok d" for d v
    by (rule advance_fire.oneE [OF that(1) [unfolded advanceFireClock_def] that(2), of j])
       (auto simp: advance_fire_set_def)
  show ?thesis
  proof (cases cr)
    case None
    with assms adv [OF _ assms(2)] show ?thesis by (auto simp: cron_commit_def)
  next
    case (Some t)
    let ?ins = "insertExecution env (cron_row j def t) db"
    have "keys_ok (snd ?ins)" using keys_ok_insert [OF assms(2)] assms(2) by (simp add: insertExecution_def)
    with Some assms(1) adv [of _ "snd ?ins"] show ?thesis
      by (fastforce simp: cron_commit_def Let_def insertExecution_def split: if_splits)
  qed
qed

text \<open>What materializing a due cron job does, for any schedule whose Next is later and whose Latest is not later than
  its argument. If it reports an execution, exactly one row was added, ready, keyed by its instant, for an instant
  that is not in the future, and the fire clock moved past that instant; otherwise no row was added.\<close>

lemma cron_creates_due_run:
  assumes "keys_ok db" "MaterializeCron env j compile grace db = Inr (m, db')" "0 \<le> grace"
    "\<And>d sched. compile d = Inr sched \<Longrightarrow> schedule_laws sched"
  shows "if m_Outcome m = MaterializedExecution
    then \<exists>e t s'. m_ScheduledAt m = Some t \<and> t \<le> now env \<and> execs db' = execs db @ [e] \<and> je_scheduled_at e = t \<and>
      je_job_name e = j \<and> je_status e = StatusReady \<and> je_execution_key e = CronExecutionKey j t \<and>
      state_row db' j = Some s' \<and> js_next_fire_at s' = m_NextFireAt m \<and> (\<exists>n. m_NextFireAt m = Some n \<and> t < n)
    else execs db' = execs db"
proof (cases "\<exists>def sched st. readDefinition db j = Inr def \<and> compile def = Inr sched \<and> cron_live env j def sched grace st db = Inr (m, db')")
  case False
  with assms(2) obtain def st nxt where "normalizeClocks env st def compile db = Inr (nxt, db')" "m_Outcome m = MaterializedSkipped"
    by (auto simp: MaterializeCron_def split: if_splits)
  then show ?thesis by (auto simp: normalizeClocks_def assertOne_def update_state_def split: if_splits)
next
  case True
  then obtain def sched st where laws: "schedule_laws sched" and live: "cron_live env j def sched grace st db = Inr (m, db')"
    using assms(4) by blast
  then consider (idle) "m_Outcome m = MaterializedSuspended" "db' = db"
    | (due) dueAt where "dueAt \<le> now env" "cron_due env j def sched grace dueAt db = Inr (m, db')"
    by (auto simp: cron_live_def not_less split: if_splits option.splits)
  then show ?thesis
  proof cases
    case (due dueAt)
    then obtain counted cr nxt where c: "misfire sched (d_Misfire def) (fst counted) dueAt (now env - grace) = Inr cr"
      "Next sched (fire_anchor (d_Misfire def) cr dueAt (now env)) = Inr nxt"
      "cron_commit env j def cr nxt (empty_result\<lparr>m_NextFireAt := Some nxt, m_Missed := fst counted, m_MissedExact := snd counted\<rparr>) db = Inr (m, db')"
      by (auto simp: cron_due_def Let_def)
    have "t \<le> now env \<and> t < nxt" if "cr = Some t" for t
    proof
      show "t \<le> now env"
        by (rule misfire_not_early [OF c(1) [unfolded that] due(1)]) (use assms(3) laws in \<open>auto simp: schedule_laws_def\<close>)
      show "t < nxt" using c(2) laws that by (simp add: fire_anchor_def schedule_laws_def)
    qed
    with cron_commit_cases [OF c(3) assms(1)] show ?thesis
      by (auto simp: execution_of_def cron_row_def split: if_splits)
  qed simp
qed

lemma poll_suspended:
  assumes "readDefinition db j = Inr d" "state_row db j = Some s" "js_next_poll_at s = None" "\<not> locked env j"
  shows "MaterializePoll env j k c db = Inr (empty_result\<lparr>m_Outcome := MaterializedSuspended\<rparr>, db)"
  using assms by (simp add: MaterializePoll_def lockState_def)

text \<open>A poller has one pass at a time. Materializing a pass requires a due poll clock and no manual run waiting, adds
  one row and stops the clock, so that until the clock is restarted every further call, at any time and with any
  identifier, creates nothing; a call that reports no execution adds no row.\<close>

lemma poll_reserves_loop:
  assumes "keys_ok db" "MaterializePoll env j k compile db = Inr (m, db')"
  shows "if m_Outcome m = MaterializedExecution
    then (\<exists>s e. state_row db j = Some s \<and> sql_le (js_next_poll_at s) (now env) \<and> \<not> manualPending db j \<and>
       execs db' = execs db @ [e] \<and> je_execution_key e = k \<and> je_job_name e = j \<and> je_trigger_type e = TriggerPoll) \<and>
      (\<forall>env' k' c'. \<not> locked env' j \<longrightarrow>
         MaterializePoll env' j k' c' db' = Inr (empty_result\<lparr>m_Outcome := MaterializedSuspended\<rparr>, db'))
    else execs db' = execs db"
proof -
  from assms(2) obtain st def where rd: "state_row db j = Some st" "readDefinition db j = Inr def"
    by (auto simp: MaterializePoll_def lockState_Inr)
  from assms(2) rd consider (idle) "db' = db" "m_Outcome m = MaterializedSuspended"
    | (norm) nxt where "normalizeClocks env st def compile db = Inr (nxt, db')" "m_Outcome m = MaterializedSkipped"
    | (ins) "sql_le (js_next_poll_at st) (now env)" "\<not> manualPending db j"
        "\<not> duplicate_key (poll_row env j k def) db" "m_Outcome m = MaterializedExecution"
        "clearPollClock env j (db\<lparr>execs := execs db @ [execution_of env (poll_row env j k def) (next_id db)], next_id := next_id db + 1\<rparr>) = Inr db'"
    by (auto simp: MaterializePoll_def lockState_Inr Let_def insertExecution_def empty_result_def split: if_splits)
  then show ?thesis
  proof cases
    case norm
    then show ?thesis by (auto simp: normalizeClocks_def assertOne_def update_state_def split: if_splits)
  next
    case ins
    let ?e = "execution_of env (poll_row env j k def) (next_id db)"
    let ?db = "db\<lparr>execs := execs db @ [?e], next_id := next_id db + 1\<rparr>"
    have "keys_ok ?db" using keys_ok_insert [OF assms(1) ins(3)] .
    with ins(5) obtain s where s: "state_row db' j = Some (clear_poll_set env s)" "execs db' = execs ?db" "defs db' = defs db"
      unfolding clearPollClock_def by (auto elim!: clear_poll.oneE [where j = j])
    have "readDefinition db' j = Inr def" using rd(2) s(3) by (simp add: readDefinition_def)
    from poll_suspended [OF this s(1)] ins(1,2,4) rd(1) s(2) show ?thesis
      by (auto simp: clear_poll_set_def execution_of_def poll_row_def)
  qed simp
qed

text \<open>Recompute brings a job's clocks in line with its definition. The recorded version is the definition's, so the
  drift scan no longer returns the job; a live cron job has a fire clock and no poll clock, any other job has no
  fire clock; and a live poller has a poll clock or a pass outstanding. No execution is touched.\<close>

lemma recompute_clears_drift:
  assumes "keys_ok db" "Recompute env j compile db = Inr (t, db')"
  shows "\<exists>s' d. state_row db' j = Some s' \<and> def_row db' j = Some d \<and> js_config_version s' = jd_version d \<and>
    js_next_fire_at s' = t \<and> j \<notin> set (Drifted db' limit) \<and> execs db' = execs db \<and>
    (if jd_enabled d \<and> \<not> jd_retired d \<and> jd_schedule_kind d = ScheduleCron then t \<noteq> None \<and> js_next_poll_at s' = None else t = None) \<and>
    (jd_enabled d \<and> \<not> jd_retired d \<and> jd_schedule_kind d = ScheduleFixedDelay \<longrightarrow>
       js_next_poll_at s' \<noteq> None \<or> pollPassOutstanding db j)"
proof -
  from assms(2) obtain st d fireArg pollArg where rd: "state_row db j = Some st" "def_row db j = Some d"
    and norm: "normalized env st (definition_of d) compile db = Inr (t, pollArg)"
    and upd: "assertOne (update_state (\<lambda>s. js_job_name s = d_JobName (definition_of d))
        (normalize_set env t pollArg (d_Version (definition_of d))) db) = Inr db'"
    by (auto simp: Recompute_def lockState_Inr readDefinition_Inr normalizeClocks_def)
  have j: "d_JobName (definition_of d) = j" using row_of_Some [OF rd(2)] by (simp add: definition_of_def)
  from upd [unfolded j] assms(1) obtain s where s: "state_row db' j = Some (normalize_set env t pollArg (jd_version d) s)"
    "defs db' = defs db" "execs db' = execs db" "keys_ok db'"
    by (auto elim!: normalize.oneE [where j = j] simp: definition_of_def)
  have "j \<notin> set (Drifted db' limit)"
  proof
    assume "j \<in> set (Drifted db' limit)"
    then obtain s1 d1 where "s1 \<in> set (states db')" "js_job_name s1 = j" "d1 \<in> set (defs db')" "jd_job_name d1 = j"
      "js_config_version s1 \<noteq> jd_version d1"
      by (auto simp: Drifted_def list_ex_iff dest!: in_set_takeD)
    moreover from this have "s1 = normalize_set env t pollArg (jd_version d) s" using state_row_mem [OF s(4)] s(1) by fastforce
    moreover have "d1 = d" using rd(2) s(2,4) calculation(3,4) row_of_mem [of jd_job_name "defs db'" d1] by (auto simp: keys_ok_def)
    ultimately show False by (simp add: normalize_set_def)
  qed
  moreover have "jd_job_name d = j" using row_of_Some [OF rd(2)] by simp
  ultimately show ?thesis using s rd(2) norm
    by (cases "js_next_poll_at st")
       (auto simp: normalize_set_def normalized_def definition_of_def split: if_splits, metis)
qed

text \<open>A created job reads back. The name was free in both tables; readDefinition returns the definition given, at
  version 1 and not retired, when lease and timeout are whole seconds; its state row is free at epoch 0 and in
  step with the definition.\<close>

lemma create_round_trip:
  assumes "keys_ok db" "CreateJob env d nf a r db = Inr db'" "d_Lease d mod Second = 0" "d_Timeout d mod Second = 0"
  shows "readDefinition db (d_JobName d) = Inl ErrProtocol \<and> state_row db (d_JobName d) = None \<and>
    readDefinition db' (d_JobName d) = Inr (d\<lparr>d_Retired := False, d_Version := 1, d_UpdatedBy := []\<rparr>) \<and>
    (\<exists>s. state_row db' (d_JobName d) = Some s \<and> \<not> Held s \<and> js_fence_epoch s = 0 \<and> js_config_version s = 1) \<and>
    d_JobName d \<notin> set (Drifted db' limit) \<and> execs db' = execs db"
proof -
  from assms(2) have new: "def_row db (d_JobName d) = None" "state_row db (d_JobName d) = None"
    and db': "defs db' = defs db @ [new_def env d a]" "states db' = states db @ [new_state env d nf]" "execs db' = execs db"
    by (auto simp: CreateJob_def insert_job_def Let_def audit_def split: if_splits)
  have "d_Lease d div Second * Second = d_Lease d" "d_Timeout d div Second * Second = d_Timeout d"
    using assms(3,4) by (metis div_mult_mod_eq add_0_right)+
  then have rd: "definition_of (new_def env d a) = d\<lparr>d_Retired := False, d_Version := 1, d_UpdatedBy := []\<rparr>"
    by (simp add: definition_of_def new_def_def)
  have "d_JobName d \<notin> set (Drifted db' limit)"
  proof
    assume "d_JobName d \<in> set (Drifted db' limit)"
    then obtain s1 d1 where "s1 \<in> set (states db')" "js_job_name s1 = d_JobName d" "d1 \<in> set (defs db')" "jd_job_name d1 = d_JobName d"
      "js_config_version s1 \<noteq> jd_version d1"
      by (auto simp: Drifted_def list_ex_iff dest!: in_set_takeD)
    moreover from this have "s1 = new_state env d nf" "d1 = new_def env d a"
      using new by (auto simp: db' row_of_None image_iff)
    ultimately show False by (simp add: new_def_def new_state_def)
  qed
  with new db' rd show ?thesis
    by (auto simp: readDefinition_def row_of_append new_state_def Held_def) (simp_all add: new_def_def)
qed

lemma row_of_def_update:
  assumes "\<And>r. jd_job_name (f r) = jd_job_name r"
  shows "def_row (snd (update_def P f db)) j = map_option (\<lambda>r. if P r then f r else r) (def_row db j)"
  by (simp add: update_def_def row_of_update assms)

text \<open>Editing a job is a compare-and-set on its version. A committed update found the expected version and leaves the
  next one; the same update applied again answers ErrStaleVersion.\<close>

lemma update_optimistic:
  assumes "keys_ok db" "UpdateJob env d v a r db = Inr db'"
  shows "\<exists>r0 r1. def_row db (d_JobName d) = Some r0 \<and> jd_version r0 = v \<and> def_row db' (d_JobName d) = Some r1 \<and>
    jd_version r1 = v + 1 \<and> jd_retired r1 = jd_retired r0 \<and> jd_schedule_expr r1 = d_ScheduleExpr d \<and>
    states db' = states db \<and> execs db' = execs db \<and>
    UpdateJob env d v a r db' = Inl ErrStaleVersion"
proof -
  let ?P = "\<lambda>r. jd_job_name r = d_JobName d \<and> jd_version r = v"
  let ?f = "sync_def_set env d a"
  let ?u = "update_def ?P ?f db"
  from assms(2) have ar: "a \<noteq> []" "r \<noteq> []" and db': "db' = audit env a ''job_updated'' (d_JobName d) [] r (snd ?u)" and n: "fst ?u \<noteq> 0"
    by (auto simp: UpdateJob_def update_def_checked_Inr assertSome_def split: if_splits)
  from n obtain r0 where r0: "r0 \<in> set (defs db)" "?P r0" by (auto simp: update_def_def rows_changed_def filter_empty_conv)
  have row: "def_row db (d_JobName d) = Some r0"
    using row_of_mem [of jd_job_name "defs db" r0] r0 assms(1) by (simp add: keys_ok_def)
  have name: "jd_job_name (?f x) = jd_job_name x" for x by (simp add: sync_def_set_def assign_def_def)
  have row': "def_row db' (d_JobName d) = Some (?f r0)"
    using row_of_def_update [of ?f ?P db "d_JobName d", OF name] row r0 by (simp add: db' audit_def)
  have "distinct (map jd_job_name (defs db'))"
    using assms(1) by (simp add: db' audit_def update_def_def keys_ok_def keys_update [where key = jd_job_name, OF name])
  then have none: "\<not> ?P x" if "x \<in> set (defs db')" for x
    using row_of_mem [of jd_job_name "defs db'" x] that row' r0(2) by (auto simp: sync_def_set_def)
  then have "UpdateJob env d v a r db' = Inl ErrStaleVersion"
    using ar by (auto simp: UpdateJob_def update_def_checked_def update_def_def rows_changed_def assertSome_def list_ex_iff
        filter_empty_conv)
  with row row' r0(2) show ?thesis
    by (auto simp: sync_def_set_def assign_def_def db' audit_def update_def_def)
qed

text \<open>A request id already known answers every later trigger of the same job.\<close>

lemma find_request:
  assumes "keys_ok db" "e \<in> set (execs db)" "je_request_id e = Some q"
  shows "find (\<lambda>e. je_request_id e = Some q) (execs db) = Some e"
proof (cases "find (\<lambda>e. je_request_id e = Some q) (execs db)")
  case None
  then show ?thesis using assms by (auto simp: find_None_iff)
next
  case (Some x)
  then have "x \<in> set (execs db)" "je_request_id x = Some q" by (auto simp: find_Some_iff)
  then have "x = e" using request_unique [of je_request_id "execs db" x e q] assms by (auto simp: keys_ok_def request_ids_def)
  with Some show ?thesis by simp
qed

lemma Trigger_known:
  assumes "keys_ok db" "e \<in> set (execs db)" "je_request_id e = Some q" "je_job_name e = j" "je_execution_key e = k"
    "actor \<noteq> []" "reason \<noteq> []" "q \<noteq> []"
  shows "Trigger json env j q actor reason params db = Inr (k, db)"
  using assms find_request [OF assms(1-3)] by (simp add: Trigger_def executionByRequest_def)

lemma trigger_tx_cases:
  assumes "trigger_tx json env j q actor reason params db = Inr (k, db')"
  shows "(\<exists>merged def. \<not> duplicate_key (trigger_row env j q merged def) db \<and> k = ExecutionKey ''m'' j q \<and>
      db' = audit env actor ''job_triggered'' j k reason
        (db\<lparr>execs := execs db @ [execution_of env (trigger_row env j q merged def) (next_id db)], next_id := next_id db + 1\<rparr>)) \<or>
    (\<exists>e. db' = db \<and> find (\<lambda>e. je_request_id e = Some q) (execs db) = Some e \<and> je_job_name e = j \<and> je_execution_key e = k)"
proof -
  from assms obtain def merged where "if fst (insertExecution env (trigger_row env j q merged def) db) then
       Inr (ExecutionKey ''m'' j q, audit env actor ''job_triggered'' j (ExecutionKey ''m'' j q) reason
          (snd (insertExecution env (trigger_row env j q merged def) db))) = (Inr (k, db') :: (string \<times> db) result)
     else (case find (\<lambda>e. je_request_id e = Some q) (execs db) of
            None \<Rightarrow> Inl ErrOther
          | Some e \<Rightarrow> if je_job_name e \<noteq> j then Inl ErrProtocol else Inr (je_execution_key e, db)) = (Inr (k, db') :: (string \<times> db) result)"
    by (fastforce simp: trigger_tx_def Let_def split: if_split_asm)
  then show ?thesis
    by (cases "duplicate_key (trigger_row env j q merged def) db")
       (auto simp: insertExecution_def split: option.splits if_split_asm)
qed

text \<open>A manual trigger is idempotent in its request id: after a trigger succeeds, its execution is in the table under
  that request, and any later trigger of the job with the same request returns the same key and changes nothing.\<close>

lemma trigger_idempotent:
  assumes "keys_ok db" "Trigger json env j q actor reason params db = Inr (k, db')" "actor' \<noteq> []" "reason' \<noteq> []"
  shows "\<exists>e. e \<in> set (execs db') \<and> je_request_id e = Some q \<and> je_job_name e = j \<and> je_execution_key e = k \<and>
    Trigger json' env' j q actor' reason' params' db' = Inr (k, db')"
proof -
  from assms(2) have q: "q \<noteq> []" by (auto simp: Trigger_def split: if_splits)
  have "(\<exists>e. db' = db \<and> find (\<lambda>e. je_request_id e = Some q) (execs db) = Some e \<and> je_job_name e = j \<and> je_execution_key e = k) \<or>
    trigger_tx json env j q actor reason params db = Inr (k, db')"
    using assms(2) by (auto simp: Trigger_def executionByRequest_def split: if_split_asm option.splits)
  with trigger_tx_cases consider (known) e where "db' = db" "find (\<lambda>e. je_request_id e = Some q) (execs db) = Some e"
      "je_job_name e = j" "je_execution_key e = k"
    | (new) merged def where "\<not> duplicate_key (trigger_row env j q merged def) db" "k = ExecutionKey ''m'' j q"
      "db' = audit env actor ''job_triggered'' j k reason
        (db\<lparr>execs := execs db @ [execution_of env (trigger_row env j q merged def) (next_id db)], next_id := next_id db + 1\<rparr>)"
    by blast
  then have "\<exists>e. keys_ok db' \<and> e \<in> set (execs db') \<and> je_request_id e = Some q \<and> je_job_name e = j \<and> je_execution_key e = k"
  proof cases
    case known
    then have "e \<in> set (execs db) \<and> je_request_id e = Some q" by (auto simp: find_Some_iff)
    with known assms(1) show ?thesis by blast
  next
    case new
    let ?e = "execution_of env (trigger_row env j q merged def) (next_id db)"
    have "keys_ok db'" using keys_ok_insert [OF assms(1) new(1)] by (simp add: new(3) audit_def db_key_defs)
    moreover have "?e \<in> set (execs db')" by (simp add: new(3) audit_def)
    moreover have "je_request_id ?e = Some q \<and> je_job_name ?e = j \<and> je_execution_key ?e = k"
      using q by (simp add: execution_of_def trigger_row_def nullString_def new(2))
    ultimately show ?thesis by blast
  qed
  then show ?thesis using Trigger_known assms(3,4) q by blast
qed

lemma Retire_steps:
  assumes "Retire env j a r db = Inr db'"
  obtains db1 where
    "assertSome ErrProtocol (update_def (\<lambda>r. jd_job_name r = j \<and> \<not> jd_retired r) (retire_def_set env a) db) = Inr db1"
    "db' = audit env a ''job_retired'' j [] r
       (snd (update_exec (\<lambda>e. je_job_name e = j \<and> je_status e \<in> {StatusDispatching, StatusRunning}) (cancel_set env)
         (snd (update_exec (\<lambda>e. je_job_name e = j \<and> je_status e = StatusReady) (retire_ready_set env) db1))))"
  using assms by (auto simp: Retire_def Let_def split: if_splits)

lemma retire_clears:
  assumes "e \<in> set (execs (snd (update_exec (\<lambda>e. je_job_name e = j \<and> je_status e \<in> {StatusDispatching, StatusRunning}) (cancel_set env)
      (snd (update_exec (\<lambda>e. je_job_name e = j \<and> je_status e = StatusReady) (retire_ready_set env) db)))))" "je_job_name e = j"
  shows "je_status e \<in> {StatusCancelRequested, StatusSuccess, StatusDead, StatusCancelled, StatusSkipped}"
proof -
  let ?c = "\<lambda>e. if je_job_name e = j \<and> je_status e \<in> {StatusDispatching, StatusRunning} then cancel_set env e else e"
  let ?r = "\<lambda>e. if je_job_name e = j \<and> je_status e = StatusReady then retire_ready_set env e else e"
  have upd: "set (execs (snd (update_exec P f db))) = (\<lambda>e. if P e then f e else e) ` set (execs db)" for P f db
    by (simp add: update_exec_def set_sql_update)
  have "e \<in> ?c ` ?r ` set (execs db)" using assms(1) unfolding upd .
  then obtain x where "e = ?c (?r x)" by (elim imageE) blast
  with assms(2) show ?thesis
    by (cases "je_status x") (simp_all add: cancel_set_def retire_ready_set_def split: if_splits)
qed

text \<open>Retiring a job leaves no execution of it ready, dispatching or running, marks it retired and disabled, and from
  then on a trigger with a new request is refused as not runnable.\<close>

lemma retire_empties_queue:
  assumes "keys_ok db" "Retire env j a r db = Inr db'"
  shows "(\<forall>e \<in> set (execs db'). je_job_name e = j \<longrightarrow>
      je_status e \<in> {StatusCancelRequested, StatusSuccess, StatusDead, StatusCancelled, StatusSkipped}) \<and>
    (\<exists>d. def_row db' j = Some d \<and> jd_retired d \<and> \<not> jd_enabled d) \<and>
    (\<forall>json env' q a' r' ps. a' \<noteq> [] \<and> r' \<noteq> [] \<and> q \<noteq> [] \<and> executionByRequest db' q j = Inr None \<and>
       state_row db' j \<noteq> None \<and> \<not> locked env' j \<longrightarrow> Trigger json env' j q a' r' ps db' = Inl ErrNotRunnable)"
proof -
  from assms(2) obtain db1 where
    d: "assertSome ErrProtocol (update_def (\<lambda>r. jd_job_name r = j \<and> \<not> jd_retired r) (retire_def_set env a) db) = Inr db1"
    and db': "db' = audit env a ''job_retired'' j [] r
       (snd (update_exec (\<lambda>e. je_job_name e = j \<and> je_status e \<in> {StatusDispatching, StatusRunning}) (cancel_set env)
         (snd (update_exec (\<lambda>e. je_job_name e = j \<and> je_status e = StatusReady) (retire_ready_set env) db1))))"
    by (rule Retire_steps)
  let ?P = "\<lambda>r. jd_job_name r = j \<and> \<not> jd_retired r"
  have "rows_changed ?P (retire_def_set env a) (defs db) \<noteq> 0" and defs': "defs db' = sql_update ?P (retire_def_set env a) (defs db)"
    using d by (auto simp: db' audit_def update_exec_def update_def_def assertSome_def split: if_splits)
  then obtain r0 where "r0 \<in> set (defs db)" "?P r0" by (auto simp: rows_changed_def filter_empty_conv)
  then have "def_row db j = Some r0" using row_of_mem [of jd_job_name "defs db" r0] assms(1) by (simp add: keys_ok_def)
  then have row: "def_row db' j = Some (retire_def_set env a r0)"
    using \<open>?P r0\<close> by (simp add: defs' row_of_update [where key = jd_job_name] retire_def_set_def)
  have "Trigger json env' j q a' r' ps db' = Inl ErrNotRunnable"
    if "a' \<noteq> []" "r' \<noteq> []" "q \<noteq> []" "executionByRequest db' q j = Inr None" "state_row db' j \<noteq> None" "\<not> locked env' j" for json env' q a' r' ps
    using that row by (auto simp: Trigger_def trigger_tx_def lockState_def readDefinition_def definition_of_def retire_def_set_def)
  moreover have "\<forall>e \<in> set (execs db'). je_job_name e = j \<longrightarrow>
      je_status e \<in> {StatusCancelRequested, StatusSuccess, StatusDead, StatusCancelled, StatusSkipped}"
    using retire_clears [of _ j env db1] by (simp add: db' audit_def)
  ultimately show ?thesis using row by (auto simp: retire_def_set_def)
qed

text \<open>An authorized retry revives a dead execution of a job that is not retired, for exactly one more attempt: it is
  ready now, its maximum is its attempts so far plus one, and its runtime cap starts afresh.\<close>

lemma authorized_retry_one_more:
  assumes "keys_ok db" "AuthorizedRetry env key actor reason db = Inr db'"
  shows "\<exists>e e' d. e \<in> set (execs db) \<and> je_execution_key e = key \<and> je_status e = StatusDead \<and>
    def_row db (je_job_name e) = Some d \<and> \<not> jd_retired d \<and>
    exec_row db' = (exec_row db)(je_id e \<mapsto> e') \<and> je_status e' = StatusReady \<and> je_attempt_no e' = je_attempt_no e \<and>
    je_max_attempts e' = je_attempt_no e + 1 \<and> je_timeout_at e' = None \<and> je_available_at e' = now env"
proof -
  from assms(2) obtain j d db1 where j: "jobOf db key = Inr j" and d: "def_row db j = Some d" "\<not> jd_retired d"
    and upd: "assertSome ErrProtocol (update_exec (\<lambda>e. je_execution_key e = key \<and> je_job_name e = j \<and> je_status e = StatusDead)
        (revive_set env) db) = Inr db1"
    and db': "db' = audit env actor ''execution_retried'' [] key reason db1"
    by (auto simp: AuthorizedRetry_def readDefinition_Inr definition_of_def split: if_splits)
  let ?P = "\<lambda>e. je_execution_key e = key \<and> je_job_name e = j \<and> je_status e = StatusDead"
  obtain e where e: "e \<in> set (execs db)" "?P e"
    using upd by (auto simp: assertSome_def update_exec_def rows_changed_def filter_empty_conv split: if_splits)
  have only: "x = e" if "x \<in> set (execs db)" "?P x" for x using exec_keys_unique [OF assms(1) that(1) e(1)] that(2) e(2) by simp
  have "exec_row db1 = (exec_row db)(je_id e \<mapsto> revive_set env e)"
  proof
    fix i
    have "db1 = snd (update_exec ?P (revive_set env) db)" using upd by (auto simp: assertSome_def split: if_splits)
    then have "exec_row db1 i = map_option (\<lambda>x. if ?P x then revive_set env x else x) (exec_row db i)"
      using revive.rows_after by simp
    then show "exec_row db1 i = ((exec_row db)(je_id e \<mapsto> revive_set env e)) i"
    proof (cases "i = je_id e")
      case True
      with \<open>exec_row db1 i = _\<close> exec_row_mem [OF assms(1) e(1)] e(2) show ?thesis by simp
    next
      case False
      then have "\<not> ?P x" if "exec_row db i = Some x" for x using row_of_Some [OF that] only by blast
      with \<open>exec_row db1 i = _\<close> False show ?thesis by (cases "exec_row db i") simp_all
    qed
  qed
  with e d db' show ?thesis
    by (intro exI [of _ e] exI [of _ "revive_set env e"] exI [of _ d]) (simp add: revive_set_def audit_def)
qed

end
