(* ===== verification/Housekeeping.thy ===== *)
theory Housekeeping
  imports Examples
begin

text \<open>
  Retention: the batch a pass of the reaper deletes.
\<close>

definition reaps :: "job_execution list \<Rightarrow> job_execution \<Rightarrow> bool" where
  "reaps cs e \<longleftrightarrow> (\<exists>c \<in> set cs. je_id e = je_id c \<and> je_execution_key e = je_execution_key c \<and>
     je_status e \<in> {StatusSuccess, StatusDead, StatusCancelled, StatusSkipped})"

lemma delete_delete: "sql_delete P (sql_delete Q t) = sql_delete (\<lambda>r. Q r \<or> P r) t"
  by (simp add: sql_delete_def conj_commute)

lemma reap_each_effect:
  "reap_each cs n db = Inr (m, db') \<Longrightarrow>
   m = n + length cs \<and> execs db' = sql_delete (reaps cs) (execs db) \<and> length (execs db') + length cs = length (execs db) \<and>
   attempts db' = sql_delete (\<lambda>a. \<exists>c \<in> set cs. ja_execution_key a = je_execution_key c) (attempts db) \<and>
   states db' = states db \<and> defs db' = defs db"
proof (induction cs arbitrary: n db)
  case Nil
  then show ?case by (auto simp: sql_delete_def reaps_def)
next
  case (Cons c cs)
  let ?P = "\<lambda>e. je_id e = je_id c \<and> je_execution_key e = je_execution_key c \<and>
      je_status e \<in> {StatusSuccess, StatusDead, StatusCancelled, StatusSkipped}"
  let ?db = "db\<lparr>attempts := sql_delete (\<lambda>a. ja_execution_key a = je_execution_key c) (attempts db),
                 execs := sql_delete ?P (execs db)\<rparr>"
  from Cons.prems have st: "rows_matched ?P (execs db) = 1" "reap_each cs (n + 1) ?db = Inr (m, db')"
    by (auto simp: Let_def split: if_splits)
  note ih = Cons.IH [OF st(2)]
  have "length (sql_delete ?P (execs db)) + 1 = length (execs db)"
    using st(1) sum_length_filter_compl [of ?P "execs db"] by (simp add: sql_delete_def rows_matched_def)
  moreover from ih have "length (execs db') + length cs = length (execs ?db)" by blast
  ultimately have "length (execs db') + length (c # cs) = length (execs db)" by simp
  moreover have "reaps (c # cs) = (\<lambda>e. ?P e \<or> reaps cs e)" by (rule ext) (auto simp: reaps_def)
  then have "execs db' = sql_delete (reaps (c # cs)) (execs db)" using ih by (simp add: delete_delete)
  moreover have "attempts db' = sql_delete (\<lambda>a. \<exists>x \<in> set (c # cs). ja_execution_key a = je_execution_key x) (attempts db)"
    using ih by (simp add: delete_delete)
  ultimately show ?case using ih by simp
qed

lemma reap_each_commits:
  "keys_ok db \<Longrightarrow> distinct (map je_id cs) \<Longrightarrow> (\<And>c. c \<in> set cs \<Longrightarrow> c \<in> set (execs db) \<and> Terminal (je_status c)) \<Longrightarrow>
   \<exists>r. reap_each cs n db = Inr r"
proof (induction cs arbitrary: n db)
  case (Cons c cs)
  let ?P = "\<lambda>e. je_id e = je_id c \<and> je_execution_key e = je_execution_key c \<and>
      je_status e \<in> {StatusSuccess, StatusDead, StatusCancelled, StatusSkipped}"
  let ?db = "db\<lparr>attempts := sql_delete (\<lambda>a. ja_execution_key a = je_execution_key c) (attempts db),
                 execs := sql_delete ?P (execs db)\<rparr>"
  have c: "c \<in> set (execs db)" "Terminal (je_status c)" using Cons.prems(3) by auto
  have ids: "distinct (map je_id (execs db))" using Cons.prems(1) by (simp add: keys_ok_def)
  have "?P r \<Longrightarrow> je_id r = je_id c" for r by simp
  from rows_matched_unique [OF ids this] have "rows_matched ?P (execs db) = 1"
    using exec_row_mem [OF Cons.prems(1) c(1)] c(2) by (cases "je_status c") auto
  moreover have "\<exists>r. reap_each cs (n + 1) ?db = Inr r"
  proof (rule Cons.IH)
    show "keys_ok ?db" using Cons.prems(1) by (rule keys_ok_delete)
    show "distinct (map je_id cs)" using Cons.prems(2) by simp
    show "x \<in> set (execs ?db) \<and> Terminal (je_status x)" if "x \<in> set cs" for x
    proof -
      have "je_id x \<noteq> je_id c" using that Cons.prems(2) by (metis distinct.simps(2) image_eqI list.set_map list.simps(9))
      with that Cons.prems(3) show ?thesis by (simp add: sql_delete_def)
    qed
  qed
  ultimately show ?case by (simp add: Let_def)
qed simp

lemma page_distinct: "keys_ok db \<Longrightarrow> distinct (map je_id (page c P n db))"
proof -
  assume "keys_ok db"
  then have "distinct (map je_id (filter P (execs db)))" by (simp add: keys_ok_def distinct_map_filter)
  then have "distinct (map je_id (sort_key (\<lambda>e. (c e, je_id e)) (filter P (execs db))))"
    by (simp add: distinct_map)
  then show ?thesis unfolding page_def by (metis distinct_take take_map)
qed

lemma reapable_terminal: "reapable a b e \<Longrightarrow> Terminal (je_status e)"
  by (auto simp: reapable_def)

text \<open>Retention deletes only what has expired. It always commits, deletes at most the batch size, and every execution
  deleted was terminal and past the retention of its kind, with its attempt history deleted too; executions that
  stay keep their history, and definitions and states are untouched.\<close>

lemma reap_old_terminal:
  assumes "keys_ok db" "0 < sr" "0 < ot" "0 < l"
  shows "\<exists>n db'. ReapExecutions env sr ot l db = Inr (n, db') \<and> n \<le> nat l \<and> length (execs db') + n = length (execs db) \<and>
    set (execs db') \<subseteq> set (execs db) \<and> states db' = states db \<and> defs db' = defs db \<and>
    (\<forall>e \<in> set (execs db) - set (execs db'). reapable (now env - sr) (now env - ot) e \<and>
       (\<forall>a \<in> set (attempts db'). ja_execution_key a \<noteq> je_execution_key e)) \<and>
    (\<forall>e \<in> set (execs db'). \<forall>a \<in> set (attempts db). ja_execution_key a = je_execution_key e \<longrightarrow> a \<in> set (attempts db'))"
proof -
  let ?cs = "page (\<lambda>e. or_zero (je_finished_at e)) (reapable (now env - sr) (now env - ot)) l db"
  have cs: "c \<in> set (execs db) \<and> reapable (now env - sr) (now env - ot) c" if "c \<in> set ?cs" for c
    using page_mem [OF that] .
  obtain n db' where run: "reap_each ?cs 0 db = Inr (n, db')"
    using reap_each_commits [OF assms(1) page_distinct [OF assms(1)], of _ _ _ 0] cs reapable_terminal by (metis surj_pair)
  note eff = reap_each_effect [OF run]
  have same: "e = c" if "e \<in> set (execs db)" "c \<in> set ?cs" "je_execution_key e = je_execution_key c" for e c
    using exec_keys_unique [OF assms(1) that(1)] cs [OF that(2)] that(3) by blast
  have del: "reaps ?cs e \<longleftrightarrow> e \<in> set ?cs" if "e \<in> set (execs db)" for e
    using that same cs [of e] reapable_terminal by (auto simp: reaps_def) (metis Terminal.elims(2))
  have "ReapExecutions env sr ot l db = Inr (n, db')" using assms(2-4) run by (simp add: ReapExecutions_def)
  moreover have "n \<le> nat l" using eff page_bounded by simp
  moreover have "\<forall>e \<in> set (execs db) - set (execs db'). reapable (now env - sr) (now env - ot) e \<and>
       (\<forall>a \<in> set (attempts db'). ja_execution_key a \<noteq> je_execution_key e)"
    using eff del cs by (auto simp: sql_delete_def)
  moreover have "\<forall>e \<in> set (execs db'). \<forall>a \<in> set (attempts db). ja_execution_key a = je_execution_key e \<longrightarrow> a \<in> set (attempts db')"
    using eff del same by (auto simp: sql_delete_def)
  moreover have "set (execs db') \<subseteq> set (execs db)" using eff by (auto simp: sql_delete_def)
  ultimately show ?thesis using eff by auto
qed

end
