(* ===== verification/Routing.thy ===== *)
theory Routing
  imports Examples
begin

text \<open>
  The executor registry as routing sees it.
\<close>

lemma declare_handlers_mem:
  "declare_handlers e hs t = Inr t' \<Longrightarrow> set t \<subseteq> set t' \<and>
   (\<forall>h \<in> set hs. \<exists>r \<in> set t'. jh_executor_id r = x_ExecutorID e \<and> jh_handler_key r = h)"
proof (induction hs arbitrary: t)
  case (Cons h hs)
  let ?t = "t @ [\<lparr>jh_executor_id = x_ExecutorID e, jh_handler_key = h, jh_description = description_of e h\<rparr>]"
  from Cons.prems have "declare_handlers e hs ?t = Inr t'" by (auto split: if_splits)
  from Cons.IH [OF this] show ?case by force
qed simp

lemma upsert_row:
  assumes "keys_ok db"
  obtains x where "x \<in> set (executors (upsert_executor env e db))" "jx_executor_id x = x_ExecutorID e"
    "jx_address x = x_Address e" "jx_executor_group x = x_Group e" "jx_heartbeat_at x = utc env"
proof (cases "executor_row db (x_ExecutorID e)")
  case None
  then show thesis by (intro that [of "executor_of env e"]) (auto simp: upsert_executor_def executor_of_def)
next
  case (Some x)
  then have "x \<in> set (executors db)" "jx_executor_id x = x_ExecutorID e" by (auto dest: row_of_Some)
  with Some show thesis
    by (intro that [of "reregister_set env e x"]) (auto simp: upsert_executor_def reregister_set_def set_sql_update image_iff)
qed

text \<open>A registered executor is routable: right after registration it is among the live executors of every handler it
  declared in its group, at the address it gave.\<close>

lemma register_round_trip:
  assumes "keys_ok db" "Register env e n db = Inr db'" "h \<in> set (x_Handlers e)" "0 \<le> liveness"
  shows "\<exists>x \<in> set (LiveExecutors env db' h (x_Group e) liveness).
    x_ExecutorID x = x_ExecutorID e \<and> x_Address x = x_Address e"
proof -
  from assms(2) obtain hs where
    hs: "declare_handlers e (x_Handlers e)
      (sql_delete (\<lambda>h. jh_executor_id h = x_ExecutorID e) (handlers (upsert_executor env e db))) = Inr hs"
    and db': "db' = (upsert_executor env e db)\<lparr>handlers := hs\<rparr>"
    by (auto simp: Register_def Let_def split: if_splits)
  obtain x where x: "x \<in> set (executors (upsert_executor env e db))" "jx_executor_id x = x_ExecutorID e"
    "jx_address x = x_Address e" "jx_executor_group x = x_Group e" "jx_heartbeat_at x = utc env"
    by (rule upsert_row [OF assms(1)])
  have "declares db' x h" using declare_handlers_mem [OF hs] assms(3) x(2) by (fastforce simp: declares_def db' list_ex_iff)
  moreover have "live env (seconds liveness) x" using x(5) seconds_pos [of liveness] by (simp add: live_def add_seconds_def)
  ultimately have "view_of x \<in> set (LiveExecutors env db' h (x_Group e) liveness)"
    using x by (auto simp: LiveExecutors_def db')
  then show ?thesis using x by (intro bexI [of _ "view_of x"]) (simp_all add: view_of_def)
qed

text \<open>A live job is reported as an orphan exactly when no live executor can be routed to for its handler and group.\<close>

lemma orphan_iff_unserved:
  assumes "keys_ok db" "d \<in> set (defs db)" "jd_enabled d" "\<not> jd_retired d" "jd_executor_group d \<noteq> Some []"
  shows "jd_job_name d \<in> on_JobName ` set (Orphans env db liveness) \<longleftrightarrow>
    LiveExecutors env db (jd_handler_key d) (coalesce_str (jd_executor_group d)) liveness = []"
proof -
  have "d' = d" if "d' \<in> set (defs db)" "jd_job_name d' = jd_job_name d" for d'
    using assms(1,2) that by (auto simp: keys_ok_def distinct_map inj_on_def)
  then have "jd_job_name d \<in> on_JobName ` set (Orphans env db liveness) \<longleftrightarrow>
      \<not> list_ex (\<lambda>x. declares db x (jd_handler_key d) \<and> live env (seconds liveness) x \<and>
          (jd_executor_group d = None \<or> Some (jx_executor_group x) = jd_executor_group d)) (executors db)"
    using assms(2-4) by (force simp: Orphans_def)
  also have "\<dots> \<longleftrightarrow> \<not> HandlerIsServed env db (definition_of d) liveness"
    using assms(5) by (cases "jd_executor_group d") (auto simp: HandlerIsServed_def definition_of_def list_ex_iff)
  also have "\<dots> \<longleftrightarrow> LiveExecutors env db (jd_handler_key d) (coalesce_str (jd_executor_group d)) liveness = []"
  proof -
    have "d_HandlerKey (definition_of d) = jd_handler_key d" "d_ExecutorGroup (definition_of d) = coalesce_str (jd_executor_group d)"
      by (simp_all add: definition_of_def)
    then show ?thesis using LiveExecutors_served [of env db "definition_of d" liveness] by metis
  qed
  finally show ?thesis .
qed

end
