(* ===== verification/Calendar.thy ===== *)
theory Calendar
  imports Gojob
begin

text \<open>
  What \<^verbatim>\<open>src/internal/cron\<close> uses of Go's \<open>time\<close> package: the proleptic Gregorian calendar, \<open>time.Date\<close>
  with its normalisation of out-of-range values, the date and clock of an instant in a location, and
  weekdays. A day is counted from 1970-01-01, an instant in nanoseconds from its midnight UTC, and a
  location is the offset from UTC as a function of the Unix second (\<open>Gojob\<close>).
\<close>

section \<open>Years and months\<close>

definition leap :: "int \<Rightarrow> bool" where
  "leap y \<longleftrightarrow> y mod 4 = 0 \<and> (y mod 100 \<noteq> 0 \<or> y mod 400 = 0)"

definition month_len :: "int \<Rightarrow> int \<Rightarrow> int" where
  "month_len y m =
     (if m = 2 then (if leap y then 29 else 28)
      else if m \<in> {4, 6, 9, 11} then 30 else 31)"

definition days_before_year :: "int \<Rightarrow> int" where
  "days_before_year y = (let k = y - 1 in 365 * k + k div 4 - k div 100 + k div 400 - 719162)"

definition days_before_month :: "int \<Rightarrow> int \<Rightarrow> int" where
  "days_before_month y m = sum_list (map (month_len y) [1..m - 1])"

definition day_number :: "int \<Rightarrow> int \<Rightarrow> int \<Rightarrow> int" where
  "day_number y m d = days_before_year y + days_before_month y m + d - 1"

definition year_len :: "int \<Rightarrow> int" where
  "year_len y = 365 + of_bool (leap y)"

lemma div_step:
  fixes y k :: int
  assumes "1 < k"
  shows "y div k = (y - 1) div k + of_bool (y mod k = 0)"
proof -
  define q r where qr: "q = y div k" "r = y mod k"
  have y: "y = k * q + r" "0 \<le> r" "r < k" using assms by (simp_all add: qr)
  show ?thesis
  proof (cases "r = 0")
    case True
    have "(y - 1) div k = (k * (q - 1) + (k - 1)) div k" using y True by (simp add: algebra_simps)
    also have "\<dots> = q - 1" using assms by (subst div_mult_self4) (simp_all add: div_pos_pos_trivial)
    finally show ?thesis using True by (simp add: qr)
  next
    case False
    have "(y - 1) div k = (k * q + (r - 1)) div k" using y by (simp add: algebra_simps)
    also have "\<dots> = q" using assms y False by (subst div_mult_self4) (simp_all add: div_pos_pos_trivial)
    finally show ?thesis using False by (simp add: qr)
  qed
qed

lemma mod_multiple:
  fixes y :: int
  shows "y mod 100 = 0 \<Longrightarrow> y mod 4 = 0" "y mod 400 = 0 \<Longrightarrow> y mod 100 = 0"
  using dvd_trans [of 4 100 y] dvd_trans [of 100 400 y] by (simp_all add: mod_eq_0_iff_dvd)

lemma leap_count:
  fixes a :: int
  assumes "a = a' + of_bool p" "b = b' + of_bool q" "c = c' + of_bool r" "q \<longrightarrow> p" "r \<longrightarrow> q"
  shows "365 * y + a - b + c - z = 365 * (y - 1) + a' - b' + c' - z + (365 + of_bool (p \<and> (\<not> q \<or> r)))"
proof -
  have "of_bool p - of_bool q + of_bool r = (of_bool (p \<and> (\<not> q \<or> r)) :: int)" using assms(4,5) by (cases p; cases q; cases r) simp_all
  then show ?thesis unfolding assms(1-3) by (simp add: algebra_simps)
qed

lemma days_before_year_Suc: "days_before_year (y + 1) = days_before_year y + year_len y"
  unfolding days_before_year_def Let_def year_len_def leap_def add_diff_cancel_right'
  by (rule leap_count) (rule div_step, simp, rule div_step, simp, rule div_step, simp, rule impI, erule mod_multiple, rule impI, erule mod_multiple)

lemma month_cases:
  fixes m :: int
  assumes "1 \<le> m" "m \<le> 12"
  obtains "m = 1" | "m = 2" | "m = 3" | "m = 4" | "m = 5" | "m = 6" | "m = 7" | "m = 8" | "m = 9" | "m = 10" | "m = 11" | "m = 12"
proof -
  from assms have "m = 1 \<or> m = 2 \<or> m = 3 \<or> m = 4 \<or> m = 5 \<or> m = 6 \<or> m = 7 \<or> m = 8 \<or> m = 9 \<or> m = 10 \<or> m = 11 \<or> m = 12" by presburger
  with that show thesis by metis
qed

lemma days_before_month_Suc: "1 \<le> m \<Longrightarrow> days_before_month y (m + 1) = days_before_month y m + month_len y m"
  by (simp add: days_before_month_def upto_rec2)

lemma month_len_bounds: "28 \<le> month_len y m" "month_len y m \<le> 31"
  by (auto simp: month_len_def)

lemma days_before_month_1 [simp]: "days_before_month y 1 = 0"
  by (simp add: days_before_month_def)

lemma days_before_month_13: "days_before_month y 13 = year_len y"
  by (simp add: days_before_month_def upto_rec1 month_len_def year_len_def)

section \<open>The date of a day\<close>

definition year_of :: "int \<Rightarrow> int" where
  "year_of n =
     (let y = (n + 719162) * 400 div 146097 + 1 in
      if n < days_before_year y then y - 1
      else if days_before_year (y + 1) \<le> n then y + 1 else y)"

definition month_of :: "int \<Rightarrow> int \<Rightarrow> int" where
  "month_of y r = (case find (\<lambda>m. r < days_before_month y (m + 1)) [1..12] of None \<Rightarrow> 12 | Some m \<Rightarrow> m)"

definition date_of :: "int \<Rightarrow> int \<times> int \<times> int" where
  "date_of n =
     (let y = year_of n; r = n - days_before_year y; m = month_of y r
      in (y, m, r - days_before_month y m + 1))"

lemma days_before_year_bounds:
  "400 * (days_before_year y + 719162) \<le> 146097 * (y - 1) + 396"
  "146097 * (y - 1) - 796 < 400 * (days_before_year y + 719162)"
proof -
  let ?k = "y - 1"
  define a b c where abc: "a = ?k div 4" "b = ?k div 100" "c = ?k div 400"
  have "4 * a \<le> ?k" "?k < 4 * a + 4" "100 * b \<le> ?k" "?k < 100 * b + 100" "400 * c \<le> ?k" "?k < 400 * c + 400"
    unfolding abc using div_bounds [of 4 ?k] div_bounds [of 100 ?k] div_bounds [of 400 ?k] by simp_all
  moreover have "400 * (days_before_year y + 719162) = 146000 * ?k + 400 * a - 400 * b + 400 * c"
    by (simp add: days_before_year_def Let_def abc algebra_simps)
  ultimately have "400 * (days_before_year y + 719162) \<le> 146097 * ?k + 396 \<and> 146097 * ?k - 796 < 400 * (days_before_year y + 719162)"
    by (simp add: algebra_simps)
  then show "400 * (days_before_year y + 719162) \<le> 146097 * (y - 1) + 396"
    "146097 * (y - 1) - 796 < 400 * (days_before_year y + 719162)" by simp_all
qed

lemma year_of_bounds: "days_before_year (year_of n) \<le> n" "n < days_before_year (year_of n + 1)"
proof -
  let ?N = "n + 719162"
  define q where "q = ?N * 400 div 146097"
  have q: "146097 * q \<le> 400 * ?N" "400 * ?N < 146097 * q + 146097" 
    unfolding q_def using div_bounds [of 146097 "?N * 400"] by (simp_all add: mult.commute)
  have lo: "days_before_year q \<le> n" using days_before_year_bounds(1) [of q] q by (simp add: algebra_simps)
  have hi: "n < days_before_year (q + 3)" using days_before_year_bounds(2) [of "q + 3"] q by (simp add: algebra_simps)
  have yr: "year_of n = (if n < days_before_year (q + 1) then q else if days_before_year (q + 2) \<le> n then q + 2 else q + 1)"
    by (simp add: year_of_def q_def add.commute Let_def)
  show "days_before_year (year_of n) \<le> n" using lo by (simp add: yr)
  show "n < days_before_year (year_of n + 1)" using hi by (simp add: yr add.commute)
qed

lemma days_before_year_mono: "y \<le> y' \<Longrightarrow> days_before_year y \<le> days_before_year y'"
proof (induction y' rule: int_ge_induct)
  case (step i)
  then show ?case using days_before_year_Suc [of i] by (simp add: year_len_def split: if_splits)
qed simp

lemma year_of_unique:
  assumes "days_before_year y \<le> n" "n < days_before_year (y + 1)"
  shows "year_of n = y"
proof (rule ccontr)
  assume "year_of n \<noteq> y"
  then consider "year_of n + 1 \<le> y" | "y + 1 \<le> year_of n" by linarith
  then show False
    using year_of_bounds [of n] assms days_before_year_mono [of "year_of n + 1" y] days_before_year_mono [of "y + 1" "year_of n"]
    by cases linarith+
qed

lemma days_before_month_mono:
  assumes "1 \<le> m" "m \<le> m'"
  shows "days_before_month y m \<le> days_before_month y m'"
  using assms(2)
proof (induction m' rule: int_ge_induct)
  case (step i)
  then show ?case using days_before_month_Suc [of i y] month_len_bounds(1) [of y i] assms(1) by simp
qed simp

lemma month_of_unique:
  assumes "1 \<le> m" "m \<le> 12" "days_before_month y m \<le> r" "r < days_before_month y (m + 1)"
  shows "month_of y r = m"
proof -
  have "r < days_before_month y (i + 1) \<longleftrightarrow> m \<le> i" if "1 \<le> i" for i
    using days_before_month_mono [of "i + 1" m y] days_before_month_mono [of "m + 1" "i + 1" y] assms that by (cases "m \<le> i") auto
  then have "find (\<lambda>i. r < days_before_month y (i + 1)) [1..12] = find (\<lambda>i. m \<le> i) [1..12]"
    by (intro find_cong) auto
  also have "\<dots> = Some m" using assms(1,2) by (elim month_cases) (simp_all add: upto_rec1)
  finally show ?thesis by (simp add: month_of_def)
qed

lemma month_of_bounds:
  assumes "0 \<le> r" "r < year_len y"
  shows "1 \<le> month_of y r" "month_of y r \<le> 12" "days_before_month y (month_of y r) \<le> r" "r < days_before_month y (month_of y r + 1)"
proof -
  have "\<exists>m. 1 \<le> m \<and> m \<le> 12 \<and> days_before_month y m \<le> r \<and> r < days_before_month y (m + 1)"
  proof (rule ccontr)
    assume no: "\<nexists>m. 1 \<le> m \<and> m \<le> 12 \<and> days_before_month y m \<le> r \<and> r < days_before_month y (m + 1)"
    have "days_before_month y (int k + 1) \<le> r" if "k \<le> 12" for k
      using that
    proof (induction k)
      case 0
      then show ?case using assms(1) by simp
    next
      case (Suc k)
      then show ?case using no [rule_format, unfolded not_ex, rule_format, of "int k + 1"] by (auto simp: algebra_simps not_less)
    qed
    from this [of 12] show False using assms(2) by (simp add: days_before_month_13)
  qed
  then obtain m where m: "1 \<le> m" "m \<le> 12" "days_before_month y m \<le> r" "r < days_before_month y (m + 1)" by blast
  from month_of_unique [OF this] m show "1 \<le> month_of y r" "month_of y r \<le> 12"
    "days_before_month y (month_of y r) \<le> r" "r < days_before_month y (month_of y r + 1)" by simp_all
qed

text \<open>A date is valid when its month and its day exist.\<close>

definition valid_date :: "int \<Rightarrow> int \<Rightarrow> int \<Rightarrow> bool" where
  "valid_date y m d \<longleftrightarrow> 1 \<le> m \<and> m \<le> 12 \<and> 1 \<le> d \<and> d \<le> month_len y m"

lemma date_of_day_number:
  assumes "valid_date y m d"
  shows "date_of (day_number y m d) = (y, m, d)"
proof -
  let ?r = "days_before_month y m + d - 1"
  have m: "1 \<le> m" "m \<le> 12" "1 \<le> d" "d \<le> month_len y m" using assms by (simp_all add: valid_date_def)
  have nxt: "days_before_month y (m + 1) = days_before_month y m + month_len y m" using m(1) by (rule days_before_month_Suc)
  have r: "days_before_month y m \<le> ?r" "?r < days_before_month y (m + 1)" using m nxt by simp_all
  have "0 \<le> ?r" using days_before_month_mono [of 1 m y] m by simp
  moreover have "?r < year_len y" using r(2) days_before_month_mono [of "m + 1" 13 y] m by (simp add: days_before_month_13)
  ultimately have yr: "year_of (day_number y m d) = y"
    by (intro year_of_unique) (simp_all add: day_number_def days_before_year_Suc)
  have "month_of y ?r = m" by (rule month_of_unique [OF m(1,2) r])
  moreover have "day_number y m d - days_before_year y = ?r" by (simp add: day_number_def)
  ultimately show ?thesis using yr by (simp add: date_of_def Let_def)
qed

lemma day_number_date_of:
  assumes "date_of n = (y, m, d)"
  shows "valid_date y m d" "day_number y m d = n"
proof -
  let ?y = "year_of n"
  let ?r = "n - days_before_year ?y"
  have r: "0 \<le> ?r" "?r < year_len ?y" using year_of_bounds [of n] by (simp_all add: days_before_year_Suc)
  note b = month_of_bounds [OF r]
  from assms have y: "y = ?y" "m = month_of ?y ?r" "d = ?r - days_before_month y m + 1" by (auto simp: date_of_def Let_def)
  show "valid_date y m d" using b days_before_month_Suc [OF b(1), of ?y] by (simp add: valid_date_def y)
  show "day_number y m d = n" by (simp add: day_number_def y)
qed

section \<open>\<open>time.Date\<close>, weekdays, month lengths\<close>

text \<open>
  \<open>time.Date(...).Unix()\<close> in UTC. The month is normalised into a year first; days, hours, minutes and
  seconds are then plain counts, so day 0 is the last day of the month before.
\<close>

definition unix_date :: "int \<Rightarrow> int \<Rightarrow> int \<Rightarrow> int \<Rightarrow> int \<Rightarrow> int \<Rightarrow> int" where
  "unix_date y m d hh mm ss =
     (let y' = y + (m - 1) div 12; m' = (m - 1) mod 12 + 1
      in day_number y' m' d * 86400 + hh * 3600 + mm * 60 + ss)"

definition weekday :: "int \<Rightarrow> int" where
  "weekday s = (s div 86400 + 4) mod 7"

definition daysIn :: "int \<Rightarrow> int \<Rightarrow> int" where
  "daysIn month year = (case date_of (unix_date year (month + 1) 0 0 0 0 div 86400) of (_, _, d) \<Rightarrow> d)"

lemma unix_date_days:
  "1 \<le> m \<Longrightarrow> m \<le> 12 \<Longrightarrow> unix_date y m d hh mm ss = day_number y m d * 86400 + hh * 3600 + mm * 60 + ss"
  by (simp add: unix_date_def div_pos_pos_trivial mod_pos_pos_trivial)

lemma daysIn_eq:
  assumes "1 \<le> m" "m \<le> 12"
  shows "daysIn m y = month_len y m"
proof -
  have last: "date_of (day_number y m (month_len y m)) = (y, m, month_len y m)"
    using assms month_len_bounds(1) [of y m] by (intro date_of_day_number) (simp add: valid_date_def)
  have "unix_date y (m + 1) 0 0 0 0 = day_number y m (month_len y m) * 86400"
  proof (cases "m = 12")
    case True
    then show ?thesis
      using days_before_month_Suc [of 12 y] days_before_month_13 [of y] days_before_year_Suc [of y]
      by (simp add: unix_date_def day_number_def)
  next
    case False
    with assms show ?thesis
      using days_before_month_Suc [of m y] unix_date_days [of "m + 1" y 0 0 0 0] by (simp add: day_number_def)
  qed
  with last show ?thesis by (simp add: daysIn_def)
qed

section \<open>Wall-clock values\<close>

text \<open>
  \<open>civil\<close> is the wall-clock value of \<^verbatim>\<open>cron.go\<close>. The calendar identifies the valid ones with the seconds
  counted from 1970-01-01 on the same wall clock, and its order is theirs.
\<close>

record civil =
  c_year :: int
  c_month :: int
  c_day :: int
  c_hour :: int
  c_min :: int
  c_sec :: int

definition mk_civil :: "int \<Rightarrow> int \<Rightarrow> int \<Rightarrow> int \<Rightarrow> int \<Rightarrow> int \<Rightarrow> civil" where
  "mk_civil y mo d hh mm ss = \<lparr>c_year = y, c_month = mo, c_day = d, c_hour = hh, c_min = mm, c_sec = ss\<rparr>"

definition valid_civil :: "civil \<Rightarrow> bool" where
  "valid_civil c \<longleftrightarrow>
     valid_date (c_year c) (c_month c) (c_day c) \<and> 0 \<le> c_hour c \<and> c_hour c \<le> 23 \<and>
     0 \<le> c_min c \<and> c_min c \<le> 59 \<and> 0 \<le> c_sec c \<and> c_sec c \<le> 59"

definition utc_of :: "civil \<Rightarrow> int" where
  "utc_of c = unix_date (c_year c) (c_month c) (c_day c) (c_hour c) (c_min c) (c_sec c)"

definition civil_at :: "int \<Rightarrow> civil" where
  "civil_at s =
     (case date_of (s div 86400) of
        (y, mo, d) \<Rightarrow> let r = s mod 86400 in mk_civil y mo d (r div 3600) (r mod 3600 div 60) (r mod 60))"

definition after :: "civil \<Rightarrow> civil \<Rightarrow> bool" where
  "after c o' =
     (if c_year c \<noteq> c_year o' then c_year o' < c_year c
      else if c_month c \<noteq> c_month o' then c_month o' < c_month c
      else if c_day c \<noteq> c_day o' then c_day o' < c_day c
      else if c_hour c \<noteq> c_hour o' then c_hour o' < c_hour c
      else if c_min c \<noteq> c_min o' then c_min o' < c_min c
      else c_sec o' < c_sec c)"

lemma valid_month: "valid_civil c \<Longrightarrow> 1 \<le> c_month c \<and> c_month c \<le> 12"
  by (simp add: valid_civil_def valid_date_def)

lemma utc_eq:
  "valid_civil c \<Longrightarrow>
   utc_of c = day_number (c_year c) (c_month c) (c_day c) * 86400 + (c_hour c * 3600 + c_min c * 60 + c_sec c)"
  using valid_month [of c] by (simp add: utc_of_def unix_date_days)

lemma clock_bounds: "valid_civil c \<Longrightarrow> 0 \<le> c_hour c * 3600 + c_min c * 60 + c_sec c \<and> c_hour c * 3600 + c_min c * 60 + c_sec c < 86400"
  by (simp add: valid_civil_def)

lemma div_mod_unique:
  fixes q r k n :: int
  assumes "n = q * k + r" "0 \<le> r" "r < k"
  shows "n div k = q" "n mod k = r"
  using assms by (simp_all add: div_pos_pos_trivial mod_pos_pos_trivial)

lemma civil_at_utc:
  assumes "valid_civil c"
  shows "civil_at (utc_of c) = c"
proof -
  define h m t where hmt: "h = c_hour c" "m = c_min c" "t = c_sec c"
  define r where r: "r = h * 3600 + m * 60 + t"
  define n where n: "n = day_number (c_year c) (c_month c) (c_day c)"
  have v: "0 \<le> h" "h \<le> 23" "0 \<le> m" "m \<le> 59" "0 \<le> t" "t \<le> 59" using assms by (simp_all add: hmt valid_civil_def)
  have "utc_of c = n * 86400 + r" using utc_eq [OF assms] by (simp add: n r hmt)
  moreover have "0 \<le> r" "r < 86400" using v by (simp_all add: r)
  ultimately have "utc_of c div 86400 = n" "utc_of c mod 86400 = r" by (rule div_mod_unique)+
  moreover have "date_of n = (c_year c, c_month c, c_day c)" using assms unfolding n by (intro date_of_day_number) (simp add: valid_civil_def)
  moreover have "r = h * 3600 + (m * 60 + t)" "0 \<le> m * 60 + t" "m * 60 + t < 3600" using v by (simp_all add: r)
  then have "r div 3600 = h" "r mod 3600 = m * 60 + t" by (rule div_mod_unique)+
  moreover have "(m * 60 + t) div 60 = m" using v by (intro div_mod_unique [of _ m 60 t]) simp_all
  moreover have "r = (h * 60 + m) * 60 + t" "0 \<le> t" "t < 60" using v by (simp_all add: r)
  then have "r mod 60 = t" by (rule div_mod_unique)
  ultimately have "civil_at (utc_of c) = mk_civil (c_year c) (c_month c) (c_day c) h m t" by (simp only: civil_at_def Let_def prod.case)
  then show ?thesis by (simp add: mk_civil_def hmt)
qed

lemma quotient_remainder:
  fixes n k :: int
  assumes "0 < k"
  obtains q r where "n = q * k + r" "0 \<le> r" "r < k"
  using assms that [of "n div k" "n mod k"] by simp

lemma civil_exists:
  obtains c where "valid_civil c" "utc_of c = s"
proof -
  obtain n r where n: "s = n * 86400 + r" "0 \<le> r" "r < 86400" by (rule quotient_remainder [of 86400 s]) simp
  obtain h r' where h: "r = h * 3600 + r'" "0 \<le> r'" "r' < 3600" by (rule quotient_remainder [of 3600 r]) simp
  obtain m t where m: "r' = m * 60 + t" "0 \<le> t" "t < 60" by (rule quotient_remainder [of 60 r']) simp
  obtain y mo d where d: "date_of n = (y, mo, d)" by (metis prod_cases3)
  note d' = day_number_date_of [OF d]
  have v: "valid_civil (mk_civil y mo d h m t)" using d'(1) n h m by (simp add: valid_civil_def mk_civil_def)
  then have "utc_of (mk_civil y mo d h m t) = s" using d'(2) n(1) h(1) m(1) by (simp add: utc_eq) (simp add: mk_civil_def)
  with v that show thesis by blast
qed

lemma valid_civil_at [simp]: "valid_civil (civil_at s)"
  by (rule civil_exists [of s]) (auto simp: civil_at_utc)

lemma utc_civil_at [simp]: "utc_of (civil_at s) = s"
  by (rule civil_exists [of s]) (auto simp: civil_at_utc)

lemma day_number_bounds:
  assumes "valid_date y m d"
  shows "days_before_year y + days_before_month y m \<le> day_number y m d"
    "day_number y m d < days_before_year y + days_before_month y (m + 1)"
    "days_before_year y \<le> day_number y m d" "day_number y m d < days_before_year (y + 1)"
  using assms days_before_month_Suc [of m y] days_before_month_mono [of 1 m y] days_before_month_mono [of "m + 1" 13 y]
  by (simp_all add: valid_date_def day_number_def days_before_year_Suc days_before_month_13)

lemma day_number_less:
  assumes "valid_date y m d" "valid_date y' m' d'"
    and "y < y' \<or> y = y' \<and> (m < m' \<or> m = m' \<and> d < d')"
  shows "day_number y m d < day_number y' m' d'"
proof -
  consider "y < y'" | "y = y'" "m < m'" | "y = y'" "m = m'" "d < d'" using assms(3) by blast
  then show ?thesis
  proof cases
    case 1
    then show ?thesis
      using day_number_bounds(4) [OF assms(1)] day_number_bounds(3) [OF assms(2)] days_before_year_mono [of "y + 1" y'] by linarith
  next
    case 2
    have "1 \<le> m" using assms(1) by (simp add: valid_date_def)
    then show ?thesis
      using 2 day_number_bounds(2) [OF assms(1)] day_number_bounds(1) [OF assms(2)] days_before_month_mono [of "m + 1" m' y] by auto
  qed (simp add: day_number_def)
qed

lemma after_less:
  assumes "valid_civil c" "valid_civil o'" "after c o'"
  shows "utc_of o' < utc_of c"
proof (cases "c_year c = c_year o' \<and> c_month c = c_month o' \<and> c_day c = c_day o'")
  case True
  then have "c_hour o' < c_hour c \<or> c_hour o' = c_hour c \<and> (c_min o' < c_min c \<or> c_min o' = c_min c \<and> c_sec o' < c_sec c)"
    using assms(3) by (auto simp: after_def split: if_splits)
  then have "c_hour o' * 3600 + c_min o' * 60 + c_sec o' < c_hour c * 3600 + c_min c * 60 + c_sec c"
    using assms(1,2) by (auto simp: valid_civil_def)
  then show ?thesis using True by (simp add: utc_eq assms)
next
  case False
  have v: "valid_date (c_year c) (c_month c) (c_day c)" "valid_date (c_year o') (c_month o') (c_day o')"
    using assms(1,2) by (simp_all add: valid_civil_def)
  have "day_number (c_year o') (c_month o') (c_day o') < day_number (c_year c) (c_month c) (c_day c)"
    using assms(3) False by (intro day_number_less v) (auto simp: after_def split: if_splits)
  then show ?thesis using clock_bounds [OF assms(1)] clock_bounds [OF assms(2)] by (simp add: utc_eq assms)
qed

lemma after_total: "after c o' \<or> after o' c \<or> c = o'"
  by (cases c, cases o') (auto simp: after_def)

theorem after_iff:
  assumes "valid_civil c" "valid_civil o'"
  shows "after c o' \<longleftrightarrow> utc_of o' < utc_of c"
  using after_less [OF assms] after_less [OF assms(2,1)] after_total [of c o'] by force

lemma utc_inject: "valid_civil c \<Longrightarrow> valid_civil o' \<Longrightarrow> utc_of c = utc_of o' \<longleftrightarrow> c = o'"
  by (metis civil_at_utc)

end
