(* ===== verification/Cron.thy ===== *)
theory Cron
  imports Calendar
begin

text \<open>
  The cron dialect (\<^verbatim>\<open>src/internal/cron/cron.go\<close>, \<^verbatim>\<open>src/internal/cron/window.go\<close>): the parser, the search for
  the next fire over wall-clock values, the two daylight-saving rules, and the two window queries
  built on the search.

  A location is the offset from UTC in seconds as a function of the Unix second: what
  \<open>t.In(loc).Zone()\<close> and \<open>t.In(loc).Date()\<close> read from the time zone database. It is a parameter of
  every definition below (\<open>location\<close>, \<open>Gojob\<close>). An expression is a string of bytes.
\<close>

datatype cron_error = CronInvalid | CronPanic | CronNoFire

section \<open>Byte strings\<close>

text \<open>
  \<open>unicode.IsSpace\<close> on the bytes of a string: the length of the white space rune the string starts
  with, 0 when it starts with none. The lead bytes of these runes are never continuation bytes, so a
  match of the bytes is a match of the rune wherever it occurs.
\<close>

abbreviation (input) byte :: "nat \<Rightarrow> char" where "byte n \<equiv> char_of n"

definition ascii_space :: "char \<Rightarrow> bool" where
  "ascii_space c \<longleftrightarrow> c \<in> set (map byte [9, 10, 11, 12, 13, 32])"

fun space_len :: "string \<Rightarrow> nat" where
  "space_len (a # b # c # s) =
     (let x = of_char a :: nat; y = of_char b :: nat; z = of_char c :: nat in
      if ascii_space a then 1
      else if x = 194 \<and> (y = 133 \<or> y = 160) then 2
      else if x = 225 \<and> y = 154 \<and> z = 128 then 3
      else if x = 226 \<and> y = 128 \<and> (128 \<le> z \<and> z \<le> 138 \<or> z = 168 \<or> z = 169 \<or> z = 175) then 3
      else if x = 226 \<and> y = 129 \<and> z = 159 then 3
      else if x = 227 \<and> y = 128 \<and> z = 128 then 3 else 0)"
| "space_len [a, b] =
     (if ascii_space a then 1
      else if (of_char a :: nat) = 194 \<and> ((of_char b :: nat) = 133 \<or> (of_char b :: nat) = 160) then 2 else 0)"
| "space_len [a] = (if ascii_space a then 1 else 0)"
| "space_len [] = 0"

text \<open>\<open>strings.Fields\<close>: the maximal runs of bytes outside white space.\<close>

function fields_from :: "string \<Rightarrow> string \<Rightarrow> string list" where
  "fields_from cur s =
     (if s = [] then (if cur = [] then [] else [cur])
      else if space_len s = 0 then fields_from (cur @ [hd s]) (tl s)
      else (if cur = [] then [] else [cur]) @ fields_from [] (drop (space_len s) s))"
  by pat_completeness auto
termination by (relation "measure (\<lambda>(_, s). length s)") auto

declare fields_from.simps [simp del]

definition Fields :: "string \<Rightarrow> string list" where
  "Fields s = fields_from [] s"

text \<open>\<open>strings.TrimSpace\<close>.\<close>

function trim_left :: "string \<Rightarrow> string" where
  "trim_left s = (if s = [] \<or> space_len s = 0 then s else trim_left (drop (space_len s) s))"
  by pat_completeness auto
termination by (relation "measure length") auto

declare trim_left.simps [simp del]

fun trim_right :: "string \<Rightarrow> string" where
  "trim_right [] = []"
| "trim_right (c # s) = (if trim_left (c # s) = [] then [] else c # trim_right s)"

definition TrimSpace :: "string \<Rightarrow> string" where
  "TrimSpace s = trim_right (trim_left s)"

text \<open>
  \<open>strings.ToUpper\<close> as far as it can reach an ASCII letter, which is all a lookup in the two name
  tables can tell: the ASCII letters, the dotless i (196 177) and the long s (197 191).
\<close>

fun ToUpper :: "string \<Rightarrow> string" where
  "ToUpper (a # b # s) =
     (if (of_char a :: nat) = 196 \<and> (of_char b :: nat) = 177 then CHR ''I'' # ToUpper s
      else if (of_char a :: nat) = 197 \<and> (of_char b :: nat) = 191 then CHR ''S'' # ToUpper s
      else (if 97 \<le> (of_char a :: nat) \<and> (of_char a :: nat) \<le> 122 then char_of ((of_char a :: nat) - 32) else a) # ToUpper (b # s))"
| "ToUpper [a] = [if 97 \<le> (of_char a :: nat) \<and> (of_char a :: nat) \<le> 122 then char_of ((of_char a :: nat) - 32) else a]"
| "ToUpper [] = []"

text \<open>\<open>strings.Split(s, sep)\<close> for a one-byte separator.\<close>

fun split_on :: "char \<Rightarrow> string \<Rightarrow> string list" where
  "split_on sep [] = [[]]"
| "split_on sep (c # s) =
     (if c = sep then [] # split_on sep s
      else case split_on sep s of p # ps \<Rightarrow> (c # p) # ps | [] \<Rightarrow> [[c]])"

definition before_byte :: "char \<Rightarrow> string \<Rightarrow> string" where
  "before_byte b s = takeWhile (\<lambda>c. c \<noteq> b) s"

definition after_byte :: "char \<Rightarrow> string \<Rightarrow> string" where
  "after_byte b s = tl (dropWhile (\<lambda>c. c \<noteq> b) s)"

section \<open>Parsing\<close>

datatype field_idx = idxSecond | idxMinute | idxHour | idxDOM | idxMonth | idxDOW

fun fieldBounds :: "field_idx \<Rightarrow> int \<times> int" where
  "fieldBounds idxSecond = (0, 59)"
| "fieldBounds idxMinute = (0, 59)"
| "fieldBounds idxHour = (0, 23)"
| "fieldBounds idxDOM = (1, 31)"
| "fieldBounds idxMonth = (1, 12)"
| "fieldBounds idxDOW = (0, 7)"

definition monthNames :: "string \<rightharpoonup> int" where
  "monthNames = map_of [(''JAN'', 1), (''FEB'', 2), (''MAR'', 3), (''APR'', 4), (''MAY'', 5), (''JUN'', 6),
     (''JUL'', 7), (''AUG'', 8), (''SEP'', 9), (''OCT'', 10), (''NOV'', 11), (''DEC'', 12)]"

definition dayNames :: "string \<rightharpoonup> int" where
  "dayNames = map_of [(''SUN'', 0), (''MON'', 1), (''TUE'', 2), (''WED'', 3), (''THU'', 4), (''FRI'', 5), (''SAT'', 6)]"

record Expression =
  x_src :: string
  x_second :: "bool list"
  x_minute :: "bool list"
  x_hour :: "bool list"
  x_dom :: "bool list"
  x_month :: "bool list"
  x_dow :: "bool list"
  x_domRestricted :: bool
  x_dowRestricted :: bool

text \<open>\<open>atom\<close>; a nil map of names has no entries.\<close>

definition atom :: "string \<Rightarrow> field_idx \<Rightarrow> (string \<rightharpoonup> int) \<Rightarrow> cron_error + int" where
  "atom s0 idx names =
     (let s = TrimSpace s0; (lo, hi) = fieldBounds idx in
      case names (ToUpper s) of
        Some v \<Rightarrow> Inr v
      | None \<Rightarrow>
          (case parseInt s of
             None \<Rightarrow> Inl CronInvalid
           | Some v \<Rightarrow> if v < lo \<or> hi < v then Inl CronInvalid else Inr v))"

text \<open>
  The loop that sets the values of a part. \<open>v += step\<close> is a 64-bit addition and \<open>set[v]\<close> panics outside
  the slice. The guard on the operands never fails: both are 64-bit values, and a step is at least 1.
\<close>

definition in_int64 :: "int \<Rightarrow> bool" where
  "in_int64 n \<longleftrightarrow> - (2 ^ 63) \<le> n \<and> n < 2 ^ 63"

lemma int64_overflow:
  assumes "in_int64 v" "in_int64 step" "0 \<le> v" "1 \<le> step"
  shows "int64 (v + step) = v + step \<or> int64 (v + step) < 0"
proof (cases "v + step < 2 ^ 63")
  case True
  with assms show ?thesis by (simp add: int64_id)
next
  case False
  have "(word_of_int (v + step) :: 64 word) = word_of_int (v + step - 2 ^ 64)"
    by (simp only: word_of_int_eq_iff take_bit_eq_mod len_num0) (simp add: mod_diff_right_eq)
  then have "int64 (v + step) = int64 (v + step - 2 ^ 64)" by (simp only: int64_def)
  also have "\<dots> = v + step - 2 ^ 64" using assms False by (intro int64_id) (simp_all add: in_int64_def)
  finally show ?thesis using assms by (simp add: in_int64_def)
qed

function fill :: "bool list \<Rightarrow> int \<Rightarrow> int \<Rightarrow> int \<Rightarrow> cron_error + bool list" where
  "fill set' v to step =
     (if \<not> v \<le> to then Inr set'
      else if 0 \<le> v \<and> v < int (length set') \<and> in_int64 v \<and> in_int64 step \<and> 1 \<le> step
           then fill (set'[nat v := True]) (int64 (v + step)) to step
           else Inl CronPanic)"
  by pat_completeness auto
termination
proof (relation "measure (\<lambda>(set', v, _, _). if 0 \<le> v \<and> v < int (length set') then nat (int (length set') - v) else 0)")
  fix set' :: "bool list" and v to step :: int
  assume "0 \<le> v \<and> v < int (length set') \<and> in_int64 v \<and> in_int64 step \<and> 1 \<le> step"
  then show "((set'[nat v := True], int64 (v + step), to, step), (set', v, to, step))
      \<in> measure (\<lambda>(set', v, _, _). if 0 \<le> v \<and> v < int (length set') then nat (int (length set') - v) else 0)"
    using int64_overflow [of v step] by auto
qed simp

declare fill.simps [simp del]

definition part_step :: "string \<Rightarrow> cron_error + string \<times> int" where
  "part_step part =
     (if CHR ''/'' \<in> set part
      then (case parseInt (after_byte (CHR ''/'') part) of
              None \<Rightarrow> Inl CronInvalid
            | Some s \<Rightarrow> if s < 1 then Inl CronInvalid else Inr (before_byte (CHR ''/'') part, s))
      else Inr (part, 1))"

definition part_range :: "string \<Rightarrow> int \<Rightarrow> field_idx \<Rightarrow> (string \<rightharpoonup> int) \<Rightarrow> cron_error + int \<times> int" where
  "part_range part step idx names =
     (let (lo, hi) = fieldBounds idx in
      if part = ''*'' then Inr (lo, hi)
      else if CHR ''-'' \<in> set part
      then bindE (atom (before_byte (CHR ''-'') part) idx names) (\<lambda>from.
           bindE (atom (after_byte (CHR ''-'') part) idx names) (\<lambda>to.
           if to < from then Inl CronInvalid else Inr (from, to)))
      else bindE (atom part idx names) (\<lambda>v. Inr (v, if 1 < step then hi else v)))"

definition parse_part :: "field_idx \<Rightarrow> (string \<rightharpoonup> int) \<Rightarrow> string \<Rightarrow> bool list \<Rightarrow> cron_error + bool list" where
  "parse_part idx names part set' =
     (if part = [] then Inl CronInvalid
      else bindE (part_step part) (\<lambda>(body, step).
           bindE (part_range body step idx names) (\<lambda>(from, to).
           fill set' from to step)))"

fun parse_parts :: "field_idx \<Rightarrow> (string \<rightharpoonup> int) \<Rightarrow> string list \<Rightarrow> bool list \<Rightarrow> cron_error + bool list" where
  "parse_parts idx names [] set' = Inr set'"
| "parse_parts idx names (part # parts) set' = bindE (parse_part idx names part set') (parse_parts idx names parts)"

definition parseInto :: "string \<Rightarrow> field_idx \<Rightarrow> bool list \<Rightarrow> (string \<rightharpoonup> int) \<Rightarrow> cron_error + bool list" where
  "parseInto field idx set' names = parse_parts idx names (split_on (CHR '','') field) set'"

definition anySet :: "bool list \<Rightarrow> bool" where "anySet s = list_ex (\<lambda>v. v) s"

definition allSet :: "bool list \<Rightarrow> bool" where "allSet s = list_all (\<lambda>v. v) s"

text \<open>Reading a slice at an index inside it; \<open>wf_expr\<close> and \<open>valid_civil\<close> below keep every index of the search inside.\<close>

definition at :: "bool list \<Rightarrow> int \<Rightarrow> bool" where
  "at s i \<longleftrightarrow> 0 \<le> i \<and> i < int (length s) \<and> s ! nat i"

definition rejectUnsatisfiable :: "Expression \<Rightarrow> bool" where
  "rejectUnsatisfiable e =
     (if \<not> anySet (x_second e) \<or> \<not> anySet (x_minute e) \<or> \<not> anySet (x_hour e) \<or> \<not> anySet (x_month e) then True
      else if \<not> anySet (tl (x_dom e)) \<and> \<not> anySet (x_dow e) then True
      else if \<not> x_domRestricted e \<or> (x_dowRestricted e \<and> anySet (x_dow e)) then False
      else \<not> list_ex (\<lambda>m. at (x_month e) m \<and> list_ex (\<lambda>d. at (x_dom e) d) [1..daysIn m 2024]) [1..12])"

definition Parse :: "string \<Rightarrow> cron_error + Expression" where
  "Parse expr =
     (case Fields expr of
        [f0, f1, f2, f3, f4, f5] \<Rightarrow>
          if list_ex (\<lambda>f. list_ex (\<lambda>c. c \<in> set ''LW#?'') f) [f0, f1, f2, f3, f4, f5] then Inl CronInvalid
          else
            bindE (parseInto f0 idxSecond (replicate 60 False) Map.empty) (\<lambda>second.
            bindE (parseInto f1 idxMinute (replicate 60 False) Map.empty) (\<lambda>minute.
            bindE (parseInto f2 idxHour (replicate 24 False) Map.empty) (\<lambda>hour.
            bindE (parseInto f3 idxDOM (replicate 32 False) Map.empty) (\<lambda>dom.
            bindE (parseInto f4 idxMonth (replicate 13 False) monthNames) (\<lambda>month.
            bindE (parseInto f5 idxDOW (replicate 8 False) dayNames) (\<lambda>dow8.
            let dow = (if dow8 ! 7 then (take 7 dow8)[0 := True] else take 7 dow8);
                e = \<lparr>x_src = expr, x_second = second, x_minute = minute, x_hour = hour, x_dom = dom,
                     x_month = month, x_dow = dow, x_domRestricted = \<not> allSet (tl dom), x_dowRestricted = \<not> allSet dow\<rparr>
            in if rejectUnsatisfiable e then Inl CronInvalid else Inr e))))))
      | _ \<Rightarrow> Inl CronInvalid)"

definition MustParse :: "string \<Rightarrow> cron_error + Expression" where
  "MustParse expr = (case Parse expr of Inl _ \<Rightarrow> Inl CronPanic | Inr e \<Rightarrow> Inr e)"

section \<open>The calendar cursor\<close>

definition civilOf :: "location \<Rightarrow> time \<Rightarrow> civil" where
  "civilOf loc t = (let u = t div Second in civil_at (u + loc u))"

definition equalsWall :: "civil \<Rightarrow> location \<Rightarrow> time \<Rightarrow> bool" where
  "equalsWall c loc t \<longleftrightarrow> c = civilOf loc t"

definition afterWall :: "civil \<Rightarrow> location \<Rightarrow> time \<Rightarrow> bool" where
  "afterWall c loc t \<longleftrightarrow> after c (civilOf loc t)"

definition nextMonth :: "civil \<Rightarrow> civil" where
  "nextMonth c0 =
     (let c = c0\<lparr>c_sec := 0, c_min := 0, c_hour := 0, c_day := 1, c_month := c_month c0 + 1\<rparr>
      in if 12 < c_month c then c\<lparr>c_month := 1, c_year := c_year c + 1\<rparr> else c)"

definition rollDay :: "civil \<Rightarrow> civil" where
  "rollDay c0 =
     (let c = c0\<lparr>c_day := c_day c0 + 1\<rparr> in
      if daysIn (c_month c) (c_year c) < c_day c
      then (let c' = c\<lparr>c_day := 1, c_month := c_month c + 1\<rparr>
            in if 12 < c_month c' then c'\<lparr>c_month := 1, c_year := c_year c' + 1\<rparr> else c')
      else c)"

definition nextDay :: "civil \<Rightarrow> civil" where
  "nextDay c = rollDay (c\<lparr>c_sec := 0, c_min := 0, c_hour := 0\<rparr>)"

definition rollHour :: "civil \<Rightarrow> civil" where
  "rollHour c0 =
     (let c = c0\<lparr>c_hour := c_hour c0 + 1\<rparr> in if 23 < c_hour c then rollDay (c\<lparr>c_hour := 0\<rparr>) else c)"

definition nextHour :: "civil \<Rightarrow> civil" where
  "nextHour c = rollHour (c\<lparr>c_sec := 0, c_min := 0\<rparr>)"

definition rollMinute :: "civil \<Rightarrow> civil" where
  "rollMinute c0 =
     (let c = c0\<lparr>c_min := c_min c0 + 1\<rparr> in if 59 < c_min c then rollHour (c\<lparr>c_min := 0\<rparr>) else c)"

definition nextMinute :: "civil \<Rightarrow> civil" where
  "nextMinute c = rollMinute (c\<lparr>c_sec := 0\<rparr>)"

definition nextSecond :: "civil \<Rightarrow> civil" where
  "nextSecond c0 =
     (let c = c0\<lparr>c_sec := c_sec c0 + 1\<rparr> in if 59 < c_sec c then rollMinute (c\<lparr>c_sec := 0\<rparr>) else c)"

definition matchesDay :: "Expression \<Rightarrow> int \<Rightarrow> int \<Rightarrow> int \<Rightarrow> bool" where
  "matchesDay e year month day =
     (let wd = weekday (unix_date year month day 12 0 0); dom = at (x_dom e) day; dow = at (x_dow e) wd in
      if x_domRestricted e \<and> x_dowRestricted e then dom \<or> dow
      else if x_domRestricted e then dom
      else if x_dowRestricted e then dow else True)"

section \<open>Resolving a wall time\<close>

text \<open>
  \<open>gapEnd\<close> bisects Unix seconds. \<open>resolve\<close> tries the offsets a day before and a day after, keeps those
  that render back to the wall time, and takes the earliest.
\<close>

function gap_search :: "civil \<Rightarrow> location \<Rightarrow> int \<Rightarrow> int \<Rightarrow> int" where
  "gap_search c loc lo hi =
     (if 1 < hi - lo
      then (let mid = lo + (hi - lo) div 2
            in if afterWall c loc (mid * Second) then gap_search c loc mid hi else gap_search c loc lo mid)
      else hi)"
  by pat_completeness auto
termination by (relation "measure (\<lambda>(_, _, lo, hi). nat (hi - lo))") auto

declare gap_search.simps [simp del]

definition gapEnd :: "civil \<Rightarrow> location \<Rightarrow> time" where
  "gapEnd c loc = (let naive = utc_of c in gap_search c loc (naive - 48 * 3600) (naive + 48 * 3600) * Second)"

definition candidates :: "civil \<Rightarrow> location \<Rightarrow> time list" where
  "candidates c loc =
     (let naive = utc_of c; offBefore = loc (naive - 86400); offAfter = loc (naive + 86400)
      in filter (equalsWall c loc) (map (\<lambda>off. (naive - off) * Second) [offBefore, offAfter]))"

definition resolve :: "civil \<Rightarrow> location \<Rightarrow> time" where
  "resolve c loc =
     (case candidates c loc of
        [] \<Rightarrow> gapEnd c loc
      | cand # rest \<Rightarrow> fold (\<lambda>cand best. if cand < best then cand else best) rest cand)"

section \<open>Next\<close>

definition searchLimit :: duration where "searchLimit = 12 * 366 * 24 * Hour"

lemma daysIn_le: "daysIn m y \<le> 31"
proof -
  obtain y' m' d' where d: "date_of (unix_date y (m + 1) 0 0 0 0 div 86400) = (y', m', d')" by (metis prod_cases3)
  then show ?thesis
    using day_number_date_of(1) [OF d] month_len_bounds(2) [of y' m'] by (simp add: daysIn_def valid_date_def)
qed

text \<open>The loop of \<open>Next\<close>, from the cursor \<open>t\<close> up to the wall time \<open>limit\<close>.\<close>

function next_loop :: "Expression \<Rightarrow> location \<Rightarrow> time \<Rightarrow> civil \<Rightarrow> civil \<Rightarrow> cron_error + time" where
  "next_loop e loc aft limit t =
     (if after t limit then Inl CronNoFire
      else if \<not> at (x_month e) (c_month t) then next_loop e loc aft limit (nextMonth t)
      else if \<not> matchesDay e (c_year t) (c_month t) (c_day t) then next_loop e loc aft limit (nextDay t)
      else if \<not> at (x_hour e) (c_hour t) then next_loop e loc aft limit (nextHour t)
      else if \<not> at (x_minute e) (c_min t) then next_loop e loc aft limit (nextMinute t)
      else if \<not> at (x_second e) (c_sec t) then next_loop e loc aft limit (nextSecond t)
      else let got = resolve t loc in
           if aft < got then Inr got else next_loop e loc aft limit (nextSecond t))"
  by pat_completeness auto

definition cursor_order :: "(Expression \<times> location \<times> time \<times> civil \<times> civil) rel" where
  "cursor_order = measures
     [\<lambda>(_, _, _, limit, t). nat (c_year limit + 1 - c_year t), \<lambda>(_, _, _, _, t). nat (12 - c_month t),
      \<lambda>(_, _, _, _, t). nat (31 - c_day t), \<lambda>(_, _, _, _, t). nat (23 - c_hour t),
      \<lambda>(_, _, _, _, t). nat (59 - c_min t), \<lambda>(_, _, _, _, t). nat (59 - c_sec t)]"

lemma not_after_year: "\<not> after t limit \<Longrightarrow> c_year t \<le> c_year limit"
  by (auto simp: after_def split: if_splits)

lemma cursor_rollDay:
  assumes "\<not> after t limit" "c_year c = c_year t" "c_month c = c_month t" "c_day c = c_day t"
  shows "((e, loc, aft, limit, rollDay c), (e, loc, aft, limit, t)) \<in> cursor_order"
  using assms not_after_year [OF assms(1)] daysIn_le [of "c_month t" "c_year t"]
  by (auto simp: cursor_order_def rollDay_def Let_def)

lemma cursor_rollHour:
  assumes "\<not> after t limit" "c_year c = c_year t" "c_month c = c_month t" "c_day c = c_day t" "c_hour c = c_hour t"
  shows "((e, loc, aft, limit, rollHour c), (e, loc, aft, limit, t)) \<in> cursor_order"
proof (cases "23 < c_hour c + 1")
  case True
  with assms show ?thesis by (auto simp: rollHour_def Let_def intro!: cursor_rollDay)
qed (use assms in \<open>auto simp: cursor_order_def rollHour_def\<close>)

lemma cursor_rollMinute:
  assumes "\<not> after t limit" "c_year c = c_year t" "c_month c = c_month t" "c_day c = c_day t" "c_hour c = c_hour t"
    "c_min c = c_min t"
  shows "((e, loc, aft, limit, rollMinute c), (e, loc, aft, limit, t)) \<in> cursor_order"
proof (cases "59 < c_min c + 1")
  case True
  with assms show ?thesis by (auto simp: rollMinute_def Let_def intro!: cursor_rollHour)
qed (use assms in \<open>auto simp: cursor_order_def rollMinute_def\<close>)

lemma cursor_nextSecond:
  assumes "\<not> after t limit"
  shows "((e, loc, aft, limit, nextSecond t), (e, loc, aft, limit, t)) \<in> cursor_order"
proof (cases "59 < c_sec t + 1")
  case True
  with assms show ?thesis by (auto simp: nextSecond_def Let_def intro!: cursor_rollMinute)
qed (use assms in \<open>auto simp: cursor_order_def nextSecond_def\<close>)

lemma cursor_nextMonth:
  assumes "\<not> after t limit"
  shows "((e, loc, aft, limit, nextMonth t), (e, loc, aft, limit, t)) \<in> cursor_order"
  using not_after_year [OF assms] by (auto simp: cursor_order_def nextMonth_def Let_def)

termination next_loop
  by (relation cursor_order)
    (auto simp: nextDay_def nextHour_def nextMinute_def
       intro: cursor_nextMonth cursor_rollDay cursor_rollHour cursor_rollMinute cursor_nextSecond,
     simp add: cursor_order_def)

declare next_loop.simps [simp del]

definition expr_Next :: "Expression \<Rightarrow> location \<Rightarrow> time \<Rightarrow> cron_error + time" where
  "expr_Next e loc aft =
     (let start = aft + (Second - aft mod Second); limit = civilOf loc (aft + searchLimit)
      in next_loop e loc aft limit (civilOf loc start))"

section \<open>Window queries\<close>

text \<open>\<open>Time.Sub\<close> saturates at the range of a \<open>time.Duration\<close>.\<close>

definition time_sub :: "time \<Rightarrow> time \<Rightarrow> duration" where
  "time_sub t u = max (- (2 ^ 63)) (min (2 ^ 63 - 1) (t - u))"

function latest_loop :: "Expression \<Rightarrow> location \<Rightarrow> time \<Rightarrow> time \<Rightarrow> time \<Rightarrow> cron_error + time" where
  "latest_loop e loc at' lo hi =
     (if Second < time_sub hi lo
      then (let mid = lo + time_sub hi lo div 2 in
            case expr_Next e loc mid of
              Inl err \<Rightarrow> Inl err
            | Inr nxt \<Rightarrow> if at' < nxt then latest_loop e loc at' lo mid else latest_loop e loc at' mid hi)
      else Inr lo)"
  by pat_completeness auto
termination
  by (relation "measure (\<lambda>(_, _, _, lo, hi). nat (hi - lo))") (auto simp: time_sub_def)

declare latest_loop.simps [simp del]

definition expr_Latest :: "Expression \<Rightarrow> location \<Rightarrow> time \<Rightarrow> duration \<Rightarrow> cron_error + time option" where
  "expr_Latest e loc at' horizon =
     (let lo = at' - horizon - Nanosecond in
      bindE (expr_Next e loc lo) (\<lambda>first.
      if at' < first then Inr None
      else bindE (latest_loop e loc at' lo at') (\<lambda>lo'.
           bindE (expr_Next e loc lo') (\<lambda>last'. Inr (Some last')))))"

function count_loop :: "Expression \<Rightarrow> location \<Rightarrow> time \<Rightarrow> int \<Rightarrow> int \<Rightarrow> time \<Rightarrow> cron_error + int \<times> bool" where
  "count_loop e loc to limit n cur =
     (if n < limit
      then (case expr_Next e loc cur of
              Inl err \<Rightarrow> Inl err
            | Inr nxt \<Rightarrow> if to < nxt then Inr (n, True) else count_loop e loc to limit (n + 1) nxt)
      else (case expr_Next e loc cur of
              Inl err \<Rightarrow> Inl err
            | Inr nxt \<Rightarrow> Inr (n, to < nxt)))"
  by pat_completeness auto
termination by (relation "measure (\<lambda>(_, _, _, limit, n, _). nat (limit - n))") auto

declare count_loop.simps [simp del]

definition expr_CountBetween :: "Expression \<Rightarrow> location \<Rightarrow> time \<Rightarrow> time \<Rightarrow> int \<Rightarrow> cron_error + int \<times> bool" where
  "expr_CountBetween e loc from to limit = count_loop e loc to limit 0 from"

end
