(* ===== verification/Zones.thy ===== *)
theory Zones
  imports Cron
begin

text \<open>
  Time zones. \<open>Next\<close> relies on the time zone database through \<open>resolve\<close> alone. The locale \<open>zone\<close> states
  what it needs of a location: offsets of at most a day, and no two transitions within eight days of
  each other. Then a wall time resolves as the package comment promises (the only instant, the first of
  two, or the end of the gap), later wall times never resolve earlier, and the wall time of an instant
  never resolves after it.
\<close>

lemma sec_div [simp]: "n * Second div Second = n"
  by simp

lemma civilOf_seconds: "civilOf loc (u * Second) = civil_at (u + loc u)"
  by (simp add: civilOf_def Let_def del: Second_def)

lemma equalsWall_seconds: "valid_civil c \<Longrightarrow> equalsWall c loc (u * Second) \<longleftrightarrow> utc_of c = u + loc u"
  unfolding equalsWall_def civilOf_seconds by (metis civil_at_utc utc_civil_at)

lemma afterWall_seconds: "valid_civil c \<Longrightarrow> afterWall c loc (u * Second) \<longleftrightarrow> u + loc u < utc_of c"
  unfolding afterWall_def civilOf_seconds by (simp add: after_iff)

text \<open>A wall clock with one transition, at \<open>T\<close>, near the Unix second \<open>s\<close>.\<close>

definition steps_once :: "location \<Rightarrow> int \<Rightarrow> int \<Rightarrow> int \<Rightarrow> int \<Rightarrow> int \<Rightarrow> bool" where
  "steps_once loc s r T a b \<longleftrightarrow>
     \<bar>a\<bar> \<le> 86400 \<and> \<bar>b\<bar> \<le> 86400 \<and> (\<forall>u. \<bar>u - s\<bar> \<le> r \<longrightarrow> loc u = (if u < T then a else b))"

text \<open>Where a wall time \<open>n\<close> belongs: before the transition, or after it, a gap collapsing onto it.\<close>

definition placed :: "int \<Rightarrow> int \<Rightarrow> int \<Rightarrow> int \<Rightarrow> int" where
  "placed T a b n = (if n < T + a then n - a else max T (n - b))"

lemma placed_mono: "n \<le> n' \<Longrightarrow> placed T a b n \<le> placed T a b n'"
  by (auto simp: placed_def)

lemma placed_near:
  "\<bar>a\<bar> \<le> 86400 \<Longrightarrow> \<bar>b\<bar> \<le> 86400 \<Longrightarrow> n - 86400 \<le> placed T a b n \<and> placed T a b n \<le> n + 86400"
  by (auto simp: placed_def)

lemma gap_search_finds:
  assumes "valid_civil c" "lo < T" "T \<le> hi"
    and "\<And>u. lo < u \<Longrightarrow> u < hi \<Longrightarrow> u + loc u < utc_of c \<longleftrightarrow> u < T"
  shows "gap_search c loc lo hi = T"
  using assms
proof (induction c loc lo hi rule: gap_search.induct)
  case (1 c loc lo hi)
  show ?case
  proof (cases "1 < hi - lo")
    case True
    let ?mid = "lo + (hi - lo) div 2"
    have mid: "lo < ?mid" "?mid < hi" using True by auto
    have "afterWall c loc (?mid * Second) \<longleftrightarrow> ?mid < T" using 1(6) [OF mid] by (simp only: afterWall_seconds [OF 1(3)])
    moreover have "gap_search c loc ?mid hi = T" if "?mid < T"
      using 1 True mid that calculation by (intro 1(1)) (simp_all del: Second_def)
    moreover have "gap_search c loc lo ?mid = T" if "\<not> ?mid < T"
      using 1 True mid that calculation(1) by (intro 1(2)) (simp_all del: Second_def)
    ultimately show ?thesis using True by (subst gap_search.simps) (simp add: Let_def del: Second_def)
  next
    case False
    with 1 show ?thesis by (subst gap_search.simps) simp
  qed
qed

theorem resolve_placed:
  assumes "valid_civil c" "steps_once loc (utc_of c) 172800 T a b"
  shows "resolve c loc = placed T a b (utc_of c) * Second"
proof -
  note [simp del] = Second_def
  let ?n = "utc_of c"
  have ab: "\<bar>a\<bar> \<le> 86400" "\<bar>b\<bar> \<le> 86400" using assms(2) by (simp_all add: steps_once_def)
  have loc: "loc u = (if u < T then a else b)" if "\<bar>u - ?n\<bar> \<le> 172800" for u
    using assms(2) that by (simp add: steps_once_def)
  define p q where pq: "p = loc (?n - 86400)" "q = loc (?n + 86400)"
  have p: "p = (if ?n - 86400 < T then a else b)" and q: "q = (if ?n + 86400 < T then a else b)"
    unfolding pq by (simp_all add: loc)
  have eq: "equalsWall c loc ((?n - o') * Second) \<longleftrightarrow> o' = (if ?n - o' < T then a else b)" if "o' = a \<or> o' = b" for o'
  proof -
    have "loc (?n - o') = (if ?n - o' < T then a else b)" using ab that by (intro loc) auto
    then show ?thesis unfolding equalsWall_seconds [OF assms(1)] by auto
  qed
  have cands: "candidates c loc = filter (equalsWall c loc) [(?n - p) * Second, (?n - q) * Second]"
    by (simp add: candidates_def Let_def pq)
  have "?n < T + a \<Longrightarrow> p = a" "T \<le> ?n - b \<Longrightarrow> q = b" using p q ab by (auto split: if_splits)
  then consider (old) "?n < T + a" "p = a" | (new) "T + a \<le> ?n" "T \<le> ?n - b" "q = b" | (gap) "T + a \<le> ?n" "?n - b < T"
    by (meson not_le)
  then show ?thesis
  proof cases
    case old
    then have pl: "placed T a b ?n = ?n - a" by (simp add: placed_def)
    have e: "equalsWall c loc ((?n - p) * Second)" using old eq [of a] by simp
    have "\<not> (?n - q) * Second < (?n - a) * Second \<or> \<not> equalsWall c loc ((?n - q) * Second)"
    proof (cases "q = a")
      case False
      then have "q = b" using q by (simp split: if_splits)
      then show ?thesis using old False eq [of b] by (auto simp: Second_def split: if_splits)
    qed simp
    then show ?thesis using old e by (auto simp: resolve_def cands pl simp del: Second_def)
  next
    case new
    then have pl: "placed T a b ?n = ?n - b" by (simp add: placed_def)
    have e: "equalsWall c loc ((?n - q) * Second)" using new eq [of b] by simp
    have "equalsWall c loc ((?n - p) * Second) \<Longrightarrow> p = b"
      using eq [of p] p new by (auto split: if_splits)
    then show ?thesis using new e by (auto simp: resolve_def cands pl simp del: Second_def)
  next
    case gap
    then have pl: "placed T a b ?n = T" by (simp add: placed_def)
    have "\<not> equalsWall c loc ((?n - p) * Second)" "\<not> equalsWall c loc ((?n - q) * Second)"
      using eq [of p] eq [of q] p q gap by (auto split: if_splits)
    then have "resolve c loc = gapEnd c loc" by (simp add: resolve_def cands)
    also have "gap_search c loc (?n - 48 * 3600) (?n + 48 * 3600) = T"
      using gap ab by (intro gap_search_finds [OF assms(1)]) (auto simp: loc)
    then have "gapEnd c loc = T * Second" by (simp add: gapEnd_def Let_def)
    finally show ?thesis by (simp only: pl)
  qed
qed

section \<open>The contract of a location\<close>

locale zone =
  fixes loc :: location
  assumes transitions_apart: "\<exists>T a b. steps_once loc s 345600 T a b"
begin

lemma near_step:
  assumes "\<bar>n - s\<bar> \<le> 172800" "steps_once loc s 345600 T a b"
  shows "steps_once loc n 172800 T a b"
  using assms by (auto simp: steps_once_def)

lemma resolve_near:
  assumes "valid_civil c"
  shows "\<exists>u. resolve c loc = u * Second \<and> utc_of c - 86400 \<le> u \<and> u \<le> utc_of c + 86400"
proof -
  obtain T a b where s: "steps_once loc (utc_of c) 345600 T a b" using transitions_apart by blast
  have "resolve c loc = placed T a b (utc_of c) * Second" by (rule resolve_placed [OF assms near_step [OF _ s]]) simp
  moreover have "utc_of c - 86400 \<le> placed T a b (utc_of c) \<and> placed T a b (utc_of c) \<le> utc_of c + 86400"
    using s by (intro placed_near) (simp_all add: steps_once_def)
  ultimately show ?thesis by blast
qed

lemma resolve_mono:
  assumes "valid_civil c" "valid_civil d" "utc_of c \<le> utc_of d"
  shows "resolve c loc \<le> resolve d loc"
proof (cases "utc_of d - utc_of c \<le> 172800")
  case True
  obtain T a b where s: "steps_once loc (utc_of c) 345600 T a b" using transitions_apart by blast
  have "resolve c loc = placed T a b (utc_of c) * Second" by (rule resolve_placed [OF assms(1) near_step [OF _ s]]) simp
  moreover have "resolve d loc = placed T a b (utc_of d) * Second"
    using True assms(3) by (intro resolve_placed [OF assms(2) near_step [OF _ s]]) simp
  ultimately show ?thesis using placed_mono [OF assms(3)] by simp
next
  case False
  then show ?thesis using resolve_near [OF assms(1)] resolve_near [OF assms(2)] by auto
qed

lemma offset_bound: "\<bar>loc s\<bar> \<le> 86400"
proof -
  obtain T a b where "steps_once loc s 345600 T a b" using transitions_apart by blast
  then show ?thesis by (auto simp: steps_once_def)
qed

lemma resolve_renders: "resolve (civilOf loc (s * Second)) loc \<le> s * Second"
proof -
  obtain T a b where t: "steps_once loc s 345600 T a b" using transitions_apart by blast
  let ?n = "s + loc s"
  have "steps_once loc ?n 172800 T a b" using offset_bound [of s] by (intro near_step [OF _ t]) simp
  then have "resolve (civil_at ?n) loc = placed T a b ?n * Second" using resolve_placed [of "civil_at ?n" loc T a b] by simp
  moreover have "loc s = (if s < T then a else b)" using t by (simp add: steps_once_def)
  then have "placed T a b ?n \<le> s" by (auto simp: placed_def split: if_splits)
  ultimately show ?thesis unfolding civilOf_seconds by simp
qed

text \<open>The two daylight-saving rules: the first occurrence, or the end of the gap.\<close>

lemma resolve_dst:
  assumes "valid_civil c"
  shows "\<exists>u. resolve c loc = u * Second \<and>
    (if \<exists>v. v + loc v = utc_of c then u + loc u = utc_of c \<and> (\<forall>v < u. v + loc v \<noteq> utc_of c)
     else utc_of c < u + loc u \<and> (\<forall>v < u. v + loc v < utc_of c))"
proof -
  note [simp del] = Second_def
  define n where "n = utc_of c"
  obtain T a b where s: "steps_once loc n 345600 T a b" using transitions_apart by blast
  have ab: "\<bar>a\<bar> \<le> 86400" "\<bar>b\<bar> \<le> 86400" using s by (simp_all add: steps_once_def)
  have near: "loc v = (if v < T then a else b)" if "n - 345600 \<le> v" "v \<le> n + 345600" for v
    using s that by (simp add: steps_once_def)
  have far: "v + loc v < n" if "v < n - 345600" for v using offset_bound [of v] that by linarith
  have hit: "loc v = (if v < T then a else b)" if "v + loc v = n" for v
    using offset_bound [of v] that by (intro near) linarith+
  define u where "u = placed T a b n"
  have u: "n - 86400 \<le> u" "u \<le> n + 86400" using placed_near [OF ab, of n T] by (simp_all add: u_def)
  have lu: "loc u = (if u < T then a else b)" using u by (intro near) simp_all
  have r: "resolve c loc = u * Second"
    unfolding u_def n_def by (rule resolve_placed [OF assms near_step]) (use s in \<open>simp_all add: n_def\<close>)
  consider (old) "n < T + a" | (new) "T + a \<le> n" "T \<le> n - b" | (gap) "T + a \<le> n" "n - b < T" by linarith
  then show ?thesis
  proof cases
    case old
    then have "u = n - a" "u + loc u = n" using lu by (simp_all add: u_def placed_def)
    moreover have "\<exists>v. v + loc v = n" using calculation(2) ..
    moreover have "v + loc v \<noteq> n" if "v < u" for v using that old hit [of v] calculation(1) by auto
    ultimately show ?thesis using r by (intro exI [of _ u]) (auto simp: n_def)
  next
    case new
    then have "u = n - b" "u + loc u = n" using lu by (simp_all add: u_def placed_def)
    moreover have "\<exists>v. v + loc v = n" using calculation(2) ..
    moreover have "v + loc v \<noteq> n" if "v < u" for v using that new hit [of v] calculation(1) by (auto split: if_splits)
    ultimately show ?thesis using r by (intro exI [of _ u]) (auto simp: n_def)
  next
    case gap
    then have uT: "u = T" "n < u + loc u" using lu by (simp_all add: u_def placed_def)
    have "v + loc v < n" if "v < u" for v
    proof (cases "v < n - 345600")
      case False
      then have "loc v = a" using near [of v] that uT(1) u by simp
      then show ?thesis using that gap(1) uT(1) by simp
    qed (rule far)
    moreover have "v + loc v \<noteq> n" for v using hit [of v] gap by (auto split: if_splits)
    ultimately show ?thesis using r uT by (intro exI [of _ u]) (auto simp: n_def)
  qed
qed

end

text \<open>Two locations: a fixed offset, and one that moves from an offset to another at an instant.\<close>

definition fixed_zone :: "int \<Rightarrow> location" where
  "fixed_zone off = (\<lambda>_. off)"

definition moving_zone :: "int \<Rightarrow> int \<Rightarrow> int \<Rightarrow> location" where
  "moving_zone T a b = (\<lambda>u. if u < T then a else b)"

lemma zone_moving: "\<bar>a\<bar> \<le> 86400 \<Longrightarrow> \<bar>b\<bar> \<le> 86400 \<Longrightarrow> zone (moving_zone T a b)"
  by unfold_locales (auto simp: steps_once_def moving_zone_def)

lemma zone_fixed: "\<bar>off\<bar> \<le> 86400 \<Longrightarrow> zone (fixed_zone off)"
  using zone_moving [of off off 0] by (simp add: moving_zone_def fixed_zone_def)

end
