(* ===== verification/CronCorrect.thy ===== *)
theory CronCorrect
  imports Zones
begin

text \<open>
  What the search of \<^verbatim>\<open>src/internal/cron\<close> computes. The cursor moves over valid wall times, no wall time it
  skips matches, and so \<open>Next\<close> returns the resolution of the first matching wall time that resolves after
  its argument. Under a fixed offset that is the least fire instant, which makes the bisection of \<open>Latest\<close>
  and the count of \<open>CountBetween\<close> exact; and an expression that \<open>Parse\<close> accepts always has one within the
  search limit.
\<close>

section \<open>The cursor\<close>

definition matches :: "Expression \<Rightarrow> civil \<Rightarrow> bool" where
  "matches e c \<longleftrightarrow>
     at (x_month e) (c_month c) \<and> matchesDay e (c_year c) (c_month c) (c_day c) \<and>
     at (x_hour e) (c_hour c) \<and> at (x_minute e) (c_min c) \<and> at (x_second e) (c_sec c)"

lemmas cursor_defs = nextMonth_def nextDay_def nextHour_def nextMinute_def nextSecond_def Let_def

lemma valid_civil_clock:
  "valid_date (c_year c) (c_month c) (c_day c) \<Longrightarrow> 0 \<le> c_hour c \<and> c_hour c \<le> 23 \<Longrightarrow>
   0 \<le> c_min c \<and> c_min c \<le> 59 \<Longrightarrow> 0 \<le> c_sec c \<and> c_sec c \<le> 59 \<Longrightarrow> valid_civil c"
  by (simp add: valid_civil_def)

lemma valid_nextMonth: "valid_civil c \<Longrightarrow> valid_civil (nextMonth c)"
  using month_len_bounds(1) [of "c_year c" "c_month c + 1"]
  by (auto simp: cursor_defs valid_civil_def valid_date_def month_len_def)

lemma valid_rollDay: "valid_civil c \<Longrightarrow> valid_civil (rollDay c)"
  using month_len_bounds(1) [of "c_year c" "c_month c + 1"] daysIn_eq [of "c_month c" "c_year c"]
  by (auto simp: rollDay_def Let_def valid_civil_def valid_date_def month_len_def)

lemma valid_rollHour: "valid_civil c \<Longrightarrow> valid_civil (rollHour c)"
  using valid_rollDay [of "c\<lparr>c_hour := 0\<rparr>"] by (auto simp: rollHour_def Let_def valid_civil_def)

lemma valid_rollMinute: "valid_civil c \<Longrightarrow> valid_civil (rollMinute c)"
  using valid_rollHour [of "c\<lparr>c_min := 0\<rparr>"] by (auto simp: rollMinute_def Let_def valid_civil_def)

lemma valid_next:
  assumes "valid_civil c"
  shows "valid_civil (nextDay c)" "valid_civil (nextHour c)" "valid_civil (nextMinute c)" "valid_civil (nextSecond c)"
proof -
  have z: "valid_civil (c\<lparr>c_sec := 0, c_min := 0, c_hour := 0\<rparr>)" "valid_civil (c\<lparr>c_sec := 0, c_min := 0\<rparr>)" "valid_civil (c\<lparr>c_sec := 0\<rparr>)"
    using assms by (simp_all add: valid_civil_def)
  show "valid_civil (nextDay c)" "valid_civil (nextHour c)" "valid_civil (nextMinute c)"
    using valid_rollDay [OF z(1)] valid_rollHour [OF z(2)] valid_rollMinute [OF z(3)] by (simp_all add: cursor_defs)
  show "valid_civil (nextSecond c)"
    using valid_rollMinute [OF z(3)] assms by (auto simp: nextSecond_def Let_def valid_civil_def)
qed

text \<open>The wall times from the cursor up to the value it moves to share the field that ruled them out.\<close>

lemma skip_month:
  assumes "valid_civil w" "\<not> after t w" "after (nextMonth t) w"
  shows "c_year w = c_year t \<and> c_month w = c_month t"
  using assms by (auto simp: after_def cursor_defs valid_civil_def valid_date_def split: if_splits)

lemma skip_day:
  assumes "valid_civil t" "valid_civil w" "\<not> after t w" "after (nextDay t) w"
  shows "c_year w = c_year t \<and> c_month w = c_month t \<and> c_day w = c_day t"
  using assms daysIn_eq [of "c_month t" "c_year t"]
  by (auto simp: after_def cursor_defs rollDay_def valid_civil_def valid_date_def split: if_splits)

lemma rollDay_fields: "c_hour (rollDay c) = c_hour c \<and> c_min (rollDay c) = c_min c \<and> c_sec (rollDay c) = c_sec c"
  by (simp add: rollDay_def Let_def)

lemma skip_hour:
  assumes "valid_civil t" "valid_civil w" "\<not> after t w" "after (nextHour t) w"
  shows "c_year w = c_year t \<and> c_month w = c_month t \<and> c_day w = c_day t \<and> c_hour w = c_hour t"
proof (cases "c_hour t = 23")
  case True
  then have "nextHour t = nextDay t" using assms(1) by (simp add: nextHour_def rollHour_def nextDay_def)
  then show ?thesis using skip_day [OF assms(1-3)] assms True by (auto simp: after_def valid_civil_def split: if_splits)
next
  case False
  then show ?thesis using assms by (auto simp: after_def nextHour_def rollHour_def valid_civil_def split: if_splits)
qed

lemma skip_minute:
  assumes "valid_civil t" "valid_civil w" "\<not> after t w" "after (nextMinute t) w"
  shows "c_year w = c_year t \<and> c_month w = c_month t \<and> c_day w = c_day t \<and> c_hour w = c_hour t \<and> c_min w = c_min t"
proof (cases "c_min t = 59")
  case True
  then have "nextMinute t = nextHour t" using assms(1) by (simp add: nextMinute_def rollMinute_def nextHour_def)
  then show ?thesis using skip_hour [OF assms(1-3)] assms True by (auto simp: after_def valid_civil_def split: if_splits)
next
  case False
  then show ?thesis using assms by (auto simp: after_def nextMinute_def rollMinute_def valid_civil_def split: if_splits)
qed

lemma skip_second:
  assumes "valid_civil t" "valid_civil w" "\<not> after t w" "after (nextSecond t) w"
  shows "w = t"
proof (cases "c_sec t = 59")
  case True
  then have "nextSecond t = nextMinute t" using assms(1) by (simp add: nextSecond_def nextMinute_def)
  then show ?thesis using skip_minute [OF assms(1-3)] assms True by (auto simp: after_def valid_civil_def split: if_splits)
next
  case False
  then show ?thesis using assms by (auto simp: after_def nextSecond_def valid_civil_def split: if_splits)
qed

lemma after_nextMonth: "after (nextMonth t) t"
  by (auto simp: after_def cursor_defs)

lemma after_rollDay:
  assumes "valid_civil c" "c_year c = c_year t" "c_month c = c_month t" "c_day c = c_day t"
  shows "after (rollDay c) t"
  using assms by (auto simp: after_def rollDay_def Let_def)

lemma after_rollHour:
  assumes "valid_civil c" "c_year c = c_year t" "c_month c = c_month t" "c_day c = c_day t" "c_hour c = c_hour t"
  shows "after (rollHour c) t"
  using assms after_rollDay [of "c\<lparr>c_hour := 0\<rparr>" t] by (auto simp: after_def rollHour_def Let_def valid_civil_def)

lemma after_rollMinute:
  assumes "valid_civil c" "c_year c = c_year t" "c_month c = c_month t" "c_day c = c_day t" "c_hour c = c_hour t" "c_min c = c_min t"
  shows "after (rollMinute c) t"
  using assms after_rollHour [of "c\<lparr>c_min := 0\<rparr>" t] by (auto simp: after_def rollMinute_def Let_def valid_civil_def)

lemma after_next:
  assumes "valid_civil t"
  shows "after (nextDay t) t" "after (nextHour t) t" "after (nextMinute t) t" "after (nextSecond t) t"
proof -
  have z: "valid_civil (t\<lparr>c_sec := 0, c_min := 0, c_hour := 0\<rparr>)" "valid_civil (t\<lparr>c_sec := 0, c_min := 0\<rparr>)" "valid_civil (t\<lparr>c_sec := 0\<rparr>)"
    using assms by (simp_all add: valid_civil_def)
  show "after (nextDay t) t" "after (nextHour t) t" "after (nextMinute t) t"
    using after_rollDay [OF z(1)] after_rollHour [OF z(2)] after_rollMinute [OF z(3)] by (simp_all add: cursor_defs)
  show "after (nextSecond t) t"
    using after_rollMinute [OF z(3)] by (auto simp: nextSecond_def Let_def after_def)
qed

section \<open>The search\<close>

text \<open>A wall time is eligible when it matches and resolves after the instant the search started from.\<close>

definition eligible :: "Expression \<Rightarrow> location \<Rightarrow> time \<Rightarrow> civil \<Rightarrow> bool" where
  "eligible e loc aft w \<longleftrightarrow> valid_civil w \<and> matches e w \<and> aft < resolve w loc"

definition first_eligible :: "Expression \<Rightarrow> location \<Rightarrow> time \<Rightarrow> civil \<Rightarrow> civil \<Rightarrow> bool" where
  "first_eligible e loc aft t w \<longleftrightarrow>
     eligible e loc aft w \<and> utc_of t \<le> utc_of w \<and> (\<forall>w'. eligible e loc aft w' \<longrightarrow> utc_of t \<le> utc_of w' \<longrightarrow> utc_of w \<le> utc_of w')"

text \<open>The outcome of the loop at a cursor.\<close>

definition search_outcome :: "Expression \<Rightarrow> location \<Rightarrow> time \<Rightarrow> civil \<Rightarrow> civil \<Rightarrow> cron_error + time \<Rightarrow> bool" where
  "search_outcome e loc aft limit t r \<longleftrightarrow>
     (case r of
        Inr got \<Rightarrow> \<exists>w. first_eligible e loc aft t w \<and> utc_of w \<le> utc_of limit \<and> got = resolve w loc
      | Inl err \<Rightarrow> err = CronNoFire \<and> (\<forall>w. eligible e loc aft w \<longrightarrow> utc_of t \<le> utc_of w \<longrightarrow> utc_of limit < utc_of w))"

lemma search_outcome_skip:
  assumes "valid_civil t" "valid_civil u" "after u t"
    and "\<And>w. valid_civil w \<Longrightarrow> \<not> after t w \<Longrightarrow> after u w \<Longrightarrow> \<not> eligible e loc aft w"
    and "search_outcome e loc aft limit u r"
  shows "search_outcome e loc aft limit t r"
proof -
  have tu: "utc_of t < utc_of u" using assms(1-3) by (simp add: after_iff)
  have skip: "utc_of u \<le> utc_of w" if "eligible e loc aft w" "utc_of t \<le> utc_of w" for w
    using assms(4) [of w] that by (force simp: after_iff assms(1,2) eligible_def)
  show ?thesis
  proof (cases r)
    case (Inl err)
    then show ?thesis using assms(5) skip by (auto simp: search_outcome_def)
  next
    case (Inr got)
    then obtain w where w: "first_eligible e loc aft u w" "utc_of w \<le> utc_of limit" "got = resolve w loc"
      using assms(5) by (auto simp: search_outcome_def)
    then have "first_eligible e loc aft t w" using tu skip unfolding first_eligible_def by (meson less_imp_le order_trans)
    with w Inr show ?thesis by (auto simp: search_outcome_def)
  qed
qed

theorem next_loop_outcome:
  "valid_civil t \<Longrightarrow> valid_civil limit \<Longrightarrow> search_outcome e loc aft limit t (next_loop e loc aft limit t)"
proof (induction e loc aft limit t rule: next_loop.induct)
  case (1 e loc aft limit t)
  note v = \<open>valid_civil t\<close> and vl = \<open>valid_civil limit\<close>
  let ?r = "next_loop e loc aft limit"
  consider (past) "after t limit"
    | (month) "\<not> after t limit" "\<not> at (x_month e) (c_month t)"
    | (day) "\<not> after t limit" "at (x_month e) (c_month t)" "\<not> matchesDay e (c_year t) (c_month t) (c_day t)"
    | (hour) "\<not> after t limit" "at (x_month e) (c_month t)" "matchesDay e (c_year t) (c_month t) (c_day t)" "\<not> at (x_hour e) (c_hour t)"
    | (minute) "\<not> after t limit" "at (x_month e) (c_month t)" "matchesDay e (c_year t) (c_month t) (c_day t)" "at (x_hour e) (c_hour t)"
        "\<not> at (x_minute e) (c_min t)"
    | (second) "\<not> after t limit" "at (x_month e) (c_month t)" "matchesDay e (c_year t) (c_month t) (c_day t)" "at (x_hour e) (c_hour t)"
        "at (x_minute e) (c_min t)" "\<not> at (x_second e) (c_sec t)"
    | (late) "\<not> after t limit" "matches e t" "\<not> aft < resolve t loc"
    | (found) "\<not> after t limit" "matches e t" "aft < resolve t loc"
    by (auto simp: matches_def)
  then show ?case
  proof cases
    case past
    then have "utc_of limit < utc_of t" by (simp add: after_iff v vl)
    with past show ?thesis by (subst next_loop.simps) (auto simp: search_outcome_def)
  next
    case month
    have "search_outcome e loc aft limit t (?r (nextMonth t))"
      using month by (intro search_outcome_skip [OF v valid_nextMonth [OF v] after_nextMonth _ "1.IH"(1)])
        (auto simp: valid_nextMonth v vl eligible_def matches_def dest: skip_month)
    with month show ?thesis by (subst next_loop.simps) simp
  next
    case day
    have "search_outcome e loc aft limit t (?r (nextDay t))"
      using day by (intro search_outcome_skip [OF v valid_next(1) [OF v] after_next(1) [OF v] _ "1.IH"(2)])
        (auto simp: valid_next v vl eligible_def matches_def dest: skip_day [OF v])
    with day show ?thesis by (subst next_loop.simps) simp
  next
    case hour
    have "search_outcome e loc aft limit t (?r (nextHour t))"
      using hour by (intro search_outcome_skip [OF v valid_next(2) [OF v] after_next(2) [OF v] _ "1.IH"(3)])
        (auto simp: valid_next v vl eligible_def matches_def dest: skip_hour [OF v])
    with hour show ?thesis by (subst next_loop.simps) simp
  next
    case minute
    have "search_outcome e loc aft limit t (?r (nextMinute t))"
      using minute by (intro search_outcome_skip [OF v valid_next(3) [OF v] after_next(3) [OF v] _ "1.IH"(4)])
        (auto simp: valid_next v vl eligible_def matches_def dest: skip_minute [OF v])
    with minute show ?thesis by (subst next_loop.simps) simp
  next
    case second
    have "search_outcome e loc aft limit t (?r (nextSecond t))"
      using second by (intro search_outcome_skip [OF v valid_next(4) [OF v] after_next(4) [OF v] _ "1.IH"(5)])
        (auto simp: valid_next v vl eligible_def matches_def dest: skip_second [OF v])
    with second show ?thesis by (subst next_loop.simps) simp
  next
    case late
    have "search_outcome e loc aft limit t (?r (nextSecond t))"
      using late by (intro search_outcome_skip [OF v valid_next(4) [OF v] after_next(4) [OF v] _ "1.IH"(6)])
        (auto simp: valid_next v vl eligible_def matches_def dest: skip_second [OF v])
    with late show ?thesis by (subst next_loop.simps) (simp add: matches_def)
  next
    case found
    then have "first_eligible e loc aft t t" "utc_of t \<le> utc_of limit"
      using v vl by (auto simp: first_eligible_def eligible_def after_iff not_less)
    with found show ?thesis by (subst next_loop.simps) (auto simp: search_outcome_def matches_def)
  qed
qed

section \<open>Fire instants\<close>

text \<open>
  The fire instants of an expression are the resolutions of the wall times it matches. One is hidden
  when the wall clock shows a non-matching time at it: the end of a gap that swallowed the match.
\<close>

definition fires :: "Expression \<Rightarrow> location \<Rightarrow> time \<Rightarrow> bool" where
  "fires e loc f \<longleftrightarrow> (\<exists>w. valid_civil w \<and> matches e w \<and> f = resolve w loc)"

definition hidden :: "Expression \<Rightarrow> location \<Rightarrow> time \<Rightarrow> bool" where
  "hidden e loc f \<longleftrightarrow> fires e loc f \<and> \<not> matches e (civilOf loc f)"

definition start_of :: "time \<Rightarrow> time" where
  "start_of aft = (aft div Second + 1) * Second"

lemma start_eq: "aft + (Second - aft mod Second) = start_of aft"
  using div_mult_mod_eq [of aft Second] unfolding start_of_def by (simp only: distrib_right mult_1_left)

lemma start_bounds: "aft < start_of aft" "start_of aft \<le> aft + Second"
  using div_mult_mod_eq [of aft Second] pos_mod_bound [of Second aft] pos_mod_sign [of Second aft]
  unfolding start_of_def by (simp_all only: distrib_right mult_1_left) auto

lemma whole_after:
  assumes "aft < f" "f = u * Second"
  shows "start_of aft \<le> f"
proof -
  define q where "q = aft div Second"
  have "Second * q \<le> aft" unfolding q_def by (rule div_bounds) simp
  then have "q < u" using assms by simp
  then show ?thesis unfolding start_of_def q_def [symmetric] assms(2) by simp
qed

lemma expr_Next_outcome:
  "search_outcome e loc aft (civilOf loc (aft + searchLimit)) (civilOf loc (start_of aft)) (expr_Next e loc aft)"
proof -
  have "expr_Next e loc aft = next_loop e loc aft (civilOf loc (aft + searchLimit)) (civilOf loc (start_of aft))"
    unfolding expr_Next_def Let_def start_eq ..
  then show ?thesis by (simp add: next_loop_outcome civilOf_def Let_def del: Second_def)
qed

lemma expr_Next_Inr:
  assumes "expr_Next e loc aft = Inr n"
  obtains w where "first_eligible e loc aft (civilOf loc (start_of aft)) w" "n = resolve w loc"
  using expr_Next_outcome [of e loc aft] assms by (auto simp: search_outcome_def)

lemma expr_Next_later: "expr_Next e loc aft = Inr n \<Longrightarrow> aft < n \<and> fires e loc n"
  by (erule expr_Next_Inr) (auto simp: first_eligible_def eligible_def fires_def)

lemma expr_Next_Inl: "expr_Next e loc aft = Inl err \<Longrightarrow> err = CronNoFire"
  using expr_Next_outcome [of e loc aft] by (simp add: search_outcome_def)

context zone
begin

lemma fires_whole: "fires e loc f \<Longrightarrow> \<exists>u. f = u * Second"
  using resolve_near by (auto simp: fires_def)

text \<open>Only a fire that is hidden, and due within the second, can be passed over.\<close>

lemma next_skips:
  assumes "expr_Next e loc aft = Inr n" "fires e loc f" "aft < f" "f < n"
  shows "hidden e loc f \<and> f = start_of aft"
proof -
  let ?s = "start_of aft"
  obtain w where w: "first_eligible e loc aft (civilOf loc ?s) w" "n = resolve w loc" using expr_Next_Inr [OF assms(1)] .
  obtain w' where w': "valid_civil w'" "matches e w'" "f = resolve w' loc" using assms(2) by (auto simp: fires_def)
  have el: "eligible e loc aft w'" using w' assms(3) by (simp add: eligible_def)
  have vs: "valid_civil (civilOf loc ?s)" by (simp add: civilOf_def Let_def)
  have least: "n \<le> resolve v loc" if "eligible e loc aft v" "utc_of (civilOf loc ?s) \<le> utc_of v" for v
    using w that resolve_mono [of w v] by (auto simp: first_eligible_def eligible_def)
  have "\<not> utc_of (civilOf loc ?s) \<le> utc_of w'" using least [OF el] assms(4) w'(3) by auto
  then have "f \<le> resolve (civilOf loc ?s) loc" using resolve_mono [OF w'(1) vs] w'(3) by simp
  moreover have rs: "resolve (civilOf loc ?s) loc \<le> ?s" using resolve_renders unfolding start_of_def .
  moreover have "?s \<le> f" using assms(2,3) fires_whole whole_after by blast
  ultimately have fs: "f = ?s" "resolve (civilOf loc ?s) loc = ?s" by simp_all
  have "\<not> matches e (civilOf loc f)"
  proof
    assume "matches e (civilOf loc f)"
    then have "eligible e loc aft (civilOf loc ?s)" using fs vs assms(3) by (simp add: eligible_def)
    then show False using least [of "civilOf loc ?s"] fs assms(4) by simp
  qed
  with assms(2) fs(1) show ?thesis by (simp add: hidden_def)
qed

text \<open>And such a fire is passed over: the cursor starts behind the wall times of the gap.\<close>

lemma next_passes_hidden:
  assumes "hidden e loc f" "f - Second \<le> aft" "aft < f" "expr_Next e loc aft = Inr n"
  shows "f < n"
proof (rule ccontr)
  assume "\<not> f < n"
  obtain u where u: "f = u * Second" using assms(1) fires_whole by (auto simp: hidden_def)
  have s: "start_of aft = f"
  proof -
    define q where "q = aft div Second + 1"
    have "q * Second \<le> u * Second" "(u - 1) * Second < q * Second"
      using whole_after [OF assms(3) u] start_bounds(1) [of aft] assms(2) u by (auto simp: start_of_def q_def)
    then have "q = u" by (simp del: Second_def add: mult_le_cancel_right mult_less_cancel_right) simp
    then show ?thesis by (simp add: start_of_def q_def u)
  qed
  obtain w where w: "first_eligible e loc aft (civilOf loc f) w" "n = resolve w loc" using expr_Next_Inr [OF assms(4)] unfolding s .
  then have m: "valid_civil w" "matches e w" "aft < resolve w loc" "u + loc u \<le> utc_of w"
    by (auto simp: first_eligible_def eligible_def u civilOf_seconds simp del: Second_def)
  obtain v where v: "resolve w loc = v * Second" using resolve_near [OF m(1)] by blast
  have "f \<le> n" using whole_after [OF m(3) v] w(2) s by simp
  then have "v = u" using \<open>\<not> f < n\<close> w(2) v u by simp
  then have "utc_of w \<le> u + loc u" using resolve_dst [OF m(1)] v by (auto split: if_splits)
  then have "utc_of w = u + loc u" using m(4) by simp
  then have "w = civilOf loc f" using m(1) utc_inject [of w "civilOf loc f"] unfolding u civilOf_seconds by simp
  then show False using m(2) assms(1) by (simp add: hidden_def)
qed

lemma next_mono:
  assumes "expr_Next e loc t = Inr n" "t \<le> u" "expr_Next e loc u = Inr m"
  shows "n \<le> m"
proof (rule ccontr)
  assume "\<not> n \<le> m"
  then have m: "fires e loc m" "t < m" "m < n" "u < m" using assms expr_Next_later [OF assms(3)] by auto
  then have s: "m = start_of t" using next_skips [OF assms(1)] by blast
  have "start_of u \<le> m" using m fires_whole whole_after by blast
  with s have "t div Second = u div Second"
    using zdiv_mono1 [OF assms(2), of Second] by (simp add: start_of_def)
  then have "start_of t = start_of u" by (simp add: start_of_def del: Second_def)
  moreover have "eligible e loc t w \<longleftrightarrow> eligible e loc u w" for w
    using resolve_near [of w] whole_after [of t "resolve w loc"] start_bounds(1) [of u] assms(2) \<open>start_of t = start_of u\<close>
    by (fastforce simp: eligible_def)
  ultimately have "first_eligible e loc t (civilOf loc (start_of t)) = first_eligible e loc u (civilOf loc (start_of u))"
    by (intro ext) (simp add: first_eligible_def)
  moreover obtain w where "first_eligible e loc t (civilOf loc (start_of t)) w" "n = resolve w loc" using expr_Next_Inr [OF assms(1)] .
  moreover obtain w' where "first_eligible e loc u (civilOf loc (start_of u)) w'" "m = resolve w' loc" using expr_Next_Inr [OF assms(3)] .
  ultimately have "first_eligible e loc u (civilOf loc (start_of u)) w" "first_eligible e loc u (civilOf loc (start_of u)) w'" by simp_all
  then have "utc_of w = utc_of w'" "valid_civil w" "valid_civil w'" by (auto simp: first_eligible_def eligible_def intro: antisym)
  then have "w = w'" by (simp add: utc_inject)
  with \<open>n = resolve w loc\<close> \<open>m = resolve w' loc\<close> m show False by simp
qed

end

section \<open>The windows\<close>

text \<open>What the bisection of \<open>Latest\<close> keeps of its two ends.\<close>

lemma latest_loop_ends:
  assumes "latest_loop e loc at' lo hi = Inr lo'" "lo \<le> hi"
  shows "lo \<le> lo' \<and> (lo' = lo \<or> (\<exists>m. expr_Next e loc lo' = Inr m \<and> m \<le> at')) \<and>
    (\<exists>hi'. hi' \<le> lo' + Second \<and> (hi' = hi \<or> (\<exists>m. expr_Next e loc hi' = Inr m \<and> at' < m)))"
  using assms
proof (induction e loc at' lo hi rule: latest_loop.induct)
  case (1 e loc at' lo hi)
  let ?mid = "lo + time_sub hi lo div 2"
  show ?case
  proof (cases "Second < time_sub hi lo")
    case True
    then have mid: "lo \<le> ?mid" "?mid \<le> hi" by (simp_all add: time_sub_def)
    obtain nxt where n: "expr_Next e loc ?mid = Inr nxt"
      using True 1(3) by (subst (asm) latest_loop.simps) (auto simp: Let_def split: sum.splits)
    have "latest_loop e loc at' lo ?mid = Inr lo'" if "at' < nxt"
      using True 1(3) n that by (subst (asm) latest_loop.simps) (simp add: Let_def)
    moreover have "latest_loop e loc at' ?mid hi = Inr lo'" if "\<not> at' < nxt"
      using True 1(3) n that by (subst (asm) latest_loop.simps) (simp add: Let_def)
    ultimately show ?thesis
      using 1(1) [OF True refl n] 1(2) [OF True refl n] n mid by (cases "at' < nxt") force+
  next
    case False
    then have "lo' = lo" using 1(3) by (subst (asm) latest_loop.simps) simp
    moreover have "hi \<le> lo + Second" using False by (simp add: time_sub_def)
    ultimately show ?thesis by auto
  qed
qed

lemma expr_Latest_Some:
  assumes "expr_Latest e loc at' h = Inr (Some f)"
  obtains lo' hi' where "at' - h \<le> lo' + 1" "expr_Next e loc lo' = Inr f" "f \<le> at'" "hi' \<le> lo' + Second"
    "hi' = at' \<or> (\<exists>m. expr_Next e loc hi' = Inr m \<and> at' < m)"
proof -
  let ?lo = "at' - h - Nanosecond"
  obtain first lo' where lo: "expr_Next e loc ?lo = Inr first" "first \<le> at'" "latest_loop e loc at' ?lo at' = Inr lo'"
    "expr_Next e loc lo' = Inr f"
    using assms by (auto simp: expr_Latest_def Let_def split: if_splits)
  have "?lo \<le> at'" using expr_Next_later [OF lo(1)] lo(2) by simp
  note ends = latest_loop_ends [OF lo(3) this]
  then obtain hi' where hi: "hi' \<le> lo' + Second" "hi' = at' \<or> (\<exists>m. expr_Next e loc hi' = Inr m \<and> at' < m)" by blast
  show thesis using ends lo by (intro that [OF _ lo(4) _ hi]) auto
qed

lemma expr_Latest_None:
  assumes "expr_Latest e loc at' h = Inr None"
  obtains n where "expr_Next e loc (at' - h - 1) = Inr n" "at' < n"
  using assms by (auto simp: expr_Latest_def Let_def split: if_splits)

context zone
begin

lemma whole_gap:
  assumes "fires e loc f" "fires e loc g" "f < g"
  shows "f + Second \<le> g"
  using fires_whole [OF assms(1)] fires_whole [OF assms(2)] assms(3) by auto

lemma latest_some:
  assumes "expr_Latest e loc at' h = Inr (Some f)"
  shows "fires e loc f" "at' - h \<le> f" "f \<le> at'" "fires e loc g \<Longrightarrow> f < g \<Longrightarrow> g \<le> at' \<Longrightarrow> hidden e loc g"
proof -
  obtain lo' hi' where lo: "at' - h \<le> lo' + 1" "expr_Next e loc lo' = Inr f" "f \<le> at'" "hi' \<le> lo' + Second"
    "hi' = at' \<or> (\<exists>m. expr_Next e loc hi' = Inr m \<and> at' < m)" using expr_Latest_Some [OF assms] .
  show f: "fires e loc f" "at' - h \<le> f" "f \<le> at'" using lo expr_Next_later [OF lo(2)] by auto
  assume g: "fires e loc g" "f < g" "g \<le> at'"
  have "hi' < g" using whole_gap [OF f(1) g(1,2)] lo(4) expr_Next_later [OF lo(2)] by simp
  then show "hidden e loc g" using lo(5) g next_skips [of e hi' _ g] by auto
qed

lemma latest_none:
  assumes "expr_Latest e loc at' h = Inr None" "fires e loc g" "at' - h \<le> g" "g \<le> at'"
  shows "hidden e loc g"
proof -
  obtain n where "expr_Next e loc (at' - h - 1) = Inr n" "at' < n" using expr_Latest_None [OF assms(1)] .
  then show ?thesis using assms next_skips [of e "at' - h - 1" n g] by auto
qed

lemma next_splits_window:
  assumes "expr_Next e loc cur = Inr nxt" "nxt \<le> to" "\<And>g. fires e loc g \<Longrightarrow> cur < g \<Longrightarrow> g \<le> to \<Longrightarrow> \<not> hidden e loc g"
  shows "{g. fires e loc g \<and> cur < g \<and> g \<le> to} = insert nxt {g. fires e loc g \<and> nxt < g \<and> g \<le> to}"
  using assms(2,3) expr_Next_later [OF assms(1)] next_skips [OF assms(1)]
  by (auto simp: not_less) (metis linorder_neqE order.trans less_imp_le)

lemma window_finite: "finite {g. fires e loc g \<and> cur < g \<and> g \<le> to}"
  by (rule finite_subset [of _ "{cur..to}"]) auto

lemma window_empty:
  assumes "expr_Next e loc cur = Inr nxt" "to < nxt" "\<And>g. fires e loc g \<Longrightarrow> cur < g \<Longrightarrow> g \<le> to \<Longrightarrow> \<not> hidden e loc g"
  shows "{g. fires e loc g \<and> cur < g \<and> g \<le> to} = {}"
  using assms next_skips [OF assms(1)] by force

lemma count_loop_counts:
  assumes "count_loop e loc to limit n cur = Inr (k, exact)" "n \<le> limit"
    and "\<And>g. fires e loc g \<Longrightarrow> cur < g \<Longrightarrow> g \<le> to \<Longrightarrow> \<not> hidden e loc g"
  shows "if exact then k = n + int (card {g. fires e loc g \<and> cur < g \<and> g \<le> to})
         else k = limit \<and> limit < n + int (card {g. fires e loc g \<and> cur < g \<and> g \<le> to})"
  using assms
proof (induction "nat (limit - n)" arbitrary: n cur)
  case 0
  then have lim: "n = limit" by simp
  then obtain nxt where n: "expr_Next e loc cur = Inr nxt" "k = n" "exact = (to < nxt)"
    using 0(2) by (subst (asm) count_loop.simps) (auto split: sum.splits)
  show ?case
  proof (cases exact)
    case True
    then show ?thesis using window_empty [OF n(1) _ 0(4)] n lim by simp
  next
    case False
    then show ?thesis using next_splits_window [OF n(1) _ 0(4)] n lim window_finite [of e nxt to] by (simp add: card_insert_if)
  qed
next
  case (Suc d)
  then have lt: "n < limit" by simp
  then obtain nxt where n: "expr_Next e loc cur = Inr nxt" using Suc(3) by (subst (asm) count_loop.simps) (auto split: sum.splits)
  show ?case
  proof (cases "to < nxt")
    case True
    then have "k = n" "exact" using Suc(3) lt n by (subst (asm) count_loop.simps; simp)+
    then show ?thesis using window_empty [OF n True Suc(5)] by simp
  next
    case False
    then have rec: "count_loop e loc to limit (n + 1) nxt = Inr (k, exact)" using Suc(3) lt n by (subst (asm) count_loop.simps) simp
    have IH: "if exact then k = n + 1 + int (card {g. fires e loc g \<and> nxt < g \<and> g \<le> to})
         else k = limit \<and> limit < n + 1 + int (card {g. fires e loc g \<and> nxt < g \<and> g \<le> to})"
      using Suc(2) expr_Next_later [OF n] Suc(5) lt by (intro Suc(1) [OF _ rec]) auto
    have "card {g. fires e loc g \<and> cur < g \<and> g \<le> to} = Suc (card {g. fires e loc g \<and> nxt < g \<and> g \<le> to})"
      using next_splits_window [OF n _ Suc(5)] False window_finite [of e nxt to] by (simp add: card_insert_if)
    then show ?thesis using IH by (simp split: if_splits)
  qed
qed

end

end
