(* ===== verification/CronParse.thy ===== *)
theory CronParse
  imports CronCorrect
begin

text \<open>
  What \<open>Parse\<close> accepts: each field becomes the set of values its list denotes, an accepted expression is
  well formed and has a matching date in every run of eight years, and a refused combination has none.
  So \<open>Next\<close> never runs into its search limit.
\<close>

section \<open>The values of a field\<close>

lemma fill_spec:
  "fill set' v to step = Inr s \<Longrightarrow>
   length s = length set' \<and>
   (\<forall>i < length set'. s ! i \<longleftrightarrow> set' ! i \<or> (v \<le> int i \<and> int i \<le> to \<and> step dvd int i - v))"
proof (induction set' v to step rule: fill.induct)
  case (1 set' v to step)
  show ?case
  proof (cases "v \<le> to")
    case False
    then show ?thesis using 1(2) by (subst (asm) fill.simps) auto
  next
    case True
    have g: "0 \<le> v \<and> v < int (length set') \<and> in_int64 v \<and> in_int64 step \<and> 1 \<le> step"
      using 1(2) True by (subst (asm) fill.simps) (auto split: if_splits)
    have rec: "fill (set'[nat v := True]) (int64 (v + step)) to step = Inr s" using 1(2) True g by (subst (asm) fill.simps) auto
    have v': "int64 (v + step) = v + step"
    proof (rule ccontr)
      assume "int64 (v + step) \<noteq> v + step"
      then have "int64 (v + step) < 0" using int64_overflow [of v step] g by auto
      then show False using rec True g by (subst (asm) fill.simps) (auto split: if_splits)
    qed
    note IH = 1(1) [OF _ g rec, unfolded v']
    have dv: "v \<le> int i \<and> step dvd int i - v \<longleftrightarrow> int i = v \<or> v + step \<le> int i \<and> step dvd int i - (v + step)" for i
    proof -
      have "v \<le> int i \<Longrightarrow> step dvd int i - v \<Longrightarrow> int i \<noteq> v \<Longrightarrow> step \<le> int i - v" by (rule zdvd_imp_le) auto
      moreover have "step dvd int i - (v + step) \<longleftrightarrow> step dvd int i - v" by (metis diff_diff_eq dvd_diff_commute dvd_minus_iff dvd_refl dvd_diff_right_iff minus_diff_eq)
      ultimately show ?thesis using g by auto
    qed
    show ?thesis
    proof (intro conjI allI impI)
      show "length s = length set'" using IH True by simp
      fix i assume i: "i < length set'"
      have "s ! i \<longleftrightarrow> set'[nat v := True] ! i \<or> (v + step \<le> int i \<and> int i \<le> to \<and> step dvd int i - (v + step))"
        using IH True i by simp
      also have "\<dots> \<longleftrightarrow> set' ! i \<or> (v \<le> int i \<and> int i \<le> to \<and> step dvd int i - v)"
        using dv [of i] i g True by (cases "int i = v") (auto simp: nth_list_update)
      finally show "s ! i \<longleftrightarrow> set' ! i \<or> (v \<le> int i \<and> int i \<le> to \<and> step dvd int i - v)" .
    qed
  qed
qed

definition part_denotes :: "field_idx \<Rightarrow> (string \<rightharpoonup> int) \<Rightarrow> string \<Rightarrow> int \<Rightarrow> bool" where
  "part_denotes idx names part v \<longleftrightarrow>
     (\<exists>body step from to. part_step part = Inr (body, step) \<and> part_range body step idx names = Inr (from, to) \<and>
        from \<le> v \<and> v \<le> to \<and> step dvd v - from)"

definition names_ok :: "field_idx \<Rightarrow> (string \<rightharpoonup> int) \<Rightarrow> bool" where
  "names_ok idx names \<longleftrightarrow> (\<forall>s v. names s = Some v \<longrightarrow> fst (fieldBounds idx) \<le> v \<and> v \<le> snd (fieldBounds idx))"

lemma atom_bounds: "atom s idx names = Inr v \<Longrightarrow> names_ok idx names \<Longrightarrow> fst (fieldBounds idx) \<le> v \<and> v \<le> snd (fieldBounds idx)"
  by (auto simp: atom_def names_ok_def Let_def split: prod.splits option.splits if_splits)

lemma part_range_bounds:
  assumes "part_range body step idx names = Inr (from, to)" "names_ok idx names"
  shows "fst (fieldBounds idx) \<le> from \<and> from \<le> to \<and> to \<le> snd (fieldBounds idx)"
  using assms(1) atom_bounds [OF _ assms(2)]
  by (cases idx) (auto simp: part_range_def Let_def split: if_splits dest!: atom_bounds [OF _ assms(2)])

lemma parse_part_spec:
  assumes "parse_part idx names part set' = Inr s" "names_ok idx names"
  shows "length s = length set'" "i < length set' \<Longrightarrow> s ! i \<longleftrightarrow> set' ! i \<or> part_denotes idx names part (int i)"
    "\<exists>v. part_denotes idx names part v"
    "part_denotes idx names part v \<Longrightarrow> fst (fieldBounds idx) \<le> v \<and> v \<le> snd (fieldBounds idx)"
proof -
  obtain body step fr to where p: "part_step part = Inr (body, step)" "part_range body step idx names = Inr (fr, to)"
    "fill set' fr to step = Inr s"
    using assms(1) by (auto simp: parse_part_def split: if_splits)
  have d: "part_denotes idx names part v \<longleftrightarrow> fr \<le> v \<and> v \<le> to \<and> step dvd v - fr" for v
    by (auto simp: part_denotes_def p)
  show "length s = length set'" "i < length set' \<Longrightarrow> s ! i \<longleftrightarrow> set' ! i \<or> part_denotes idx names part (int i)"
    using fill_spec [OF p(3)] by (auto simp: d)
  note b = part_range_bounds [OF p(2) assms(2)]
  show "\<exists>v. part_denotes idx names part v" using b by (intro exI [of _ fr]) (simp add: d)
  show "part_denotes idx names part v \<Longrightarrow> fst (fieldBounds idx) \<le> v \<and> v \<le> snd (fieldBounds idx)" using b by (auto simp: d)
qed

definition field_denotes :: "field_idx \<Rightarrow> (string \<rightharpoonup> int) \<Rightarrow> string \<Rightarrow> int \<Rightarrow> bool" where
  "field_denotes idx names field v \<longleftrightarrow> list_ex (\<lambda>part. part_denotes idx names part v) (split_on (CHR '','') field)"

lemma parse_parts_spec:
  assumes "parse_parts idx names parts set' = Inr s" "names_ok idx names"
  shows "length s = length set' \<and>
    (\<forall>i < length set'. s ! i \<longleftrightarrow> set' ! i \<or> list_ex (\<lambda>part. part_denotes idx names part (int i)) parts) \<and>
    (parts \<noteq> [] \<longrightarrow> (\<exists>v. list_ex (\<lambda>part. part_denotes idx names part v) parts)) \<and>
    (\<forall>v. list_ex (\<lambda>part. part_denotes idx names part v) parts \<longrightarrow> fst (fieldBounds idx) \<le> v \<and> v \<le> snd (fieldBounds idx))"
  using assms(1)
proof (induction parts arbitrary: set')
  case (Cons part parts)
  then obtain s' where s': "parse_part idx names part set' = Inr s'" "parse_parts idx names parts s' = Inr s" by auto
  note P = parse_part_spec [OF s'(1) assms(2)] and IH = Cons.IH [OF s'(2)]
  show ?case
  proof (intro conjI allI impI)
    show "length s = length set'" using IH P(1) by simp
    show "\<exists>v. list_ex (\<lambda>part. part_denotes idx names part v) (part # parts)" using P(3) by auto
  next
    fix i assume "i < length set'"
    then show "s ! i \<longleftrightarrow> set' ! i \<or> list_ex (\<lambda>part. part_denotes idx names part (int i)) (part # parts)"
      using IH P(1) P(2) [of i] by auto
  next
    fix v assume "list_ex (\<lambda>part. part_denotes idx names part v) (part # parts)"
    then show "fst (fieldBounds idx) \<le> v" "v \<le> snd (fieldBounds idx)" using IH P(4) [of v] by auto
  qed
qed simp

lemma split_on_not_Nil: "split_on sep s \<noteq> []"
  by (induction s) (auto split: list.splits)

lemma parseInto_spec:
  assumes "parseInto field idx (replicate n False) names = Inr s" "names_ok idx names"
    "0 \<le> fst (fieldBounds idx)" "snd (fieldBounds idx) < int n"
  shows "length s = n" "at s v \<longleftrightarrow> field_denotes idx names field v" "\<exists>v. field_denotes idx names field v"
    "field_denotes idx names field v \<Longrightarrow> fst (fieldBounds idx) \<le> v \<and> v \<le> snd (fieldBounds idx)"
proof -
  note P = parse_parts_spec [OF assms(1) [unfolded parseInto_def] assms(2), folded field_denotes_def, unfolded length_replicate]
  show "length s = n" "\<exists>v. field_denotes idx names field v" using P split_on_not_Nil by blast+
  show b: "fst (fieldBounds idx) \<le> v \<and> v \<le> snd (fieldBounds idx)" if "field_denotes idx names field v" for v
    using P that by blast
  have "s ! nat v \<longleftrightarrow> field_denotes idx names field v" if "0 \<le> v" "v < int n"
    using P that by (auto dest!: spec [of _ "nat v"])
  then show "at s v \<longleftrightarrow> field_denotes idx names field v"
    using \<open>length s = n\<close> b [of v] assms(3,4) by (auto simp: at_def)
qed

text \<open>A fixed offset has no gaps.\<close>

lemma fixed_not_hidden:
  assumes "\<bar>off\<bar> \<le> 86400"
  shows "\<not> hidden e (fixed_zone off) f"
proof -
  have "civilOf (fixed_zone off) (resolve w (fixed_zone off)) = w" if "valid_civil w" for w
  proof -
    have "resolve w (fixed_zone off) = placed 0 off off (utc_of w) * Second"
      using assms by (intro resolve_placed [OF that]) (simp add: steps_once_def fixed_zone_def)
    also have "placed 0 off off (utc_of w) = utc_of w - off" by (auto simp: placed_def)
    finally show ?thesis unfolding civilOf_seconds by (simp add: fixed_zone_def civil_at_utc that civilOf_seconds del: Second_def)
  qed
  then show ?thesis by (auto simp: hidden_def fires_def)
qed

section \<open>Well-formed expressions\<close>

definition wf_expr :: "Expression \<Rightarrow> bool" where
  "wf_expr e \<longleftrightarrow>
     length (x_second e) = 60 \<and> length (x_minute e) = 60 \<and> length (x_hour e) = 24 \<and> length (x_dom e) = 32 \<and>
     length (x_month e) = 13 \<and> length (x_dow e) = 7 \<and> \<not> at (x_dom e) 0 \<and> \<not> at (x_month e) 0 \<and>
     anySet (x_second e) \<and> anySet (x_minute e) \<and> anySet (x_hour e) \<and> anySet (x_month e) \<and>
     anySet (x_dom e) \<and> anySet (x_dow e) \<and>
     x_domRestricted e = (\<not> allSet (tl (x_dom e))) \<and> x_dowRestricted e = (\<not> allSet (x_dow e))"

lemma anySet_at: "anySet s \<longleftrightarrow> (\<exists>i. at s i)"
proof
  assume "anySet s"
  then obtain i where "i < length s" "s ! i" by (auto simp: anySet_def list_ex_iff in_set_conv_nth)
  then have "at s (int i)" by (simp add: at_def)
  then show "\<exists>i. at s i" ..
next
  assume "\<exists>i. at s i"
  then obtain i where "0 \<le> i" "i < int (length s)" "s ! nat i" by (auto simp: at_def)
  then have "nat i < length s" "s ! nat i" by simp_all
  then show "anySet s" using nth_mem [of "nat i" s] by (auto simp: anySet_def list_ex_iff)
qed

lemma names_ok_tables: "names_ok idx Map.empty" "names_ok idxMonth monthNames" "names_ok idxDOW dayNames"
  by (auto simp: names_ok_def monthNames_def dayNames_def split: if_splits)

text \<open>Sunday is written 0 or 7.\<close>

definition fold_sunday :: "bool list \<Rightarrow> bool list" where
  "fold_sunday dow8 = (if dow8 ! 7 then (take 7 dow8)[0 := True] else take 7 dow8)"

lemma at_fold_sunday:
  assumes "length dow8 = 8"
  shows "at (fold_sunday dow8) v \<longleftrightarrow> 0 \<le> v \<and> v < 7 \<and> (at dow8 v \<or> v = 0 \<and> at dow8 7)"
  using assms by (auto simp: fold_sunday_def at_def nth_list_update)

lemma Parse_parts:
  assumes "Parse expr = Inr e"
  obtains f0 f1 f2 f3 f4 f5 dow8 where "Fields expr = [f0, f1, f2, f3, f4, f5]"
    "parseInto f0 idxSecond (replicate 60 False) Map.empty = Inr (x_second e)"
    "parseInto f1 idxMinute (replicate 60 False) Map.empty = Inr (x_minute e)"
    "parseInto f2 idxHour (replicate 24 False) Map.empty = Inr (x_hour e)"
    "parseInto f3 idxDOM (replicate 32 False) Map.empty = Inr (x_dom e)"
    "parseInto f4 idxMonth (replicate 13 False) monthNames = Inr (x_month e)"
    "parseInto f5 idxDOW (replicate 8 False) dayNames = Inr dow8" "x_dow e = fold_sunday dow8"
    "x_domRestricted e = (\<not> allSet (tl (x_dom e)))" "x_dowRestricted e = (\<not> allSet (x_dow e))"
    "\<not> rejectUnsatisfiable e" "x_src e = expr"
  using assms unfolding Parse_def fold_sunday_def
  by (auto simp: Let_def split: list.splits if_splits)

theorem Parse_fields:
  assumes "Parse expr = Inr e"
  shows "\<exists>f0 f1 f2 f3 f4 f5. Fields expr = [f0, f1, f2, f3, f4, f5] \<and>
    (\<forall>v. at (x_second e) v \<longleftrightarrow> field_denotes idxSecond Map.empty f0 v) \<and>
    (\<forall>v. at (x_minute e) v \<longleftrightarrow> field_denotes idxMinute Map.empty f1 v) \<and>
    (\<forall>v. at (x_hour e) v \<longleftrightarrow> field_denotes idxHour Map.empty f2 v) \<and>
    (\<forall>v. at (x_dom e) v \<longleftrightarrow> field_denotes idxDOM Map.empty f3 v) \<and>
    (\<forall>v. at (x_month e) v \<longleftrightarrow> field_denotes idxMonth monthNames f4 v) \<and>
    (\<forall>v. at (x_dow e) v \<longleftrightarrow> 0 \<le> v \<and> v < 7 \<and> (field_denotes idxDOW dayNames f5 v \<or> v = 0 \<and> field_denotes idxDOW dayNames f5 7)) \<and>
    wf_expr e \<and> \<not> rejectUnsatisfiable e"
proof -
  obtain f0 f1 f2 f3 f4 f5 dow8 where fs: "Fields expr = [f0, f1, f2, f3, f4, f5]"
    and p0: "parseInto f0 idxSecond (replicate 60 False) Map.empty = Inr (x_second e)"
    and p1: "parseInto f1 idxMinute (replicate 60 False) Map.empty = Inr (x_minute e)"
    and p2: "parseInto f2 idxHour (replicate 24 False) Map.empty = Inr (x_hour e)"
    and p3: "parseInto f3 idxDOM (replicate 32 False) Map.empty = Inr (x_dom e)"
    and p4: "parseInto f4 idxMonth (replicate 13 False) monthNames = Inr (x_month e)"
    and p5: "parseInto f5 idxDOW (replicate 8 False) dayNames = Inr dow8" and dow: "x_dow e = fold_sunday dow8"
    and r: "x_domRestricted e = (\<not> allSet (tl (x_dom e)))" "x_dowRestricted e = (\<not> allSet (x_dow e))"
    and nr: "\<not> rejectUnsatisfiable e"
    using Parse_parts [OF assms] .
  note P0 = parseInto_spec [OF p0 names_ok_tables(1), simplified]
    and P1 = parseInto_spec [OF p1 names_ok_tables(1), simplified]
    and P2 = parseInto_spec [OF p2 names_ok_tables(1), simplified]
    and P3 = parseInto_spec [OF p3 names_ok_tables(1), simplified]
    and P4 = parseInto_spec [OF p4 names_ok_tables(2), simplified]
    and P5 = parseInto_spec [OF p5 names_ok_tables(3), simplified]
  have D: "at (x_dow e) v \<longleftrightarrow> 0 \<le> v \<and> v < 7 \<and> (field_denotes idxDOW dayNames f5 v \<or> v = 0 \<and> field_denotes idxDOW dayNames f5 7)" for v
    unfolding dow at_fold_sunday [OF P5(1)] P5(2) ..
  obtain v where v: "field_denotes idxDOW dayNames f5 v" using P5(3) by blast
  then have "at (x_dow e) (if v = 7 then 0 else v)" unfolding D using P5(4) [OF v] by auto
  then have "anySet (x_dow e)" unfolding anySet_at by blast
  moreover have "anySet (x_second e)" "anySet (x_minute e)" "anySet (x_hour e)" "anySet (x_dom e)" "anySet (x_month e)"
    using P0(3) P1(3) P2(3) P3(3) P4(3) unfolding anySet_at P0(2) P1(2) P2(2) P3(2) P4(2) by blast+
  moreover have "\<not> at (x_dom e) 0" "\<not> at (x_month e) 0" using P3(4) [of 0] P4(4) [of 0] by (auto simp: P3(2) P4(2))
  moreover have "length (x_dow e) = 7" using P5(1) by (simp add: dow fold_sunday_def)
  ultimately have "wf_expr e" unfolding wf_expr_def
    using P0(1) P1(1) P2(1) P3(1) P4(1) r by simp
  then show ?thesis using fs P0(2) P1(2) P2(2) P3(2) P4(2) D nr by blast
qed

section \<open>Satisfiable expressions\<close>

lemma leap_within: "\<exists>y'. y < y' \<and> y' \<le> y + 8 \<and> leap y'"
proof -
  define q where "q = y div 4"
  have q: "4 * q \<le> y" "y < 4 * q + 4" unfolding q_def using div_bounds [of 4 y] by simp_all
  show ?thesis
  proof (cases "leap (4 * (q + 1))")
    case True
    then show ?thesis using q by (intro exI [of _ "4 * (q + 1)"]) auto
  next
    case False
    then have c: "4 * (q + 1) mod 100 = 0" by (simp add: leap_def)
    have "(4 * (q + 1) + 4) mod 100 = 4" using mod_add_left_eq [of "4 * (q + 1)" 100 4] unfolding c by simp
    then have "(4 * (q + 2)) mod 100 = 4" by (simp add: algebra_simps)
    then have "leap (4 * (q + 2))" by (simp add: leap_def)
    then show ?thesis using q by (intro exI [of _ "4 * (q + 2)"]) auto
  qed
qed

lemma month_len_leap: "leap y \<Longrightarrow> month_len y' m \<le> month_len y m"
  by (simp add: month_len_def)

lemma leap_2024: "leap 2024"
  by (simp add: leap_def)

lemma weekday_noon: "1 \<le> m \<Longrightarrow> m \<le> 12 \<Longrightarrow> weekday (unix_date y m d 12 0 0) = (day_number y m d + 4) mod 7"
  by (simp add: weekday_def unix_date_days)

lemma weekday_range: "0 \<le> weekday s" "weekday s < 7"
  by (simp_all add: weekday_def)

lemma weekday_in_week:
  assumes "1 \<le> m" "m \<le> 12" "0 \<le> v" "v < 7"
  shows "\<exists>d. 1 \<le> d \<and> d \<le> 7 \<and> weekday (unix_date y m d 12 0 0) = v"
proof -
  define k where "k = day_number y m 1 + 4"
  define j where "j = (v - k) mod 7"
  have "(k + j) mod 7 = v" using assms(3,4) unfolding j_def by (simp add: mod_add_right_eq)
  moreover have "day_number y m (j + 1) + 4 = k + j" by (simp add: k_def day_number_def)
  moreover have "0 \<le> j" "j < 7" by (simp_all add: j_def)
  ultimately show ?thesis using assms(1,2) by (intro exI [of _ "j + 1"]) (simp add: weekday_noon)
qed

lemma matching_date:
  assumes "wf_expr e" "\<not> rejectUnsatisfiable e"
  shows "\<exists>y' m d. y < y' \<and> y' \<le> y + 8 \<and> valid_date y' m d \<and> at (x_month e) m \<and> matchesDay e y' m d"
proof -
  obtain y' where y': "y < y'" "y' \<le> y + 8" "leap y'" using leap_within by blast
  have mrange: "1 \<le> m \<and> m \<le> 12" if "at (x_month e) m" for m
    using that assms(1) by (cases "m = 0") (auto simp: wf_expr_def at_def)
  obtain m0 where m0: "at (x_month e) m0" using assms(1) by (auto simp: wf_expr_def anySet_at)
  show ?thesis
  proof (cases "x_dowRestricted e")
    case True
    obtain v where v: "at (x_dow e) v" using assms(1) by (auto simp: wf_expr_def anySet_at)
    then have "0 \<le> v" "v < 7" using assms(1) by (auto simp: wf_expr_def at_def)
    then obtain d where d: "1 \<le> d" "d \<le> 7" "weekday (unix_date y' m0 d 12 0 0) = v"
      using weekday_in_week [of m0 v y'] mrange [OF m0] by blast
    then have "valid_date y' m0 d" using mrange [OF m0] month_len_bounds(1) [of y' m0] by (simp add: valid_date_def)
    then show ?thesis using y' m0 d v True by (intro exI [of _ y'] exI [of _ m0] exI [of _ d]) (simp add: matchesDay_def Let_def)
  next
    case dow: False
    show ?thesis
    proof (cases "x_domRestricted e")
      case False
      have "valid_date y' m0 1" using mrange [OF m0] month_len_bounds(1) [of y' m0] by (simp add: valid_date_def)
      then show ?thesis using y' m0 False dow by (intro exI [of _ y'] exI [of _ m0] exI [of _ 1]) (simp add: matchesDay_def Let_def)
    next
      case True
      then obtain m d where md: "at (x_month e) m" "1 \<le> d" "d \<le> daysIn m 2024" "at (x_dom e) d"
        using assms(2) dow by (auto simp: rejectUnsatisfiable_def list_ex_iff split: if_splits)
      then have "valid_date y' m d" using mrange [of m] month_len_leap [OF y'(3), of 2024 m] by (simp add: valid_date_def daysIn_eq)
      then show ?thesis using y' md True dow by (intro exI [of _ y'] exI [of _ m] exI [of _ d]) (simp add: matchesDay_def Let_def)
    qed
  qed
qed

lemma matching_wall:
  assumes "wf_expr e" "\<not> rejectUnsatisfiable e"
  shows "\<exists>w. valid_civil w \<and> matches e w \<and> y < c_year w \<and> c_year w \<le> y + 8"
proof -
  obtain y' m d where d: "y < y'" "y' \<le> y + 8" "valid_date y' m d" "at (x_month e) m" "matchesDay e y' m d"
    using matching_date [OF assms] by blast
  obtain hh mm ss where c: "at (x_hour e) hh" "at (x_minute e) mm" "at (x_second e) ss"
    using assms(1) by (auto simp: wf_expr_def anySet_at)
  then have "valid_civil (mk_civil y' m d hh mm ss)" using d(3) assms(1) by (auto simp: valid_civil_def mk_civil_def wf_expr_def at_def)
  with c d show ?thesis by (intro exI [of _ "mk_civil y' m d hh mm ss"]) (simp add: matches_def mk_civil_def)
qed

lemma tl_dom: "wf_expr e \<Longrightarrow> anySet (tl (x_dom e))"
proof -
  assume wf: "wf_expr e"
  then obtain d where d: "at (x_dom e) d" by (auto simp: wf_expr_def anySet_at)
  with wf have "d \<noteq> 0" by (auto simp: wf_expr_def)
  with d have "at (tl (x_dom e)) (d - 1)" by (auto simp: at_def nth_tl nat_diff_distrib)
  then show ?thesis by (auto simp: anySet_at)
qed

theorem reject_iff_unsatisfiable:
  assumes "wf_expr e"
  shows "rejectUnsatisfiable e \<longleftrightarrow> (\<forall>w. valid_civil w \<longrightarrow> \<not> matches e w)"
proof
  assume rej: "rejectUnsatisfiable e"
  then have r: "x_domRestricted e" "\<not> x_dowRestricted e"
    and none: "\<not> list_ex (\<lambda>m. at (x_month e) m \<and> list_ex (at (x_dom e)) [1..daysIn m 2024]) [1..12]"
    using assms tl_dom [OF assms] by (auto simp: rejectUnsatisfiable_def wf_expr_def split: if_splits)
  show "\<forall>w. valid_civil w \<longrightarrow> \<not> matches e w"
  proof (intro allI impI notI)
    fix w assume w: "valid_civil w" "matches e w"
    have "c_day w \<le> daysIn (c_month w) 2024" "1 \<le> c_day w" "1 \<le> c_month w" "c_month w \<le> 12"
      using w(1) month_len_leap [OF leap_2024, of "c_year w" "c_month w"] by (auto simp: valid_civil_def valid_date_def daysIn_eq)
    moreover have "at (x_month e) (c_month w)" "at (x_dom e) (c_day w)" using w(2) r by (simp_all add: matches_def matchesDay_def Let_def)
    ultimately show False using none by (auto simp: list_ex_iff)
  qed
next
  assume "\<forall>w. valid_civil w \<longrightarrow> \<not> matches e w"
  then show "rejectUnsatisfiable e" using matching_wall [OF assms, of 0] by blast
qed

section \<open>The search limit is never reached\<close>

lemma years_apart:
  assumes "valid_civil c" "valid_civil w" "c_year c + 2 \<le> c_year w" "c_year w \<le> c_year c + 9"
  shows "utc_of c + 364 * 86400 \<le> utc_of w" "utc_of w \<le> utc_of c + 3660 * 86400"
proof -
  have len: "365 \<le> year_len y" "year_len y \<le> 366" for y by (simp_all add: year_len_def)
  have grow: "365 * int k \<le> days_before_year (y + int k) - days_before_year y \<and> days_before_year (y + int k) - days_before_year y \<le> 366 * int k" for y k
  proof (induction k)
    case (Suc k)
    have "days_before_year (y + int (Suc k)) = days_before_year (y + int k) + year_len (y + int k)"
      using days_before_year_Suc [of "y + int k"] by (simp add: algebra_simps)
    then show ?case using Suc len [of "y + int k"] by (simp add: algebra_simps)
  qed simp
  define yc yw nc nw where ys: "yc = c_year c" "yw = c_year w"
    "nc = day_number (c_year c) (c_month c) (c_day c)" "nw = day_number (c_year w) (c_month w) (c_day w)"
  have vd: "valid_date (c_year c) (c_month c) (c_day c)" "valid_date (c_year w) (c_month w) (c_day w)"
    using assms(1,2) by (simp_all add: valid_civil_def)
  have b: "days_before_year yc \<le> nc" "nc < days_before_year (yc + 1)" "days_before_year yw \<le> nw" "nw < days_before_year (yw + 1)"
    using day_number_bounds(3,4) [OF vd(1)] day_number_bounds(3,4) [OF vd(2)] by (simp_all add: ys)
  have "365 * (yw - (yc + 1)) \<le> days_before_year yw - days_before_year (yc + 1)"
    using grow [of "nat (yw - (yc + 1))" "yc + 1"] assms(3) by (simp add: ys)
  then have "nc + 365 < nw + 1" using b assms(3) by (simp add: ys)
  moreover have "days_before_year (yw + 1) - days_before_year yc \<le> 366 * (yw + 1 - yc)"
    using grow [of "nat (yw + 1 - yc)" yc] assms(3) by (simp add: ys)
  then have "nw \<le> nc + 3659" using b assms(4) by (simp add: ys)
  ultimately have n: "nc + 365 \<le> nw" "nw \<le> nc + 3659" by simp_all
  have cw: "utc_of c = nc * 86400 + (c_hour c * 3600 + c_min c * 60 + c_sec c)" "utc_of w = nw * 86400 + (c_hour w * 3600 + c_min w * 60 + c_sec w)"
    using utc_eq [OF assms(1)] utc_eq [OF assms(2)] by (simp_all add: ys)
  show "utc_of w \<le> utc_of c + 3660 * 86400" using n cw clock_bounds [OF assms(1)] clock_bounds [OF assms(2)] by simp
  show "utc_of c + 364 * 86400 \<le> utc_of w" using n cw clock_bounds [OF assms(1)] clock_bounds [OF assms(2)] by simp
qed

lemma utc_civilOf: "utc_of (civilOf loc t) = t div Second + loc (t div Second)"
  by (simp add: civilOf_def Let_def)

context zone
begin

lemma next_total:
  assumes "wf_expr e" "\<not> rejectUnsatisfiable e"
  shows "\<exists>n. expr_Next e loc aft = Inr n"
proof (rule ccontr)
  assume "\<nexists>n. expr_Next e loc aft = Inr n"
  then obtain err where err: "expr_Next e loc aft = Inl err" by (cases "expr_Next e loc aft") auto
  define u where "u = aft div Second"
  let ?cs = "civilOf loc (start_of aft)" and ?lim = "civilOf loc (aft + searchLimit)"
  have none: "utc_of ?lim < utc_of w" if "eligible e loc aft w" "utc_of ?cs \<le> utc_of w" for w
    using expr_Next_outcome [of e loc aft] err that by (auto simp: search_outcome_def)
  have "start_of aft div Second = u + 1" by (simp add: start_of_def u_def del: Second_def)
  then have cs: "utc_of ?cs = u + 1 + loc (u + 1)" by (simp only: utc_civilOf)
  have "aft + searchLimit = aft + 379468800 * Second" by (simp add: searchLimit_def)
  then have "(aft + searchLimit) div Second = u + 379468800" by (simp add: u_def)
  then have lim: "utc_of ?lim = u + 379468800 + loc (u + 379468800)" by (simp only: utc_civilOf)
  obtain w where w: "valid_civil w" "matches e w" "c_year ?cs + 1 < c_year w" "c_year w \<le> c_year ?cs + 1 + 8"
    using matching_wall [OF assms] by blast
  have far: "utc_of ?cs + 364 * 86400 \<le> utc_of w" "utc_of w \<le> utc_of ?cs + 3660 * 86400"
    using w by (intro years_apart; simp add: civilOf_def Let_def)+
  obtain v where v: "resolve w loc = v * Second" "utc_of w - 86400 \<le> v" using resolve_near [OF w(1)] by blast
  have "u + 1 \<le> v" using v(2) far(1) cs offset_bound [of "u + 1"] by linarith
  then have "(u + 1) * Second \<le> v * Second" by simp
  moreover have "aft < (u + 1) * Second" using start_bounds(1) [of aft] by (simp only: start_of_def u_def)
  ultimately have "eligible e loc aft w" using w v(1) by (simp add: eligible_def)
  then have "utc_of ?lim < utc_of w" using far(1) by (intro none) simp_all
  then show False using far(2) cs lim offset_bound [of "u + 1"] offset_bound [of "u + 379468800"] by linarith
qed

end

end
