(* ===== verification/Firing.thy ===== *)
theory Firing
  imports CronParse
begin

text \<open>
  The properties of the cron dialect, over every zone that satisfies \<open>zone\<close>, with the zone of New York
  around the transition of 10 March 2024 and fixed offsets as instances.
\<close>

section \<open>Instances\<close>

text \<open>New York left UTC-5 for UTC-4 at 07:00 UTC, when its clocks went from 2:00 to 3:00.\<close>

definition new_york :: location where
  "new_york = moving_zone 1710054000 (- 18000) (- 14400)"

interpretation ny: zone new_york
  unfolding new_york_def by (rule zone_moving) simp_all

interpretation shanghai: zone "fixed_zone 28800"
  by (rule zone_fixed) simp

definition parsed :: "string \<Rightarrow> Expression" where
  "parsed s = (case Parse s of Inr e \<Rightarrow> e | Inl _ \<Rightarrow>
     \<lparr>x_src = s, x_second = [], x_minute = [], x_hour = [], x_dom = [], x_month = [], x_dow = [],
      x_domRestricted = False, x_dowRestricted = False\<rparr>)"

definition half_past_two :: Expression where "half_past_two = parsed ''0 30 2 * * *''"

definition leap_day :: Expression where "leap_day = parsed ''0 0 0 29 2 *''"

lemma parse_half_past_two: "Parse ''0 30 2 * * *'' = Inr half_past_two"
  by code_simp

lemma parse_leap_day: "Parse ''0 0 0 29 2 *'' = Inr leap_day"
  by code_simp

section \<open>The dialect\<close>

text \<open>An expression that parses has six fields and means what they say: every value set is read off its field (a list of
  values, ranges and steps, with names for months and weekdays), 7 is Sunday as 0 is, the flags of the OR rule say
  whether a set excludes anything, and some wall time matches.\<close>

lemma parse_meaning:
  assumes "Parse expr = Inr e"
  shows "\<exists>f0 f1 f2 f3 f4 f5. Fields expr = [f0, f1, f2, f3, f4, f5] \<and>
    (\<forall>v. at (x_second e) v \<longleftrightarrow> field_denotes idxSecond Map.empty f0 v) \<and>
    (\<forall>v. at (x_minute e) v \<longleftrightarrow> field_denotes idxMinute Map.empty f1 v) \<and>
    (\<forall>v. at (x_hour e) v \<longleftrightarrow> field_denotes idxHour Map.empty f2 v) \<and>
    (\<forall>v. at (x_dom e) v \<longleftrightarrow> field_denotes idxDOM Map.empty f3 v) \<and>
    (\<forall>v. at (x_month e) v \<longleftrightarrow> field_denotes idxMonth monthNames f4 v) \<and>
    (\<forall>v. at (x_dow e) v \<longleftrightarrow> 0 \<le> v \<and> v < 7 \<and> (field_denotes idxDOW dayNames f5 v \<or> v = 0 \<and> field_denotes idxDOW dayNames f5 7)) \<and>
    wf_expr e \<and> (\<exists>w. valid_civil w \<and> matches e w)"
proof -
  note F = Parse_fields [OF assms]
  then have "\<exists>w. valid_civil w \<and> matches e w" using matching_wall [of e 0] by blast
  with F show ?thesis by blast
qed

text \<open>Parse-time rejection is exact: for the value sets of any expression, \<open>rejectUnsatisfiable\<close> refuses precisely the
  combinations that no date of any year can match, with a leap year as the permissive case and the OR of the two day
  fields taken into account.\<close>

lemma unsatisfiable_exact:
  assumes "wf_expr e"
  shows "rejectUnsatisfiable e \<longleftrightarrow> (\<forall>w. valid_civil w \<longrightarrow> \<not> matches e w)"
  by (rule reject_iff_unsatisfiable [OF assms])

section \<open>Fire instants\<close>

text \<open>\<open>resolve\<close> applies the two daylight-saving rules: a wall time that exists resolves to its first occurrence, one
  that does not resolves to the instant the gap ends.\<close>

lemma resolve_first_or_gap_end:
  assumes "zone loc" "valid_civil c"
  shows "\<exists>u. resolve c loc = u * Second \<and>
    (if \<exists>v. v + loc v = utc_of c then u + loc u = utc_of c \<and> (\<forall>v < u. v + loc v \<noteq> utc_of c)
     else utc_of c < u + loc u \<and> (\<forall>v < u. v + loc v < utc_of c))"
  by (rule zone.resolve_dst [OF assms])

text \<open>C35: \<open>Next\<close> returns a fire instant strictly after its argument, and passes over no other: a fire in between can only be
  the end of a gap whose wall time does not itself match, due within the very second the search starts from. A zone is a
  location with offsets of at most a day and no two transitions within eight days of each other.\<close>

theorem next_is_next:
  assumes "zone loc" "expr_Next e loc aft = Inr n"
  shows "fires e loc n \<and> aft < n \<and>
    (\<forall>f. fires e loc f \<and> aft < f \<and> f < n \<longrightarrow> f = start_of aft \<and> hidden e loc f)"
  using expr_Next_later [OF assms(2)] zone.next_skips [OF assms] by blast

theorem next_is_next_witness:
  "fires half_past_two new_york (1710054000 * Second) \<and> 1710053998 * Second < 1710054000 * Second"
proof -
  have "expr_Next half_past_two new_york (1710053998 * Second) = Inr (1710054000 * Second)" by code_simp
  from next_is_next [OF ny.zone_axioms this] show ?thesis by blast
qed

text \<open>C36: \<open>Next\<close> always returns: an expression that parses fires within the twelve years of the search limit, in every zone (offsets
  of at most a day, no two transitions within eight days) and from every instant.\<close>

theorem next_always_fires:
  assumes "zone loc" "Parse expr = Inr e"
  shows "\<exists>n. expr_Next e loc aft = Inr n"
  using Parse_fields [OF assms(2)] zone.next_total [OF assms(1)] by blast

theorem next_always_fires_witness: "\<exists>n. expr_Next leap_day (fixed_zone 28800) (3982176000 * Second) = Inr n"
  by (rule next_always_fires [OF shanghai.zone_axioms parse_leap_day])

text \<open>C37: In every zone (offsets of at most a day, no two transitions within eight days) \<open>Latest\<close> bisects to the last fire of its
  window: the fire it returns lies in the closed window, every later fire of the window is hidden behind a gap, and when it returns
  none the window holds no other fire.\<close>

theorem latest_is_last:
  assumes "zone loc" "expr_Latest e loc at' h = Inr r"
  shows "case r of
      Some f \<Rightarrow> fires e loc f \<and> at' - h \<le> f \<and> f \<le> at' \<and> (\<forall>g. fires e loc g \<and> f < g \<and> g \<le> at' \<longrightarrow> hidden e loc g)
    | None \<Rightarrow> \<forall>g. fires e loc g \<and> at' - h \<le> g \<and> g \<le> at' \<longrightarrow> hidden e loc g"
proof (cases r)
  case None
  then show ?thesis using zone.latest_none [OF assms(1)] assms(2) by auto
next
  case (Some f)
  then have "expr_Latest e loc at' h = Inr (Some f)" using assms(2) by simp
  from zone.latest_some [OF assms(1) this] show ?thesis using Some by auto
qed

theorem latest_is_last_witness:
  "case Some (1710054000 * Second) of
      Some f \<Rightarrow> fires half_past_two new_york f \<and> 1710054001 * Second - (3 * Second - 1) \<le> f \<and> f \<le> 1710054001 * Second \<and>
        (\<forall>g. fires half_past_two new_york g \<and> f < g \<and> g \<le> 1710054001 * Second \<longrightarrow> hidden half_past_two new_york g)
    | None \<Rightarrow> True"
proof -
  have "expr_Next half_past_two new_york (1710053998 * Second) = Inr (1710054000 * Second)"
    "latest_loop half_past_two new_york (1710054001 * Second) (1710053998 * Second) (1710054001 * Second) = Inr 1710053998750000000"
    "expr_Next half_past_two new_york 1710053998750000000 = Inr (1710054000 * Second)" by code_simp+
  then have "expr_Latest half_past_two new_york (1710054001 * Second) (3 * Second - 1) = Inr (Some (1710054000 * Second))"
    by (simp add: expr_Latest_def Let_def)
  from latest_is_last [OF ny.zone_axioms this] show ?thesis by simp
qed

text \<open>\<open>CountBetween\<close> counts the fires of its half-open window: an exact answer is their number, a truncated one is the
  limit, and more fires than the limit exist. The window holds no hidden fire, as no window outside a gap does.\<close>

lemma count_is_exact:
  assumes "zone loc" "expr_CountBetween e loc from' to limit = Inr (k, exact)" "0 \<le> limit"
    and "\<forall>g. from' < g \<and> g \<le> to \<longrightarrow> \<not> hidden e loc g"
  shows "if exact then k = int (card {g. fires e loc g \<and> from' < g \<and> g \<le> to})
    else k = limit \<and> limit < int (card {g. fires e loc g \<and> from' < g \<and> g \<le> to})"
  using zone.count_loop_counts [OF assms(1) assms(2) [unfolded expr_CountBetween_def] assms(3)] assms(4) by auto

section \<open>Divergences\<close>

text \<open>C38: A fire inside a gap is lost to a search that starts in the second before the gap ends. In every zone (offsets
  of at most a day, no two transitions within eight days) and for every expression that parses: let the wall time of a match fall into a gap, so that it is due at the instant the gap ends, and let the wall time of that instant not
  match itself. From any instant of the second before, \<open>Next\<close> returns a later fire; from any earlier instant after which it is the
  first fire, \<open>Next\<close> returns it. The search starts at the wall time of the next whole second, which lies behind the gap already.\<close>

theorem gap_fire_lost:
  assumes "zone loc" "Parse expr = Inr e" "hidden e loc f"
  shows "(\<forall>aft. f - Second \<le> aft \<and> aft < f \<longrightarrow> (\<exists>n. expr_Next e loc aft = Inr n \<and> f < n)) \<and>
    (\<forall>aft. aft < f - Second \<and> (\<forall>g. fires e loc g \<and> aft < g \<longrightarrow> f \<le> g) \<longrightarrow> expr_Next e loc aft = Inr f)"
proof (intro conjI allI impI)
  note total = zone.next_total [OF assms(1)] and P = Parse_fields [OF assms(2)]
  show "\<exists>n. expr_Next e loc aft = Inr n \<and> f < n" if "f - Second \<le> aft \<and> aft < f" for aft
    using zone.next_passes_hidden [OF assms(1,3)] that total P by blast
  show "expr_Next e loc aft = Inr f" if a: "aft < f - Second \<and> (\<forall>g. fires e loc g \<and> aft < g \<longrightarrow> f \<le> g)" for aft
  proof -
    obtain n where n: "expr_Next e loc aft = Inr n" using total P by blast
    have "f \<le> n" using expr_Next_later [OF n] a by blast
    moreover have "\<not> f < n"
      using zone.next_skips [OF assms(1) n, of f] start_bounds(2) [of aft] assms(3) a by (auto simp: hidden_def)
    ultimately show ?thesis using n by simp
  qed
qed

text \<open>The run of 2:30 on 10 March 2024 in New York is due at the end of the gap, 3:00; a search from 1:59:59 passes it over.\<close>

theorem gap_fire_lost_witness:
  "\<exists>n. expr_Next half_past_two new_york (1710053999 * Second) = Inr n \<and> 1710054000 * Second < n"
proof -
  have "expr_Next half_past_two new_york (1710053998 * Second) = Inr (1710054000 * Second)"
    "\<not> matches half_past_two (civilOf new_york (1710054000 * Second))" by code_simp+
  then have "hidden half_past_two new_york (1710054000 * Second)" unfolding hidden_def using expr_Next_later by blast
  from gap_fire_lost [OF ny.zone_axioms parse_half_past_two this] show ?thesis by simp
qed

text \<open>The check for the unsupported letters runs before names are read, so WED and JUL are refused and wed and jul are not.\<close>

lemma uppercase_names_refused:
  "Parse ''0 0 12 * * WED'' = Inl CronInvalid" "Parse ''0 0 12 1 JUL *'' = Inl CronInvalid"
  "\<exists>e. Parse ''0 0 12 * * wed'' = Inr e" "\<exists>e. Parse ''0 0 12 1 jul *'' = Inr e"
proof -
  show "Parse ''0 0 12 * * WED'' = Inl CronInvalid" "Parse ''0 0 12 1 JUL *'' = Inl CronInvalid" by code_simp+
  have "Parse ''0 0 12 * * wed'' = Inr (parsed ''0 0 12 * * wed'')" "Parse ''0 0 12 1 jul *'' = Inr (parsed ''0 0 12 1 jul *'')" by code_simp+
  then show "\<exists>e. Parse ''0 0 12 * * wed'' = Inr e" "\<exists>e. Parse ''0 0 12 1 jul *'' = Inr e" by blast+
qed

text \<open>A step near the largest 64-bit integer overflows the loop counter, and the slice is indexed with a negative number.\<close>

lemma large_step_panics: "Parse ''1/9223372036854775807 * * * * *'' = Inl CronPanic"
  by code_simp

end
