(* ===== verification/Dispatch.thy ===== *)
theory Dispatch
  imports Utf8 Outcomes
begin

text \<open>
  The dispatch client (\<^verbatim>\<open>src/internal/dispatch/client.go\<close>): what the scheduler concludes from the answer of
  an executor. The executors and the transport are a parameter, the record \<open>network\<close> of the replies to
  each call; a reply is a message or a gRPC status.
\<close>

section \<open>Replies\<close>

datatype Answer = Accepted | Refused | Unknown

record Result =
  rs_Answer :: Answer
  rs_HeldToken :: string

datatype grpc_code = CodeOK | CodeAlreadyExists | CodeNotFound | CodeUnimplemented | CodeOther

text \<open>A detail of a status is an \<open>ExecutionHeld\<close> message with its token, or something else.\<close>

record grpc_status =
  gs_IsStatus :: bool \<comment> \<open>status.FromError recognises the error\<close>
  gs_Code :: grpc_code
  gs_Details :: "string option list"

record RunResponse =
  rr_ExecutionKey :: string
  rr_RunToken :: string
  rr_Refused :: bool

record RunSpec =
  sp_Address :: string
  sp_ExecutionKey :: string
  sp_RunToken :: string
  sp_JobName :: string
  sp_HandlerKey :: string
  sp_Attempt :: int
  sp_ScheduledAt :: time
  sp_SilenceDeadline :: duration
  sp_RemainingTimeout :: duration
  sp_Params :: string

datatype ExecutionState = EXECUTION_STATE_UNSPECIFIED | EXECUTION_STATE_RUNNING | EXECUTION_STATE_FINISHED

record GetExecutionResponse =
  ge_State :: ExecutionState
  ge_RunToken :: string
  ge_Outcome :: "ExecutionOutcome option"

record DescribeResponse =
  ds_ContractVersion :: string
  ds_HandlerKeys :: "string list"
  ds_Handlers :: "(string \<times> string) list" \<comment> \<open>key, description\<close>
  ds_Capacity :: int
  ds_Revision :: string

record network =
  n_conn :: "string \<Rightarrow> bool" \<comment> \<open>a connection to the address can be built\<close>
  n_struct :: "string \<Rightarrow> bool" \<comment> \<open>the parameters encode as a protobuf struct\<close>
  n_run :: "RunSpec \<Rightarrow> grpc_status + RunResponse"
  n_cancel :: "string \<Rightarrow> string \<Rightarrow> string \<Rightarrow> grpc_code"
  n_get :: "string \<Rightarrow> string \<Rightarrow> GetExecutionResponse option"
  n_describe :: "string \<Rightarrow> grpc_code + DescribeResponse"
  n_probe :: "string \<Rightarrow> grpc_code" \<comment> \<open>GetExecution about a key nothing holds\<close>

section \<open>Run\<close>

fun heldToken :: "string option list \<Rightarrow> string" where
  "heldToken [] = []"
| "heldToken (Some held # _) = held"
| "heldToken (None # ds) = heldToken ds"

definition result :: "Answer \<Rightarrow> string \<Rightarrow> Result" where
  "result a tok = \<lparr>rs_Answer = a, rs_HeldToken = tok\<rparr>"

definition classifyRun :: "grpc_status + RunResponse \<Rightarrow> RunSpec \<Rightarrow> Result" where
  "classifyRun reply sent =
     (case reply of
        Inr resp \<Rightarrow>
          if rr_ExecutionKey resp \<noteq> [] \<and> rr_ExecutionKey resp \<noteq> sp_ExecutionKey sent then result Unknown []
          else if rr_RunToken resp \<noteq> [] \<and> rr_RunToken resp \<noteq> sp_RunToken sent then result Unknown (rr_RunToken resp)
          else if rr_Refused resp then result Refused []
          else result Accepted []
      | Inl st \<Rightarrow>
          if \<not> gs_IsStatus st then result Unknown []
          else if gs_Code st = CodeAlreadyExists
          then (let tok = heldToken (gs_Details st) in if tok = [] then result Unknown [] else result Accepted tok)
          else result Unknown [])"

definition Run :: "network \<Rightarrow> RunSpec \<Rightarrow> Result" where
  "Run net spec =
     (if \<not> n_conn net (sp_Address spec) then result Refused []
      else if \<not> n_struct net (sp_Params spec) then result Refused []
      else classifyRun (n_run net spec) spec)"

text \<open>
  A refusal releases the claim, so it has to be proof that the executor did not take the work: either
  nothing was sent, or the executor itself said so, about this execution and this attempt or about none.
\<close>

definition declined :: "network \<Rightarrow> RunSpec \<Rightarrow> bool" where
  "declined net spec \<longleftrightarrow>
     \<not> n_conn net (sp_Address spec) \<or> \<not> n_struct net (sp_Params spec) \<or>
     (\<exists>resp. n_run net spec = Inr resp \<and> rr_Refused resp \<and>
        rr_ExecutionKey resp \<in> {[], sp_ExecutionKey spec} \<and> rr_RunToken resp \<in> {[], sp_RunToken spec})"

lemma Run_refused: "rs_Answer (Run net spec) = Refused \<longleftrightarrow> declined net spec"
  by (auto simp: Run_def declined_def classifyRun_def result_def Let_def split: sum.splits)

lemma classifyRun_status_not_refused: "rs_Answer (classifyRun (Inl st) spec) \<noteq> Refused"
  by (simp add: classifyRun_def result_def Let_def)

section \<open>GetExecution, Cancel\<close>

record reconciliation =
  rc_State :: ExecutionState
  rc_RunToken :: string
  rc_Outcome :: "ExecutionOutcome option"
  rc_Reachable :: bool

definition no_answer :: reconciliation where
  "no_answer = \<lparr>rc_State = EXECUTION_STATE_UNSPECIFIED, rc_RunToken = [], rc_Outcome = None, rc_Reachable = False\<rparr>"

definition GetExecution :: "network \<Rightarrow> string \<Rightarrow> string \<Rightarrow> reconciliation" where
  "GetExecution net address executionKey =
     (if \<not> n_conn net address then no_answer
      else case n_get net address executionKey of
             None \<Rightarrow> no_answer
           | Some resp \<Rightarrow> \<lparr>rc_State = ge_State resp, rc_RunToken = ge_RunToken resp, rc_Outcome = ge_Outcome resp, rc_Reachable = True\<rparr>)"

text \<open>\<open>Cancel\<close> succeeds when the signal was delivered or the executor has nothing to stop.\<close>

definition Cancel :: "network \<Rightarrow> string \<Rightarrow> string \<Rightarrow> string \<Rightarrow> bool" where
  "Cancel net address executionKey runToken \<longleftrightarrow>
     n_conn net address \<and> n_cancel net address executionKey runToken \<in> {CodeOK, CodeNotFound}"

section \<open>Describe\<close>

definition ContractVersion :: string where "ContractVersion = ''1''"

text \<open>The two loops over the declared keys and their descriptions, with the sets built so far.\<close>

fun keys_distinct :: "string list \<Rightarrow> string list \<Rightarrow> bool" where
  "keys_distinct [] seen = True"
| "keys_distinct (k # ks) seen = (k \<noteq> [] \<and> k \<notin> set seen \<and> keys_distinct ks (k # seen))"

fun descriptions_ok :: "string list \<Rightarrow> (string \<times> string) list \<Rightarrow> string list \<Rightarrow> bool" where
  "descriptions_ok keys [] seen = True"
| "descriptions_ok keys ((k, d) # hs) seen =
     (k \<noteq> [] \<and> k \<in> set keys \<and> k \<notin> set seen \<and> length (runes d) \<le> 512 \<and> descriptions_ok keys hs (k # seen))"

definition Describe :: "network \<Rightarrow> string \<Rightarrow> DescribeResponse option" where
  "Describe net address =
     (if \<not> n_conn net address then None
      else case n_describe net address of
             Inl _ \<Rightarrow> None
           | Inr resp \<Rightarrow>
               if ds_ContractVersion resp \<noteq> ContractVersion then None
               else if ds_HandlerKeys resp = [] then None
               else if \<not> keys_distinct (ds_HandlerKeys resp) [] then None
               else if \<not> descriptions_ok (ds_HandlerKeys resp) (ds_Handlers resp) [] then None
               else if n_probe net address = CodeNotFound then Some resp else None)"

lemma keys_distinct_iff: "keys_distinct ks seen \<longleftrightarrow> distinct ks \<and> [] \<notin> set ks \<and> set ks \<inter> set seen = {}"
  by (induction ks arbitrary: seen) auto

lemma descriptions_ok_iff:
  "descriptions_ok keys hs seen \<longleftrightarrow>
     distinct (map fst hs) \<and> set (map fst hs) \<subseteq> set keys - {[]} \<and> set (map fst hs) \<inter> set seen = {} \<and>
     (\<forall>h \<in> set hs. length (runes (snd h)) \<le> 512)"
  by (induction keys hs seen rule: descriptions_ok.induct) auto

section \<open>Budgets on the wire\<close>

definition roundUpSeconds :: "duration \<Rightarrow> int" where
  "roundUpSeconds d = (if d \<le> 0 then 0 else let s = (d + Second - 1) div Second in if s < 1 then 1 else s)"

lemma roundUpSeconds_ceiling:
  assumes "0 < d"
  shows "1 \<le> roundUpSeconds d" "d \<le> roundUpSeconds d * Second" "(roundUpSeconds d - 1) * Second < d"
proof -
  define q where "q = (d + Second - 1) div Second"
  have s: "Second = 1000000000" by simp
  have "Second * q \<le> d + Second - 1" "d + Second - 1 < Second * q + Second"
    unfolding q_def by (rule div_bounds; simp)+
  then have q: "d \<le> q * Second" "(q - 1) * Second < d" unfolding s by (simp_all add: algebra_simps)
  then have "1 \<le> q" using assms unfolding s by linarith
  then have "roundUpSeconds d = q" using assms by (simp add: roundUpSeconds_def Let_def q_def)
  with q \<open>1 \<le> q\<close> show "1 \<le> roundUpSeconds d" "d \<le> roundUpSeconds d * Second" "(roundUpSeconds d - 1) * Second < d" by simp_all
qed

end
