(* ===== verification/Engine.thy ===== *)
theory Engine
  imports Protocol Dispatch Cron "HOL-Library.State_Monad" "HOL-Library.AList"
begin

text \<open>
  The engine of one tenant (\<^verbatim>\<open>src/internal/engine/engine.go\<close>, \<^verbatim>\<open>src/internal/engine/passes.go\<close>): what decides
  when each transaction of the store runs, on the answers of the executors.

  A handler runs in the state monad over a \<open>machine\<close>: the database, the engine's own memory, and the
  calls it has put on the wire. Everything it can observe from outside comes from a sequence \<open>W\<close>, one
  \<open>world\<close> per observation: the clocks, whether the fence and the stop channels let it act, whether the
  database answers, what the executors reply, and what the other instances have done to the database
  since the observation before (\<open>w_others\<close>). Logging is left out.
\<close>

section \<open>The machine and the world\<close>

record Config =
  g_InstanceID :: string
  g_MisfireGrace :: duration
  g_ExecutorLiveness :: duration
  g_ExecutorRetention :: duration
  g_ExecutionSuccessRetention :: duration
  g_ExecutionOtherRetention :: duration
  g_PageSize :: int
  g_BackoffBase :: duration
  g_BackoffMax :: duration
  g_DispatchResendLimit :: int
  g_DispatchResendWindow :: duration

record held =
  hd_h :: Holder
  hd_confirmed :: time

text \<open>
  A call handed to the dispatch client. A \<open>Run\<close> carries the local time, the executor, whether the context was
  still open, so that it could reach the wire, and the result.
\<close>

datatype call =
    RunCall time string RunSpec bool Result
  | CancelCall string string string \<comment> \<open>executor id, execution key, run token\<close>

record machine =
  m_db :: db
  m_tracked :: "(int \<times> held) list"
  m_unhealthy :: "(string \<times> time) list"
  m_rotation :: nat
  m_schedules :: "(string \<times> Expression) list"
  m_wire :: "call list"
  m_tick :: nat

text \<open>\<open>New\<close>: the configuration with its defaults, and an engine that has done nothing yet.\<close>

definition New :: "Config \<Rightarrow> db \<Rightarrow> Config \<times> machine" where
  "New cfg db =
     (let cfg = (if g_ExecutionSuccessRetention cfg \<le> 0 then cfg\<lparr>g_ExecutionSuccessRetention := DefaultExecutionSuccessRetention\<rparr> else cfg);
          cfg = (if g_ExecutionOtherRetention cfg \<le> 0 then cfg\<lparr>g_ExecutionOtherRetention := DefaultExecutionOtherRetention\<rparr> else cfg);
          cfg = (if g_PageSize cfg \<le> 0 then cfg\<lparr>g_PageSize := DefaultRetentionBatchSize\<rparr> else cfg)
      in (cfg, \<lparr>m_db = db, m_tracked = [], m_unhealthy = [], m_rotation = 0, m_schedules = [], m_wire = [], m_tick = 0\<rparr>))"

record world =
  w_env :: env
  w_wall :: time \<comment> \<open>time.Now()\<close>
  w_db :: bool \<comment> \<open>the database answers\<close>
  w_others :: "db \<Rightarrow> db"
  w_stopClaim :: bool
  w_stop :: bool
  w_fence :: bool \<comment> \<open>fence.Check() returns nil\<close>
  w_ctx :: bool \<comment> \<open>the context is done\<close>
  w_net :: network
  w_jitter :: "duration \<Rightarrow> duration"
  w_uuid :: string

type_synonym worlds = "nat \<Rightarrow> world"
type_synonym 'a eng = "(machine, 'a) state"

abbreviation "get \<equiv> State_Monad.get"
abbreviation "put \<equiv> State_Monad.set"
abbreviation "return \<equiv> State_Monad.return"

definition modify :: "(machine \<Rightarrow> machine) \<Rightarrow> unit eng" where
  "modify f = do { s \<leftarrow> get; put (f s) }"

definition observe :: "worlds \<Rightarrow> world eng" where
  "observe W = do {
     s \<leftarrow> get;
     put (s\<lparr>m_tick := Suc (m_tick s), m_db := w_others (W (m_tick s)) (m_db s)\<rparr>);
     return (W (m_tick s)) }"

definition time_now :: "worlds \<Rightarrow> time eng" where
  "time_now W = do { w \<leftarrow> observe W; return (w_wall w) }"

text \<open>A transaction commits or changes nothing; a read changes nothing. Without the database both fail.\<close>

definition tx :: "worlds \<Rightarrow> (env \<Rightarrow> db \<Rightarrow> ('a \<times> db) result) \<Rightarrow> 'a result eng" where
  "tx W f = do {
     w \<leftarrow> observe W;
     s \<leftarrow> get;
     if \<not> w_db w then return (Inl ErrOther)
     else case f (w_env w) (m_db s) of
            Inl e \<Rightarrow> return (Inl e)
          | Inr (r, d) \<Rightarrow> do { put (s\<lparr>m_db := d\<rparr>); return (Inr r) } }"

definition tx_unit :: "worlds \<Rightarrow> (env \<Rightarrow> db \<Rightarrow> db result) \<Rightarrow> unit result eng" where
  "tx_unit W f = tx W (\<lambda>env db. bindE (f env db) (\<lambda>d. Inr ((), d)))"

definition query :: "worlds \<Rightarrow> (env \<Rightarrow> db \<Rightarrow> 'a result) \<Rightarrow> 'a result eng" where
  "query W f = do {
     w \<leftarrow> observe W;
     s \<leftarrow> get;
     return (if w_db w then f (w_env w) (m_db s) else Inl ErrOther) }"

section \<open>Health, backoff, schedules (engine.go)\<close>

definition stopping :: "worlds \<Rightarrow> bool eng" where
  "stopping W = do { w \<leftarrow> observe W; return (w_stopClaim w \<or> \<not> w_fence w) }"

definition renewing :: "worlds \<Rightarrow> bool eng" where
  "renewing W = do { w \<leftarrow> observe W; return (\<not> w_stop w \<and> w_fence w) }"

definition mayRecover :: "worlds \<Rightarrow> bool \<Rightarrow> bool eng" where
  "mayRecover W adopt = (if adopt then do { b \<leftarrow> stopping W; return (\<not> b) } else renewing W)"

definition dispatchQuarantine :: "Config \<Rightarrow> duration" where
  "dispatchQuarantine cfg = (if 0 < g_ExecutorLiveness cfg then g_ExecutorLiveness cfg else 30 * Second)"

definition markUnhealthy :: "Config \<Rightarrow> worlds \<Rightarrow> string \<Rightarrow> unit eng" where
  "markUnhealthy cfg W executorID = do {
     t \<leftarrow> time_now W;
     modify (\<lambda>s. s\<lparr>m_unhealthy := AList.update executorID (t + dispatchQuarantine cfg) (m_unhealthy s)\<rparr>) }"

definition dispatchHealthy :: "worlds \<Rightarrow> string \<Rightarrow> bool eng" where
  "dispatchHealthy W executorID = do {
     s \<leftarrow> get;
     case map_of (m_unhealthy s) executorID of
       None \<Rightarrow> return True
     | Some until \<Rightarrow> do {
         t \<leftarrow> time_now W;
         if until < t then do {
           modify (\<lambda>s. s\<lparr>m_unhealthy := AList.delete executorID (m_unhealthy s)\<rparr>);
           return True }
         else return False } }"

definition silenceSeconds :: "Config \<Rightarrow> int" where
  "silenceSeconds cfg = (let s = g_ExecutorLiveness cfg div Second in if s < 1 then 30 else s)"

text \<open>The doubling loop of \<open>backoff\<close>, a 64-bit product. \<open>jitter\<close> draws from \<open>[0, d)\<close>.\<close>

primrec double_below :: "duration \<Rightarrow> nat \<Rightarrow> duration \<Rightarrow> duration" where
  "double_below mx 0 d = d"
| "double_below mx (Suc n) d = (if d < mx then double_below mx n (int64 (d * 2)) else d)"

definition backoff_base :: "Config \<Rightarrow> duration" where
  "backoff_base cfg = (if g_BackoffBase cfg \<le> 0 then 5 * Second else g_BackoffBase cfg)"

definition backoff_max :: "Config \<Rightarrow> duration" where
  "backoff_max cfg = (if g_BackoffMax cfg \<le> 0 then 5 * Minute else g_BackoffMax cfg)"

definition backoff_seconds :: "Config \<Rightarrow> (duration \<Rightarrow> duration) \<Rightarrow> int \<Rightarrow> int" where
  "backoff_seconds cfg jitter attempt =
     (let mx = backoff_max cfg;
          d = double_below mx (nat attempt) (backoff_base cfg);
          d = (if mx < d then mx else d);
          d = d + (if d div 4 \<le> 0 then 0 else jitter (d div 4));
          s = d div Second
      in if s < 1 then 1 else s)"

definition backoff :: "Config \<Rightarrow> worlds \<Rightarrow> int \<Rightarrow> int eng" where
  "backoff cfg W attempt = do { w \<leftarrow> observe W; return (backoff_seconds cfg (w_jitter w) attempt) }"

text \<open>\<open>compile\<close> with its cache; the schedule of an expression in the business location.\<close>

definition of_cron :: "cron_error + 'a \<Rightarrow> 'a result" where
  "of_cron r = (case r of Inl _ \<Rightarrow> Inl ErrOther | Inr x \<Rightarrow> Inr x)"

definition cron_schedule :: "location \<Rightarrow> Expression \<Rightarrow> Schedule" where
  "cron_schedule loc e =
     \<lparr>Next = (\<lambda>t. of_cron (expr_Next e loc t)),
      Latest = (\<lambda>t h. of_cron (expr_Latest e loc t h)),
      CountBetween = (\<lambda>t u n. of_cron (expr_CountBetween e loc t u n))\<rparr>"

definition compile_expr :: "(string \<times> Expression) list \<Rightarrow> Definition \<Rightarrow> Expression result" where
  "compile_expr cache def =
     (if d_ScheduleKind def \<noteq> ScheduleCron then Inl ErrProtocol
      else case map_of cache (d_ScheduleExpr def) of
             Some got \<Rightarrow> Inr got
           | None \<Rightarrow> of_cron (Parse (d_ScheduleExpr def)))"

definition compile :: "location \<Rightarrow> (string \<times> Expression) list \<Rightarrow> Compile" where
  "compile loc cache def = bindE (compile_expr cache def) (\<lambda>e. Inr (cron_schedule loc e))"

definition compiled :: "(string \<times> Expression) list \<Rightarrow> Definition \<Rightarrow> (string \<times> Expression) list" where
  "compiled cache def = (case compile_expr cache def of Inl _ \<Rightarrow> cache | Inr e \<Rightarrow> AList.update (d_ScheduleExpr def) e cache)"

section \<open>The heartbeat set (engine.go)\<close>

definition defaultLease :: duration where "defaultLease = 30 * Second"

definition track :: "Holder \<Rightarrow> time \<Rightarrow> machine \<Rightarrow> machine" where
  "track h since s = s\<lparr>m_tracked := AList.update (h_ExecutionID h) \<lparr>hd_h = h, hd_confirmed = since\<rparr> (m_tracked s)\<rparr>"

definition confirmHold :: "int \<Rightarrow> int \<Rightarrow> time \<Rightarrow> machine \<Rightarrow> machine" where
  "confirmHold i epoch since s =
     (case map_of (m_tracked s) i of
        None \<Rightarrow> s
      | Some cur \<Rightarrow>
          if h_FenceEpoch (hd_h cur) = epoch \<and> hd_confirmed cur < since
          then s\<lparr>m_tracked := AList.update i (cur\<lparr>hd_confirmed := since\<rparr>) (m_tracked s)\<rparr> else s)"

definition hold_left :: "(int \<times> held) list \<Rightarrow> int \<Rightarrow> int \<Rightarrow> duration \<Rightarrow> time \<Rightarrow> duration" where
  "hold_left tracked i epoch lease0 t =
     (let lease = (if lease0 \<le> 0 then defaultLease else lease0) in
      case map_of tracked i of
        None \<Rightarrow> 0
      | Some cur \<Rightarrow>
          if h_FenceEpoch (hd_h cur) \<noteq> epoch then 0
          else max 0 ((lease - lease div 5) - (t - hd_confirmed cur)))"

definition holdRemaining :: "worlds \<Rightarrow> int \<Rightarrow> int \<Rightarrow> duration \<Rightarrow> duration eng" where
  "holdRemaining W i epoch lease = do {
     t \<leftarrow> time_now W;
     s \<leftarrow> get;
     return (hold_left (m_tracked s) i epoch lease t) }"

definition untrack :: "int \<Rightarrow> int \<Rightarrow> machine \<Rightarrow> machine" where
  "untrack i epoch s =
     (case map_of (m_tracked s) i of
        None \<Rightarrow> s
      | Some cur \<Rightarrow>
          if h_FenceEpoch (hd_h cur) = epoch then s\<lparr>m_tracked := AList.delete i (m_tracked s)\<rparr> else s)"

text \<open>The order of a Go map is arbitrary; the order of the list stands for it.\<close>

definition holders :: "machine \<Rightarrow> Holder list" where
  "holders s = map (\<lambda>(_, t). hd_h t) (m_tracked s)"

definition Tracking :: "machine \<Rightarrow> nat" where
  "Tracking s = length (m_tracked s)"

definition leaseSecondsFor :: "worlds \<Rightarrow> string \<Rightarrow> int eng" where
  "leaseSecondsFor W jobName = do {
     r \<leftarrow> query W (\<lambda>env db. readDefinition db jobName);
     return (case r of
               Inl _ \<Rightarrow> defaultLease div Second
             | Inr def \<Rightarrow> if d_Lease def \<le> 0 then defaultLease div Second else d_Lease def div Second) }"

text \<open>A loop over items that asks before each whether it may go on; it says whether it got to the end.\<close>

fun each_while :: "bool eng \<Rightarrow> ('a \<Rightarrow> unit eng) \<Rightarrow> 'a list \<Rightarrow> bool eng" where
  "each_while go body [] = return True"
| "each_while go body (x # xs) = do {
     ok \<leftarrow> go;
     if ok then do { body x; each_while go body xs } else return False }"

definition heartbeat_one :: "worlds \<Rightarrow> Holder \<Rightarrow> unit eng" where
  "heartbeat_one W h = do {
     lease \<leftarrow> leaseSecondsFor W (h_JobName h);
     proved \<leftarrow> time_now W;
     r \<leftarrow> tx_unit W (\<lambda>env. Renew env h lease);
     case r of
       Inr _ \<Rightarrow> modify (confirmHold (h_ExecutionID h) (h_FenceEpoch h) proved)
     | Inl e \<Rightarrow> if e = ErrFenced then modify (untrack (h_ExecutionID h) (h_FenceEpoch h)) else return () }"

definition heartbeatPass :: "worlds \<Rightarrow> bool eng" where
  "heartbeatPass W = do { s \<leftarrow> get; each_while (renewing W) (heartbeat_one W) (holders s) }"

definition reapPass :: "Config \<Rightarrow> worlds \<Rightarrow> Orphan list eng" where
  "reapPass cfg W = do {
     _ \<leftarrow> tx W (\<lambda>env. ReapExecutions env (g_ExecutionSuccessRetention cfg) (g_ExecutionOtherRetention cfg) (g_PageSize cfg));
     _ \<leftarrow> tx W (\<lambda>env db. Inr (ReapExecutors env (g_ExecutorRetention cfg) db));
     r \<leftarrow> query W (\<lambda>env db. Inr (Orphans env db (g_ExecutorLiveness cfg)));
     return (case r of Inl _ \<Rightarrow> [] | Inr os \<Rightarrow> os) }"

end
