(* ===== verification/Passes.thy ===== *)
theory Passes
  imports Engine
begin

text \<open>
  The passes of the engine (\<^verbatim>\<open>src/internal/engine/passes.go\<close>) and the retirement of a tenant
  (\<open>ReleaseOwnedWork\<close>, \<^verbatim>\<open>src/internal/engine/engine.go\<close>).
\<close>

section \<open>Materialization and drift\<close>

definition remember :: "string \<Rightarrow> unit eng" where
  "remember jobName = modify (\<lambda>s.
     case readDefinition (m_db s) jobName of
       Inl _ \<Rightarrow> s
     | Inr def \<Rightarrow> s\<lparr>m_schedules := compiled (m_schedules s) def\<rparr>)"

definition may_claim :: "worlds \<Rightarrow> bool eng" where
  "may_claim W = do { b \<leftarrow> stopping W; return (\<not> b) }"

definition materialize_cron_one :: "Config \<Rightarrow> location \<Rightarrow> worlds \<Rightarrow> DueJob \<Rightarrow> unit eng" where
  "materialize_cron_one cfg loc W d = do {
     s \<leftarrow> get;
     r \<leftarrow> tx W (\<lambda>env. MaterializeCron env (u_JobName d) (compile loc (m_schedules s)) (g_MisfireGrace cfg));
     remember (u_JobName d) }"

definition materialize_poll_one :: "Config \<Rightarrow> location \<Rightarrow> worlds \<Rightarrow> DueJob \<Rightarrow> unit eng" where
  "materialize_poll_one cfg loc W d = do {
     w \<leftarrow> observe W;
     s \<leftarrow> get;
     r \<leftarrow> tx W (\<lambda>env. MaterializePoll env (u_JobName d) (ExecutionKey ''p'' (u_JobName d) (w_uuid w)) (compile loc (m_schedules s)));
     return () }"

definition materializePass :: "Config \<Rightarrow> location \<Rightarrow> worlds \<Rightarrow> unit eng" where
  "materializePass cfg loc W = do {
     due \<leftarrow> query W (\<lambda>env db. Inr (DueCron env db (g_PageSize cfg)));
     done \<leftarrow> each_while (may_claim W) (materialize_cron_one cfg loc W) (case due of Inl _ \<Rightarrow> [] | Inr ds \<Rightarrow> ds);
     if \<not> done then return ()
     else do {
       polls \<leftarrow> query W (\<lambda>env db. Inr (DuePoll env db (g_PageSize cfg)));
       _ \<leftarrow> each_while (may_claim W) (materialize_poll_one cfg loc W) (case polls of Inl _ \<Rightarrow> [] | Inr ds \<Rightarrow> ds);
       return () } }"

definition drift_one :: "location \<Rightarrow> worlds \<Rightarrow> string \<Rightarrow> unit eng" where
  "drift_one loc W name = do {
     s \<leftarrow> get;
     _ \<leftarrow> tx W (\<lambda>env. Recompute env name (compile loc (m_schedules s)));
     remember name }"

definition driftPass :: "Config \<Rightarrow> location \<Rightarrow> worlds \<Rightarrow> bool eng" where
  "driftPass cfg loc W = do {
     names \<leftarrow> query W (\<lambda>env db. Inr (Drifted db (g_PageSize cfg)));
     each_while (may_claim W) (drift_one loc W) (case names of Inl _ \<Rightarrow> [] | Inr ns \<Rightarrow> ns) }"

section \<open>Routing\<close>

definition headroom :: "Executor \<Rightarrow> int" where
  "headroom x = (let capacity = (if x_Capacity x \<le> 0 then 1 else x_Capacity x) in capacity - x_Running x)"

text \<open>
  Healthy executors first, the roomiest first among them; the sort is stable. The health of each executor is read
  once, before the sort; the source reads it again at every comparison.
\<close>

definition ranked :: "(bool \<times> Executor) list \<Rightarrow> (bool \<times> Executor) list" where
  "ranked hs = sort_key (\<lambda>(h, x). (\<not> h, - headroom x)) hs"

definition leaders :: "(bool \<times> Executor) list \<Rightarrow> nat" where
  "leaders hs = (case hs of [] \<Rightarrow> 0 | (h0, x0) # _ \<Rightarrow> length (takeWhile (\<lambda>(h, x). h = h0 \<and> headroom x = headroom x0) hs))"

definition take_turns :: "nat \<Rightarrow> nat \<Rightarrow> 'a list \<Rightarrow> 'a list" where
  "take_turns n lead xs = take (lead - n) (drop n xs) @ take n xs @ drop lead xs"

definition pickExecutors :: "Config \<Rightarrow> worlds \<Rightarrow> Definition \<Rightarrow> Executor list result eng" where
  "pickExecutors cfg W def = do {
     r \<leftarrow> query W (\<lambda>env db. Inr (LiveExecutors env db (d_HandlerKey def) (d_ExecutorGroup def) (g_ExecutorLiveness cfg)));
     case r of
       Inl e \<Rightarrow> return (Inl e)
     | Inr xs \<Rightarrow>
         if xs = [] then return (Inl ErrNotRunnable)
         else do {
           health \<leftarrow> State_Monad.traverse_list (\<lambda>x. dispatchHealthy W (x_ExecutorID x)) xs;
           let order = ranked (zip health xs); lead = leaders order in
           if 1 < lead then do {
             modify (\<lambda>s. s\<lparr>m_rotation := m_rotation s + 1\<rparr>);
             s \<leftarrow> get;
             return (Inr (take_turns (m_rotation s mod lead) lead (map snd order))) }
           else return (Inr (map snd order)) } }"

section \<open>Dispatch\<close>

definition addressOf :: "worlds \<Rightarrow> string \<Rightarrow> string option eng" where
  "addressOf W executorID = do {
     r \<leftarrow> query W (\<lambda>env db. Inr (ExecutorAddress db executorID));
     return (case r of Inl _ \<Rightarrow> None | Inr addr \<Rightarrow> if addr = [] then None else Some addr) }"

definition releaseUndispatchable :: "worlds \<Rightarrow> ClaimParams \<Rightarrow> int \<Rightarrow> unit eng" where
  "releaseUndispatchable W p epoch = do {
     _ \<leftarrow> tx_unit W (\<lambda>env. Refuse env p epoch);
     modify (untrack (p_ExecutionID p) epoch) }"

text \<open>
  One call of the client under a context that expires \<open>cap\<close> after it is created: the request reaches the
  wire only if the process gets there in time.
\<close>

definition late_reply :: "network \<Rightarrow> network" where
  "late_reply net = net\<lparr>n_run := (\<lambda>_. Inl \<lparr>gs_IsStatus = True, gs_Code = CodeOther, gs_Details = []\<rparr>)\<rparr>"

definition send :: "worlds \<Rightarrow> duration \<Rightarrow> string \<Rightarrow> RunSpec \<Rightarrow> Result eng" where
  "send W cap executorID spec = do {
     t \<leftarrow> time_now W;
     w \<leftarrow> observe W;
     let open' = (\<not> w_ctx w \<and> w_wall w - t < cap); res = Run (if open' then w_net w else late_reply (w_net w)) spec in do {
     modify (\<lambda>s. s\<lparr>m_wire := m_wire s @ [RunCall (w_wall w) executorID spec open' res]\<rparr>);
     return res } }"

text \<open>What a re-send checks first: the window, the right to act, and what is left of the runtime cap.\<close>

definition resend_check :: "Config \<Rightarrow> worlds \<Rightarrow> Holder \<Rightarrow> RunSpec \<Rightarrow> Executor \<Rightarrow> time \<Rightarrow> RunSpec option eng" where
  "resend_check cfg W h spec target deadline = do {
     t \<leftarrow> time_now W;
     if deadline < t then do { markUnhealthy cfg W (x_ExecutorID target); return None }
     else do {
       stop \<leftarrow> stopping W;
       if stop then return None
       else do {
         r \<leftarrow> query W (\<lambda>env db. ExecutionByKey env db (h_ExecutionKey h));
         return (case r of
                   Inl _ \<Rightarrow> None
                 | Inr cur \<Rightarrow> if v_RemainingTimeout cur \<le> 0 then None
                              else Some (spec\<lparr>sp_RemainingTimeout := v_RemainingTimeout cur\<rparr>)) } } }"

text \<open>What an acceptance leads to: only one naming this attempt is recorded, and only a recorded one counts.\<close>

definition accepted :: "Config \<Rightarrow> worlds \<Rightarrow> Holder \<Rightarrow> Result \<Rightarrow> Answer eng" where
  "accepted cfg W h res =
     (if rs_HeldToken res \<noteq> [] \<and> rs_HeldToken res \<noteq> h_RunToken h then return Unknown
      else do {
        r \<leftarrow> tx_unit W (\<lambda>env. Accept env (h_ExecutionID h) (h_RunToken h) (h_FenceEpoch h) (silenceSeconds cfg));
        case r of
          Inr _ \<Rightarrow> return Accepted
        | Inl _ \<Rightarrow> do { modify (untrack (h_ExecutionID h) (h_FenceEpoch h)); return Unknown } })"

text \<open>
  \<open>attemptDispatch\<close>. One round of its loop, then the loop; the number counts the re-sends still allowed,
  since an unknown outcome ends the loop when \<open>attempt + 1\<close> reaches the limit.
\<close>

definition attempt_once ::
  "bool \<Rightarrow> Config \<Rightarrow> worlds \<Rightarrow> Holder \<Rightarrow> Definition \<Rightarrow> Executor \<Rightarrow> time \<Rightarrow> RunSpec \<Rightarrow> (RunSpec \<Rightarrow> Answer eng) \<Rightarrow> Answer eng" where
  "attempt_once first cfg W h def target deadline spec0 again = do {
     stop \<leftarrow> stopping W;
     if stop then return Unknown
     else do {
       ownership \<leftarrow> holdRemaining W (h_ExecutionID h) (h_FenceEpoch h) (d_Lease def);
       if ownership \<le> 0 then do { modify (untrack (h_ExecutionID h) (h_FenceEpoch h)); return Unknown }
       else do {
         checked \<leftarrow> (if first then return (Some spec0) else resend_check cfg W h spec0 target deadline);
         case checked of
           None \<Rightarrow> return Unknown
         | Some spec \<Rightarrow> do {
             t \<leftarrow> time_now W;
             let cap = min ownership (deadline - t) in
             if cap \<le> 0 then do { modify (untrack (h_ExecutionID h) (h_FenceEpoch h)); return Unknown }
             else do {
               res \<leftarrow> send W cap (x_ExecutorID target) spec;
               case rs_Answer res of
                 Accepted \<Rightarrow> accepted cfg W h res
               | Refused \<Rightarrow> return Refused
               | Unknown \<Rightarrow> again spec } } } } }"

primrec attempt_loop ::
  "nat \<Rightarrow> bool \<Rightarrow> Config \<Rightarrow> worlds \<Rightarrow> Holder \<Rightarrow> Definition \<Rightarrow> Executor \<Rightarrow> time \<Rightarrow> RunSpec \<Rightarrow> Answer eng" where
  "attempt_loop 0 first cfg W h def target deadline spec =
     attempt_once first cfg W h def target deadline spec
       (\<lambda>_. do { markUnhealthy cfg W (x_ExecutorID target); return Unknown })"
| "attempt_loop (Suc n) first cfg W h def target deadline spec =
     attempt_once first cfg W h def target deadline spec
       (\<lambda>spec. do {
          w \<leftarrow> observe W;
          if w_ctx w \<or> w_stop w then return Unknown
          else attempt_loop n False cfg W h def target deadline spec })"

definition attemptDispatch ::
  "Config \<Rightarrow> worlds \<Rightarrow> Holder \<Rightarrow> Definition \<Rightarrow> RunSpec \<Rightarrow> Executor \<Rightarrow> time \<Rightarrow> Answer eng" where
  "attemptDispatch cfg W h def spec target deadline =
     attempt_loop (nat (g_DispatchResendLimit cfg - 1)) True cfg W h def target deadline spec"

definition run_spec :: "Config \<Rightarrow> Holder \<Rightarrow> Definition \<Rightarrow> Stale \<Rightarrow> Executor \<Rightarrow> duration \<Rightarrow> RunSpec" where
  "run_spec cfg h def snapshot target remaining =
     \<lparr>sp_Address = x_Address target, sp_ExecutionKey = h_ExecutionKey h, sp_RunToken = h_RunToken h,
      sp_JobName = d_JobName def, sp_HandlerKey = d_HandlerKey def, sp_Attempt = v_AttemptNo snapshot + 1,
      sp_ScheduledAt = v_ScheduledAt snapshot, sp_SilenceDeadline = silenceSeconds cfg * Second,
      sp_RemainingTimeout = remaining, sp_Params = v_Params snapshot\<rparr>"

text \<open>
  Before a second executor is tried: the budget is read again and the new target recorded. \<open>None\<close> means the
  dispatch is over, the claim released unless it was fenced.
\<close>

definition next_target :: "worlds \<Rightarrow> Holder \<Rightarrow> ClaimParams \<Rightarrow> Executor \<Rightarrow> duration option eng" where
  "next_target W h p target = do {
     r \<leftarrow> query W (\<lambda>env db. ExecutionByKey env db (h_ExecutionKey h));
     case r of
       Inl _ \<Rightarrow> do { releaseUndispatchable W p (h_FenceEpoch h); return None }
     | Inr cur \<Rightarrow>
         if v_RemainingTimeout cur \<le> 0 then do { releaseUndispatchable W p (h_FenceEpoch h); return None }
         else do {
           m \<leftarrow> tx_unit W (\<lambda>env. Retarget env h (x_ExecutorID target));
           case m of
             Inr _ \<Rightarrow> return (Some (v_RemainingTimeout cur))
           | Inl e \<Rightarrow>
               if e = ErrFenced then do { modify (untrack (h_ExecutionID h) (h_FenceEpoch h)); return None }
               else do { releaseUndispatchable W p (h_FenceEpoch h); return None } } }"

primrec try_targets ::
  "Executor list \<Rightarrow> bool \<Rightarrow> Config \<Rightarrow> worlds \<Rightarrow> Holder \<Rightarrow> Definition \<Rightarrow> Stale \<Rightarrow> ClaimParams \<Rightarrow> time \<Rightarrow> duration \<Rightarrow> unit eng" where
  "try_targets [] first cfg W h def snapshot p deadline remaining = releaseUndispatchable W p (h_FenceEpoch h)"
| "try_targets (target # targets) first cfg W h def snapshot p deadline remaining = do {
     budget \<leftarrow> (if first then return (Some remaining) else next_target W h p target);
     case budget of
       None \<Rightarrow> return ()
     | Some left \<Rightarrow> do {
         a \<leftarrow> attemptDispatch cfg W h def (run_spec cfg h def snapshot target left) target deadline;
         case a of
           Accepted \<Rightarrow> return ()
         | Unknown \<Rightarrow> modify (untrack (h_ExecutionID h) (h_FenceEpoch h))
         | Refused \<Rightarrow> try_targets targets False cfg W h def snapshot p deadline left } }"

text \<open>\<open>dispatch\<close>; \<open>params_ok\<close> says whether \<open>decodeParams\<close> reads the stored parameters as a JSON object.\<close>

definition dispatch ::
  "(string \<Rightarrow> bool) \<Rightarrow> Config \<Rightarrow> worlds \<Rightarrow> Holder \<Rightarrow> Definition \<Rightarrow> Stale \<Rightarrow> Executor list \<Rightarrow> ClaimParams \<Rightarrow> unit eng" where
  "dispatch params_ok cfg W h def snapshot targets p =
     (if v_Params snapshot \<noteq> [] \<and> \<not> params_ok (v_Params snapshot) then releaseUndispatchable W p (h_FenceEpoch h)
      else if v_RemainingTimeout snapshot \<le> 0 then releaseUndispatchable W p (h_FenceEpoch h)
      else do {
        t \<leftarrow> time_now W;
        try_targets targets True cfg W h def snapshot p (t + g_DispatchResendWindow cfg) (v_RemainingTimeout snapshot) })"

definition claim_params :: "Config \<Rightarrow> Candidate \<Rightarrow> string \<Rightarrow> int \<Rightarrow> Executor list \<Rightarrow> ClaimParams" where
  "claim_params cfg c token back targets =
     \<lparr>p_ExecutionID = c_ID c, p_JobName = c_JobName c, p_ExecutionKey = c_ExecutionKey c,
      p_Owner = g_InstanceID cfg, p_ExecutorID = (case targets of [] \<Rightarrow> [] | x # _ \<Rightarrow> x_ExecutorID x),
      p_RunToken = token, p_BackoffSeconds = back\<rparr>"

definition claimed_as :: "ClaimParams \<Rightarrow> int \<Rightarrow> Holder" where
  "claimed_as p epoch =
     \<lparr>h_JobName = p_JobName p, h_ExecutionID = p_ExecutionID p, h_ExecutionKey = p_ExecutionKey p,
      h_Owner = p_Owner p, h_RunToken = p_RunToken p, h_FenceEpoch = epoch\<rparr>"

definition claimAndDispatch :: "(string \<Rightarrow> bool) \<Rightarrow> Config \<Rightarrow> worlds \<Rightarrow> Candidate \<Rightarrow> unit eng" where
  "claimAndDispatch params_ok cfg W c = do {
     d \<leftarrow> query W (\<lambda>env db. readDefinition db (c_JobName c));
     case d of
       Inl _ \<Rightarrow> return ()
     | Inr def \<Rightarrow> do {
         picked \<leftarrow> pickExecutors cfg W def;
         let targets = (case picked of Inl _ \<Rightarrow> [] | Inr xs \<Rightarrow> xs) in do {
         u \<leftarrow> observe W;
         back \<leftarrow> backoff cfg W 0;
         let p = claim_params cfg c (w_uuid u) back targets in do {
         stop \<leftarrow> stopping W;
         if stop then return ()
         else do {
           claimedAt \<leftarrow> time_now W;
           r \<leftarrow> tx W (\<lambda>env. Claim env p (runnableFor (g_ExecutorLiveness cfg) targets));
           case r of
             Inl _ \<Rightarrow> return ()
           | Inr res \<Rightarrow>
               if cr_Outcome res \<noteq> ClaimAcquired then return ()
               else let h = claimed_as p (cr_FenceEpoch res) in do {
                 modify (track h claimedAt);
                 if targets = [] then releaseUndispatchable W p (cr_FenceEpoch res)
                 else do {
                   snap \<leftarrow> query W (\<lambda>env db. ExecutionByKey env db (c_ExecutionKey c));
                   case snap of
                     Inl _ \<Rightarrow> releaseUndispatchable W p (cr_FenceEpoch res)
                   | Inr snapshot \<Rightarrow> dispatch params_ok cfg W h (cr_Definition res) snapshot targets p } } } } } } }"

definition may_dispatch :: "worlds \<Rightarrow> bool eng" where
  "may_dispatch W = do { b \<leftarrow> stopping W; if b then return False else do { w \<leftarrow> observe W; return (\<not> w_ctx w) } }"

definition dispatch_page :: "(string \<Rightarrow> bool) \<Rightarrow> Config \<Rightarrow> worlds \<Rightarrow> bool \<Rightarrow> bool eng" where
  "dispatch_page params_ok cfg W manual = do {
     r \<leftarrow> query W (\<lambda>env db. Inr (ReadyCandidates env db manual (g_PageSize cfg)));
     each_while (may_dispatch W) (claimAndDispatch params_ok cfg W) (case r of Inl _ \<Rightarrow> [] | Inr cs \<Rightarrow> cs) }"

definition dispatchPass :: "(string \<Rightarrow> bool) \<Rightarrow> Config \<Rightarrow> worlds \<Rightarrow> bool eng" where
  "dispatchPass params_ok cfg W = do {
     done \<leftarrow> dispatch_page params_ok cfg W True;
     if done then dispatch_page params_ok cfg W False else return False }"

section \<open>Reconciliation\<close>

text \<open>Phase 2 of recovery: an RPC outside any transaction, to the executor on record.\<close>

definition ask :: "worlds \<Rightarrow> Stale \<Rightarrow> reconciliation eng" where
  "ask W v =
     (if v_DispatchedTo v = [] then return no_answer
      else do {
        a \<leftarrow> addressOf W (v_DispatchedTo v);
        case a of
          None \<Rightarrow> return no_answer
        | Some addr \<Rightarrow> do { w \<leftarrow> observe W; return (GetExecution (w_net w) addr (v_ExecutionKey v)) } })"

text \<open>An answer about another attempt, or about none, proves nothing, except that a running handler holds the key.\<close>

definition foreign :: "reconciliation \<Rightarrow> Stale \<Rightarrow> bool" where
  "foreign rec v \<longleftrightarrow> rc_Reachable rec \<and> rc_RunToken rec \<noteq> v_RunToken v"

definition runs :: "reconciliation \<Rightarrow> bool" where
  "runs rec \<longleftrightarrow> rc_Reachable rec \<and> rc_State rec = EXECUTION_STATE_RUNNING"

definition finishedOutcomeIsUsable :: "ExecutionOutcome option \<Rightarrow> bool" where
  "finishedOutcomeIsUsable o' = (case o' of None \<Rightarrow> False | Some oc \<Rightarrow> eo_Disposition oc \<noteq> DISPOSITION_UNSPECIFIED)"

definition finishedOutcome :: "reconciliation \<Rightarrow> ExecutionOutcome option" where
  "finishedOutcome rec =
     (if rc_Reachable rec \<and> rc_State rec = EXECUTION_STATE_FINISHED \<and> finishedOutcomeIsUsable (rc_Outcome rec)
      then rc_Outcome rec else None)"

definition requestStop :: "worlds \<Rightarrow> Stale \<Rightarrow> unit eng" where
  "requestStop W v =
     (if v_DispatchedTo v = [] then return ()
      else do {
        a \<leftarrow> addressOf W (v_DispatchedTo v);
        case a of
          None \<Rightarrow> return ()
        | Some addr \<Rightarrow> modify (\<lambda>s. s\<lparr>m_wire := m_wire s @ [CancelCall (v_DispatchedTo v) (v_ExecutionKey v) (v_RunToken v)]\<rparr>) })"

definition fenceTimedOut :: "worlds \<Rightarrow> Stale \<Rightarrow> unit eng" where
  "fenceTimedOut W v = do {
     requestStop W v;
     r \<leftarrow> tx_unit W (\<lambda>env. FenceTimedOut env v);
     case r of Inl _ \<Rightarrow> return () | Inr _ \<Rightarrow> modify (untrack (v_ID v) (v_FenceEpoch v)) }"

definition applyOutcome :: "Config \<Rightarrow> worlds \<Rightarrow> Holder \<Rightarrow> ExecutionOutcome \<Rightarrow> string \<Rightarrow> unit eng" where
  "applyOutcome cfg W h oc executorID = do {
     back \<leftarrow> backoff cfg W 0;
     _ \<leftarrow> tx_unit W (\<lambda>env. Apply env h oc executorID back);
     modify (untrack (h_ExecutionID h) (h_FenceEpoch h)) }"

definition held_as :: "Config \<Rightarrow> Stale \<Rightarrow> int \<Rightarrow> Holder" where
  "held_as cfg v epoch =
     \<lparr>h_JobName = v_JobName v, h_ExecutionID = v_ID v, h_ExecutionKey = v_ExecutionKey v,
      h_Owner = g_InstanceID cfg, h_RunToken = v_RunToken v, h_FenceEpoch = epoch\<rparr>"

text \<open>\<open>Adopt\<close> as the two recovery paths call it, \<open>finish\<close> being what follows a successful adoption.\<close>

definition adopt_then :: "Config \<Rightarrow> worlds \<Rightarrow> Stale \<Rightarrow> bool \<Rightarrow> (int \<Rightarrow> unit eng) \<Rightarrow> bool eng" where
  "adopt_then cfg W v promote finish = do {
     lease \<leftarrow> leaseSecondsFor W (v_JobName v);
     r \<leftarrow> tx W (\<lambda>env. Adopt env v (g_InstanceID cfg) lease (silenceSeconds cfg) promote);
     case r of
       Inr epoch \<Rightarrow> do { finish epoch; return True }
     | Inl e \<Rightarrow>
         if e = ErrCapElapsed then do { fenceTimedOut W v; return True }
         else return (e = ErrContended) }"

definition adoptResult :: "Config \<Rightarrow> worlds \<Rightarrow> Stale \<Rightarrow> ExecutionOutcome \<Rightarrow> bool eng" where
  "adoptResult cfg W v oc =
     adopt_then cfg W v False (\<lambda>epoch. applyOutcome cfg W (held_as cfg v epoch) oc (v_DispatchedTo v))"

definition adopt_running :: "Config \<Rightarrow> worlds \<Rightarrow> Stale \<Rightarrow> bool eng" where
  "adopt_running cfg W v = do {
     adoptedAt \<leftarrow> time_now W;
     adopt_then cfg W v True (\<lambda>epoch. modify (track (held_as cfg v epoch) adoptedAt)) }"

definition resolve_unknown :: "Config \<Rightarrow> worlds \<Rightarrow> Stale \<Rightarrow> bool eng" where
  "resolve_unknown cfg W v = do {
     back \<leftarrow> backoff cfg W (v_RecoveryCount v);
     r \<leftarrow> tx W (\<lambda>env. Resolve env v back);
     case r of
       Inl e \<Rightarrow> return (e = ErrContended)
     | Inr _ \<Rightarrow> do { modify (untrack (v_ID v) (v_FenceEpoch v)); return True } }"

definition recoverOne :: "Config \<Rightarrow> worlds \<Rightarrow> Stale \<Rightarrow> bool \<Rightarrow> bool eng" where
  "recoverOne cfg W v adopt = do {
     answer \<leftarrow> ask W v;
     if foreign answer v \<and> runs answer then return False
     else let rec = (if foreign answer v then no_answer else answer) in do {
       may \<leftarrow> mayRecover W adopt;
       if \<not> may then return False
       else if runs rec \<and> \<not> adopt then return False
       else if runs rec then adopt_running cfg W v
       else case finishedOutcome rec of
              Some oc \<Rightarrow> adoptResult cfg W v oc
            | None \<Rightarrow> resolve_unknown cfg W v } }"

text \<open>\<open>recoverStale\<close>: a page, then pages; the answer says whether anything was left unsettled.\<close>

fun recover_page :: "Config \<Rightarrow> worlds \<Rightarrow> bool \<Rightarrow> Stale list \<Rightarrow> nat \<Rightarrow> bool \<Rightarrow> (nat \<times> bool) option eng" where
  "recover_page cfg W adopt [] settled unsettled = return (Some (settled, unsettled))"
| "recover_page cfg W adopt (v # vs) settled unsettled = do {
     may \<leftarrow> mayRecover W adopt;
     if \<not> may then return None
     else do {
       ok \<leftarrow> recoverOne cfg W v adopt;
       if ok then recover_page cfg W adopt vs (Suc settled) unsettled
       else recover_page cfg W adopt vs settled True } }"

primrec recover_pages :: "nat \<Rightarrow> Config \<Rightarrow> worlds \<Rightarrow> bool \<Rightarrow> bool \<Rightarrow> bool eng" where
  "recover_pages 0 cfg W adopt unsettled = return True"
| "recover_pages (Suc n) cfg W adopt unsettled = do {
     r \<leftarrow> query W (\<lambda>env db. Inr (StaleExecutions env db (g_PageSize cfg)));
     case r of
       Inl _ \<Rightarrow> return True
     | Inr stale \<Rightarrow>
         if stale = [] then return unsettled
         else do {
           p \<leftarrow> recover_page cfg W adopt stale 0 unsettled;
           case p of
             None \<Rightarrow> return True
           | Some (settled, unsettled) \<Rightarrow> if settled = 0 then return True else recover_pages n cfg W adopt unsettled } }"

definition recoverStale :: "Config \<Rightarrow> worlds \<Rightarrow> bool \<Rightarrow> bool eng" where
  "recoverStale cfg W adopt = recover_pages 100 cfg W adopt False"

definition recoverPass :: "Config \<Rightarrow> worlds \<Rightarrow> bool eng" where
  "recoverPass cfg W = recoverStale cfg W True"

section \<open>The holding passes\<close>

definition timeoutPass :: "Config \<Rightarrow> worlds \<Rightarrow> bool eng" where
  "timeoutPass cfg W = do {
     r \<leftarrow> query W (\<lambda>env db. Inr (TimedOut env db (g_PageSize cfg)));
     each_while (renewing W) (fenceTimedOut W) (case r of Inl _ \<Rightarrow> [] | Inr vs \<Rightarrow> vs) }"

definition resolveSilent :: "Config \<Rightarrow> worlds \<Rightarrow> Stale \<Rightarrow> unit eng" where
  "resolveSilent cfg W v = do {
     answer \<leftarrow> ask W v;
     if foreign answer v \<and> runs answer then return ()
     else let rec = (if foreign answer v then no_answer else answer) in do {
       may \<leftarrow> renewing W;
       if \<not> may then return ()
       else if runs rec
       then do { _ \<leftarrow> tx_unit W (\<lambda>env. ExtendDeadline env (held_as cfg v (v_FenceEpoch v)) (silenceSeconds cfg)); return () }
       else case finishedOutcome rec of
              Some oc \<Rightarrow> applyOutcome cfg W (held_as cfg v (v_FenceEpoch v)) oc (v_DispatchedTo v)
            | None \<Rightarrow> do {
                requestStop W v;
                r \<leftarrow> tx_unit W (\<lambda>env. ExpireSilent env v);
                case r of Inl _ \<Rightarrow> return () | Inr _ \<Rightarrow> modify (untrack (v_ID v) (v_FenceEpoch v)) } } }"

definition silencePass :: "Config \<Rightarrow> worlds \<Rightarrow> bool eng" where
  "silencePass cfg W = do {
     r \<leftarrow> query W (\<lambda>env db. Inr (Silent env db (g_PageSize cfg)));
     each_while (renewing W) (resolveSilent cfg W) (case r of Inl _ \<Rightarrow> [] | Inr vs \<Rightarrow> vs) }"

primrec cancel_pages :: "nat \<Rightarrow> Config \<Rightarrow> worlds \<Rightarrow> int \<Rightarrow> unit eng" where
  "cancel_pages 0 cfg W after' = return ()"
| "cancel_pages (Suc n) cfg W after' = do {
     r \<leftarrow> query W (\<lambda>env db. Inr (CancelRequested env db after' (g_PageSize cfg)));
     case r of
       Inl _ \<Rightarrow> return ()
     | Inr rows \<Rightarrow>
         if rows = [] then return ()
         else do {
           done \<leftarrow> each_while (renewing W) (requestStop W) rows;
           if done then cancel_pages n cfg W (v_ID (last rows)) else return () } }"

definition cancelPass :: "Config \<Rightarrow> worlds \<Rightarrow> unit eng" where
  "cancelPass cfg W = cancel_pages 100 cfg W 0"

section \<open>Retiring a tenant (engine.go)\<close>

definition askExecutor :: "worlds \<Rightarrow> Stale \<Rightarrow> reconciliation eng" where
  "askExecutor W v = do {
     rec \<leftarrow> ask W v;
     return (if foreign rec v
             then (if rc_State rec = EXECUTION_STATE_RUNNING
                   then no_answer\<lparr>rc_State := EXECUTION_STATE_RUNNING, rc_Reachable := True\<rparr> else no_answer)
             else rec) }"

text \<open>One row: whether it made progress, and whether it was left because its handler runs.\<close>

definition release_one :: "Config \<Rightarrow> worlds \<Rightarrow> Stale \<Rightarrow> (bool \<times> bool) eng" where
  "release_one cfg W v = do {
     requestStop W v;
     rec \<leftarrow> askExecutor W v;
     if runs rec then return (False, True)
     else let h = held_as cfg v (v_FenceEpoch v) in
       case finishedOutcome rec of
         Some oc \<Rightarrow> do { applyOutcome cfg W h oc (v_DispatchedTo v); modify (untrack (v_ID v) (v_FenceEpoch v)); return (True, False) }
       | None \<Rightarrow> do {
           r \<leftarrow> tx W (\<lambda>env. ReleaseAsOwner env h);
           case r of
             Inl _ \<Rightarrow> return (False, False)
           | Inr _ \<Rightarrow> do { modify (untrack (v_ID v) (v_FenceEpoch v)); return (True, False) } } }"

fun releasePage :: "Config \<Rightarrow> worlds \<Rightarrow> Stale list \<Rightarrow> bool \<Rightarrow> bool \<Rightarrow> (bool \<times> bool) eng" where
  "releasePage cfg W [] progress deferred = return (progress, deferred)"
| "releasePage cfg W (v # vs) progress deferred = do {
     r \<leftarrow> release_one cfg W v;
     releasePage cfg W vs (progress \<or> fst r) (deferred \<or> snd r) }"

text \<open>\<open>ReleaseOwnedWork\<close>: at most a hundred pages of its own work, the last one giving up, then the recovery sweep.\<close>

primrec release_pages :: "nat \<Rightarrow> Config \<Rightarrow> worlds \<Rightarrow> bool \<Rightarrow> bool option eng" where
  "release_pages 0 cfg W deferred = return (Some deferred)"
| "release_pages (Suc n) cfg W deferred = do {
     r \<leftarrow> query W (\<lambda>env db. Inr (OwnedByInstance env db (g_InstanceID cfg) 200));
     case r of
       Inl _ \<Rightarrow> return None
     | Inr owned \<Rightarrow>
         if owned = [] then return (Some deferred)
         else do {
           p \<leftarrow> releasePage cfg W owned False False;
           if \<not> fst p then return None
           else if n = 0 then return None
           else release_pages n cfg W (deferred \<or> snd p) } }"

definition ReleaseOwnedWork :: "Config \<Rightarrow> worlds \<Rightarrow> bool eng" where
  "ReleaseOwnedWork cfg W = do {
     r \<leftarrow> release_pages 100 cfg W False;
     case r of
       None \<Rightarrow> return True
     | Some deferred \<Rightarrow> do { unsettled \<leftarrow> recoverStale cfg W False; return (unsettled \<or> deferred) } }"

section \<open>The loops (engine.go Start, runLoop)\<close>

datatype loop = Materialize | Drift | Dispatch' | Recover | Reap | Heartbeat | Timeout | Silence | Cancels

definition loop_pass :: "(string \<Rightarrow> bool) \<Rightarrow> Config \<Rightarrow> location \<Rightarrow> worlds \<Rightarrow> loop \<Rightarrow> unit eng" where
  "loop_pass params_ok cfg loc W l =
     (case l of
        Materialize \<Rightarrow> materializePass cfg loc W
      | Drift \<Rightarrow> do { _ \<leftarrow> driftPass cfg loc W; return () }
      | Dispatch' \<Rightarrow> do { _ \<leftarrow> dispatchPass params_ok cfg W; return () }
      | Recover \<Rightarrow> do { _ \<leftarrow> recoverPass cfg W; return () }
      | Reap \<Rightarrow> do { _ \<leftarrow> reapPass cfg W; return () }
      | Heartbeat \<Rightarrow> do { _ \<leftarrow> heartbeatPass W; return () }
      | Timeout \<Rightarrow> do { _ \<leftarrow> timeoutPass cfg W; return () }
      | Silence \<Rightarrow> do { _ \<leftarrow> silencePass cfg W; return () }
      | Cancels \<Rightarrow> cancelPass cfg W)"

text \<open>What stops a loop: those that acquire work stop with claiming, those that hold it with the engine.\<close>

fun acquiring :: "loop \<Rightarrow> bool" where
  "acquiring Materialize = True"
| "acquiring Drift = True"
| "acquiring Dispatch' = True"
| "acquiring Recover = True"
| "acquiring Reap = True"
| "acquiring _ = False"

text \<open>One tick of \<open>runLoop\<close>: the loop ends, skips a fenced tick, or runs its pass. It says whether the loop goes on.\<close>

definition runLoop :: "(string \<Rightarrow> bool) \<Rightarrow> Config \<Rightarrow> location \<Rightarrow> worlds \<Rightarrow> loop \<Rightarrow> bool eng" where
  "runLoop params_ok cfg loc W l = do {
     w \<leftarrow> observe W;
     if w_ctx w \<or> (if acquiring l then w_stopClaim w else w_stop w) then return False
     else if \<not> w_fence w then return True
     else do { loop_pass params_ok cfg loc W l; return True } }"

end
