(* ===== verification/EngineLogic.thy ===== *)
theory EngineLogic
  imports Passes
begin

text \<open>
  A small program logic for the engine's handlers: triples over the state monad, with a rule for each
  construct the handlers use, and the invariant that ties a handler to the protocol. Whatever a handler
  does to the database is a run of the store's transactions, interleaved with runs of the other instances.
\<close>

definition triple :: "(machine \<Rightarrow> bool) \<Rightarrow> 'a eng \<Rightarrow> ('a \<Rightarrow> machine \<Rightarrow> bool) \<Rightarrow> bool" where
  "triple P m Q \<longleftrightarrow> (\<forall>s. P s \<longrightarrow> (case run_state m s of (r, s') \<Rightarrow> Q r s'))"

lemma tripleD: "triple P m Q \<Longrightarrow> P s \<Longrightarrow> run_state m s = (r, s') \<Longrightarrow> Q r s'"
  by (force simp: triple_def)

lemma triple_run: "triple P m Q \<Longrightarrow> P s \<Longrightarrow> Q (fst (run_state m s)) (snd (run_state m s))"
  by (simp add: triple_def split_def)

lemma triple_get_bind: "(\<And>s. P s \<Longrightarrow> triple ((=) s) (f s) Q) \<Longrightarrow> triple P (State_Monad.bind get f) Q"
  by (simp add: triple_def)

lemma triple_return: "(\<And>s. P s \<Longrightarrow> Q x s) \<Longrightarrow> triple P (return x) Q"
  by (simp add: triple_def)

lemma triple_bind: "triple P m R \<Longrightarrow> (\<And>x. triple (R x) (f x) Q) \<Longrightarrow> triple P (State_Monad.bind m f) Q"
  by (force simp: triple_def split: prod.splits)

lemma triple_get: "(\<And>s. P s \<Longrightarrow> Q s s) \<Longrightarrow> triple P get Q"
  by (simp add: triple_def)

lemma triple_put: "(\<And>s. P s \<Longrightarrow> Q () s') \<Longrightarrow> triple P (put s') Q"
  by (simp add: triple_def)

lemma triple_modify: "(\<And>s. P s \<Longrightarrow> Q () (f s)) \<Longrightarrow> triple P (modify f) Q"
  by (simp add: triple_def modify_def)

lemma triple_if: "(b \<Longrightarrow> triple P m Q) \<Longrightarrow> (\<not> b \<Longrightarrow> triple P n Q) \<Longrightarrow> triple P (if b then m else n) Q"
  by simp

lemma triple_weaken: "triple P' m Q' \<Longrightarrow> (\<And>s. P s \<Longrightarrow> P' s) \<Longrightarrow> (\<And>r s. Q' r s \<Longrightarrow> Q r s) \<Longrightarrow> triple P m Q"
  by (force simp: triple_def)

lemma triple_pure: "(A \<Longrightarrow> triple P m Q) \<Longrightarrow> triple (\<lambda>s. P s \<and> A) m Q"
  by (simp add: triple_def)

text \<open>An assertion every step of a handler keeps.\<close>

abbreviation keeps :: "(machine \<Rightarrow> bool) \<Rightarrow> 'a eng \<Rightarrow> bool" where
  "keeps P m \<equiv> triple P m (\<lambda>_. P)"

lemma keeps_bind: "keeps P m \<Longrightarrow> (\<And>x. keeps P (f x)) \<Longrightarrow> keeps P (State_Monad.bind m f)"
  by (rule triple_bind)

lemma keeps_return: "keeps P (return x)"
  by (rule triple_return)

lemma keeps_get: "keeps P get"
  by (rule triple_get)

lemma triple_conj: "triple P m Q \<Longrightarrow> triple P' m Q' \<Longrightarrow> triple (\<lambda>s. P s \<and> P' s) m (\<lambda>r s. Q r s \<and> Q' r s)"
  by (simp add: triple_def split_def)

text \<open>A fact about every result of a handler.\<close>

abbreviation returns :: "'a eng \<Rightarrow> ('a \<Rightarrow> bool) \<Rightarrow> bool" where
  "returns m R \<equiv> triple (\<lambda>_. True) m (\<lambda>r _. R r)"

lemma returns_bind: "(\<And>x. returns (f x) R) \<Longrightarrow> returns (State_Monad.bind m f) R"
  by (simp add: triple_def split_def)

lemma returns_return: "R x \<Longrightarrow> returns (return x) R"
  by (simp add: triple_def)

lemma keeps_returns: "keeps P m \<Longrightarrow> returns m R \<Longrightarrow> triple P m (\<lambda>r s. P s \<and> R r)"
  by (simp add: triple_def split_def)

lemma keeps_each: "keeps P go \<Longrightarrow> (\<And>x. x \<in> set xs \<Longrightarrow> keeps P (body x)) \<Longrightarrow> keeps P (each_while go body xs)"
proof (induction xs)
  case (Cons x xs)
  then show ?case by (auto intro!: keeps_bind triple_if keeps_return)
qed (simp add: keeps_return)

lemma keeps_traverse: "(\<And>x. x \<in> set xs \<Longrightarrow> keeps P (f x)) \<Longrightarrow> keeps P (State_Monad.traverse_list f xs)"
proof (induction xs)
  case (Cons x xs)
  then show ?case by (auto intro!: keeps_bind keeps_return)
qed (simp add: keeps_return)

section \<open>Executions a handler may act on\<close>

text \<open>
  A handler that acts on an execution names its job. The store's transactions keep the protocol when the
  name is right (\<open>belongs\<close>), which stays true once it is true of an id already handed out.
\<close>

definition known :: "db \<Rightarrow> int \<Rightarrow> string \<Rightarrow> bool" where
  "known db i j \<longleftrightarrow> belongs db i j \<and> i < next_id db"

lemma row_moves_job: "row_move\<^sup>*\<^sup>* e e' \<Longrightarrow> je_job_name e' = je_job_name e"
  by (drule row_moves_same) (simp add: same_execution_def)

lemma known_steps:
  assumes "wf_db db" "db_step\<^sup>*\<^sup>* db db'" "known db i j"
  shows "known db' i j"
proof -
  have ev: "rows_evolve db db'" using steps_evolve [OF assms(2,1)] by simp
  have "je_job_name e' = j" if "exec_row db' i = Some e'" for e'
  proof -
    have "if i < next_id db then \<exists>e. exec_row db i = Some e \<and> row_move\<^sup>*\<^sup>* e e' else \<exists>e0. born e0 \<and> row_move\<^sup>*\<^sup>* e0 e'"
      using ev that by (simp add: rows_evolve_def)
    then obtain e where "exec_row db i = Some e" "row_move\<^sup>*\<^sup>* e e'" using assms(3) by (auto simp: known_def)
    then show ?thesis using assms(3) row_moves_job [of e e'] by (auto simp: known_def dest: belongsD)
  qed
  then show ?thesis using ev assms(3) by (auto simp: known_def belongs_def rows_evolve_def split: option.splits)
qed

section \<open>The invariant\<close>

definition honest :: "worlds \<Rightarrow> bool" where
  "honest W \<longleftrightarrow> (\<forall>n db. db_step\<^sup>*\<^sup>* db (w_others (W n) db))"

definition tracked_known :: "machine \<Rightarrow> bool" where
  "tracked_known s \<longleftrightarrow> (\<forall>(i, t) \<in> set (m_tracked s). known (m_db s) (h_ExecutionID (hd_h t)) (h_JobName (hd_h t)))"

text \<open>From the database \<open>d0\<close> the handler has run transactions only, and it knows the executions in \<open>K\<close>.\<close>

definition on_track :: "db \<Rightarrow> (int \<times> string) set \<Rightarrow> machine \<Rightarrow> bool" where
  "on_track d0 K s \<longleftrightarrow>
     wf_db d0 \<and> db_step\<^sup>*\<^sup>* d0 (m_db s) \<and> tracked_known s \<and> (\<forall>(i, j) \<in> K. known (m_db s) i j)"

lemma on_track_wf: "on_track d0 K s \<Longrightarrow> wf_db (m_db s)"
  by (auto simp: on_track_def dest: steps_evolve)

lemma on_track_mono: "on_track d0 K s \<Longrightarrow> K' \<subseteq> K \<Longrightarrow> on_track d0 K' s"
  by (auto simp: on_track_def)

lemma on_track_steps:
  assumes "on_track d0 K s" "db_step\<^sup>*\<^sup>* (m_db s) d" "m_tracked s' = m_tracked s" "m_db s' = d"
  shows "on_track d0 K s'"
proof -
  have "known d i j" if "known (m_db s) i j" for i j using known_steps [OF on_track_wf [OF assms(1)] assms(2) that] .
  then show ?thesis using assms by (auto simp: on_track_def tracked_known_def)
qed

lemma on_track_same: "on_track d0 K s \<Longrightarrow> m_db s' = m_db s \<Longrightarrow> set (m_tracked s') \<subseteq> set (m_tracked s) \<Longrightarrow> on_track d0 K s'"
  by (auto simp: on_track_def tracked_known_def)

lemma observe_on_track: "honest W \<Longrightarrow> keeps (on_track d0 K) (observe W)"
proof -
  assume W: "honest W"
  have "on_track d0 K (s\<lparr>m_tick := Suc (m_tick s), m_db := w_others (W (m_tick s)) (m_db s)\<rparr>)" if "on_track d0 K s" for s
    using W by (intro on_track_steps [OF that]) (simp_all add: honest_def)
  then show ?thesis by (simp add: triple_def observe_def)
qed

lemma time_now_on_track: "honest W \<Longrightarrow> keeps (on_track d0 K) (time_now W)"
  unfolding time_now_def by (intro keeps_bind observe_on_track keeps_return)

lemma query_on_track: "honest W \<Longrightarrow> keeps (on_track d0 K) (query W f)"
  unfolding query_def by (intro keeps_bind observe_on_track keeps_return keeps_get)

text \<open>A transaction that is a step of the protocol where the executions in \<open>K\<close> are known.\<close>

lemma tx_on_track:
  assumes "honest W"
    and "\<And>env d r d'. f env d = Inr (r, d') \<Longrightarrow> (\<And>i j. (i, j) \<in> K \<Longrightarrow> belongs d i j) \<Longrightarrow> db_step\<^sup>*\<^sup>* d d'"
  shows "keeps (on_track d0 K) (tx W f)"
proof -
  have step: "on_track d0 K (s\<lparr>m_db := d'\<rparr>)" if "on_track d0 K s" "f env (m_db s) = Inr (r, d')" for s env r d'
  proof -
    have "\<And>i j. (i, j) \<in> K \<Longrightarrow> belongs (m_db s) i j" using that(1) by (auto simp: on_track_def known_def)
    then have "db_step\<^sup>*\<^sup>* (m_db s) d'" using assms(2) [OF that(2)] by blast
    then show ?thesis by (rule on_track_steps [OF that(1)]) simp_all
  qed
  show ?thesis
    unfolding tx_def
  proof (rule keeps_bind [OF observe_on_track [OF assms(1)]])
    fix w
    show "keeps (on_track d0 K) (get \<bind> (\<lambda>s. if \<not> w_db w then return (Inl ErrOther) else case f (w_env w) (m_db s) of
        Inl e \<Rightarrow> return (Inl e) | Inr (r, d) \<Rightarrow> put (s\<lparr>m_db := d\<rparr>) \<bind> (\<lambda>_. return (Inr r))))"
      using step by (auto simp: triple_def split: sum.splits prod.splits)
  qed
qed

lemma tx_unit_on_track:
  assumes "honest W" "\<And>env d d'. f env d = Inr d' \<Longrightarrow> (\<And>i j. (i, j) \<in> K \<Longrightarrow> belongs d i j) \<Longrightarrow> db_step\<^sup>*\<^sup>* d d'"
  shows "keeps (on_track d0 K) (tx_unit W f)"
  unfolding tx_unit_def using assms by (intro tx_on_track) auto

lemma modify_on_track: "(\<And>s. m_db (f s) = m_db s \<and> set (m_tracked (f s)) \<subseteq> set (m_tracked s)) \<Longrightarrow> keeps (on_track d0 K) (modify f)"
  by (rule triple_modify) (auto intro: on_track_same)

lemma untrack_subset: "m_db (untrack i n s) = m_db s \<and> set (m_tracked (untrack i n s)) \<subseteq> set (m_tracked s)"
  by (auto simp: untrack_def AList.delete_eq split: option.splits)

section \<open>The handlers keep it\<close>

text \<open>
  The facts about the primitives; every handler is a composition of them, so a proof is the rules of the
  monad, the primitives, and for each transaction the step of the protocol it is.
\<close>

lemma guards_on_track:
  assumes "honest W"
  shows "keeps (on_track d0 K) (stopping W)" "keeps (on_track d0 K) (renewing W)" "keeps (on_track d0 K) (mayRecover W adopt)"
    "keeps (on_track d0 K) (may_claim W)" "keeps (on_track d0 K) (may_dispatch W)" "keeps (on_track d0 K) (backoff cfg W n)"
    "keeps (on_track d0 K) (markUnhealthy cfg W x)" "keeps (on_track d0 K) (dispatchHealthy W x)"
    "keeps (on_track d0 K) (holdRemaining W i n l)" "keeps (on_track d0 K) (leaseSecondsFor W j)"
    "keeps (on_track d0 K) (addressOf W x)"
  unfolding stopping_def renewing_def mayRecover_def may_claim_def may_dispatch_def backoff_def markUnhealthy_def
    dispatchHealthy_def holdRemaining_def leaseSecondsFor_def addressOf_def
  using assms
  by (auto intro!: keeps_bind keeps_return keeps_get triple_if observe_on_track time_now_on_track query_on_track modify_on_track
      split: option.split simp: option.case_distrib)

lemma untrack_on_track: "keeps (on_track d0 K) (modify (untrack i n))"
  by (rule modify_on_track) (rule untrack_subset)

lemma wire_on_track: "keeps (on_track d0 K) (modify (\<lambda>s. s\<lparr>m_wire := f s\<rparr>))"
  by (rule modify_on_track) simp

lemma triple_option: "triple P m Q \<Longrightarrow> (\<And>x. triple P (f x) Q) \<Longrightarrow> triple P (case o' of None \<Rightarrow> m | Some x \<Rightarrow> f x) Q"
  by (cases o') simp_all

lemma triple_sum: "(\<And>x. triple P (f x) Q) \<Longrightarrow> (\<And>x. triple P (g x) Q) \<Longrightarrow> triple P (case r of Inl x \<Rightarrow> f x | Inr x \<Rightarrow> g x) Q"
  by (cases r) simp_all

lemma triple_prod: "(\<And>x y. triple P (f x y) Q) \<Longrightarrow> triple P (case r of (x, y) \<Rightarrow> f x y) Q"
  by (cases r) simp

lemma triple_answer:
  "triple P m1 Q \<Longrightarrow> triple P m2 Q \<Longrightarrow> triple P m3 Q \<Longrightarrow> triple P (case a of Accepted \<Rightarrow> m1 | Refused \<Rightarrow> m2 | Unknown \<Rightarrow> m3) Q"
  by (cases a) simp_all

lemma triple_let: "triple P (f x) Q \<Longrightarrow> triple P (let y = x in f y) Q"
  by simp

lemmas monad_rules = keeps_bind keeps_return keeps_get triple_if triple_option triple_sum triple_prod triple_answer triple_let

lemmas primitive_rules = observe_on_track time_now_on_track query_on_track guards_on_track untrack_on_track wire_on_track

lemma one_step: "db_step d d' \<Longrightarrow> db_step\<^sup>*\<^sup>* d d'"
  by (rule r_into_rtranclp)

lemma ask_on_track: "honest W \<Longrightarrow> keeps (on_track d0 K) (ask W v)"
  unfolding ask_def by (intro monad_rules primitive_rules)

lemma requestStop_on_track: "honest W \<Longrightarrow> keeps (on_track d0 K) (requestStop W v)"
  unfolding requestStop_def by (intro monad_rules primitive_rules)

lemma fenceTimedOut_on_track:
  assumes "honest W" "(v_ID v, v_JobName v) \<in> K"
  shows "keeps (on_track d0 K) (fenceTimedOut W v)"
  unfolding fenceTimedOut_def
  using assms(1) by (intro monad_rules primitive_rules requestStop_on_track tx_unit_on_track one_step)
    (auto intro: db_step.intros(12) assms(2))

lemma Apply_step: "Apply env h oc x b d = Inr d' \<Longrightarrow> belongs d (h_ExecutionID h) (h_JobName h) \<Longrightarrow> db_step d d'"
  by (auto simp: Apply_def Let_def split: if_splits intro: db_step.intros)

lemma applyOutcome_on_track:
  assumes "honest W" "(h_ExecutionID h, h_JobName h) \<in> K"
  shows "keeps (on_track d0 K) (applyOutcome cfg W h oc x)"
  unfolding applyOutcome_def
  using assms(1) by (intro monad_rules primitive_rules tx_unit_on_track one_step) (auto intro: Apply_step assms(2))

lemma set_alist_update: "set (AList.update k v al) \<subseteq> insert (k, v) (set al)"
  by (induction al) auto

lemma track_on_track:
  assumes "(h_ExecutionID h, h_JobName h) \<in> K"
  shows "keeps (on_track d0 K) (modify (track h t))"
proof (rule triple_modify)
  fix s assume s: "on_track d0 K s"
  have "set (m_tracked (track h t s)) \<subseteq> insert (h_ExecutionID h, \<lparr>hd_h = h, hd_confirmed = t\<rparr>) (set (m_tracked s))"
    using set_alist_update by (simp add: track_def)
  then show "on_track d0 K (track h t s)"
    using s assms by (fastforce simp: on_track_def tracked_known_def track_def)
qed

lemma confirmHold_on_track: "keeps (on_track d0 K) (modify (confirmHold i n t))"
proof (rule triple_modify)
  fix s assume s: "on_track d0 K s"
  show "on_track d0 K (confirmHold i n t s)"
  proof (cases "map_of (m_tracked s) i")
    case None
    with s show ?thesis by (simp add: confirmHold_def)
  next
    case (Some cur)
    then have "(i, cur) \<in> set (m_tracked s)" by (rule map_of_SomeD)
    then have "known (m_db s) (h_ExecutionID (hd_h cur)) (h_JobName (hd_h cur))" using s by (auto simp: on_track_def tracked_known_def)
    then show ?thesis
      using s Some set_alist_update [of i "cur\<lparr>hd_confirmed := t\<rparr>" "m_tracked s"]
      by (fastforce simp: on_track_def tracked_known_def confirmHold_def)
  qed
qed

lemma adopt_then_on_track:
  assumes "honest W" "(v_ID v, v_JobName v) \<in> K" "\<And>n. keeps (on_track d0 K) (finish n)"
  shows "keeps (on_track d0 K) (adopt_then cfg W v promote finish)"
proof -
  have "db_step d d'" if "Adopt env v w l q pr d = Inr (n, d')" "\<And>i j. (i, j) \<in> K \<Longrightarrow> belongs d i j" for env w l q pr n d d'
    using that(1) that(2) [OF assms(2)] by (rule db_step.intros(10))
  then show ?thesis
    unfolding adopt_then_def
    using assms(1) by (intro monad_rules primitive_rules tx_on_track one_step fenceTimedOut_on_track assms(2,3)) blast+
qed

lemma recoverOne_on_track:
  assumes "honest W" "(v_ID v, v_JobName v) \<in> K"
  shows "keeps (on_track d0 K) (recoverOne cfg W v adopt)"
proof -
  have h: "(h_ExecutionID (held_as cfg v n), h_JobName (held_as cfg v n)) \<in> K" for n using assms(2) by (simp add: held_as_def)
  have "keeps (on_track d0 K) (resolve_unknown cfg W v)"
    unfolding resolve_unknown_def
    using assms(1) by (intro monad_rules primitive_rules tx_on_track one_step) (auto intro: db_step.intros(11) assms(2))
  moreover have "keeps (on_track d0 K) (adoptResult cfg W v oc)" for oc
    unfolding adoptResult_def by (intro adopt_then_on_track assms applyOutcome_on_track h)
  moreover have "keeps (on_track d0 K) (adopt_running cfg W v)"
    unfolding adopt_running_def using assms by (intro monad_rules primitive_rules adopt_then_on_track track_on_track h)
  ultimately show ?thesis
    unfolding recoverOne_def using assms(1) by (intro monad_rules primitive_rules ask_on_track)
qed

lemma resolveSilent_on_track:
  assumes "honest W" "(v_ID v, v_JobName v) \<in> K"
  shows "keeps (on_track d0 K) (resolveSilent cfg W v)"
  unfolding resolveSilent_def
  using assms(1) by (intro monad_rules primitive_rules ask_on_track requestStop_on_track applyOutcome_on_track tx_unit_on_track one_step)
    (auto intro: db_step.intros(2,13) assms(2) simp: held_as_def)

lemma release_one_on_track:
  assumes "honest W" "(v_ID v, v_JobName v) \<in> K"
  shows "keeps (on_track d0 K) (release_one cfg W v)"
  unfolding release_one_def askExecutor_def
  using assms(1) by (intro monad_rules primitive_rules ask_on_track requestStop_on_track applyOutcome_on_track tx_on_track one_step)
    (auto simp: held_as_def assms(2) intro: db_step.intros(14))

lemma heartbeat_one_on_track:
  assumes "honest W" "(h_ExecutionID h, h_JobName h) \<in> K"
  shows "keeps (on_track d0 K) (heartbeat_one W h)"
  unfolding heartbeat_one_def
  using assms(1) by (intro monad_rules primitive_rules tx_unit_on_track one_step confirmHold_on_track) (auto intro: db_step.intros(1) assms(2))

lemma releaseUndispatchable_on_track:
  assumes "honest W" "(p_ExecutionID p, p_JobName p) \<in> K"
  shows "keeps (on_track d0 K) (releaseUndispatchable W p n)"
  unfolding releaseUndispatchable_def
  using assms(1) by (intro monad_rules primitive_rules tx_unit_on_track one_step) (auto intro: db_step.intros(8) assms(2))

lemma send_on_track: "honest W \<Longrightarrow> keeps (on_track d0 K) (send W cap x spec)"
  unfolding send_def by (intro monad_rules primitive_rules)

lemma resend_check_on_track: "honest W \<Longrightarrow> keeps (on_track d0 K) (resend_check cfg W h spec target deadline)"
  unfolding resend_check_def by (intro monad_rules primitive_rules)

lemma accepted_on_track: "honest W \<Longrightarrow> keeps (on_track d0 K) (accepted cfg W h res)"
  unfolding accepted_def
  by (intro monad_rules primitive_rules tx_unit_on_track one_step) (auto intro: db_step.intros(7))

lemma attempt_once_on_track:
  assumes "honest W" "\<And>spec. keeps (on_track d0 K) (again spec)"
  shows "keeps (on_track d0 K) (attempt_once first cfg W h def target deadline spec again)"
  unfolding attempt_once_def
  using assms(1) by (intro monad_rules primitive_rules resend_check_on_track send_on_track accepted_on_track assms(2))

lemma attempt_loop_on_track:
  "honest W \<Longrightarrow> keeps (on_track d0 K) (attempt_loop n first cfg W h def target deadline spec)"
proof (induction n arbitrary: first spec)
  case 0
  then show ?case unfolding attempt_loop.simps by (intro attempt_once_on_track monad_rules primitive_rules)
next
  case (Suc n)
  then show ?case unfolding attempt_loop.simps by (intro attempt_once_on_track monad_rules primitive_rules Suc.IH)
qed

lemma next_target_on_track:
  assumes "honest W" "(p_ExecutionID p, p_JobName p) \<in> K"
  shows "keeps (on_track d0 K) (next_target W h p target)"
  unfolding next_target_def
  using assms(1) by (intro monad_rules primitive_rules releaseUndispatchable_on_track tx_unit_on_track one_step assms(2))
    (auto intro: db_step.intros(9))

lemma try_targets_on_track:
  assumes "honest W" "(p_ExecutionID p, p_JobName p) \<in> K"
  shows "keeps (on_track d0 K) (try_targets targets first cfg W h def snapshot p deadline remaining)"
proof (induction targets arbitrary: first remaining)
  case Nil
  then show ?case using assms by (simp add: releaseUndispatchable_on_track)
next
  case (Cons target targets)
  then show ?case
    using assms unfolding try_targets.simps attemptDispatch_def
    by (intro monad_rules primitive_rules next_target_on_track attempt_loop_on_track)
qed

lemma claimAndDispatch_on_track:
  assumes "honest W" "(c_ID c, c_JobName c) \<in> K"
  shows "keeps (on_track d0 K) (claimAndDispatch params_ok cfg W c)"
proof -
  have p: "(p_ExecutionID (claim_params cfg c t b xs), p_JobName (claim_params cfg c t b xs)) \<in> K" for t b xs
    using assms(2) by (simp add: claim_params_def)
  have h: "(h_ExecutionID (claimed_as (claim_params cfg c t b xs) n), h_JobName (claimed_as (claim_params cfg c t b xs) n)) \<in> K" for t b xs n
    using assms(2) by (simp add: claim_params_def claimed_as_def)
  have "keeps (on_track d0 K) (dispatch params_ok cfg W h def snapshot targets (claim_params cfg c t b xs))" for h def snapshot targets t b xs
    unfolding dispatch_def using assms(1) by (intro monad_rules primitive_rules releaseUndispatchable_on_track try_targets_on_track p)
  moreover have "keeps (on_track d0 K) (pickExecutors cfg W def)" for def
    unfolding pickExecutors_def using assms(1) by (intro monad_rules primitive_rules keeps_traverse modify_on_track) simp_all
  ultimately show ?thesis
    unfolding claimAndDispatch_def
    using assms(1) by (intro monad_rules primitive_rules tx_on_track one_step track_on_track h releaseUndispatchable_on_track p)
      (auto intro: db_step.intros(6))
qed

section \<open>The passes keep it\<close>

text \<open>A scan of the database makes the executions it lists known.\<close>

lemma exec_known: "wf_db d \<Longrightarrow> e \<in> set (execs d) \<Longrightarrow> known d (je_id e) (je_job_name e)"
  using wf_dbD(1) [of d] row_of_mem [of je_id "execs d" e]
  by (auto simp: known_def belongs_def keys_ok_def split: option.splits)

lemma query_known:
  assumes "honest W" "\<And>env d x. f env d = Inr x \<Longrightarrow> wf_db d \<Longrightarrow> \<forall>(i, j) \<in> names x. known d i j"
  shows "triple (on_track d0 K) (query W f) (\<lambda>r. on_track d0 (K \<union> (case r of Inl _ \<Rightarrow> {} | Inr x \<Rightarrow> names x)))"
  unfolding query_def
proof (rule triple_bind [OF observe_on_track [OF assms(1)]])
  fix w
  have "on_track d0 (K \<union> (case if w_db w then f (w_env w) (m_db s) else Inl ErrOther of Inl _ \<Rightarrow> {} | Inr x \<Rightarrow> names x)) s"
    if "on_track d0 K s" for s
    using that assms(2) [of "w_env w" "m_db s"] on_track_wf [OF that] by (auto simp: on_track_def split: sum.splits)
  then show "triple (on_track d0 K) (get \<bind> (\<lambda>s. return (if w_db w then f (w_env w) (m_db s) else Inl ErrOther)))
    (\<lambda>r. on_track d0 (K \<union> (case r of Inl _ \<Rightarrow> {} | Inr x \<Rightarrow> names x)))"
    by (simp add: triple_def)
qed

lemma read_then:
  fixes f :: "env \<Rightarrow> db \<Rightarrow> 'a result"
  assumes "honest W" "\<And>env d x. f env d = Inr x \<Longrightarrow> wf_db d \<Longrightarrow> \<forall>(i, j) \<in> names x. known d i j"
    and "\<And>r K'. K \<subseteq> K' \<Longrightarrow> (\<And>x. r = Inr x \<Longrightarrow> names x \<subseteq> K') \<Longrightarrow> keeps (on_track d0 K') (body r)"
  shows "keeps (on_track d0 K) (query W f \<bind> body)"
proof (rule triple_bind [OF query_known [OF assms(1,2)]])
  fix r :: "'a result"
  let ?K = "K \<union> (case r of Inl _ \<Rightarrow> {} | Inr x \<Rightarrow> names x)"
  have "keeps (on_track d0 ?K) (body r)" by (rule assms(3)) (auto split: sum.splits)
  then show "triple (on_track d0 ?K) (body r) (\<lambda>_. on_track d0 K)" by (rule triple_weaken) (auto intro: on_track_mono)
qed

lemma scan_then:
  fixes f :: "env \<Rightarrow> db \<Rightarrow> 'a list result"
  assumes "honest W" "\<And>env d xs. f env d = Inr xs \<Longrightarrow> wf_db d \<Longrightarrow> \<forall>x \<in> set xs. known d (key x) (job x)"
    and "\<And>r K'. K \<subseteq> K' \<Longrightarrow> (\<And>xs x. r = Inr xs \<Longrightarrow> x \<in> set xs \<Longrightarrow> (key x, job x) \<in> K') \<Longrightarrow> keeps (on_track d0 K') (body r)"
  shows "keeps (on_track d0 K) (query W f \<bind> body)"
  by (rule read_then [OF assms(1), where names = "\<lambda>xs. (\<lambda>x. (key x, job x)) ` set xs"]) (use assms(2,3) in \<open>auto simp: subset_iff\<close>)

lemma stale_known:
  assumes "wf_db d"
  shows "v \<in> set (StaleExecutions env d n) \<Longrightarrow> known d (v_ID v) (v_JobName v)"
    "v \<in> set (TimedOut env d n) \<Longrightarrow> known d (v_ID v) (v_JobName v)"
    "v \<in> set (Silent env d n) \<Longrightarrow> known d (v_ID v) (v_JobName v)"
    "v \<in> set (OwnedByInstance env d i n) \<Longrightarrow> known d (v_ID v) (v_JobName v)"
    "c \<in> set (ReadyCandidates env d b n) \<Longrightarrow> known d (c_ID c) (c_JobName c)"
  by (auto simp: StaleExecutions_def TimedOut_def Silent_def OwnedByInstance_def ReadyCandidates_def page_def stale_of_def
      dest!: in_set_takeD intro: exec_known [OF assms])

lemma recover_page_on_track:
  assumes "honest W" "\<And>v. v \<in> set vs \<Longrightarrow> (v_ID v, v_JobName v) \<in> K"
  shows "keeps (on_track d0 K) (recover_page cfg W adopt vs n b)"
  using assms(2)
proof (induction vs arbitrary: n b)
  case (Cons v vs)
  then show ?case using assms(1) unfolding recover_page.simps by (intro monad_rules primitive_rules recoverOne_on_track Cons.IH) simp_all
qed (simp add: keeps_return)

lemma recover_pages_on_track: "honest W \<Longrightarrow> keeps (on_track d0 K) (recover_pages n cfg W adopt b)"
proof (induction n arbitrary: b K)
  case (Suc n)
  show ?case
    unfolding recover_pages.simps
  proof (rule scan_then [where key = v_ID and job = v_JobName])
    fix r :: "Stale list result" and K' assume k: "K \<subseteq> K'" "\<And>xs x. r = Inr xs \<Longrightarrow> x \<in> set xs \<Longrightarrow> (v_ID x, v_JobName x) \<in> K'"
    show "keeps (on_track d0 K') (case r of Inl _ \<Rightarrow> return True | Inr stale \<Rightarrow>
        if stale = [] then return b
        else recover_page cfg W adopt stale 0 b \<bind> (\<lambda>p. case p of None \<Rightarrow> return True
          | Some (settled, unsettled) \<Rightarrow> if settled = 0 then return True else recover_pages n cfg W adopt unsettled))"
      using k(2) Suc by (cases r) (auto intro!: monad_rules recover_page_on_track)
  qed (use Suc(2) stale_known(1) in auto)
qed (simp add: keeps_return)

lemma releasePage_on_track:
  assumes "honest W" "\<And>v. v \<in> set vs \<Longrightarrow> (v_ID v, v_JobName v) \<in> K"
  shows "keeps (on_track d0 K) (releasePage cfg W vs a b)"
  using assms(2)
proof (induction vs arbitrary: a b)
  case (Cons v vs)
  then show ?case using assms(1) unfolding releasePage.simps by (intro monad_rules primitive_rules release_one_on_track Cons.IH) simp_all
qed (simp add: keeps_return)

lemma release_pages_on_track: "honest W \<Longrightarrow> keeps (on_track d0 K) (release_pages n cfg W b)"
proof (induction n arbitrary: b K)
  case (Suc n)
  show ?case
    unfolding release_pages.simps
  proof (rule scan_then [where key = v_ID and job = v_JobName])
    fix r :: "Stale list result" and K' assume k: "K \<subseteq> K'" "\<And>xs x. r = Inr xs \<Longrightarrow> x \<in> set xs \<Longrightarrow> (v_ID x, v_JobName x) \<in> K'"
    show "keeps (on_track d0 K') (case r of Inl _ \<Rightarrow> return None | Inr owned \<Rightarrow>
        if owned = [] then return (Some b)
        else releasePage cfg W owned False False \<bind> (\<lambda>p. if \<not> fst p then return None else if n = 0 then return None else release_pages n cfg W (b \<or> snd p)))"
      using k(2) Suc by (cases r) (auto intro!: monad_rules releasePage_on_track)
  qed (use Suc(2) stale_known(4) in auto)
qed (simp add: keeps_return)

lemma ReleaseOwnedWork_on_track: "honest W \<Longrightarrow> keeps (on_track d0 K) (ReleaseOwnedWork cfg W)"
  unfolding ReleaseOwnedWork_def recoverStale_def by (intro monad_rules release_pages_on_track recover_pages_on_track)

lemma cancel_pages_on_track: "honest W \<Longrightarrow> keeps (on_track d0 K) (cancel_pages n cfg W a)"
proof (induction n arbitrary: a)
  case (Suc n)
  then show ?case unfolding cancel_pages.simps by (intro monad_rules primitive_rules keeps_each requestStop_on_track Suc.IH)
qed (simp add: keeps_return)

lemma timeoutPass_on_track: "honest W \<Longrightarrow> keeps (on_track d0 K) (timeoutPass cfg W)"
  unfolding timeoutPass_def
  by (rule scan_then [where key = v_ID and job = v_JobName])
    (auto intro!: keeps_return keeps_each guards_on_track fenceTimedOut_on_track stale_known(2) split: sum.splits)

lemma silencePass_on_track: "honest W \<Longrightarrow> keeps (on_track d0 K) (silencePass cfg W)"
  unfolding silencePass_def
  by (rule scan_then [where key = v_ID and job = v_JobName])
    (auto intro!: keeps_return keeps_each guards_on_track resolveSilent_on_track stale_known(3) split: sum.splits)

lemma dispatch_page_on_track: "honest W \<Longrightarrow> keeps (on_track d0 K) (dispatch_page params_ok cfg W b)"
  unfolding dispatch_page_def
  by (rule scan_then [where key = c_ID and job = c_JobName])
    (auto intro!: keeps_return keeps_each guards_on_track claimAndDispatch_on_track stale_known(5) split: sum.splits)

lemma dispatchPass_on_track: "honest W \<Longrightarrow> keeps (on_track d0 K) (dispatchPass params_ok cfg W)"
  unfolding dispatchPass_def by (intro monad_rules dispatch_page_on_track)

lemma heartbeatPass_on_track:
  assumes "honest W"
  shows "keeps (on_track d0 K) (heartbeatPass W)"
  unfolding heartbeatPass_def
proof (rule triple_get_bind)
  fix s assume s: "on_track d0 K s"
  let ?K = "K \<union> (\<lambda>h. (h_ExecutionID h, h_JobName h)) ` set (holders s)"
  have "keeps (on_track d0 ?K) (each_while (renewing W) (heartbeat_one W) (holders s))"
    using assms by (intro keeps_each guards_on_track heartbeat_one_on_track) auto
  moreover have "on_track d0 ?K s" using s by (auto simp: on_track_def tracked_known_def holders_def)
  ultimately show "triple ((=) s) (each_while (renewing W) (heartbeat_one W) (holders s)) (\<lambda>_. on_track d0 K)"
    by (elim triple_weaken) (auto intro: on_track_mono)
qed

lemma reapPass_on_track: "honest W \<Longrightarrow> keeps (on_track d0 K) (reapPass cfg W)"
  unfolding reapPass_def
  by (intro monad_rules primitive_rules tx_on_track one_step) (auto intro: db_step.intros(27,31))

lemma materializePass_on_track: "honest W \<Longrightarrow> keeps (on_track d0 K) (materializePass cfg loc W)"
  unfolding materializePass_def materialize_cron_one_def materialize_poll_one_def remember_def
  by (intro monad_rules primitive_rules keeps_each tx_on_track one_step modify_on_track)
    (auto intro: db_step.intros(15,16) split: sum.splits)

lemma driftPass_on_track: "honest W \<Longrightarrow> keeps (on_track d0 K) (driftPass cfg loc W)"
  unfolding driftPass_def drift_one_def remember_def
  by (intro monad_rules primitive_rules keeps_each tx_on_track one_step modify_on_track)
    (auto intro: db_step.intros(17) split: sum.splits)

lemma loop_pass_on_track: "honest W \<Longrightarrow> keeps (on_track d0 K) (loop_pass params_ok cfg loc W l)"
  unfolding loop_pass_def recoverPass_def recoverStale_def cancelPass_def
  by (cases l) (simp_all add: keeps_bind keeps_return materializePass_on_track driftPass_on_track dispatchPass_on_track
    recover_pages_on_track reapPass_on_track heartbeatPass_on_track timeoutPass_on_track silencePass_on_track cancel_pages_on_track)

lemma runLoop_on_track: "honest W \<Longrightarrow> keeps (on_track d0 K) (runLoop params_ok cfg loc W l)"
  unfolding runLoop_def by (intro monad_rules primitive_rules loop_pass_on_track)

end
