(* ===== verification/EngineCalls.thy ===== *)
theory EngineCalls
  imports EngineLogic
begin

text \<open>
  What the engine hands to executors. Work goes to one executor at a time: a second one is tried only after
  the one before it declined, every call of a dispatch carries the same execution and attempt, and the
  re-sends to one executor are bounded.
\<close>

section \<open>Handlers that call nobody\<close>

lemma observe_wire: "keeps (\<lambda>s. m_wire s = w) (observe W)"
  by (simp add: triple_def observe_def)

lemma query_wire: "keeps (\<lambda>s. m_wire s = w) (query W f)"
  unfolding query_def by (intro keeps_bind observe_wire keeps_return keeps_get)

lemma tx_wire: "keeps (\<lambda>s. m_wire s = w) (tx W f)"
  unfolding tx_def
proof (rule keeps_bind [OF observe_wire])
  fix v
  show "keeps (\<lambda>s. m_wire s = w) (get \<bind> (\<lambda>s. if \<not> w_db v then return (Inl ErrOther) else case f (w_env v) (m_db s) of
        Inl e \<Rightarrow> return (Inl e) | Inr (r, d) \<Rightarrow> put (s\<lparr>m_db := d\<rparr>) \<bind> (\<lambda>_. return (Inr r))))"
    by (auto simp: triple_def split: sum.splits)
qed

lemma modify_wire: "(\<And>s. m_wire (f s) = m_wire s) \<Longrightarrow> keeps (\<lambda>s. m_wire s = w) (modify f)"
  by (rule triple_modify) simp

lemma untrack_wire: "m_wire (untrack i n s) = m_wire s" and track_wire: "m_wire (track h t s) = m_wire s"
  by (simp_all add: untrack_def track_def split: option.splits)

lemmas silent_rules = observe_wire query_wire tx_wire untrack_wire track_wire modify_wire

lemma quiet_handlers:
  "keeps (\<lambda>s. m_wire s = w) (time_now W)" "keeps (\<lambda>s. m_wire s = w) (stopping W)" "keeps (\<lambda>s. m_wire s = w) (backoff cfg W n)"
  "keeps (\<lambda>s. m_wire s = w) (markUnhealthy cfg W x)" "keeps (\<lambda>s. m_wire s = w) (dispatchHealthy W x)"
  "keeps (\<lambda>s. m_wire s = w) (holdRemaining W i e l)" "keeps (\<lambda>s. m_wire s = w) (tx_unit W f)"
  unfolding time_now_def stopping_def backoff_def markUnhealthy_def dispatchHealthy_def holdRemaining_def tx_unit_def
  by (intro monad_rules silent_rules; simp)+

lemma quiet_dispatch:
  "keeps (\<lambda>s. m_wire s = w) (releaseUndispatchable W p n)" "keeps (\<lambda>s. m_wire s = w) (accepted cfg W h res)"
  "keeps (\<lambda>s. m_wire s = w) (resend_check cfg W h spec target deadline)" "keeps (\<lambda>s. m_wire s = w) (next_target W h p target)"
  "keeps (\<lambda>s. m_wire s = w) (pickExecutors cfg W def)"
  unfolding next_target_def releaseUndispatchable_def accepted_def resend_check_def pickExecutors_def
  by (intro monad_rules silent_rules quiet_handlers keeps_traverse; simp add: untrack_wire)+

section \<open>Calls of one dispatch\<close>

fun call_to :: "call \<Rightarrow> string" where
  "call_to (RunCall _ x _ _ _) = x"
| "call_to (CancelCall x _ _) = x"

fun declined_call :: "call \<Rightarrow> bool" where
  "declined_call (RunCall _ _ _ _ r) = (rs_Answer r = Refused)"
| "declined_call (CancelCall _ _ _) = False"

text \<open>A \<open>Run\<close> of the holder's attempt.\<close>

fun runs_attempt :: "Holder \<Rightarrow> call \<Rightarrow> bool" where
  "runs_attempt h (RunCall _ _ spec _ _) = (sp_ExecutionKey spec = h_ExecutionKey h \<and> sp_RunToken spec = h_RunToken h)"
| "runs_attempt h (CancelCall _ _ _) = False"

text \<open>A call may follow another if it goes to the same executor, or the other was declined.\<close>

definition in_turn :: "call \<Rightarrow> call \<Rightarrow> bool" where
  "in_turn c c' \<longleftrightarrow> call_to c = call_to c' \<or> declined_call c"

text \<open>The calls to one executor: at most \<open>n\<close>, all of this attempt, the last one declined if the answer is a refusal.\<close>

definition sends :: "Holder \<Rightarrow> string \<Rightarrow> nat \<Rightarrow> call list \<Rightarrow> Answer \<Rightarrow> machine \<Rightarrow> bool" where
  "sends h x n w a s \<longleftrightarrow>
     (\<exists>cs. m_wire s = w @ cs \<and> length cs \<le> n \<and> (\<forall>c \<in> set cs. call_to c = x \<and> runs_attempt h c) \<and>
        (a = Refused \<longrightarrow> cs \<noteq> [] \<and> declined_call (last cs)))"

lemma sends_nothing: "m_wire s = w \<Longrightarrow> a \<noteq> Refused \<Longrightarrow> sends h x n w a s"
  by (simp add: sends_def)

lemma sends_more:
  assumes "sends h x n (w @ [c]) a s" "call_to c = x" "runs_attempt h c"
  shows "sends h x (Suc n) w a s"
proof -
  obtain cs where "m_wire s = (w @ [c]) @ cs" "length cs \<le> n" "\<forall>c \<in> set cs. call_to c = x \<and> runs_attempt h c"
    "a = Refused \<longrightarrow> cs \<noteq> [] \<and> declined_call (last cs)" using assms(1) by (auto simp: sends_def)
  then show ?thesis using assms(2,3) unfolding sends_def by (intro exI [of _ "c # cs"]) auto
qed

definition spec_of :: "Holder \<Rightarrow> RunSpec \<Rightarrow> bool" where
  "spec_of h spec \<longleftrightarrow> sp_ExecutionKey spec = h_ExecutionKey h \<and> sp_RunToken spec = h_RunToken h"

lemma resend_check_spec:
  assumes "spec_of h spec"
  shows "triple (\<lambda>s. m_wire s = w) (resend_check cfg W h spec target deadline)
    (\<lambda>r s. m_wire s = w \<and> (\<forall>spec'. r = Some spec' \<longrightarrow> spec_of h spec'))"
proof (rule keeps_returns [OF quiet_dispatch(3)])
  show "returns (resend_check cfg W h spec target deadline) (\<lambda>r. \<forall>spec'. r = Some spec' \<longrightarrow> spec_of h spec')"
    unfolding resend_check_def
    by (intro returns_bind triple_if returns_return) (use assms in \<open>auto simp: spec_of_def split: sum.splits\<close>)
qed

lemma send_wire:
  assumes "spec_of h spec"
  shows "triple (\<lambda>s. m_wire s = w) (send W cap x spec)
    (\<lambda>res s. \<exists>c. m_wire s = w @ [c] \<and> call_to c = x \<and> runs_attempt h c \<and> (rs_Answer res = Refused \<longrightarrow> declined_call c))"
  unfolding send_def
proof (rule triple_bind [OF quiet_handlers(1)], rule triple_bind [OF observe_wire])
  fix t v
  show "triple (\<lambda>s. m_wire s = w)
     (let open' = \<not> w_ctx v \<and> w_wall v - t < cap; res = Run (if open' then w_net v else late_reply (w_net v)) spec
      in modify (\<lambda>s. s\<lparr>m_wire := m_wire s @ [RunCall (w_wall v) x spec open' res]\<rparr>) \<bind> (\<lambda>_. return res))
     (\<lambda>res s. \<exists>c. m_wire s = w @ [c] \<and> call_to c = x \<and> runs_attempt h c \<and> (rs_Answer res = Refused \<longrightarrow> declined_call c))"
    using assms by (simp add: triple_def modify_def Let_def spec_of_def)
qed

lemma after_send:
  assumes "\<And>w' spec. spec_of h spec \<Longrightarrow> triple (\<lambda>s. m_wire s = w') (again spec) (sends h x n w')" "spec_of h spec"
  shows "triple (\<lambda>s. \<exists>c. m_wire s = w @ [c] \<and> call_to c = x \<and> runs_attempt h c \<and> (rs_Answer res = Refused \<longrightarrow> declined_call c))
    (case rs_Answer res of Accepted \<Rightarrow> accepted cfg W h res | Refused \<Rightarrow> return Refused | Unknown \<Rightarrow> again spec)
    (sends h x (Suc n) w)"
  unfolding triple_def
proof (intro allI impI)
  fix s :: machine assume "\<exists>c. m_wire s = w @ [c] \<and> call_to c = x \<and> runs_attempt h c \<and> (rs_Answer res = Refused \<longrightarrow> declined_call c)"
  then obtain c where c: "m_wire s = w @ [c]" "call_to c = x" "runs_attempt h c" "rs_Answer res = Refused \<longrightarrow> declined_call c" by blast
  have "returns (accepted cfg W h res) (\<lambda>a. a \<noteq> Refused)"
    unfolding accepted_def by (intro triple_if returns_bind returns_return) (auto split: sum.splits intro!: returns_bind returns_return)
  note acc = keeps_returns [OF quiet_dispatch(2) [of "w @ [c]" cfg W h res] this]
  show "case run_state (case rs_Answer res of Accepted \<Rightarrow> accepted cfg W h res | Refused \<Rightarrow> return Refused | Unknown \<Rightarrow> again spec) s of
      (r, s') \<Rightarrow> sends h x (Suc n) w r s'"
  proof (cases "rs_Answer res")
    case Accepted
    then show ?thesis using triple_run [OF acc, of s] c by (auto simp: split_def intro: sends_more sends_nothing)
  next
    case Refused
    have "sends h x (Suc n) w Refused s" using c Refused unfolding sends_def by (intro exI [of _ "[c]"]) simp
    then show ?thesis by (simp add: Refused)
  next
    case Unknown
    then show ?thesis using triple_run [OF assms(1) [OF assms(2)], of s "w @ [c]"] c by (auto simp: split_def intro: sends_more)
  qed
qed

lemma sends_keep: "keeps (\<lambda>s. m_wire s = w) m \<Longrightarrow> returns m (\<lambda>a. a \<noteq> Refused) \<Longrightarrow> triple (\<lambda>s. m_wire s = w) m (sends h x n w)"
  by (drule keeps_returns, assumption) (erule triple_weaken, auto intro: sends_nothing)

lemma sends_unknown: "triple (\<lambda>s. m_wire s = w) (return Unknown) (sends h x n w)"
  by (rule triple_return) (simp add: sends_nothing)

lemma sends_give_up: "triple (\<lambda>s. m_wire s = w) (modify (untrack i e) \<bind> (\<lambda>_. return Unknown)) (sends h x n w)"
  by (rule triple_bind [OF modify_wire sends_unknown]) (rule untrack_wire)

lemma attempt_once_sends:
  assumes "\<And>w' spec. spec_of h spec \<Longrightarrow> triple (\<lambda>s. m_wire s = w') (again spec) (sends h (x_ExecutorID target) n w')" "spec_of h spec"
  shows "triple (\<lambda>s. m_wire s = w) (attempt_once first cfg W h def target deadline spec again) (sends h (x_ExecutorID target) (Suc n) w)"
proof -
  have sent: "triple (\<lambda>s. m_wire s = w) (time_now W \<bind> (\<lambda>t. let cap = min own (deadline - t) in
        if cap \<le> 0 then modify (untrack (h_ExecutionID h) (h_FenceEpoch h)) \<bind> (\<lambda>_. return Unknown)
        else send W cap (x_ExecutorID target) spec' \<bind> (\<lambda>res. case rs_Answer res of Accepted \<Rightarrow> accepted cfg W h res
          | Refused \<Rightarrow> return Refused | Unknown \<Rightarrow> again spec')))
      (sends h (x_ExecutorID target) (Suc n) w)" if "spec_of h spec'" for own spec'
    unfolding Let_def
    by (rule triple_bind [OF quiet_handlers(1)], rule triple_if, rule sends_give_up,
        rule triple_bind [OF send_wire [OF that]], rule after_send [OF assms(1) that])
  have checked: "triple (\<lambda>s. m_wire s = w) (if first then return (Some spec) else resend_check cfg W h spec target deadline)
      (\<lambda>r s. m_wire s = w \<and> (\<forall>spec'. r = Some spec' \<longrightarrow> spec_of h spec'))"
    using resend_check_spec [OF assms(2)] assms(2) by (auto intro: triple_return)
  have go: "triple (\<lambda>s. m_wire s = w \<and> (\<forall>spec'. r = Some spec' \<longrightarrow> spec_of h spec')) (case r of
        None \<Rightarrow> return Unknown
      | Some spec' \<Rightarrow> time_now W \<bind> (\<lambda>t. let cap = min own (deadline - t) in
        if cap \<le> 0 then modify (untrack (h_ExecutionID h) (h_FenceEpoch h)) \<bind> (\<lambda>_. return Unknown)
        else send W cap (x_ExecutorID target) spec' \<bind> (\<lambda>res. case rs_Answer res of Accepted \<Rightarrow> accepted cfg W h res
          | Refused \<Rightarrow> return Refused | Unknown \<Rightarrow> again spec')))
      (sends h (x_ExecutorID target) (Suc n) w)" for own r
    using sent sends_unknown by (cases r) (auto intro!: triple_weaken [OF sends_unknown] simp: triple_def)
  show ?thesis
    unfolding attempt_once_def
    by (rule triple_bind [OF quiet_handlers(2)], rule triple_if, rule sends_unknown, rule triple_bind [OF quiet_handlers(6)],
        rule triple_if, rule sends_give_up, rule triple_bind [OF checked], rule go)
qed

lemma attempt_loop_sends:
  "spec_of h spec \<Longrightarrow>
   triple (\<lambda>s. m_wire s = w) (attempt_loop n first cfg W h def target deadline spec) (sends h (x_ExecutorID target) (Suc n) w)"
proof (induction n arbitrary: first spec w)
  case 0
  show ?case
    unfolding attempt_loop.simps
    by (rule attempt_once_sends [OF _ 0], rule sends_keep) (intro monad_rules quiet_handlers returns_bind returns_return; simp)+
next
  case (Suc n)
  show ?case
    unfolding attempt_loop.simps
    by (rule attempt_once_sends [OF _ Suc.prems], rule triple_bind [OF observe_wire], rule triple_if, rule sends_unknown, rule Suc.IH)
qed

section \<open>A whole dispatch\<close>

text \<open>The calls \<open>cs\<close> hand one attempt to executors in turn, at most \<open>n\<close> calls in all.\<close>

definition in_series :: "Holder \<Rightarrow> string set \<Rightarrow> nat \<Rightarrow> call list \<Rightarrow> bool" where
  "in_series h xs n cs \<longleftrightarrow>
     successively in_turn cs \<and> list_all (\<lambda>c. runs_attempt h c \<and> call_to c \<in> xs) cs \<and> length cs \<le> n"

lemma successively_same: "\<forall>c \<in> set cs. call_to c = x \<Longrightarrow> successively in_turn cs"
  by (induction cs rule: induct_list012) (auto simp: in_turn_def)

lemma sends_series: "sends h x n w a s \<Longrightarrow> x \<in> xs \<Longrightarrow> n \<le> n' \<Longrightarrow> \<exists>cs. m_wire s = w @ cs \<and> in_series h xs n' cs"
  unfolding sends_def in_series_def by (force simp: list_all_iff intro: successively_same)

lemma sends_refused_series:
  assumes "sends h x n w Refused s" "m_wire s' = m_wire s @ cs'" "in_series h xs n' cs'"
  shows "\<exists>cs. m_wire s' = w @ cs \<and> in_series h (insert x xs) (n + n') cs"
proof -
  obtain cs where cs: "m_wire s = w @ cs" "length cs \<le> n" "\<forall>c \<in> set cs. call_to c = x \<and> runs_attempt h c"
    "cs \<noteq> []" "declined_call (last cs)" using assms(1) by (auto simp: sends_def)
  have "successively in_turn (cs @ cs')"
    using cs assms(3) successively_same [of cs x] by (simp add: successively_append_iff in_series_def in_turn_def)
  then have "in_series h (insert x xs) (n + n') (cs @ cs')"
    using cs assms(3) by (auto simp: in_series_def list_all_iff)
  then show ?thesis using cs(1) assms(2) by auto
qed

lemma try_targets_series:
  "triple (\<lambda>s. m_wire s = w) (try_targets targets first cfg W h def snapshot p deadline remaining)
     (\<lambda>_ s. \<exists>cs. m_wire s = w @ cs \<and>
        in_series h (x_ExecutorID ` set targets) (length targets * max 1 (nat (g_DispatchResendLimit cfg))) cs)"
  (is "triple _ _ (\<lambda>_. ?series targets)")
proof (induction targets arbitrary: first remaining w)
  case Nil
  show ?case by (simp, rule triple_weaken [OF quiet_dispatch(1)]) (auto simp: in_series_def)
next
  case (Cons x xs)
  define k where "k = max 1 (nat (g_DispatchResendLimit cfg))"
  have k: "Suc (nat (g_DispatchResendLimit cfg - 1)) = k" by (simp add: k_def)
  let ?post = "\<lambda>s. \<exists>cs. m_wire s = w @ cs \<and> in_series h (x_ExecutorID ` set (x # xs)) (length (x # xs) * k) cs"
  have none: "triple (\<lambda>s. m_wire s = w) (return ()) (\<lambda>_. ?post)"
    by (rule triple_return) (auto simp: in_series_def)
  have sent: "triple (\<lambda>s. m_wire s = w) (attemptDispatch cfg W h def (run_spec cfg h def snapshot x left) x deadline)
      (sends h (x_ExecutorID x) k w)" for left
    using attempt_loop_sends [of h "run_spec cfg h def snapshot x left" w "nat (g_DispatchResendLimit cfg - 1)" True cfg W def x deadline]
    by (simp add: attemptDispatch_def k spec_of_def run_spec_def)
  have one: "sends h (x_ExecutorID x) k w a s \<Longrightarrow> ?post s" for a s
    by (rule sends_series) auto
  have go: "triple (sends h (x_ExecutorID x) k w a) (case a of Accepted \<Rightarrow> return ()
        | Unknown \<Rightarrow> modify (untrack (h_ExecutionID h) (h_FenceEpoch h))
        | Refused \<Rightarrow> try_targets xs False cfg W h def snapshot p deadline left) (\<lambda>_. ?post)" for a left
  proof (cases a)
    case Accepted
    then show ?thesis using one by (auto intro: triple_return)
  next
    case Unknown
    have "?post (untrack (h_ExecutionID h) (h_FenceEpoch h) s)" if "sends h (x_ExecutorID x) k w Unknown s" for s
      using one [OF that] by (simp add: untrack_wire)
    then show ?thesis by (simp add: Unknown triple_modify)
  next
    case Refused
    show ?thesis unfolding Refused triple_def
    proof (simp only: Answer.case, intro allI impI)
      fix s assume s: "sends h (x_ExecutorID x) k w Refused s"
      show "case run_state (try_targets xs False cfg W h def snapshot p deadline left) s of (_, s') \<Rightarrow> ?post s'"
        using triple_run [OF Cons.IH, of s "m_wire s" False left] sends_refused_series [OF s]
        by (fastforce simp: split_def k_def)
    qed
  qed
  have "triple (\<lambda>s. m_wire s = w) (if first then return (Some remaining) else next_target W h p x) (\<lambda>_ s. m_wire s = w)"
    by (intro triple_if keeps_return quiet_dispatch)
  moreover have "triple (\<lambda>s. m_wire s = w) (case b of None \<Rightarrow> return () | Some left \<Rightarrow>
      attemptDispatch cfg W h def (run_spec cfg h def snapshot x left) x deadline \<bind> (\<lambda>a. case a of Accepted \<Rightarrow> return ()
        | Unknown \<Rightarrow> modify (untrack (h_ExecutionID h) (h_FenceEpoch h))
        | Refused \<Rightarrow> try_targets xs False cfg W h def snapshot p deadline left)) (\<lambda>_. ?post)" for b
    using none triple_bind [OF sent go] by (cases b) auto
  ultimately show ?case unfolding try_targets.simps k_def [symmetric] by (rule triple_bind)
qed

end
