(* ===== verification/Operation.thy ===== *)
theory Operation
  imports EngineCalls Examples Firing Scheduling
begin

text \<open>
  The properties of the engine: its handlers hand an attempt to one executor at a time, and leave work alone that an executor says is
  running, within its runtime cap; what retirement looked at before it reports a tenant clean, and how the report can still be wrong;
  how a send can come late; what a materialized run follows.
\<close>

section \<open>A quiet world\<close>

text \<open>A world for the examples: the clock stands at \<open>t\<close> seconds, nothing fails, nobody interferes.\<close>

definition silent_net :: network where
  "silent_net =
     \<lparr>n_conn = (\<lambda>_. True), n_struct = (\<lambda>_. True), n_run = (\<lambda>_. Inl \<lparr>gs_IsStatus = True, gs_Code = CodeOther, gs_Details = []\<rparr>),
      n_cancel = (\<lambda>_ _ _. CodeOK), n_get = (\<lambda>_ _. None), n_describe = (\<lambda>_. Inl CodeOther), n_probe = (\<lambda>_. CodeOther)\<rparr>"

definition calm :: "time \<Rightarrow> world" where
  "calm t =
     \<lparr>w_env = env_at t, w_wall = t * Second, w_db = True, w_others = id, w_stopClaim = False, w_stop = False, w_fence = True,
      w_ctx = False, w_net = silent_net, w_jitter = (\<lambda>_. 0), w_uuid = ''u''\<rparr>"

definition config_s1 :: Config where
  "config_s1 =
     \<lparr>g_InstanceID = ''s1'', g_MisfireGrace = 60 * Second, g_ExecutorLiveness = 30 * Second, g_ExecutorRetention = 24 * Hour,
      g_ExecutionSuccessRetention = 24 * Hour, g_ExecutionOtherRetention = 24 * Hour, g_PageSize = 10, g_BackoffBase = 5 * Second,
      g_BackoffMax = 5 * Minute, g_DispatchResendLimit = 3, g_DispatchResendWindow = 30 * Second\<rparr>"

definition engine_on :: "db \<Rightarrow> machine" where
  "engine_on db = snd (New config_s1 db)"

lemma New_known: "tracked_known (snd (New cfg db)) \<and> m_db (snd (New cfg db)) = db"
  by (simp add: New_def Let_def tracked_known_def)

lemma honest_calm: "(\<And>n. w_others (W n) = id) \<Longrightarrow> honest W"
  by (simp add: honest_def)

section \<open>One executor at a time\<close>

text \<open>C4: One dispatch hands its attempt to executors one at a time: the calls it makes are all \<open>Run\<close>s of this execution
  and this attempt, to executors among the targets, each to the same executor as the call before or after that call was
  declined, and there are at most as many as the targets times the re-send limit.\<close>

theorem dispatch_serial:
  "\<exists>cs. m_wire (snd (run_state (dispatch params_ok cfg W h def snapshot targets p) s)) = m_wire s @ cs \<and>
     in_series h (x_ExecutorID ` set targets) (length targets * max 1 (nat (g_DispatchResendLimit cfg))) cs"
proof -
  let ?post = "\<lambda>_ s'. \<exists>cs. m_wire s' = m_wire s @ cs \<and>
    in_series h (x_ExecutorID ` set targets) (length targets * max 1 (nat (g_DispatchResendLimit cfg))) cs"
  have "triple (\<lambda>s'. m_wire s' = m_wire s) (releaseUndispatchable W p (h_FenceEpoch h)) ?post"
    by (rule triple_weaken [OF quiet_dispatch(1)]) (auto simp: in_series_def)
  then have "triple (\<lambda>s'. m_wire s' = m_wire s) (dispatch params_ok cfg W h def snapshot targets p) ?post"
    unfolding dispatch_def by (intro triple_if) (assumption | rule triple_bind [OF quiet_handlers(1) try_targets_series])+
  from triple_run [OF this] show ?thesis by simp
qed

section \<open>Work that runs is left alone\<close>

text \<open>From \<open>s0\<close> the handler has written nothing: the database is what the other instances made of it.\<close>

definition idle :: "worlds \<Rightarrow> machine \<Rightarrow> machine \<Rightarrow> bool" where
  "idle W s0 s \<longleftrightarrow> m_tick s0 \<le> m_tick s \<and> m_db s = fold (\<lambda>n. w_others (W n)) [m_tick s0..<m_tick s] (m_db s0)"

lemma idle_refl: "idle W s s"
  by (simp add: idle_def)

lemma idle_frame: "idle W s0 s \<Longrightarrow> m_db s' = m_db s \<Longrightarrow> m_tick s' = m_tick s \<Longrightarrow> idle W s0 s'"
  by (simp add: idle_def)

lemma idle_observe: "keeps (idle W s0) (observe W)"
  by (simp add: triple_def observe_def idle_def)

lemma idle_query: "keeps (idle W s0) (query W f)"
  unfolding query_def by (intro monad_rules idle_observe)

lemma idle_modify: "(\<And>s. m_db (f s) = m_db s \<and> m_tick (f s) = m_tick s) \<Longrightarrow> keeps (idle W s0) (modify f)"
  by (rule triple_modify) (erule idle_frame, simp_all)

lemma idle_handlers:
  "keeps (idle W s0) (stopping W)" "keeps (idle W s0) (renewing W)" "keeps (idle W s0) (mayRecover W b)" "keeps (idle W s0) (addressOf W x)"
  "keeps (idle W s0) (ask W v)" "keeps (idle W s0) (askExecutor W v)" "keeps (idle W s0) (requestStop W v)"
  unfolding stopping_def renewing_def mayRecover_def addressOf_def ask_def askExecutor_def requestStop_def
  by (intro monad_rules idle_observe idle_query idle_modify; simp)+

text \<open>A handler that asks first and does nothing on the answer it got.\<close>

lemma idle_answer:
  assumes "keeps (idle W s) m" "keeps (idle W s) (f (fst (run_state m s)))"
  shows "idle W s (snd (run_state (State_Monad.bind m f) s))"
proof -
  obtain r s1 where m: "run_state m s = (r, s1)" by fastforce
  have "idle W s s1" using triple_run [OF assms(1) idle_refl] m by simp
  from triple_run [OF assms(2) this] show ?thesis using m by simp
qed

text \<open>From \<open>s0\<close> the handler has ended no attempt: every write of its own leaves each execution in flight that was, under its token. In between
  the other instances do what they do.\<close>

definition spares :: "db \<Rightarrow> db \<Rightarrow> bool" where
  "spares d d' \<longleftrightarrow> (\<forall>i e. exec_row d i = Some e \<and> in_flight (je_status e) \<longrightarrow>
     (\<exists>e'. exec_row d' i = Some e' \<and> in_flight (je_status e') \<and> je_run_token e' = je_run_token e))"

inductive tending :: "worlds \<Rightarrow> machine \<Rightarrow> machine \<Rightarrow> bool" for W s0 where
  begun: "m_tick s = m_tick s0 \<Longrightarrow> m_db s = m_db s0 \<Longrightarrow> tending W s0 s"
| interleaved: "tending W s0 s \<Longrightarrow> m_tick s' = Suc (m_tick s) \<Longrightarrow> m_db s' = w_others (W (m_tick s)) (m_db s) \<Longrightarrow> tending W s0 s'"
| wrote: "tending W s0 s \<Longrightarrow> m_tick s' = m_tick s \<Longrightarrow> spares (m_db s) (m_db s') \<Longrightarrow> tending W s0 s'"

text \<open>The database the handler last looked at has the execution past its runtime cap.\<close>

definition capped :: "worlds \<Rightarrow> Stale \<Rightarrow> machine \<Rightarrow> bool" where
  "capped W v s \<longleftrightarrow> 0 < m_tick s \<and> (\<exists>e. exec_row (m_db s) (v_ID v) = Some e \<and> cap_elapsed (w_env (W (m_tick s - 1))) e)"

lemma spares_refl: "spares d d"
  by (auto simp: spares_def)

lemma tending_frame: "tending W s0 s \<Longrightarrow> m_db s' = m_db s \<Longrightarrow> m_tick s' = m_tick s \<Longrightarrow> tending W s0 s'"
  by (rule tending.wrote [of W s0 s]) (simp_all add: spares_refl)

lemma tending_observe: "keeps (tending W s0) (observe W)"
  by (auto simp: triple_def observe_def intro: tending.interleaved)

lemma tending_query: "keeps (tending W s0) (query W f)"
  unfolding query_def by (intro monad_rules tending_observe)

lemma tending_modify: "(\<And>s. m_db (f s) = m_db s \<and> m_tick (f s) = m_tick s) \<Longrightarrow> keeps (tending W s0) (modify f)"
  by (rule triple_modify) (erule tending_frame, simp_all)

lemma tending_handlers:
  "keeps (tending W s0) (renewing W)" "keeps (tending W s0) (mayRecover W b)" "keeps (tending W s0) (ask W v)"
  "keeps (tending W s0) (time_now W)" "keeps (tending W s0) (leaseSecondsFor W j)"
  unfolding stopping_def renewing_def mayRecover_def addressOf_def ask_def time_now_def leaseSecondsFor_def
  by (intro monad_rules tending_observe tending_query; simp)+

text \<open>A transaction that spares what is in flight when it commits, and what it may say when it does not.\<close>

lemma tending_tx:
  assumes "\<And>env d r d'. f env d = Inr (r, d') \<Longrightarrow> spares d d'"
    and "\<And>env d. f env d = Inl err \<Longrightarrow> \<exists>e. exec_row d (v_ID v) = Some e \<and> cap_elapsed env e" "err \<noteq> ErrOther"
  shows "triple (tending W s0) (tx W f) (\<lambda>r s. tending W s0 s \<and> (r = Inl err \<longrightarrow> capped W v s))"
  unfolding tx_def
proof (rule triple_bind [where R = "\<lambda>w s. tending W s0 s \<and> 0 < m_tick s \<and> w = W (m_tick s - 1)"])
  show "triple (tending W s0) (observe W) (\<lambda>w s. tending W s0 s \<and> 0 < m_tick s \<and> w = W (m_tick s - 1))"
    by (auto simp: triple_def observe_def intro: tending.interleaved)
  show "triple (\<lambda>s. tending W s0 s \<and> 0 < m_tick s \<and> w = W (m_tick s - 1))
     (get \<bind> (\<lambda>s. if \<not> w_db w then return (Inl ErrOther) else case f (w_env w) (m_db s) of
        Inl e \<Rightarrow> return (Inl e) | Inr (r, d) \<Rightarrow> put (s\<lparr>m_db := d\<rparr>) \<bind> (\<lambda>_. return (Inr r))))
     (\<lambda>r s. tending W s0 s \<and> (r = Inl err \<longrightarrow> capped W v s))" for w
    using assms by (auto simp: triple_def capped_def split: sum.splits intro: tending.wrote)
qed

lemma Adopt_spares: "Adopt env v w l q pr d = Inr (n, d') \<Longrightarrow> spares d d'"
  by (auto simp: Adopt_def Let_def assertOne_def spares_def adopt_exec.lookup_after update_exec_def update_state_def adopt_exec_set_def
      split: if_splits)

lemma Adopt_capped: "Adopt env v w l q pr d = Inl ErrCapElapsed \<Longrightarrow> \<exists>e. exec_row d (v_ID v) = Some e \<and> cap_elapsed env e"
  by (auto simp: Adopt_def Let_def lockState_def lockExecution_def assertOne_def stale_of_def split: if_splits option.splits)

lemma ExtendDeadline_spares: "ExtendDeadline env h q d = Inr d' \<Longrightarrow> spares d d'"
  by (auto simp: ExtendDeadline_def assertSome_def spares_def extend_deadline.lookup_after update_exec_def extend_deadline_set_def
      split: if_splits)

lemma adopt_running_tends:
  "triple (tending W s0) (adopt_running cfg W v) (\<lambda>_ s. tending W s0 s \<or> (\<exists>s1. tending W s0 s1 \<and> capped W v s1))"
proof -
  let ?post = "\<lambda>s. tending W s0 s \<or> (\<exists>s1. tending W s0 s1 \<and> capped W v s1)"
  have tracks: "triple (\<lambda>s. tending W s0 s \<and> A) (modify (track h t) \<bind> (\<lambda>_. return True)) (\<lambda>_. ?post)" for h t A
    by (rule triple_bind [where R = "\<lambda>_. tending W s0"], rule triple_modify)
      (auto intro: tending_frame triple_return simp: track_def)
  have cap: "triple (\<lambda>s. tending W s0 s \<and> capped W v s) m (\<lambda>_. ?post)" for m :: "bool eng"
    by (auto simp: triple_def split: prod.splits)
  have "triple (\<lambda>s. tending W s0 s \<and> (r = Inl ErrCapElapsed \<longrightarrow> capped W v s)) (case r of
       Inr epoch \<Rightarrow> modify (track (held_as cfg v epoch) t) \<bind> (\<lambda>_. return True)
     | Inl e \<Rightarrow> if e = ErrCapElapsed then fenceTimedOut W v \<bind> (\<lambda>_. return True) else return (e = ErrContended)) (\<lambda>_. ?post)" for r t
    using tracks [of "r = Inl ErrCapElapsed \<longrightarrow> True"] cap
    by (cases r) (auto intro: triple_return triple_weaken [OF tracks [of True]])
  then show ?thesis
    unfolding adopt_running_def adopt_then_def
    by (intro triple_bind [OF tending_handlers(4)] triple_bind [OF tending_handlers(5)] triple_bind [OF tending_tx])
      (auto intro: Adopt_spares Adopt_capped)
qed

lemma tending_answer:
  assumes "fst (run_state (ask W v) s) = a" "triple (tending W s) (f a) Q"
  shows "Q (fst (run_state (State_Monad.bind (ask W v) f) s)) (snd (run_state (State_Monad.bind (ask W v) f) s))"
proof -
  obtain s1 where m: "run_state (ask W v) s = (a, s1)" using assms(1) by (metis prod.collapse)
  have "tending W s s1" using triple_run [OF tending_handlers(3) tending.begun, of s s W v] m by simp
  from triple_run [OF assms(2) this] show ?thesis using m by simp
qed

lemma extends_tends: "keeps (tending W s0) (tx_unit W (\<lambda>env. ExtendDeadline env h q) \<bind> (\<lambda>_. return ()))"
proof (rule keeps_bind)
  have "triple (tending W s0) (tx_unit W (\<lambda>env. ExtendDeadline env h q)) (\<lambda>r s. tending W s0 s \<and> (r = Inl ErrCapElapsed \<longrightarrow> capped W v s))" for v
    unfolding tx_unit_def by (rule tending_tx) (auto intro: ExtendDeadline_spares simp: ExtendDeadline_def assertSome_def split: if_splits)
  then show "keeps (tending W s0) (tx_unit W (\<lambda>env. ExtendDeadline env h q))" by (rule triple_weaken) (assumption, erule conjunct1)
qed (rule keeps_return)


definition manned :: db where "manned = ok_db (Register (env_at 103) exec_x 30 running)"

definition v1 :: Stale where "v1 = hd (StaleExecutions (env_at 300) manned 10)"

definition answering :: "ExecutionState \<Rightarrow> string \<Rightarrow> network" where
  "answering st tok = silent_net\<lparr>n_get := (\<lambda>_ _. Some \<lparr>ge_State = st, ge_RunToken = tok,
     ge_Outcome = Some \<lparr>eo_Disposition = DISPOSITION_SUCCESS, eo_FailureKind = [], eo_ErrorDetail = [], eo_Summary = []\<rparr>\<rparr>)\<rparr>"

definition served :: "nat \<Rightarrow> ExecutionState \<Rightarrow> string \<Rightarrow> worlds" where
  "served k st tok n = (calm 300)\<lparr>w_net := answering st tok, w_db := (n \<noteq> k)\<rparr>"


section \<open>Retirement\<close>

text \<open>The last thing a handler did was to read \<open>xs\<close> from a database that answered.\<close>

definition last_read :: "worlds \<Rightarrow> (env \<Rightarrow> db \<Rightarrow> 'a) \<Rightarrow> 'a \<Rightarrow> machine \<Rightarrow> bool" where
  "last_read W f x s \<longleftrightarrow> 0 < m_tick s \<and> w_db (W (m_tick s - 1)) \<and> f (w_env (W (m_tick s - 1))) (m_db s) = x"

lemma query_last_read: "triple P (query W (\<lambda>env db. Inr (f env db))) (\<lambda>r s. \<forall>x. r = Inr x \<longrightarrow> last_read W f x s)"
  by (simp add: triple_def query_def observe_def last_read_def)

lemma triple_after: "(\<And>x. triple (\<lambda>_. True) (f x) Q) \<Longrightarrow> triple P (State_Monad.bind m f) Q"
  by (rule triple_bind [where R = "\<lambda>_ _. True"]) (simp_all add: triple_def split_def)

text \<open>A loop over pages that stops at an empty one.\<close>

lemma pages_until_empty:
  assumes "\<And>s. Q e s" "\<And>s. last_read W f [] s \<Longrightarrow> Q x s" "\<And>xs. xs \<noteq> [] \<Longrightarrow> triple (\<lambda>_. True) (rest xs) Q"
  shows "triple P (query W (\<lambda>env db. Inr (f env db)) \<bind>
    (\<lambda>r. case r of Inl _ \<Rightarrow> return e | Inr xs \<Rightarrow> if xs = [] then return x else rest xs)) Q"
proof (rule triple_bind [OF query_last_read])
  fix r :: "'b list result"
  show "triple (\<lambda>s. \<forall>x. r = Inr x \<longrightarrow> last_read W f x s) (case r of Inl _ \<Rightarrow> return e | Inr xs \<Rightarrow> if xs = [] then return x else rest xs) Q"
    using assms by (cases r) (auto intro: triple_return triple_weaken [OF assms(3)])
qed

lemma release_pages_listed:
  "triple P (release_pages (Suc n) cfg W b)
     (\<lambda>r s. \<forall>d. r = Some d \<longrightarrow> last_read W (\<lambda>env db. OwnedByInstance env db (g_InstanceID cfg) 200) [] s)"
proof (induction n arbitrary: b P)
  case 0
  show ?case
    unfolding release_pages.simps(2)
    by (rule pages_until_empty) (simp, simp, rule triple_after, auto intro: triple_return)
next
  case (Suc n)
  show ?case
    unfolding release_pages.simps(2) [of "Suc n"]
    by (rule pages_until_empty) (simp, simp, rule triple_after, intro triple_if Suc, auto intro: triple_return)
qed

lemma recover_pages_listed:
  "triple P (recover_pages n cfg W adopt b) (\<lambda>r s. \<not> r \<longrightarrow> last_read W (\<lambda>env db. StaleExecutions env db (g_PageSize cfg)) [] s)"
proof (induction n arbitrary: b P)
  case (Suc n)
  show ?case
    unfolding recover_pages.simps(2)
    by (rule pages_until_empty) (simp, simp, rule triple_after, auto intro!: triple_return Suc split: option.split)
qed (simp add: triple_return)

text \<open>When retirement reports a tenant clean, it looked: a scan of the work this instance owns came back empty and, after
  it, the last scan of the expired work of all instances did, both from a database that answered. An unanswered scan,
  a row left because its handler runs, a page without progress or a hundred pages are all reported as work left.\<close>

lemma retirement_looked:
  assumes "run_state (ReleaseOwnedWork cfg W) s = (False, s')"
  shows "\<exists>s1. run_state (release_pages 100 cfg W False) s = (Some False, s1) \<and>
    last_read W (\<lambda>env db. OwnedByInstance env db (g_InstanceID cfg) 200) [] s1 \<and>
    run_state (recoverStale cfg W False) s1 = (False, s') \<and>
    last_read W (\<lambda>env db. StaleExecutions env db (g_PageSize cfg)) [] s'"
proof -
  obtain r s1 where p: "run_state (release_pages 100 cfg W False) s = (r, s1)" by fastforce
  then have r: "r = Some False" "run_state (recoverStale cfg W False) s1 = (False, s')"
    using assms by (auto simp: ReleaseOwnedWork_def split: option.splits prod.splits)
  have "(100 :: nat) = Suc 99" by simp
  then have "last_read W (\<lambda>env db. OwnedByInstance env db (g_InstanceID cfg) 200) [] s1"
    using tripleD [OF release_pages_listed [of "\<lambda>_. True" 99]] p r(1) by force
  moreover have "last_read W (\<lambda>env db. StaleExecutions env db (g_PageSize cfg)) [] s'"
    using tripleD [OF recover_pages_listed [of "\<lambda>_. True"] _ r(2) [unfolded recoverStale_def]] by simp
  ultimately show ?thesis using p r by blast
qed

text \<open>A world that stands still, with one moment at which the database does not answer.\<close>

definition failing_at :: "nat \<Rightarrow> world \<Rightarrow> worlds" where
  "failing_at k w n = w\<lparr>w_db := n \<noteq> k\<rparr>"

lemma failing_observe:
  "w_others w = id \<Longrightarrow> run_state (observe (failing_at k w)) s = (w\<lparr>w_db := m_tick s \<noteq> k\<rparr>, s\<lparr>m_tick := Suc (m_tick s)\<rparr>)"
  by (simp add: observe_def failing_at_def)

lemma Adopt_leaves_none_stale:
  assumes "keys_ok db" "StaleExecutions env db sz = [v]" "2 \<le> sz" "1 \<le> l" "Adopt env v w l q False db = Inr (n, d)"
  shows "StaleExecutions env d sz' = []"
    "\<exists>e. exec_row d (v_ID v) = Some e \<and> in_flight (je_status e) \<and> je_owner_instance e = Some w \<and> je_run_token e \<noteq> None \<and>
       je_lease_until e = Some (add_seconds (utc env) l)"
proof -
  obtain s e where e: "exec_row db (v_ID v) = Some e" "owns_exec (v_ID v) (v_RunToken v) (v_FenceEpoch v) e" "in_flight (je_status e)"
    "exec_row d = (exec_row db)(v_ID v \<mapsto> adopt_exec_set env w n l q (False \<and> je_status e = StatusDispatching) e)" "keys_ok d"
    by (rule Adopt_rows [OF assms(5,1)])
  let ?stale = "\<lambda>e. in_flight (je_status e) \<and> sql_lt (je_lease_until e) (utc env)"
  have only: "je_id x = v_ID v" if "x \<in> set (execs db)" "?stale x" for x
  proof -
    let ?xs = "sort_key (\<lambda>e. (or_zero (je_lease_until e), je_id e)) (filter ?stale (execs db))"
    have t: "map (stale_of env) (take (nat sz) ?xs) = [v]" using assms(2) by (simp add: StaleExecutions_def page_def)
    have "length ?xs = 1" using arg_cong [OF t, of length] assms(3) by (simp add: min_def split: if_splits)
    then have "take (nat sz) ?xs = ?xs" using assms(3) by (intro take_all) simp
    with t have "map (stale_of env) ?xs = [v]" by (simp only:)
    moreover have "stale_of env x \<in> set (map (stale_of env) ?xs)" unfolding set_map using that by (intro imageI) simp
    ultimately have "stale_of env x = v" by (simp only: list.set singleton_iff)
    then show ?thesis by auto
  qed
  have none: "\<not> ?stale x" if x: "x \<in> set (execs d)" for x
  proof (cases "je_id x = v_ID v")
    case True
    then have "x = adopt_exec_set env w n l q False e" using exec_row_mem [OF e(5) x] e(4) by simp
    then show ?thesis using assms(4) by (simp add: adopt_exec_set_def sql_lt_def add_seconds_def)
  next
    case False
    then have "exec_row db (je_id x) = Some x" using exec_row_mem [OF e(5) x] e(4) by simp
    then have "x \<in> set (execs db)" by (auto simp: row_of_def find_Some_iff)
    then show ?thesis using only False by blast
  qed
  then show "StaleExecutions env d sz' = []" by (auto simp: StaleExecutions_def page_def filter_empty_conv)
  show "\<exists>e. exec_row d (v_ID v) = Some e \<and> in_flight (je_status e) \<and> je_owner_instance e = Some w \<and> je_run_token e \<noteq> None \<and>
      je_lease_until e = Some (add_seconds (utc env) l)"
    using e(2,3,4) by (auto simp: adopt_exec_set_def owns_exec_def)
qed

text \<open>C39: A clean report of retirement can be wrong. Let this instance own nothing in flight, let one execution be expired, and let its executor, asked,
  answer that the attempt has finished and how. The sweep adopts the row, which makes this instance its owner under a fresh lease,
  and then applies the result. If that one write does not reach the database, the error is logged and the row counts as settled:
  the own work was listed before, and the scans of expired work no longer list the row, so the tenant is reported clean while this
  instance owns the execution, in flight and unfinished, under a live lease.\<close>

theorem retirement_blind_spot:
  assumes "w_others w = id" "\<not> w_stop w" "w_fence w" "keys_ok (m_db s)"
    and own: "OwnedByInstance (w_env w) (m_db s) (g_InstanceID cfg) 200 = []"
    and stale: "StaleExecutions (w_env w) (m_db s) (g_PageSize cfg) = [v]" "2 \<le> g_PageSize cfg"
    and asked: "v_DispatchedTo v \<noteq> []" "ExecutorAddress (m_db s) (v_DispatchedTo v) = addr" "addr \<noteq> []"
    and answer: "\<not> foreign (GetExecution (w_net w) addr (v_ExecutionKey v)) v" "finishedOutcome (GetExecution (w_net w) addr (v_ExecutionKey v)) = Some oc"
    and lease: "readDefinition (m_db s) (v_JobName v) = Inr def" "Second \<le> d_Lease def"
    and adopts: "Adopt (w_env w) v (g_InstanceID cfg) (d_Lease def div Second) (silenceSeconds cfg) False (m_db s) = Inr (n, d)"
  shows "\<exists>s'. run_state (ReleaseOwnedWork cfg (failing_at (m_tick s + 9) w)) s = (False, s') \<and> m_db s' = d \<and>
    StaleExecutions (w_env w) d (g_PageSize cfg) = [] \<and>
    (\<exists>e. exec_row d (v_ID v) = Some e \<and> in_flight (je_status e) \<and> je_owner_instance e = Some (g_InstanceID cfg) \<and> je_run_token e \<noteq> None \<and>
       je_lease_until e = Some (add_seconds (utc (w_env w)) (d_Lease def div Second)))"
proof -
  let ?W = "failing_at (m_tick s + 9) w" and ?rec = "GetExecution (w_net w) addr (v_ExecutionKey v)"
  have l: "1 \<le> d_Lease def div Second" "\<not> d_Lease def \<le> 0" using zdiv_mono1 [OF lease(2), of Second] lease(2) by simp_all
  note left = Adopt_leaves_none_stale [OF assms(4) stale l(1) adopts]
  note obs = failing_observe [OF assms(1)]
  have nr: "\<not> runs ?rec" using answer(2) by (auto simp: runs_def finishedOutcome_def split: if_splits)
  have hundred: "(100 :: nat) = Suc 99" "(99 :: nat) = Suc 98" by simp_all
  have first: "run_state (release_pages 100 cfg ?W False) s = (Some False, s\<lparr>m_tick := Suc (m_tick s)\<rparr>)"
    unfolding hundred(1) release_pages.simps(2) by (simp add: query_def obs assms(1) own)
  have one: "\<exists>s'. run_state (recoverOne cfg ?W v False) (s\<lparr>m_tick := m_tick s + 3\<rparr>) = (True, s') \<and> m_db s' = d \<and> m_tick s' = m_tick s + 10"
    by (simp add: obs assms(1-3) asked answer nr lease l adopts recoverOne_def ask_def addressOf_def query_def mayRecover_def renewing_def
        Let_def adoptResult_def adopt_then_def leaseSecondsFor_def tx_unit_def tx_def applyOutcome_def backoff_def modify_def untrack_def
        split: option.split del: Second_def)
  then obtain s' where s': "run_state (recoverOne cfg ?W v False) (s\<lparr>m_tick := m_tick s + 3\<rparr>) = (True, s')" "m_db s' = d" "m_tick s' = m_tick s + 10"
    by blast
  have t: "Suc (Suc (Suc (m_tick s))) = m_tick s + 3" by simp
  have "run_state (recover_pages 100 cfg ?W False False) (s\<lparr>m_tick := Suc (m_tick s)\<rparr>) = (False, s'\<lparr>m_tick := Suc (m_tick s')\<rparr>)"
    unfolding hundred recover_pages.simps(2)
    by (simp add: obs assms(1-3) query_def stale(1) mayRecover_def renewing_def t s' left(1))
  with first have "run_state (ReleaseOwnedWork cfg ?W) s = (False, s'\<lparr>m_tick := Suc (m_tick s')\<rparr>)"
    unfolding ReleaseOwnedWork_def recoverStale_def by simp
  then have "\<exists>s'. run_state (ReleaseOwnedWork cfg ?W) s = (False, s') \<and> m_db s' = d" using s'(2) by auto
  with left show ?thesis by blast
qed

definition config_s2 :: Config where "config_s2 = config_s1\<lparr>g_InstanceID := ''s2''\<rparr>"

definition finishing :: world where
  "finishing = (calm 300)\<lparr>w_net := answering EXECUTION_STATE_FINISHED ''t1''\<rparr>"

definition adopted_by_s2 :: db where
  "adopted_by_s2 = ok_snd (Adopt (env_at 300) v1 ''s2'' 60 30 False manned)"

theorem retirement_blind_spot_witness:
  "\<exists>s'. run_state (ReleaseOwnedWork config_s2 (failing_at 9 finishing)) (engine_on manned) = (False, s') \<and> m_db s' = adopted_by_s2 \<and>
     StaleExecutions (env_at 300) adopted_by_s2 10 = [] \<and>
     (\<exists>e. exec_row adopted_by_s2 1 = Some e \<and> in_flight (je_status e) \<and> je_owner_instance e = Some ''s2'' \<and> je_run_token e \<noteq> None \<and>
        je_lease_until e = Some (360 * Second))"
proof -
  let ?d = "job_a\<lparr>d_Version := 1\<rparr>"
  have w: "w_others finishing = id" "\<not> w_stop finishing" "w_fence finishing" "w_env finishing = env_at 300"
    by (simp_all add: finishing_def calm_def)
  have m: "m_db (engine_on manned) = manned" "m_tick (engine_on manned) = 0" by (simp_all add: engine_on_def New_def Let_def)
  have c: "g_InstanceID config_s2 = ''s2''" "g_PageSize config_s2 = 10" "silenceSeconds config_s2 = 30" "2 \<le> g_PageSize config_s2"
    by (simp_all add: config_s2_def config_s1_def silenceSeconds_def)
  have k: "keys_ok manned" by (simp add: keys_ok_def) code_simp
  have f: "OwnedByInstance (env_at 300) manned ''s2'' 200 = []" "StaleExecutions (env_at 300) manned 10 = [v1]" "v_DispatchedTo v1 \<noteq> []"
    "ExecutorAddress manned (v_DispatchedTo v1) = x_Address exec_x" "x_Address exec_x \<noteq> []"
    "\<not> foreign (GetExecution (w_net finishing) (x_Address exec_x) (v_ExecutionKey v1)) v1"
    "finishedOutcome (GetExecution (w_net finishing) (x_Address exec_x) (v_ExecutionKey v1)) =
       Some \<lparr>eo_Disposition = DISPOSITION_SUCCESS, eo_FailureKind = [], eo_ErrorDetail = [], eo_Summary = []\<rparr>"
    "readDefinition manned (v_JobName v1) = Inr ?d" "Second \<le> d_Lease ?d" "d_Lease ?d div Second = 60"
    "Adopt (env_at 300) v1 ''s2'' 60 30 False manned = Inr (2, adopted_by_s2)"
    "v_ID v1 = 1" "add_seconds (utc (env_at 300)) 60 = 360 * Second" by code_simp+
  have "\<exists>s'. run_state (ReleaseOwnedWork config_s2 (failing_at (m_tick (engine_on manned) + 9) finishing)) (engine_on manned) = (False, s') \<and>
     m_db s' = adopted_by_s2 \<and> StaleExecutions (w_env finishing) adopted_by_s2 (g_PageSize config_s2) = [] \<and>
     (\<exists>e. exec_row adopted_by_s2 (v_ID v1) = Some e \<and> in_flight (je_status e) \<and> je_owner_instance e = Some (g_InstanceID config_s2) \<and>
        je_run_token e \<noteq> None \<and> je_lease_until e = Some (add_seconds (utc (w_env finishing)) (d_Lease ?d div Second)))"
    by (rule retirement_blind_spot [OF w(1-3) _ _ _ c(4) f(3) _ f(5-7) _ f(9)]) (use k f(1,2,4,8,11) in \<open>simp_all only: m w(4) c f(10)\<close>)
  then show ?thesis unfolding m w(4) c f(10,12,13) by simp
qed

section \<open>Late sends\<close>

text \<open>The calls a handler has made stay made.\<close>

definition sent_since :: "call list \<Rightarrow> machine \<Rightarrow> bool" where
  "sent_since w s \<longleftrightarrow> (\<exists>cs. m_wire s = w @ cs)"

lemma wire_grows:
  assumes "\<And>w. keeps (\<lambda>s. m_wire s = w) m"
  shows "keeps (sent_since w) m"
proof -
  have "m_wire (snd (run_state m s)) = m_wire s" for s using triple_run [OF assms refl] .
  then show ?thesis by (simp add: triple_def split_def sent_since_def)
qed

lemma send_grows: "keeps (sent_since w) (send W cap x spec)"
  unfolding send_def
  by (intro monad_rules wire_grows quiet_handlers observe_wire triple_modify) (auto simp: sent_since_def)

lemma attempt_once_grows:
  assumes "\<And>spec. keeps (sent_since w) (again spec)"
  shows "keeps (sent_since w) (attempt_once first cfg W h def target deadline spec again)"
  unfolding attempt_once_def
  by (intro monad_rules send_grows assms) (rule wire_grows, intro quiet_handlers quiet_dispatch modify_wire untrack_wire)+

lemma attempt_loop_grows: "keeps (sent_since w) (attempt_loop n first cfg W h def target deadline spec)"
proof (induction n arbitrary: first spec)
  case 0
  show ?case unfolding attempt_loop.simps by (intro attempt_once_grows monad_rules wire_grows quiet_handlers)
next
  case (Suc n)
  show ?case unfolding attempt_loop.simps by (intro attempt_once_grows monad_rules Suc.IH wire_grows observe_wire)
qed

text \<open>The first round of a dispatch, up to its send and over what follows it.\<close>

lemma first_send:
  assumes "k = m_tick s" "\<not> w_stopClaim (W k)" "w_fence (W k)"
    and "left = hold_left (m_tracked s) (h_ExecutionID h) (h_FenceEpoch h) (d_Lease def) (w_wall (W (k + 1)))" "0 < left"
    and "w_wall (W (k + 2)) < deadline" "\<not> w_ctx (W (k + 4))"
    and "w_wall (W (k + 4)) - w_wall (W (k + 3)) < min left (deadline - w_wall (W (k + 2)))"
    and again: "\<And>w spec. keeps (sent_since w) (again spec)"
  shows "\<exists>res. sent_since (m_wire s @ [RunCall (w_wall (W (k + 4))) (x_ExecutorID target) spec True res])
    (snd (run_state (attempt_once True cfg W h def target deadline spec again) s))"
proof -
  define res where "res = Run (w_net (W (k + 4))) spec"
  define w where "w = m_wire s @ [RunCall (w_wall (W (k + 4))) (x_ExecutorID target) spec True res]"
  have ends: "keeps (sent_since w) (case rs_Answer res of Accepted \<Rightarrow> accepted cfg W h res | Refused \<Rightarrow> return Refused | Unknown \<Rightarrow> again spec)"
    by (intro monad_rules again wire_grows quiet_dispatch)
  define s' where "s' = (snd (run_state (send W (min left (deadline - w_wall (W (k + 2)))) (x_ExecutorID target) spec)
    (snd (run_state (time_now W) (snd (run_state (time_now W) (snd (run_state (stopping W) s))))))))"
  have t: "k + 2 = Suc (Suc k)" "k + 3 = Suc (Suc (Suc k))" "k + 4 = Suc (Suc (Suc (Suc k)))" by simp_all
  have proof': "hold_left (m_tracked s) (h_ExecutionID h) (h_FenceEpoch h) (d_Lease def) (w_wall (W (Suc k))) = left" "\<not> left \<le> 0"
    "\<not> min left (deadline - w_wall (W (Suc (Suc k)))) \<le> 0" using assms(4-6) by (simp_all add: t)
  have "m_wire s' = w"
    using assms(7,8) unfolding s'_def
    by (simp add: send_def time_now_def observe_def stopping_def modify_def Let_def w_def res_def t flip: assms(1))
  moreover have "run_state (attempt_once True cfg W h def target deadline spec again) s =
      run_state (case rs_Answer res of Accepted \<Rightarrow> accepted cfg W h res | Refused \<Rightarrow> return Refused | Unknown \<Rightarrow> again spec) s'"
    using assms(2,3,7,8) unfolding s'_def
    by (simp add: proof' attempt_once_def holdRemaining_def send_def time_now_def observe_def stopping_def modify_def Let_def res_def t flip: assms(1)
        cong del: Answer.case_cong_weak)
  ultimately have "sent_since w (snd (run_state (attempt_once True cfg W h def target deadline spec again) s))"
    using triple_run [OF ends, of s'] by (simp add: sent_since_def)
  then show ?thesis unfolding w_def by blast
qed

text \<open>A process that is suspended before its \<open>k\<close>-th observation and wakes at \<open>t\<close>.\<close>

definition woken :: "nat \<Rightarrow> time \<Rightarrow> worlds \<Rightarrow> worlds" where
  "woken k t W n = (if n < k then W n else (W n)\<lparr>w_wall := t\<rparr>)"

text \<open>C40: The bound on a send is relative to the moment its context is made, not to the ownership proof it was computed from, so a process suspended
  between the two sends when it wakes. Let a dispatch pass its checks: it may act, the last proof of its lease is fresh enough, the
  re-send window is open. If the process is then suspended, before it makes the context, until any instant at which the lease it last
  proved has run out, its \<open>Run\<close> reaches the wire at that instant, when another instance may have recovered and dispatched the
  execution.\<close>

theorem late_send_reaches_wire:
  assumes "k = m_tick s" "\<not> w_stopClaim (W k)" "w_fence (W k)" "\<not> w_ctx (W (k + 4))"
    and "map_of (m_tracked s) (h_ExecutionID h) = Some cur" "h_FenceEpoch (hd_h cur) = h_FenceEpoch h" "0 < d_Lease def"
    and "w_wall (W (k + 1)) - hd_confirmed cur < d_Lease def - d_Lease def div 5" "w_wall (W (k + 2)) < deadline"
  shows "\<forall>t. hd_confirmed cur + d_Lease def \<le> t \<longrightarrow>
    (\<exists>res cs. m_wire (snd (run_state (attemptDispatch cfg (woken (k + 3) t W) h def spec target deadline) s)) =
       m_wire s @ RunCall t (x_ExecutorID target) spec True res # cs)"
proof (intro allI impI)
  fix t
  let ?V = "woken (k + 3) t W" and ?n = "nat (g_DispatchResendLimit cfg - 1)"
  have left: "0 < hold_left (m_tracked s) (h_ExecutionID h) (h_FenceEpoch h) (d_Lease def) (w_wall (W (k + 1)))"
    using assms(5-8) by (simp add: hold_left_def Let_def)
  have "\<exists>res. sent_since (m_wire s @ [RunCall (w_wall (?V (k + 4))) (x_ExecutorID target) spec True res])
      (snd (run_state (attempt_once True cfg ?V h def target deadline spec again) s))"
    if "\<And>w spec. keeps (sent_since w) (again spec)" for again
    by (rule first_send [OF assms(1) _ _ refl]) (use assms left that in \<open>simp_all add: woken_def\<close>)
  moreover have "w_wall (?V (k + 4)) = t" by (simp add: woken_def)
  moreover have "attemptDispatch cfg ?V h def spec target deadline = attempt_once True cfg ?V h def target deadline spec (case ?n of
      0 \<Rightarrow> \<lambda>_. markUnhealthy cfg ?V (x_ExecutorID target) \<bind> (\<lambda>_. return Unknown)
    | Suc n \<Rightarrow> \<lambda>spec. observe ?V \<bind> (\<lambda>w. if w_ctx w \<or> w_stop w then return Unknown else attempt_loop n False cfg ?V h def target deadline spec))"
    by (simp add: attemptDispatch_def split: nat.split)
  moreover have "keeps (sent_since w) ((case ?n of
      0 \<Rightarrow> \<lambda>_. markUnhealthy cfg ?V (x_ExecutorID target) \<bind> (\<lambda>_. return Unknown)
    | Suc n \<Rightarrow> \<lambda>spec. observe ?V \<bind> (\<lambda>w. if w_ctx w \<or> w_stop w then return Unknown else attempt_loop n False cfg ?V h def target deadline spec)) spec)"
    for w spec
  proof (cases ?n)
    case 0
    show ?thesis unfolding 0 nat.case by (intro monad_rules wire_grows quiet_handlers)
  next
    case (Suc n)
    show ?thesis unfolding Suc nat.case by (intro monad_rules attempt_loop_grows wire_grows observe_wire)
  qed
  ultimately show "\<exists>res cs. m_wire (snd (run_state (attemptDispatch cfg ?V h def spec target deadline) s)) =
      m_wire s @ RunCall t (x_ExecutorID target) spec True res # cs"
    by (fastforce simp: sent_since_def)
qed

text \<open>An engine that claimed the execution at 101 seconds under the lease of its job, a minute, and is suspended until 171 seconds.\<close>

definition claimed_at_101 :: machine where
  "claimed_at_101 = track holder_a (101 * Second) (engine_on claimed)"

definition spec_a :: RunSpec where
  "spec_a = run_spec config_s1 holder_a job_a (hd (OwnedByInstance (env_at 101) claimed ''s1'' 10)) exec_x (600 * Second)"

theorem late_send_reaches_wire_witness:
  "\<exists>res cs. m_wire (snd (run_state (attemptDispatch config_s1 (woken 3 (171 * Second) (\<lambda>_. calm 101)) holder_a job_a spec_a exec_x (131 * Second))
     claimed_at_101)) = RunCall (171 * Second) (x_ExecutorID exec_x) spec_a True res # cs"
proof -
  let ?cur = "\<lparr>hd_h = holder_a, hd_confirmed = 101 * Second\<rparr>"
  have s: "m_tick claimed_at_101 = 0" "m_wire claimed_at_101 = []" "m_tracked claimed_at_101 = [(1, ?cur)]"
    by (simp_all add: claimed_at_101_def track_def engine_on_def New_def Let_def holder_a_def)
  have "\<forall>t. hd_confirmed ?cur + d_Lease job_a \<le> t \<longrightarrow>
    (\<exists>res cs. m_wire (snd (run_state (attemptDispatch config_s1 (woken (0 + 3) t (\<lambda>_. calm 101)) holder_a job_a spec_a exec_x (131 * Second)) claimed_at_101)) =
       m_wire claimed_at_101 @ RunCall t (x_ExecutorID exec_x) spec_a True res # cs)"
    by (rule late_send_reaches_wire) (simp_all add: s calm_def holder_a_def job_a_def)
  then show ?thesis by (simp add: s job_a_def)
qed

section \<open>Schedules\<close>

text \<open>The cache of compiled expressions holds what \<open>Parse\<close> would return.\<close>

definition cache_ok :: "(string \<times> Expression) list \<Rightarrow> bool" where
  "cache_ok cache \<longleftrightarrow> list_all (\<lambda>(k, e). Parse k = Inr e) cache"

lemma of_cron_Inr: "of_cron r = Inr x \<longleftrightarrow> r = Inr x"
  by (simp add: of_cron_def split: sum.splits)

lemma compile_expr_parses: "cache_ok cache \<Longrightarrow> compile_expr cache def = Inr e \<Longrightarrow> Parse (d_ScheduleExpr def) = Inr e"
  by (auto simp: compile_expr_def cache_ok_def list_all_iff of_cron_Inr split: if_splits option.splits dest!: map_of_SomeD)

lemma compiled_ok: "cache_ok cache \<Longrightarrow> cache_ok (compiled cache def)"
  using compile_expr_parses [of cache def] set_alist_update [of "d_ScheduleExpr def" _ cache]
  by (fastforce simp: compiled_def cache_ok_def list_all_iff split: sum.splits)

lemma compile_lawful: "compile loc cache def = Inr sched \<Longrightarrow> schedule_laws sched"
  by (auto simp: compile_def cron_schedule_def schedule_laws_def of_cron_Inr dest: expr_Next_later elim: expr_Latest_Some)

text \<open>A materialized run, taken apart.\<close>

lemma materialized:
  assumes "MaterializeCron env j cmp grace db = Inr (m, db')" "keys_ok db" "m_Outcome m = MaterializedExecution"
  obtains def sched st dueAt missed t nxt s' where
    "readDefinition db j = Inr def" "cmp def = Inr sched" "state_row db j = Some st" "js_next_fire_at st = Some dueAt" "dueAt \<le> now env"
    "misfire sched (d_Misfire def) missed dueAt (now env - grace) = Inr (Some t)" "Next sched t = Inr nxt"
    "execs db' = execs db @ [execution_of env (cron_row j def t) (next_id db)]" "m_ScheduledAt m = Some t"
    "state_row db' j = Some s'" "js_next_fire_at s' = Some nxt"
proof -
  obtain def sched st where d: "readDefinition db j = Inr def" "cmp def = Inr sched" "lockState env db j = Inr st"
    "cron_live env j def sched grace st db = Inr (m, db')"
    using assms(1,3) by (auto simp: MaterializeCron_def empty_result_def split: if_splits)
  then obtain dueAt where due: "js_next_fire_at st = Some dueAt" "dueAt \<le> now env" "cron_due env j def sched grace dueAt db = Inr (m, db')"
    using assms(3) by (auto simp: cron_live_def empty_result_def not_less split: if_splits option.splits)
  then obtain counted cr nxt where c: "misfire sched (d_Misfire def) (fst counted) dueAt (now env - grace) = Inr cr"
    "Next sched (fire_anchor (d_Misfire def) cr dueAt (now env)) = Inr nxt"
    "cron_commit env j def cr nxt (empty_result\<lparr>m_NextFireAt := Some nxt, m_Missed := fst counted, m_MissedExact := snd counted\<rparr>) db = Inr (m, db')"
    by (auto simp: cron_due_def Let_def)
  obtain t s' where t: "cr = Some t" "m_ScheduledAt m = Some t" "execs db' = execs db @ [execution_of env (cron_row j def t) (next_id db)]"
    "state_row db' j = Some s'" "js_next_fire_at s' = Some nxt"
    using cron_commit_cases [OF c(3) assms(2)] assms(3) by auto
  have "state_row db j = Some st" using d(3) by (auto simp: lockState_def split: if_splits option.splits)
  with that [OF d(1,2) _ due(1,2), of "fst counted" t nxt s'] c t show ?thesis by (simp add: fire_anchor_def)
qed

text \<open>C34: What the engine materializes follows the cron expression of the job. If a run is created, exactly one row was added,
  ready, keyed by its instant, for an instant that is not in the future and is either the stored clock or a fire of the
  expression the definition parses to, and the clock moved to the next fire after that instant; otherwise no row was
  added.\<close>

theorem cron_run_on_schedule:
  assumes "keys_ok db" "cache_ok cache" "0 \<le> grace" "MaterializeCron env j (compile loc cache) grace db = Inr (m, db')"
  shows "if m_Outcome m = MaterializedExecution
    then \<exists>def ex st s' e t n. readDefinition db j = Inr def \<and> Parse (d_ScheduleExpr def) = Inr ex \<and> state_row db j = Some st \<and>
      m_ScheduledAt m = Some t \<and> t \<le> now env \<and> (js_next_fire_at st = Some t \<or> fires ex loc t) \<and>
      execs db' = execs db @ [e] \<and> je_scheduled_at e = t \<and> je_job_name e = j \<and> je_status e = StatusReady \<and>
      je_execution_key e = CronExecutionKey j t \<and>
      state_row db' j = Some s' \<and> js_next_fire_at s' = Some n \<and> expr_Next ex loc t = Inr n \<and> fires ex loc n \<and> t < n
    else execs db' = execs db"
proof (cases "m_Outcome m = MaterializedExecution")
  case False
  then show ?thesis using cron_creates_due_run [OF assms(1,4,3) compile_lawful] by simp
next
  case True
  obtain def sched st dueAt missed t nxt s' where m: "readDefinition db j = Inr def" "compile loc cache def = Inr sched"
    "state_row db j = Some st" "js_next_fire_at st = Some dueAt" "dueAt \<le> now env"
    "misfire sched (d_Misfire def) missed dueAt (now env - grace) = Inr (Some t)" "Next sched t = Inr nxt"
    "execs db' = execs db @ [execution_of env (cron_row j def t) (next_id db)]" "m_ScheduledAt m = Some t"
    "state_row db' j = Some s'" "js_next_fire_at s' = Some nxt" by (rule materialized [OF assms(4,1) True])
  obtain ex where ex: "Parse (d_ScheduleExpr def) = Inr ex" "sched = cron_schedule loc ex"
    using m(2) compile_expr_parses [OF assms(2)] by (auto simp: compile_def)
  have n: "expr_Next ex loc t = Inr nxt" using m(7) ex(2) by (simp add: cron_schedule_def of_cron_Inr)
  have "t = dueAt \<or> fires ex loc t"
    using m(6) ex(2) by (auto simp: misfire_def cron_schedule_def of_cron_Inr split: if_splits dest: expr_Next_later elim!: expr_Latest_Some)
  moreover have "t \<le> now env"
    by (rule misfire_not_early [OF m(6) m(5)]) (use assms(3) compile_lawful [OF m(2)] in \<open>auto simp: schedule_laws_def\<close>)
  ultimately show ?thesis using True m ex n expr_Next_later [OF n] by (auto simp: execution_of_def cron_row_def)
qed

definition every_minute :: Expression where "every_minute = parsed ''0 * * * * *''"

lemma every_minute_run:
  "Parse ''0 * * * * *'' = Inr every_minute"
  "expr_Next every_minute (fixed_zone 28800) (120 * Second) = Inr (180 * Second)"
  "expr_CountBetween every_minute (fixed_zone 28800) (120 * Second - Nanosecond) (125 * Second - Minute - Nanosecond) missedCountLimit = Inr (0, True)"
  by code_simp+

lemma every_minute_fires:
  "MaterializeCron (env_at 125) ''c'' (compile (fixed_zone 28800) [(''0 * * * * *'', every_minute)]) Minute cron_created = Inr (fired_result, fired)"
proof -
  let ?sched = "cron_schedule (fixed_zone 28800) every_minute" and ?def = "job_c\<lparr>d_Version := 1\<rparr>"
  obtain st where st: "lockState (env_at 125) cron_created ''c'' = Inr st" "js_next_fire_at st = Some (120 * Second)"
    "js_config_version st = 1" "\<not> manualPending cron_created ''c''"
  proof
    show "lockState (env_at 125) cron_created ''c'' = Inr (hd (states cron_created))"
      "js_next_fire_at (hd (states cron_created)) = Some (120 * Second)" "js_config_version (hd (states cron_created)) = 1"
      "\<not> manualPending cron_created ''c''" by code_simp+
  qed
  have def: "readDefinition cron_created ''c'' = Inr ?def" by code_simp
  have now: "now (env_at 125) = 125 * Second" by (simp add: env_at_def)
  have "cron_live (env_at 125) ''c'' ?def sched Minute st cron_created = cron_live (env_at 125) ''c'' ?def minutely Minute st cron_created"
    if "CountBetween sched (120 * Second - Nanosecond) (125 * Second - Minute - Nanosecond) missedCountLimit = Inr (0, True)"
      "Next sched (120 * Second) = Inr (180 * Second)" for sched
  proof -
    have "CountBetween minutely (120 * Second - Nanosecond) (125 * Second - Minute - Nanosecond) missedCountLimit = Inr (0, True)"
      "Next minutely (120 * Second) = Inr (180 * Second)" by code_simp+
    with that show ?thesis
      by (simp add: cron_live_def st cron_due_def now misfire_def fire_anchor_def del: Second_def Minute_def Nanosecond_def)
  qed
  moreover have "compile (fixed_zone 28800) [(''0 * * * * *'', every_minute)] ?def = Inr ?sched"
    by (simp add: compile_def compile_expr_def job_c_def)
  ultimately show ?thesis
    using schedule_runs(2) every_minute_run(2,3)
    by (simp add: MaterializeCron_def st def cron_schedule_def of_cron_def job_c_def job_a_def del: Second_def Minute_def Nanosecond_def)
qed

theorem cron_run_on_schedule_witness: "fires every_minute (fixed_zone 28800) (180 * Second)"
proof -
  have "\<exists>def ex n. readDefinition cron_created ''c'' = Inr def \<and> Parse (d_ScheduleExpr def) = Inr ex \<and>
      expr_Next ex (fixed_zone 28800) (120 * Second) = Inr n \<and> fires ex (fixed_zone 28800) n"
    using cron_run_on_schedule [OF reachable_keys [OF reach_cron_created] _ _ every_minute_fires]
    by (auto simp: cache_ok_def every_minute_run(1) fired_result_def empty_result_def)
  moreover have "readDefinition cron_created ''c'' = Inr (job_c\<lparr>d_Version := 1\<rparr>)" by code_simp
  ultimately show ?thesis using every_minute_run(1,2) by (auto simp: job_c_def)
qed

section \<open>Backoff\<close>

lemma double_below_min:
  assumes "0 < d" "mx \<le> 2 ^ 62"
  shows "0 < double_below mx n d \<and> min mx (double_below mx n d) = min mx (d * 2 ^ n)"
  using assms(1)
proof (induction n arbitrary: d)
  case (Suc n)
  show ?case
  proof (cases "d < mx")
    case True
    then have "int64 (d * 2) = d * 2" using assms(2) Suc.prems by (intro int64_id) simp_all
    then show ?thesis using True Suc by (simp add: mult.assoc)
  next
    case False
    have "d * 1 \<le> d * 2 ^ Suc n" using Suc.prems one_le_power [of "2 :: int" "Suc n"] by (intro mult_left_mono) simp_all
    then have "mx \<le> d * 2 ^ Suc n" using False by simp
    then show ?thesis using False Suc.prems by (simp add: min_absorb1 del: power_Suc)
  qed
qed simp

text \<open>The backoff is the capped exponential it is meant to be: the base doubled once per attempt, no further than the
  maximum, plus a jitter below a quarter of that, in whole seconds and at least one. The doubling loop does not wrap for
  any maximum up to 2 ^ 62 nanoseconds, however many attempts there were.\<close>

lemma backoff_exponential:
  assumes "backoff_max cfg \<le> 2 ^ 62" "\<And>q. 0 < q \<Longrightarrow> 0 \<le> jitter q \<and> jitter q < q"
  shows "\<exists>j. 0 \<le> j \<and> 4 * j \<le> min (backoff_max cfg) (backoff_base cfg * 2 ^ nat attempt) \<and>
    backoff_seconds cfg jitter attempt = max 1 ((min (backoff_max cfg) (backoff_base cfg * 2 ^ nat attempt) + j) div Second)"
proof -
  define d where "d = min (backoff_max cfg) (double_below (backoff_max cfg) (nat attempt) (backoff_base cfg))"
  have "0 < backoff_base cfg" "0 < backoff_max cfg" by (simp_all add: backoff_base_def backoff_max_def Minute_def)
  with double_below_min [OF this(1) assms(1), of "nat attempt"] have d: "0 < d" "d = min (backoff_max cfg) (backoff_base cfg * 2 ^ nat attempt)"
    by (simp_all add: d_def)
  have capped: "(if mx < x then mx else x) = min mx x" and floored: "(if x < 1 then 1 else x) = max 1 x" for mx x :: int by simp_all
  define j where "j = (if d div 4 \<le> 0 then 0 else jitter (d div 4))"
  have "0 \<le> j" "j \<le> d div 4" using assms(2) [of "d div 4"] d(1) by (auto simp: j_def)
  then have "0 \<le> j" "4 * j \<le> d" by auto
  moreover have "backoff_seconds cfg jitter attempt = max 1 ((d + j) div Second)"
    unfolding backoff_seconds_def Let_def capped d_def [symmetric] j_def [symmetric] floored ..
  ultimately show ?thesis unfolding d(2) by blast
qed

end
