(* ===== verification/Picking.thy ===== *)
theory Picking
  imports Operation "HOL-Library.Multiset"
begin

text \<open>
  Which executors a dispatch tries, and in which order (\<open>pickExecutors\<close>): every live executor of the handler
  once, the healthy ones first, the roomiest first among them, equals in rotation.
\<close>

section \<open>Ranks and turns\<close>

lemma triple_traverse:
  assumes "\<And>x. x \<in> set xs \<Longrightarrow> triple P (f x) (\<lambda>r s. P s \<and> R x r)"
  shows "triple P (State_Monad.traverse_list f xs) (\<lambda>rs s. P s \<and> list_all2 R xs rs)"
  using assms
proof (induction xs)
  case (Cons x xs)
  have tail: "triple P (State_Monad.traverse_list f xs) (\<lambda>rs s. P s \<and> list_all2 R xs rs)" using Cons by simp
  have "triple (\<lambda>s. P s \<and> R x r) (State_Monad.traverse_list f xs \<bind> (\<lambda>rs. return (r # rs))) (\<lambda>rs s. P s \<and> list_all2 R (x # xs) rs)" for r
    using tail by (simp add: triple_def split_def)
  with Cons.prems [of x] show ?case by (auto intro: triple_bind)
qed (simp add: triple_return)

definition rank_of :: "bool \<times> Executor \<Rightarrow> bool \<times> int" where
  "rank_of hx = (\<not> fst hx, - headroom (snd hx))"

lemma ranked_alt: "ranked hs = sort_key rank_of hs"
  by (simp add: ranked_def rank_of_def [abs_def] case_prod_unfold)

lemma leaders_alt: "leaders (hx # hs) = length (takeWhile (\<lambda>y. rank_of y = rank_of hx) (hx # hs))"
  by (cases hx) (auto simp: leaders_def rank_of_def case_prod_unfold intro!: arg_cong [where f = length] takeWhile_cong)

lemma leaders_same: "map rank_of (take (leaders hs) hs) = replicate (leaders hs) (rank_of (hd hs))"
proof (cases hs)
  case Nil
  then show ?thesis by (simp add: leaders_def)
next
  case (Cons hx ys)
  have "take (leaders hs) hs = takeWhile (\<lambda>y. rank_of y = rank_of hx) hs"
    unfolding Cons leaders_alt by (rule takeWhile_eq_take [symmetric])
  moreover have "map rank_of zs = replicate (length zs) (rank_of hx)" if "zs = takeWhile (\<lambda>y. rank_of y = rank_of hx) hs" for zs
    unfolding that by (rule replicate_eqI) (auto dest: set_takeWhileD)
  ultimately show ?thesis using leaders_alt [of hx ys] unfolding Cons by (simp only: list.sel)
qed

lemma leaders_le: "leaders hs \<le> length hs"
  by (cases hs) (auto simp: leaders_def length_takeWhile_le split: prod.splits intro: order_trans [OF length_takeWhile_le])

lemma take_turns_map: "map f (take_turns n l xs) = take_turns n l (map f xs)"
  by (simp add: take_turns_def take_map drop_map)

lemma take_turns_mset: "n \<le> l \<Longrightarrow> l \<le> length xs \<Longrightarrow> mset (take_turns n l xs) = mset xs"
proof -
  assume "n \<le> l" "l \<le> length xs"
  then have "take n xs @ take (l - n) (drop n xs) = take l xs" by (metis le_add_diff_inverse take_add)
  then have "mset (take_turns n l xs) = mset (take l xs) + mset (drop l xs)"
    unfolding take_turns_def by (metis mset_append add.assoc add.commute)
  then show ?thesis by (metis append_take_drop_id mset_append)
qed

lemma take_turns_same: "n \<le> l \<Longrightarrow> l \<le> length xs \<Longrightarrow> take l xs = replicate l k \<Longrightarrow> take_turns n l xs = xs"
proof -
  assume a: "n \<le> l" "l \<le> length xs" "take l xs = replicate l k"
  have "take n xs = replicate n k" using a by (metis min.absorb1 take_replicate take_take)
  moreover have "take (l - n) (drop n xs) = replicate (l - n) k" using a by (metis drop_replicate drop_take)
  ultimately have "take_turns n l xs = replicate l k @ drop l xs"
    using a(1) by (simp add: take_turns_def flip: append_assoc replicate_add)
  then show ?thesis using a(3) by (metis append_take_drop_id)
qed

lemma turns_ranked:
  assumes "n \<le> leaders hs"
  shows "map rank_of (take_turns n (leaders hs) hs) = map rank_of hs"
  unfolding take_turns_map
  by (rule take_turns_same [OF assms, where k = "rank_of (hd hs)"]) (simp_all add: leaders_le leaders_same take_map)

section \<open>Health\<close>

text \<open>\<open>u\<close> holds the quarantines at the start.\<close>

definition over :: "worlds \<Rightarrow> (string \<rightharpoonup> time) \<Rightarrow> string \<Rightarrow> bool" where
  "over W u x \<longleftrightarrow> (\<forall>until. u x = Some until \<longrightarrow> (\<exists>n. until < w_wall (W n)))"

definition lifted :: "worlds \<Rightarrow> (string \<rightharpoonup> time) \<Rightarrow> machine \<Rightarrow> bool" where
  "lifted W u s \<longleftrightarrow> (\<forall>x. map_of (m_unhealthy s) x = u x \<or> map_of (m_unhealthy s) x = None \<and> over W u x)"

definition judged :: "worlds \<Rightarrow> (string \<rightharpoonup> time) \<Rightarrow> string \<Rightarrow> bool \<Rightarrow> bool" where
  "judged W u x h \<longleftrightarrow> (if h then over W u x else \<exists>until n. u x = Some until \<and> w_wall (W n) \<le> until)"

lemma dispatchHealthy_judged: "triple (lifted W u) (dispatchHealthy W x) (\<lambda>h s. lifted W u s \<and> judged W u x h)"
  unfolding dispatchHealthy_def
proof (rule triple_get_bind)
  fix s assume l: "lifted W u s"
  have x: "map_of (m_unhealthy s) x = u x \<or> map_of (m_unhealthy s) x = None \<and> over W u x" using l by (simp add: lifted_def)
  show "triple ((=) s) (case map_of (m_unhealthy s) x of None \<Rightarrow> return True | Some until \<Rightarrow> time_now W \<bind> (\<lambda>t.
      if until < t then modify (\<lambda>s. s\<lparr>m_unhealthy := AList.delete x (m_unhealthy s)\<rparr>) \<bind> (\<lambda>_. return True) else return False))
      (\<lambda>h s. lifted W u s \<and> judged W u x h)"
  proof (cases "map_of (m_unhealthy s) x")
    case None
    then show ?thesis using l x by (auto simp: judged_def over_def intro!: triple_return)
  next
    case (Some until)
    then have u: "u x = Some until" using x by auto
    have "over W u x" if "until < w_wall (W n)" for n using u that by (auto simp: over_def)
    then show ?thesis using l u Some
      by (auto simp: triple_def time_now_def observe_def modify_def judged_def lifted_def AList.delete_conv' not_less)
  qed
qed

definition live_at :: "Config \<Rightarrow> worlds \<Rightarrow> Definition \<Rightarrow> machine \<Rightarrow> Executor list" where
  "live_at cfg W def s = LiveExecutors (w_env (W (m_tick s))) (w_others (W (m_tick s)) (m_db s)) (d_HandlerKey def) (d_ExecutorGroup def)
     (g_ExecutorLiveness cfg)"

lemma pick_picked:
  assumes "list_all2 (\<lambda>x h. R (x_ExecutorID x) h) xs health" "xs \<noteq> []" "n \<le> leaders (ranked (zip health xs))"
  defines "order \<equiv> ranked (zip health xs)"
  shows "\<exists>hs. map snd hs = take_turns n (leaders order) (map snd order) \<and> mset (map snd hs) = mset xs \<and> sorted (map rank_of hs) \<and>
    list_all (\<lambda>(h, x). R (x_ExecutorID x) h) hs"
proof (intro exI conjI)
  let ?hs = "take_turns n (leaders order) order"
  have m: "mset ?hs = mset (zip health xs)"
    using assms(3) leaders_le take_turns_mset by (metis mset_sort order_def ranked_alt)
  show "map snd ?hs = take_turns n (leaders order) (map snd order)" by (rule take_turns_map)
  have "mset (map snd ?hs) = mset (map snd (zip health xs))" using m by (metis mset_map)
  then show "mset (map snd ?hs) = mset xs" using list_all2_lengthD [OF assms(1)] by simp
  show "sorted (map rank_of ?hs)"
    using turns_ranked [OF assms(3)] by (simp add: order_def ranked_alt)
  have "set ?hs = set (zip health xs)" using m by (metis set_mset_mset)
  moreover have "R (x_ExecutorID x) h" if "(h, x) \<in> set (zip health xs)" for h x
    using assms(1) that by (force simp: list_all2_conv_all_nth in_set_zip)
  ultimately show "list_all (\<lambda>(h, x). R (x_ExecutorID x) h) ?hs" by (auto simp: list_all_iff)
qed

lemma take_turns_0: "l \<le> length xs \<Longrightarrow> take_turns 0 l xs = xs"
  by (simp add: take_turns_def)

lemma pickExecutors_picked:
  "triple ((=) s) (pickExecutors cfg W def) (\<lambda>r _. \<forall>xs. r = Inr xs \<longrightarrow>
     xs \<noteq> [] \<and> (\<exists>hs. map snd hs = xs \<and> mset xs = mset (live_at cfg W def s) \<and> sorted (map rank_of hs) \<and>
       list_all (\<lambda>(h, x). judged W (map_of (m_unhealthy s)) (x_ExecutorID x) h) hs))"
  (is "triple _ _ (\<lambda>r _. \<forall>xs. r = Inr xs \<longrightarrow> ?ok xs)")
  unfolding pickExecutors_def
proof (rule triple_bind)
  let ?u = "map_of (m_unhealthy s)"
  show "triple ((=) s) (query W (\<lambda>env db. Inr (LiveExecutors env db (d_HandlerKey def) (d_ExecutorGroup def) (g_ExecutorLiveness cfg))))
     (\<lambda>r s'. (\<forall>xs. r = Inr xs \<longrightarrow> xs = live_at cfg W def s) \<and> lifted W ?u s')"
    by (simp add: triple_def query_def observe_def lifted_def live_at_def)
  fix r :: "Executor list result"
  define ok where "ok = ?ok"
  have turn: "ok (take_turns n (leaders (ranked (zip health xs))) (map snd (ranked (zip health xs))))"
    if "xs = live_at cfg W def s" "xs \<noteq> []" "list_all2 (\<lambda>x h. judged W ?u (x_ExecutorID x) h) xs health"
      "n \<le> leaders (ranked (zip health xs))" for xs health n
    using pick_picked [OF that(3,2,4)] that(1,2) unfolding ok_def by (metis mset.simps(1) mset_zero_iff)
  have keep: "ok (map snd (ranked (zip health xs)))"
    if "xs = live_at cfg W def s" "xs \<noteq> []" "list_all2 (\<lambda>x h. judged W ?u (x_ExecutorID x) h) xs health" for xs health
    using turn [OF that, of 0] by (simp add: take_turns_0 leaders_le)
  show "triple (\<lambda>s'. (\<forall>xs. r = Inr xs \<longrightarrow> xs = live_at cfg W def s) \<and> lifted W ?u s')
     (case r of Inl e \<Rightarrow> return (Inl e) | Inr xs \<Rightarrow>
         if xs = [] then return (Inl ErrNotRunnable)
         else State_Monad.traverse_list (\<lambda>x. dispatchHealthy W (x_ExecutorID x)) xs \<bind> (\<lambda>health.
           let order = ranked (zip health xs); lead = leaders order in
           if 1 < lead then modify (\<lambda>s. s\<lparr>m_rotation := m_rotation s + 1\<rparr>) \<bind> (\<lambda>_. get \<bind> (\<lambda>s.
             return (Inr (take_turns (m_rotation s mod lead) lead (map snd order)))))
           else return (Inr (map snd order))))
     (\<lambda>r _. \<forall>xs. r = Inr xs \<longrightarrow> ok xs)"
  proof (cases r)
    case (Inr xs)
    have tr: "triple (lifted W ?u) (State_Monad.traverse_list (\<lambda>x. dispatchHealthy W (x_ExecutorID x)) xs)
        (\<lambda>health s. lifted W ?u s \<and> list_all2 (\<lambda>x h. judged W ?u (x_ExecutorID x) h) xs health)"
      by (rule triple_traverse) (rule dispatchHealthy_judged)
    show ?thesis
    proof (cases "xs = live_at cfg W def s \<and> xs \<noteq> []")
      case True
      have pick: "triple (\<lambda>s'. lifted W ?u s' \<and> list_all2 (\<lambda>x h. judged W ?u (x_ExecutorID x) h) xs health)
        (let order = ranked (zip health xs); lead = leaders order in
           if 1 < lead then modify (\<lambda>s. s\<lparr>m_rotation := m_rotation s + 1\<rparr>) \<bind> (\<lambda>_. get \<bind> (\<lambda>s.
             return (Inr (take_turns (m_rotation s mod lead) lead (map snd order)))))
           else return (Inr (map snd order))) (\<lambda>r _. \<forall>xs. r = Inr xs \<longrightarrow> ok xs)" for health
        using turn [of xs health] keep [of xs health] True by (auto simp: triple_def modify_def Let_def less_imp_le)
      show ?thesis unfolding Inr sum.case using triple_bind [OF tr pick] True by (auto intro: triple_weaken)
    qed (auto simp: Inr triple_def)
  qed (simp add: triple_return)
qed

text \<open>Routing loses no executor and prefers the right ones: the targets are exactly the live executors of the handler and
  group, healthy before quarantined and roomier first among them, whatever the rotation between equals; an executor is
  judged healthy when no quarantine is on record or it had run out, quarantined when it had not.\<close>

lemma pick_order:
  assumes "run_state (pickExecutors cfg W def) s = (Inr xs, s')"
  shows "xs \<noteq> [] \<and> (\<exists>hs. map snd hs = xs \<and> mset xs = mset (live_at cfg W def s) \<and> sorted (map rank_of hs) \<and>
     list_all (\<lambda>(h, x). judged W (map_of (m_unhealthy s)) (x_ExecutorID x) h) hs)"
  using tripleD [OF pickExecutors_picked refl assms] by simp

end
