(* ===== verification/Server.thy ===== *)
theory Server
  imports Passes
begin

text \<open>
  The calls executors make inward (\<^verbatim>\<open>src/internal/server/server.go\<close>). A handler is a program of the same monad
  as the engine's passes: between any two of its statements other instances may change the database. The
  tenants of the process are a function \<open>lookup\<close>; a tenant that is available is served from \<open>m_db\<close>.
\<close>

section \<open>Requests and answers\<close>

datatype rpc_code =
  Unavailable | InvalidArgument | NotFound | Aborted | FailedPrecondition | Internal | Unauthenticated | PermissionDenied

type_synonym 'a rpc = "rpc_code + 'a"

datatype Availability = Available | Pending | UnknownTenant

record ServerConfig =
  sc_HeartbeatInterval :: duration
  sc_RegistrationTTL :: duration
  sc_ProgressInterval :: duration
  sc_SilenceDeadline :: duration

record RegisterRequest =
  rq_Tenant :: string
  rq_ExecutorId :: string
  rq_Group :: string
  rq_Address :: string
  rq_InFlight :: "(string \<times> string) list" \<comment> \<open>execution key, run token\<close>

record RegisterResponse =
  ra_HeartbeatIntervalSeconds :: int
  ra_RegistrationTtlSeconds :: int
  ra_ProgressIntervalSeconds :: int
  ra_Fenced :: "string list"

record HeartbeatRequest =
  hq_Tenant :: string
  hq_ExecutorId :: string
  hq_Running :: int

record ReportProgressRequest =
  pq_Tenant :: string
  pq_ExecutionKey :: string
  pq_RunToken :: string

record ReportResultRequest =
  rt_Tenant :: string
  rt_ExecutionKey :: string
  rt_RunToken :: string
  rt_Outcome :: "ExecutionOutcome option"

text \<open>The conversion \<^verbatim>\<open>int32(n)\<close> of Go keeps the low 32 bits.\<close>

definition to_int32 :: "int \<Rightarrow> int" where
  "to_int32 n = sint (word_of_int n :: 32 word)"

section \<open>Handlers\<close>

definition serve :: "(string \<Rightarrow> Availability) \<Rightarrow> worlds \<Rightarrow> string \<Rightarrow> unit rpc eng" where
  "serve lookup W tenant = do {
     w \<leftarrow> observe W;
     return (if \<not> w_fence w then Inl Unavailable
             else if tenant = [] then Inl InvalidArgument
             else case lookup tenant of Available \<Rightarrow> Inr () | Pending \<Rightarrow> Inl Unavailable | UnknownTenant \<Rightarrow> Inl NotFound) }"

text \<open>The early return of every handler whose tenant does not resolve.\<close>

definition with_store :: "(string \<Rightarrow> Availability) \<Rightarrow> worlds \<Rightarrow> string \<Rightarrow> 'a rpc eng \<Rightarrow> 'a rpc eng" where
  "with_store lookup W tenant body = do {
     r \<leftarrow> serve lookup W tenant;
     case r of Inl c \<Rightarrow> return (Inl c) | Inr _ \<Rightarrow> body }"

definition described :: "RegisterRequest \<Rightarrow> string \<Rightarrow> DescribeResponse \<Rightarrow> Executor" where
  "described req subject desc =
     \<lparr>x_ExecutorID = rq_ExecutorId req, x_Identity = subject,
      x_Group = (if rq_Group req = [] then ''default'' else rq_Group req), x_Address = rq_Address req,
      x_ContractVersion = ds_ContractVersion desc, x_Revision = ds_Revision desc, x_Capacity = ds_Capacity desc,
      x_Running = 0, x_Capabilities = [], x_Handlers = ds_HandlerKeys desc,
      x_HandlerDescriptions = fold (\<lambda>(k, d). AList.update k d) (ds_Handlers desc) [],
      x_StartedAt = 0, x_HeartbeatAt = 0, x_Live = False\<rparr>"

text \<open>Whether the executor may keep an execution it says it holds.\<close>

definition keeps_claim :: "Stale \<Rightarrow> string \<Rightarrow> bool" where
  "keeps_claim row token \<longleftrightarrow> \<not> (Terminal (v_Status row) \<or> v_RunToken row = [] \<or> v_RunToken row \<noteq> token)"

fun reconcileInFlight :: "worlds \<Rightarrow> (string \<times> string) list \<Rightarrow> string list \<Rightarrow> string list result eng" where
  "reconcileInFlight W [] fenced = return (Inr fenced)"
| "reconcileInFlight W ((key, token) # ks) fenced =
     (if key = [] then reconcileInFlight W ks fenced
      else do {
        r \<leftarrow> query W (\<lambda>env db. ExecutionByKey env db key);
        case r of
          Inl e \<Rightarrow> if e = ErrNoSuchExecution then reconcileInFlight W ks (fenced @ [key]) else return (Inl e)
        | Inr row \<Rightarrow> reconcileInFlight W ks (if keeps_claim row token then fenced else fenced @ [key]) })"

definition server_Register ::
  "ServerConfig \<Rightarrow> (string \<Rightarrow> Availability) \<Rightarrow> worlds \<Rightarrow> string \<Rightarrow> RegisterRequest \<Rightarrow> RegisterResponse rpc eng" where
  "server_Register cfg lookup W subject req =
     with_store lookup W (rq_Tenant req)
       (if rq_ExecutorId req = [] \<or> rq_Address req = [] then return (Inl InvalidArgument)
        else do {
          w \<leftarrow> observe W;
          case Describe (w_net w) (rq_Address req) of
            None \<Rightarrow> return (Inl FailedPrecondition)
          | Some desc \<Rightarrow> do {
              f \<leftarrow> reconcileInFlight W (rq_InFlight req) [];
              case f of
                Inl _ \<Rightarrow> return (Inl Internal)
              | Inr fenced \<Rightarrow> do {
                  r \<leftarrow> tx_unit W (\<lambda>env. Register env (described req subject desc) (roundUpSeconds (sc_RegistrationTTL cfg)));
                  return (case r of
                            Inl _ \<Rightarrow> Inl Internal
                          | Inr _ \<Rightarrow> Inr \<lparr>ra_HeartbeatIntervalSeconds = to_int32 (roundUpSeconds (sc_HeartbeatInterval cfg)),
                                         ra_RegistrationTtlSeconds = to_int32 (roundUpSeconds (sc_RegistrationTTL cfg)),
                                         ra_ProgressIntervalSeconds = to_int32 (roundUpSeconds (sc_ProgressInterval cfg)),
                                         ra_Fenced = fenced\<rparr>) } } })"

definition server_Heartbeat :: "(string \<Rightarrow> Availability) \<Rightarrow> worlds \<Rightarrow> string \<Rightarrow> HeartbeatRequest \<Rightarrow> bool rpc eng" where
  "server_Heartbeat lookup W subject req =
     with_store lookup W (hq_Tenant req) (do {
       r \<leftarrow> tx W (\<lambda>env db. Inr (ExecutorHeartbeat env (hq_ExecutorId req) subject (hq_Running req) db));
       return (case r of Inl _ \<Rightarrow> Inl Internal | Inr known \<Rightarrow> Inr known) })"

text \<open>
  A fenced write is tried once more when recovery adopted this very attempt: the token is still on the row and
  the epoch has moved.
\<close>

definition retryPastAdoption :: "worlds \<Rightarrow> Holder \<Rightarrow> (Holder \<Rightarrow> unit result eng) \<Rightarrow> unit result eng" where
  "retryPastAdoption W h write = do {
     r \<leftarrow> write h;
     if r \<noteq> Inl ErrFenced then return r
     else do {
       q \<leftarrow> query W (\<lambda>env db. ExecutionByKey env db (h_ExecutionKey h));
       case q of
         Inl _ \<Rightarrow> return (Inl ErrFenced)
       | Inr row \<Rightarrow>
           if v_RunToken row \<noteq> h_RunToken h \<or> v_FenceEpoch row = h_FenceEpoch h then return (Inl ErrFenced)
           else write (h\<lparr>h_FenceEpoch := v_FenceEpoch row\<rparr>) } }"

definition caller :: "Stale \<Rightarrow> string \<Rightarrow> Holder" where
  "caller row token =
     \<lparr>h_JobName = v_JobName row, h_ExecutionID = v_ID row, h_ExecutionKey = v_ExecutionKey row, h_Owner = [],
      h_RunToken = token, h_FenceEpoch = v_FenceEpoch row\<rparr>"

text \<open>The answer is whether to proceed, and the silence budget.\<close>

definition server_ReportProgress ::
  "ServerConfig \<Rightarrow> (string \<Rightarrow> Availability) \<Rightarrow> worlds \<Rightarrow> ReportProgressRequest \<Rightarrow> (bool \<times> int) rpc eng" where
  "server_ReportProgress cfg lookup W req =
     with_store lookup W (pq_Tenant req) (do {
       r \<leftarrow> query W (\<lambda>env db. ExecutionByKey env db (pq_ExecutionKey req));
       case r of
         Inl e \<Rightarrow> return (if e = ErrNoSuchExecution then Inr (False, 0) else Inl Internal)
       | Inr row \<Rightarrow>
           if v_Status row = StatusCancelRequested then return (Inr (False, 0))
           else do {
             x \<leftarrow> retryPastAdoption W (caller row (pq_RunToken req))
                   (\<lambda>h. tx_unit W (\<lambda>env. ExtendDeadline env h (roundUpSeconds (sc_SilenceDeadline cfg))));
             return (case x of
                       Inl e \<Rightarrow> if e = ErrFenced then Inr (False, 0) else Inl Internal
                     | Inr _ \<Rightarrow> Inr (True, to_int32 (roundUpSeconds (sc_SilenceDeadline cfg)))) } })"

text \<open>
  \<open>ReportResult\<close>, from the end: the write, with a second look at the history when it was fenced; the execution row;
  the request. The answer is \<open>already_recorded\<close>.
\<close>

definition apply_result :: "int \<Rightarrow> worlds \<Rightarrow> ReportResultRequest \<Rightarrow> ExecutionOutcome \<Rightarrow> Stale \<Rightarrow> bool rpc eng" where
  "apply_result backoffSeconds W req oc row = do {
     x \<leftarrow> retryPastAdoption W (caller row (v_RunToken row))
           (\<lambda>h. tx_unit W (\<lambda>env. Apply env h oc (v_DispatchedTo row) backoffSeconds));
     case x of
       Inr _ \<Rightarrow> return (Inr False)
     | Inl e \<Rightarrow>
         if e \<noteq> ErrFenced then return (Inl Internal)
         else do {
           a \<leftarrow> query W (\<lambda>env db. Attempt db (rt_ExecutionKey req) (rt_RunToken req));
           return (case a of Inr _ \<Rightarrow> Inr True | Inl _ \<Rightarrow> Inl Aborted) } }"

definition record_result :: "int \<Rightarrow> worlds \<Rightarrow> ReportResultRequest \<Rightarrow> ExecutionOutcome \<Rightarrow> bool rpc eng" where
  "record_result backoffSeconds W req oc = do {
     r \<leftarrow> query W (\<lambda>env db. ExecutionByKey env db (rt_ExecutionKey req));
     case r of
       Inl e \<Rightarrow> return (Inl (if e = ErrNoSuchExecution then NotFound else Internal))
     | Inr row \<Rightarrow>
         if v_RunToken row \<noteq> rt_RunToken req then return (Inl Aborted)
         else apply_result backoffSeconds W req oc row }"

definition server_ReportResult ::
  "int \<Rightarrow> (string \<Rightarrow> Availability) \<Rightarrow> worlds \<Rightarrow> ReportResultRequest \<Rightarrow> bool rpc eng" where
  "server_ReportResult backoffSeconds lookup W req =
     with_store lookup W (rt_Tenant req)
       (if rt_ExecutionKey req = [] \<or> rt_RunToken req = [] then return (Inl InvalidArgument)
        else case rt_Outcome req of
          None \<Rightarrow> return (Inl InvalidArgument)
        | Some oc \<Rightarrow>
            if eo_Disposition oc = DISPOSITION_UNSPECIFIED then return (Inl InvalidArgument)
            else do {
              a \<leftarrow> query W (\<lambda>env db. Attempt db (rt_ExecutionKey req) (rt_RunToken req));
              case a of
                Inr _ \<Rightarrow> return (Inr True)
              | Inl e \<Rightarrow> if e \<noteq> ErrNoSuchAttempt then return (Inl Internal) else record_result backoffSeconds W req oc })"

end
