(* ===== verification/Serving.thy ===== *)
theory Serving
  imports Server Operation Lifecycle
begin

text \<open>
  The properties of the calls executors make: they run the store's transactions and nothing else, a result
  that was acknowledged is in the history, a handover does not lose a result, registrations are probed.
\<close>

section \<open>Handlers run the protocol\<close>

lemma ExecutionByKey_row:
  assumes "ExecutionByKey env d k = Inr v"
  obtains e where "e \<in> set (execs d)" "je_execution_key e = k" "v = stale_of env e"
  using assms by (auto simp: ExecutionByKey_def find_Some_iff dest: nth_mem split: option.splits)

lemma row_then:
  assumes "honest W"
    and "\<And>r K'. K \<subseteq> K' \<Longrightarrow> (\<And>v. r = Inr v \<Longrightarrow> (v_ID v, v_JobName v) \<in> K') \<Longrightarrow> keeps (on_track d0 K') (body r)"
  shows "keeps (on_track d0 K) (query W (\<lambda>env db. ExecutionByKey env db k) \<bind> body)"
  by (rule read_then [OF assms(1), where names = "\<lambda>v. {(v_ID v, v_JobName v)}"])
     (use assms(2) exec_known in \<open>auto elim!: ExecutionByKey_row simp: stale_of_def\<close>)

lemma with_store_keeps: "keeps P (observe W) \<Longrightarrow> keeps P body \<Longrightarrow> keeps P (with_store lookup W t body)"
  unfolding with_store_def serve_def by (intro monad_rules)

lemma retryPastAdoption_keeps:
  assumes "\<And>f. keeps P (query W (\<lambda>env db. ExecutionByKey env db (h_ExecutionKey h)))" "\<And>n. keeps P (write (h\<lparr>h_FenceEpoch := n\<rparr>))"
  shows "keeps P (retryPastAdoption W h write)"
proof -
  have "keeps P (write h)" using assms(2) [of "h_FenceEpoch h"] by simp
  then show ?thesis unfolding retryPastAdoption_def by (intro monad_rules assms)
qed

lemma reconcileInFlight_keeps: "(\<And>f :: env \<Rightarrow> db \<Rightarrow> Stale result. keeps P (query W f)) \<Longrightarrow> keeps P (reconcileInFlight W ks fenced)"
proof (induction W ks fenced rule: reconcileInFlight.induct)
  case (2 W key token ks fenced)
  then show ?case by (auto intro!: monad_rules)
qed (simp add: keeps_return)

lemma server_on_track:
  assumes "honest W"
  shows "keeps (on_track d0 K) (server_Register cfg lookup W subject rq)"
    "keeps (on_track d0 K) (server_Heartbeat lookup W subject hq)"
    "keeps (on_track d0 K) (server_ReportProgress cfg lookup W pq)"
    "keeps (on_track d0 K) (server_ReportResult b lookup W rt)"
proof -
  show "keeps (on_track d0 K) (server_Register cfg lookup W subject rq)"
    unfolding server_Register_def using assms
    by (intro with_store_keeps monad_rules primitive_rules reconcileInFlight_keeps tx_unit_on_track one_step) (auto intro: db_step.intros(28))
  show "keeps (on_track d0 K) (server_Heartbeat lookup W subject hq)"
    unfolding server_Heartbeat_def using assms
    by (intro with_store_keeps monad_rules primitive_rules tx_on_track one_step) (auto intro: db_step.intros(29))
  show "keeps (on_track d0 K) (server_ReportProgress cfg lookup W pq)"
    unfolding server_ReportProgress_def
    by (rule with_store_keeps [OF observe_on_track [OF assms]], rule row_then [OF assms])
       (use assms in \<open>auto intro!: monad_rules retryPastAdoption_keeps query_on_track tx_unit_on_track one_step db_step.intros(2) split: sum.split\<close>)
  have "keeps (on_track d0 K') (apply_result b W rt oc row)" if "(v_ID row, v_JobName row) \<in> K'" for K' row oc
    unfolding apply_result_def using assms that
    by (intro monad_rules retryPastAdoption_keeps query_on_track tx_unit_on_track one_step) (auto intro: Apply_step simp: caller_def)
  then have "keeps (on_track d0 K') (if c then return x else apply_result b W rt oc row)" if "(v_ID row, v_JobName row) \<in> K'" for K' c x oc row
    using that by (intro triple_if keeps_return) blast
  then have "keeps (on_track d0 K) (record_result b W rt oc)" for oc
    unfolding record_result_def by (intro row_then [OF assms]) (auto intro: keeps_return split: sum.split)
  then show "keeps (on_track d0 K) (server_ReportResult b lookup W rt)"
    unfolding server_ReportResult_def by (intro with_store_keeps observe_on_track assms monad_rules query_on_track)
qed

text \<open>C3: Whatever an instance does to the database is a sequence of the store's transactions, interleaved with those of the
  other instances, whatever the clocks, the executors' answers and the failures are: a tick of a loop, the retirement of
  the tenant, and every call an executor makes. From a reachable database it reaches a reachable one, so that all
  invariants of the protocol hold while instances run.\<close>

theorem instance_runs_protocol:
  assumes "honest W" "reachable (m_db s)" "tracked_known s"
    and "s' \<in> {snd (run_state (runLoop params_ok cfg loc W l) s), snd (run_state (ReleaseOwnedWork cfg W) s),
      snd (run_state (server_Register sc lookup W subject rq) s), snd (run_state (server_Heartbeat lookup W subject hq) s),
      snd (run_state (server_ReportProgress sc lookup W pq) s), snd (run_state (server_ReportResult b lookup W rt) s)}"
  shows "db_step\<^sup>*\<^sup>* (m_db s) (m_db s') \<and> reachable (m_db s') \<and> tracked_known s'"
proof -
  have start: "on_track (m_db s) {} s" using assms(2,3) reachable_ok by (auto simp: on_track_def)
  note runs = triple_run [OF runLoop_on_track [OF assms(1)] start] triple_run [OF ReleaseOwnedWork_on_track [OF assms(1)] start]
    server_on_track [OF assms(1), THEN triple_run, OF start]
  have "on_track (m_db s) {} s'" using assms(4) runs by auto
  then show ?thesis using assms(2) by (auto simp: on_track_def)
qed

theorem instance_runs_protocol_witness:
  "reachable (m_db (snd (run_state (runLoop (\<lambda>_. True) config_s1 new_york (\<lambda>_. calm 300) Recover) (engine_on running))))"
proof -
  have "tracked_known (engine_on running)" "m_db (engine_on running) = running" using New_known by (simp_all add: engine_on_def)
  moreover have "honest (\<lambda>_. calm 300)" by (rule honest_calm) (simp add: calm_def)
  ultimately show ?thesis
    using instance_runs_protocol [of "\<lambda>_. calm 300" "engine_on running" _ "\<lambda>_. True" config_s1 new_york Recover] reach_running by simp
qed

section \<open>Results are recorded\<close>

definition recorded :: "string \<Rightarrow> string \<Rightarrow> machine \<Rightarrow> bool" where
  "recorded key token s \<longleftrightarrow> (\<exists>a. Attempt (m_db s) key token = Inr a)"

lemma record_attempt: "recordAttempt env h o1 db = Inr db' \<Longrightarrow> attempt_row db' (h_ExecutionKey h, h_RunToken h) \<noteq> None"
  by (auto simp: recordAttempt_def row_of_append attempt_of_def split: option.splits if_splits)

lemma Apply_history:
  assumes "Apply env h oc x b d = Inr d'"
  shows "\<exists>a. Attempt d' (h_ExecutionKey h) (h_RunToken h) = Inr a"
proof -
  obtain o1 d1 d2 where "recordAttempt env h o1 d1 = Inr d2" "settlePollClock env h d2 = Inr d'"
    using assms by (auto simp: Apply_def Complete_def Retry_def Let_def split: if_splits)
  then have "attempt_row d' (h_ExecutionKey h, h_RunToken h) \<noteq> None" using record_attempt settle_history by metis
  then show ?thesis by (auto simp: Attempt_def)
qed

lemma query_reads: "triple P (query W f) (\<lambda>r s. \<forall>x. r = Inr x \<longrightarrow> (\<exists>env. f env (m_db s) = Inr x))"
  by (auto simp: triple_def query_def observe_def)

lemma tx_unit_commits: "triple P (tx_unit W f) (\<lambda>r s. r = Inr () \<longrightarrow> (\<exists>env d. f env d = Inr (m_db s)))"
  by (auto simp: triple_def tx_unit_def tx_def observe_def split: sum.splits)

lemma tx_unit_fails: "triple (idle W s0) (tx_unit W f) (\<lambda>r s. r \<noteq> Inr () \<longrightarrow> idle W s0 s)"
  by (auto simp: triple_def tx_unit_def tx_def observe_def idle_def split: sum.splits)

text \<open>What \<open>retryPastAdoption\<close> passes on: a success is the success of a write, a failure left nothing behind.\<close>

lemma retryPastAdoption_outcome:
  assumes "\<And>n P. triple P (write (h\<lparr>h_FenceEpoch := n\<rparr>)) (\<lambda>r s. r = Inr () \<longrightarrow> Q s)"
    "\<And>h. triple (idle W s0) (write h) (\<lambda>r s. r \<noteq> Inr () \<longrightarrow> idle W s0 s)"
  shows "triple (idle W s0) (retryPastAdoption W h write) (\<lambda>r s. if r = Inr () then Q s else idle W s0 s)"
proof -
  let ?post = "\<lambda>r s. if r = Inr () then Q s else idle W s0 s"
  have w: "triple (idle W s0) (write (h\<lparr>h_FenceEpoch := n\<rparr>)) ?post" for n
    by (rule triple_weaken [OF triple_conj [OF assms(1) assms(2)]]) auto
  have again: "triple (idle W s0) (case q of Inl _ \<Rightarrow> return (Inl ErrFenced) | Inr row \<Rightarrow>
      if v_RunToken row \<noteq> h_RunToken h \<or> v_FenceEpoch row = h_FenceEpoch h then return (Inl ErrFenced)
      else write (h\<lparr>h_FenceEpoch := v_FenceEpoch row\<rparr>)) ?post" for q
    by (cases q) (use w in \<open>auto intro: triple_return\<close>)
  have "triple (idle W s0) (write h) ?post" using w [of "h_FenceEpoch h"] by simp
  then show ?thesis
    unfolding retryPastAdoption_def
    by (rule triple_bind, intro triple_if) (rule triple_return, simp, rule triple_weaken [OF triple_bind [OF idle_query again]], auto)
qed

lemma report_outcome:
  "triple (idle W s0) (server_ReportResult b lookup W rt)
     (\<lambda>r s. ((\<exists>d. r = Inr d) \<longrightarrow> recorded (rt_ExecutionKey rt) (rt_RunToken rt) s) \<and> (r \<noteq> Inr False \<longrightarrow> idle W s0 s))"
  (is "triple _ _ ?post")
proof -
  have fail: "triple (idle W s0) (return (Inl c)) ?post" for c by (rule triple_return) simp
  have look: "triple (idle W s0) (query W (\<lambda>env db. Attempt db (rt_ExecutionKey rt) (rt_RunToken rt)))
      (\<lambda>r s. idle W s0 s \<and> (\<forall>a. r = Inr a \<longrightarrow> recorded (rt_ExecutionKey rt) (rt_RunToken rt) s))"
    by (rule triple_weaken [OF triple_conj [OF idle_query query_reads]]) (auto simp: recorded_def)
  have applied: "triple (idle W s0) (apply_result b W rt oc row) ?post"
    if "v_ExecutionKey row = rt_ExecutionKey rt" "v_RunToken row = rt_RunToken rt" for oc row
    unfolding apply_result_def
  proof (rule triple_bind [OF retryPastAdoption_outcome [where Q = "recorded (rt_ExecutionKey rt) (rt_RunToken rt)", OF _ tx_unit_fails]])
    show "triple P (tx_unit W (\<lambda>env. Apply env (caller row (v_RunToken row)\<lparr>h_FenceEpoch := n\<rparr>) oc (v_DispatchedTo row) b))
        (\<lambda>r s. r = Inr () \<longrightarrow> recorded (rt_ExecutionKey rt) (rt_RunToken rt) s)" for n P
      by (rule triple_weaken [OF tx_unit_commits]) (auto simp: recorded_def caller_def that dest: Apply_history)
    have "triple (idle W s0) (query W (\<lambda>env db. Attempt db (rt_ExecutionKey rt) (rt_RunToken rt)) \<bind>
        (\<lambda>a. return (case a of Inl _ \<Rightarrow> Inl Aborted | Inr _ \<Rightarrow> Inr True))) ?post"
      by (rule triple_bind [OF look], rule triple_return) (auto split: sum.splits)
    then show "triple (\<lambda>s. if x = Inr () then recorded (rt_ExecutionKey rt) (rt_RunToken rt) s else idle W s0 s)
      (case x of Inl e \<Rightarrow> if e \<noteq> ErrFenced then return (Inl Internal)
          else query W (\<lambda>env db. Attempt db (rt_ExecutionKey rt) (rt_RunToken rt)) \<bind>
            (\<lambda>a. return (case a of Inl _ \<Rightarrow> Inl Aborted | Inr _ \<Rightarrow> Inr True))
        | Inr _ \<Rightarrow> return (Inr False)) ?post" for x :: "unit result"
      by (cases x) (auto intro: triple_return fail)
  qed
  have "triple (\<lambda>s. idle W s0 s \<and> (\<forall>row. r = Inr row \<longrightarrow> v_ExecutionKey row = rt_ExecutionKey rt))
      (case r of Inl e \<Rightarrow> return (Inl (if e = ErrNoSuchExecution then NotFound else Internal))
       | Inr row \<Rightarrow> if v_RunToken row \<noteq> rt_RunToken rt then return (Inl Aborted) else apply_result b W rt oc row) ?post" for r oc
    by (cases r) (auto intro: triple_weaken [OF fail] triple_pure applied)
  moreover have "triple (idle W s0) (query W (\<lambda>env db. ExecutionByKey env db (rt_ExecutionKey rt)))
      (\<lambda>r s. idle W s0 s \<and> (\<forall>row. r = Inr row \<longrightarrow> v_ExecutionKey row = rt_ExecutionKey rt))"
    by (rule triple_weaken [OF triple_conj [OF idle_query query_reads]]) (auto elim!: ExecutionByKey_row simp: stale_of_def)
  ultimately have rec: "triple (idle W s0) (record_result b W rt oc) ?post" for oc unfolding record_result_def by (rule triple_bind [rotated])
  have asked: "triple (idle W s0) (query W (\<lambda>env db. Attempt db (rt_ExecutionKey rt) (rt_RunToken rt)) \<bind> (\<lambda>a. case a of
      Inl e \<Rightarrow> if e \<noteq> ErrNoSuchAttempt then return (Inl Internal) else record_result b W rt oc | Inr _ \<Rightarrow> return (Inr True))) ?post" for oc
    by (rule triple_bind [OF look]) (auto intro: triple_return triple_weaken [OF fail] triple_weaken [OF rec] split: sum.split)
  have served: "triple (idle W s0) (serve lookup W (rt_Tenant rt)) (\<lambda>_. idle W s0)"
    unfolding serve_def by (intro monad_rules idle_observe)
  show ?thesis
    unfolding server_ReportResult_def with_store_def
    by (rule triple_bind [OF served]) (intro triple_sum triple_option triple_if fail asked)
qed

text \<open>C6: A result that was acknowledged is in the history, and any other answer wrote nothing. If \<open>ReportResult\<close> answers OK,
  recorded now or before, the attempt history has the outcome of this execution and run token at that moment, so that a
  redelivery is recognised; unless the answer is a fresh OK, the call has not changed the database, whatever failed
  and whatever other instances did meanwhile.\<close>

theorem report_recorded:
  assumes "run_state (server_ReportResult b lookup W rt) s = (r, s')"
  shows "((\<exists>already. r = Inr already) \<longrightarrow> (\<exists>a. Attempt (m_db s') (rt_ExecutionKey rt) (rt_RunToken rt) = Inr a)) \<and>
    (r \<noteq> Inr False \<longrightarrow> idle W s s')"
  using tripleD [OF report_outcome idle_refl assms] by (auto simp: recorded_def)

section \<open>A handover loses nothing\<close>

lemma Apply_fenced:
  assumes "keys_ok db" "state_row db (h_JobName h) = Some s" "\<not> holds_lock (h_JobName h) (h_RunToken h) (h_FenceEpoch h) s"
  shows "Apply env h oc x b db = Inl ErrFenced"
proof -
  have "releaseJobLock env h c db = Inl ErrFenced" for c
  proof (cases "releaseJobLock env h c db")
    case (Inl err)
    then show ?thesis by (simp add: releaseJobLock_def assertSome_def split: if_splits)
  next
    case (Inr db')
    then show ?thesis using assms by (auto elim: releaseE)
  qed
  then show ?thesis
    using Classify_terminal by (simp add: Apply_def Complete_def Retry_def Let_def reported_def clipped_def)
qed

lemma Apply_commits:
  assumes "reachable db" "exec_row db (h_ExecutionID h) = Some e" "in_flight (je_status e)" "within_cap env e" "clock_ok db (je_job_name e)"
    "h_JobName h = je_job_name e" "je_run_token e = Some (h_RunToken h)" "h_FenceEpoch h = je_fence_epoch e"
  shows "\<exists>db'. Apply env h oc x b db = Inr db'"
proof -
  obtain s where s: "state_row db (h_JobName h) = Some s" "holds_lock (h_JobName h) (h_RunToken h) (h_FenceEpoch h) s"
    "owns_exec (h_ExecutionID h) (h_RunToken h) (h_FenceEpoch h) e"
    by (rule in_flight_verified [OF assms(1-3)]) (use assms(6-8) in simp)
  note rows = reachable_keys [OF assms(1)] s(1,2) assms(2) s(3) assms(3,4)
  have "clock_ok db (h_JobName h)" using assms(5,6) by simp
  with Complete_ok [OF rows] Retry_ok [OF rows] Classify_terminal show ?thesis by (simp add: Apply_def Let_def reported_def)
qed

lemma ExecutionByKey_mem:
  assumes "keys_ok db" "e \<in> set (execs db)"
  shows "ExecutionByKey env db (je_execution_key e) = Inr (stale_of env e)"
proof -
  obtain e' where e': "find (\<lambda>x. je_execution_key x = je_execution_key e) (execs db) = Some e'"
    using assms(2) by (cases "find (\<lambda>x. je_execution_key x = je_execution_key e) (execs db)") (auto simp: find_None_iff)
  then have "e' \<in> set (execs db)" "je_execution_key e' = je_execution_key e" by (auto simp: find_Some_iff)
  then have "e' = e" using assms by (auto simp: keys_ok_def dest: inj_onD [OF distinct_map [THEN iffD1, THEN conjunct2]])
  then show ?thesis using e' by (simp add: ExecutionByKey_def)
qed

text \<open>What an adoption leaves: the same attempt, in flight, one epoch on, which is the epoch of the lock.\<close>

lemma Adopt_handover:
  assumes "reachable db" "e \<in> set (execs db)" "clock_ok db (je_job_name e)"
    and "Adopt env (stale_of env' e) owner lease silence promote db = Inr (n, d)"
  obtains e' st where "reachable d" "exec_row d (je_id e) = Some e'"
    "state_row d (je_job_name e) = Some st" "\<not> holds_lock (je_job_name e) t (je_fence_epoch e) st" "clock_ok d (je_job_name e)"
    "je_id e' = je_id e" "je_execution_key e' = je_execution_key e" "je_job_name e' = je_job_name e" "je_run_token e' = je_run_token e"
    "je_fence_epoch e' = je_fence_epoch e + 1" "je_timeout_at e' = je_timeout_at e" "in_flight (je_status e')"
proof -
  note keys = reachable_keys [OF assms(1)]
  have row: "exec_row db (je_id e) = Some e" using keys assms(2) row_of_mem by (auto simp: keys_ok_def)
  obtain st e0 where ad: "state_row db (je_job_name e) = Some st" "exec_row db (je_id e) = Some e0"
    "in_flight (je_status e0)" "n = je_fence_epoch e + 1"
    "state_row d = (state_row db)(je_job_name e \<mapsto> adopt_lock_set env owner n lease st)"
    "exec_row d = (exec_row db)(je_id e \<mapsto> adopt_exec_set env owner n lease silence (promote \<and> je_status e0 = StatusDispatching) e0)"
    "defs d = defs db"
    by (rule Adopt_rows [OF assms(4) keys]) simp
  have "db_step db d" by (rule db_step.intros(10) [OF assms(4)]) (simp add: belongs_def row)
  then have "reachable d" using assms(1) by (rule rtranclp.rtrancl_into_rtrancl [rotated])
  define e' st' where "e' = adopt_exec_set env owner n lease silence (promote \<and> je_status e = StatusDispatching) e"
    and "st' = adopt_lock_set env owner n lease st"
  have "e0 = e" using ad(2) row by simp
  then have rows: "exec_row d (je_id e) = Some e'" "state_row d (je_job_name e) = Some st'" using ad(5,6) by (simp_all add: e'_def st'_def)
  have "\<not> holds_lock (je_job_name e) t (je_fence_epoch e) st'" using ad(4) by (simp add: st'_def adopt_lock_set_def holds_lock_def)
  moreover have "clock_ok d (je_job_name e)" using assms(3) clock_ok_cong [OF ad(7)] by simp
  moreover have "je_id e' = je_id e" "je_execution_key e' = je_execution_key e" "je_job_name e' = je_job_name e" "je_run_token e' = je_run_token e"
    "je_fence_epoch e' = je_fence_epoch e + 1" "je_timeout_at e' = je_timeout_at e" "in_flight (je_status e')"
    using ad(3,4) \<open>e0 = e\<close> by (simp_all add: e'_def adopt_exec_set_def)
  ultimately show thesis by (rule that [OF \<open>reachable d\<close> rows])
qed

text \<open>C7: A handover in the middle of a report does not lose the result. The execution is in flight under the token the
  report names; between the read and the write of the handler another instance adopts it, which moves the epoch and
  keeps the token. The first write is fenced, the second, under the new epoch, commits: the answer is OK. This is so while
  the database answers, the fence of the instance holds, the poll clock of the job is valid and the runtime cap has not
  passed when the second write is made.\<close>

theorem handover_keeps_result:
  assumes "reachable (m_db s)" "e \<in> set (execs (m_db s))" "je_execution_key e = rt_ExecutionKey rt" "je_run_token e = Some (rt_RunToken rt)"
    and "clock_ok (m_db s) (je_job_name e)" "within_cap (w_env (W (m_tick s + 5))) e"
    and "Attempt (m_db s) (rt_ExecutionKey rt) (rt_RunToken rt) = Inl ErrNoSuchAttempt"
    and "rt_Tenant rt \<noteq> []" "lookup (rt_Tenant rt) = Available" "rt_ExecutionKey rt \<noteq> []" "rt_RunToken rt \<noteq> []"
    and "rt_Outcome rt = Some oc" "eo_Disposition oc \<noteq> DISPOSITION_UNSPECIFIED"
    and "\<And>n. w_db (W n) \<and> w_fence (W n)" "\<And>n. n \<noteq> m_tick s + 3 \<Longrightarrow> w_others (W n) = id"
    and "Adopt env (stale_of env' e) owner lease silence promote (m_db s) = Inr (n, w_others (W (m_tick s + 3)) (m_db s))"
  shows "fst (run_state (server_ReportResult b lookup W rt) s) = Inr False"
proof -
  define d where "d = w_others (W (m_tick s + 3)) (m_db s)"
  obtain e' st where d: "reachable d" "exec_row d (je_id e) = Some e'" "state_row d (je_job_name e) = Some st"
    "\<not> holds_lock (je_job_name e) (rt_RunToken rt) (je_fence_epoch e) st" "clock_ok d (je_job_name e)"
    and e': "je_id e' = je_id e" "je_execution_key e' = je_execution_key e" "je_job_name e' = je_job_name e" "je_run_token e' = je_run_token e"
    "je_fence_epoch e' = je_fence_epoch e + 1" "je_timeout_at e' = je_timeout_at e" "in_flight (je_status e')"
    by (rule Adopt_handover [OF assms(1,2,5) assms(16) [folded d_def]])
  define h where "h = caller (stale_of (w_env (W (m_tick s + 2))) e) (rt_RunToken rt)"
  have h: "h_JobName h = je_job_name e" "h_ExecutionID h = je_id e" "h_ExecutionKey h = rt_ExecutionKey rt"
    "h_RunToken h = rt_RunToken rt" "h_FenceEpoch h = je_fence_epoch e"
    using assms(3) by (simp_all add: h_def caller_def)
  note old = ExecutionByKey_mem [OF reachable_keys [OF assms(1)] assms(2), unfolded assms(3)]
  note new = ExecutionByKey_mem [OF reachable_keys [OF d(1)] row_of_Some [OF d(2), THEN conjunct1], unfolded e'(2) assms(3)]
  have fenced: "Apply env h oc x b d = Inl ErrFenced" for env x
    by (rule Apply_fenced [OF reachable_keys [OF d(1)]]) (use d(3,4) in \<open>auto simp: h\<close>)
  have "\<exists>d'. Apply (w_env (W (m_tick s + 5))) (h\<lparr>h_FenceEpoch := je_fence_epoch e'\<rparr>) oc (coalesce_str (je_dispatched_to e)) b d = Inr d'"
    by (rule Apply_commits [OF d(1), where e = e']) (use d assms(4,6) in \<open>simp_all add: h e' within_cap_def\<close>)
  then obtain d' where ok: "Apply (w_env (W (m_tick s + 5))) (h\<lparr>h_FenceEpoch := je_fence_epoch e'\<rparr>) oc (coalesce_str (je_dispatched_to e)) b d = Inr d'" ..
  define at' where "at' k db = s\<lparr>m_tick := m_tick s + k, m_db := db\<rparr>" for k db
  have q: "run_state (query W f) (at' k db) =
      (let d = w_others (W (m_tick s + k)) db in (f (w_env (W (m_tick s + k))) d, at' (Suc k) d))"
    for f :: "env \<Rightarrow> db \<Rightarrow> 'x result" and k db
    using assms(14) by (simp add: query_def observe_def at'_def Let_def)
  have x: "run_state (tx_unit W f) (at' k db) =
      (let d = w_others (W (m_tick s + k)) db in case f (w_env (W (m_tick s + k))) d of
         Inl err \<Rightarrow> (Inl err, at' (Suc k) d) | Inr d' \<Rightarrow> (Inr (), at' (Suc k) d'))" for f k db
    using assms(14) by (simp add: tx_unit_def tx_def observe_def at'_def Let_def split: sum.split)
  have still: "w_others (W (m_tick s + k)) db = db" if "k \<noteq> 3" for k db using assms(15) that by simp
  have retried: "run_state (retryPastAdoption W h (\<lambda>h. tx_unit W (\<lambda>env. Apply env h oc (coalesce_str (je_dispatched_to e)) b))) (at' 3 (m_db s)) =
      (Inr (), at' 6 d')"
    unfolding retryPastAdoption_def
    using ok by (simp add: x q still d_def [symmetric] fenced new e' h assms(4) Let_def)
  have applied: "fst (run_state (apply_result b W rt oc (stale_of (w_env (W (m_tick s + 2))) e)) (at' 3 (m_db s))) = Inr False"
    using retried assms(4) by (simp add: apply_result_def h_def)
  have "fst (run_state (record_result b W rt oc) (at' 2 (m_db s))) = Inr False"
    using applied assms(4) by (simp add: record_result_def q assms(15) old Let_def)
  then have "fst (run_state (query W (\<lambda>env db. Attempt db (rt_ExecutionKey rt) (rt_RunToken rt)) \<bind> (\<lambda>a. case a of
      Inr _ \<Rightarrow> return (Inr True) | Inl e \<Rightarrow> if e \<noteq> ErrNoSuchAttempt then return (Inl Internal) else record_result b W rt oc)) (at' 1 (m_db s))) = Inr False"
    using assms(7) by (simp add: q assms(15) Let_def numeral_2_eq_2)
  moreover have "run_state (serve lookup W (rt_Tenant rt)) s = (Inr (), at' 1 (m_db s))"
    using still [of 0] assms(8,9,14) by (simp add: serve_def observe_def at'_def)
  ultimately show ?thesis
    using assms(10-13) by (simp add: server_ReportResult_def with_store_def)
qed

definition report_a :: ReportResultRequest where
  "report_a = \<lparr>rt_Tenant = ''t'', rt_ExecutionKey = ''p:a:1'', rt_RunToken = ''t1'',
     rt_Outcome = Some \<lparr>eo_Disposition = DISPOSITION_SUCCESS, eo_FailureKind = [], eo_ErrorDetail = [], eo_Summary = []\<rparr>\<rparr>"

definition adopted :: db where
  "adopted = ok_snd (Adopt (env_at 200) (stale_of (env_at 200) the_run) ''s2'' 60 30 True running)"

definition handover :: worlds where
  "handover n = (calm 200)\<lparr>w_others := (if n = 3 then (\<lambda>_. adopted) else id)\<rparr>"

theorem handover_keeps_result_witness:
  "fst (run_state (server_ReportResult 30 (\<lambda>_. Available) handover report_a) (engine_on running)) = Inr False"
proof -
  have start: "m_db (engine_on running) = running" "m_tick (engine_on running) = 0"
    by (simp_all add: engine_on_def New_def Let_def)
  have "Adopt (env_at 200) (stale_of (env_at 200) the_run) ''s2'' 60 30 True running = Inr (2, adopted)"
    "je_execution_key the_run = rt_ExecutionKey report_a" "je_run_token the_run = Some (rt_RunToken report_a)"
    "clock_ok running (je_job_name the_run)" "within_cap (env_at 200) the_run"
    "Attempt running (rt_ExecutionKey report_a) (rt_RunToken report_a) = Inl ErrNoSuchAttempt"
    by code_simp+
  then show ?thesis
    by (intro handover_keeps_result [where s = "engine_on running" and e = the_run and env = "env_at 200" and env' = "env_at 200"
        and owner = "''s2''" and lease = 60 and silence = 30 and promote = True and n = 2 and oc = "the (rt_Outcome report_a)"])
       (simp_all add: start reach_running the_run_facts handover_def calm_def report_a_def)
qed

theorem report_recorded_witness:
  "\<exists>s' a. run_state (server_ReportResult 30 (\<lambda>_. Available) handover report_a) (engine_on running) = (Inr False, s') \<and>
     Attempt (m_db s') ''p:a:1'' ''t1'' = Inr a"
proof -
  obtain r s' where r: "run_state (server_ReportResult 30 (\<lambda>_. Available) handover report_a) (engine_on running) = (r, s')" by fastforce
  moreover have "fst (run_state (server_ReportResult 30 (\<lambda>_. Available) handover report_a) (engine_on running)) = Inr False" by code_simp
  ultimately have "r = Inr False" by simp
  then show ?thesis using report_recorded [OF r] r by (auto simp: report_a_def)
qed

end
