(* ===== verification/Listings.thy ===== *)
theory Listings
  imports Admin Executors "HOL-Library.Option_ord"
begin

text \<open>
  The reads of the store the operator API is built on (\<^verbatim>\<open>src/internal/store/admin.go\<close>, \<^verbatim>\<open>executor.go\<close>): jobs with their state,
  executions by filter and page, attempts, the audit, what live executors declare, and the two previews. An
  \<open>ORDER BY ... DESC\<close> is a stable ascending sort, reversed; ids and keys make every order total.
\<close>

section \<open>Jobs\<close>

record JobView =
  jv_Definition :: Definition
  jv_NextFireAt :: "time option"
  jv_NextPollAt :: "time option"
  jv_OpsPaused :: bool
  jv_ActiveExec :: string
  jv_ActiveOwner :: string
  jv_LastSuccessAt :: "time option"
  jv_LastFailureAt :: "time option"
  jv_ConfigVersion :: int

definition scanJob :: "job_definition \<Rightarrow> job_state \<Rightarrow> JobView" where
  "scanJob d s =
     \<lparr>jv_Definition = (definition_of d)\<lparr>d_UpdatedBy := coalesce_str (jd_updated_by d)\<rparr>,
      jv_NextFireAt = js_next_fire_at s, jv_NextPollAt = js_next_poll_at s, jv_OpsPaused = js_ops_paused s,
      jv_ActiveExec = coalesce_str (js_active_execution s), jv_ActiveOwner = coalesce_str (js_active_owner s),
      jv_LastSuccessAt = js_last_success_at s, jv_LastFailureAt = js_last_failure_at s, jv_ConfigVersion = js_config_version s\<rparr>"

definition Jobs :: "db \<Rightarrow> JobView list" where
  "Jobs db =
     concat (map (\<lambda>d. case state_row db (jd_job_name d) of None \<Rightarrow> [] | Some s \<Rightarrow> [scanJob d s])
                 (sort_key jd_job_name (defs db)))"

definition Job :: "db \<Rightarrow> string \<Rightarrow> JobView result" where
  "Job db name =
     (case (def_row db name, state_row db name) of
        (Some d, Some s) \<Rightarrow> Inr (scanJob d s)
      | _ \<Rightarrow> Inl ErrNoSuchJob)"

text \<open>The previews: what a synchronisation would do, without taking locks.\<close>

definition job_definitions :: "JobView list \<Rightarrow> string \<Rightarrow> Definition option" where
  "job_definitions jobs = map_of (rev (map (\<lambda>v. (d_JobName (jv_Definition v), jv_Definition v)) jobs))"

definition PlanJobSync :: "db \<Rightarrow> JobSeed list \<Rightarrow> JobSyncResult" where
  "PlanJobSync db seeds = planJobSync seeds (job_definitions (Jobs db))"

definition PlanJobDescriptionSync :: "db \<Rightarrow> (string \<times> string) list \<Rightarrow> JobDescriptionSync" where
  "PlanJobDescriptionSync db descriptions = descriptionSyncPlan (map jv_Definition (Jobs db)) (map_of descriptions)"

section \<open>Executions\<close>

definition status_name :: "Status \<Rightarrow> string" where
  "status_name st =
     (case st of StatusReady \<Rightarrow> ''ready'' | StatusDispatching \<Rightarrow> ''dispatching'' | StatusRunning \<Rightarrow> ''running''
      | StatusCancelRequested \<Rightarrow> ''cancel_requested'' | StatusSuccess \<Rightarrow> ''success'' | StatusDead \<Rightarrow> ''dead''
      | StatusCancelled \<Rightarrow> ''cancelled'' | StatusSkipped \<Rightarrow> ''skipped'')"

record ExecutionFilter =
  ef_JobName :: string
  ef_Status :: string \<comment> \<open>the empty string is no filter\<close>
  ef_From :: "time option"
  ef_To :: "time option"
  ef_Limit :: int
  ef_Offset :: int

text \<open>1970-01-01 and 2999-12-31 23:59:59 in UTC.\<close>

definition timeBounds :: "ExecutionFilter \<Rightarrow> time \<times> time" where
  "timeBounds f =
     (case ef_From f of None \<Rightarrow> 0 | Some t \<Rightarrow> t, case ef_To f of None \<Rightarrow> 32503679999 * Second | Some t \<Rightarrow> t)"

definition page_limit :: "int \<Rightarrow> nat" where
  "page_limit n = (if n \<le> 0 \<or> n > 500 then 100 else nat n)"

definition selects :: "ExecutionFilter \<Rightarrow> job_execution \<Rightarrow> bool" where
  "selects f e \<longleftrightarrow>
     (ef_JobName f = [] \<or> je_job_name e = ef_JobName f) \<and>
     (ef_Status f = [] \<or> status_name (je_status e) = ef_Status f) \<and>
     fst (timeBounds f) \<le> je_scheduled_at e \<and> je_scheduled_at e \<le> snd (timeBounds f)"

definition newest_first :: "job_execution list \<Rightarrow> job_execution list" where
  "newest_first es = rev (sort_key (\<lambda>e. (je_scheduled_at e, je_id e)) es)"

text \<open>The rows of the page, of which the API shows the columns, and the total. A negative OFFSET is an error of the statement.\<close>

definition Executions :: "db \<Rightarrow> ExecutionFilter \<Rightarrow> (job_execution list \<times> nat) result" where
  "Executions db f =
     (let found = filter (selects f) (execs db)
      in if ef_Offset f < 0 then Inl ErrOther
         else Inr (take (page_limit (ef_Limit f)) (drop (nat (ef_Offset f)) (newest_first found)), length found))"

definition Attempts :: "db \<Rightarrow> string \<Rightarrow> job_execution_attempt list" where
  "Attempts db key =
     sort_key (\<lambda>a. (ja_attempt_no a, ja_finished_at a)) (filter (\<lambda>a. ja_execution_key a = key) (attempts db))"

definition AuditLog :: "db \<Rightarrow> string \<Rightarrow> string \<Rightarrow> int \<Rightarrow> job_audit list" where
  "AuditLog db jobName actor n =
     take (page_limit n)
       (rev (filter (\<lambda>a. (jobName = [] \<or> jl_job_name a = Some jobName) \<and> (actor = [] \<or> jl_actor a = actor)) (audits db)))"

section \<open>Executors\<close>

record HandlerMetadata =
  hm_Key :: string
  hm_Description :: string

text \<open>The join of declared handlers with the executors that are live.\<close>

definition live_declarations :: "env \<Rightarrow> db \<Rightarrow> duration \<Rightarrow> (job_executor_handler \<times> job_executor) list" where
  "live_declarations env db liveness =
     [(h, x). h \<leftarrow> handlers db, x \<leftarrow> executors db, jx_executor_id x = jh_executor_id h \<and> live env (seconds liveness) x]"

definition DeclaredHandlers :: "env \<Rightarrow> db \<Rightarrow> duration \<Rightarrow> string list" where
  "DeclaredHandlers env db liveness = remdups (sort (map (jh_handler_key \<circ> fst) (live_declarations env db liveness)))"

fun first_of_key :: "string list \<Rightarrow> HandlerMetadata list \<Rightarrow> HandlerMetadata list" where
  "first_of_key seen [] = []"
| "first_of_key seen (h # hs) =
     (if hm_Key h \<in> set seen then first_of_key seen hs else h # first_of_key (hm_Key h # seen) hs)"

definition DeclaredHandlerMetadata :: "env \<Rightarrow> db \<Rightarrow> duration \<Rightarrow> HandlerMetadata list" where
  "DeclaredHandlerMetadata env db liveness =
     first_of_key []
       (map (\<lambda>(h, x). \<lparr>hm_Key = jh_handler_key h, hm_Description = jh_description h\<rparr>)
         (sort_key (\<lambda>(h, x). (jh_handler_key h, - jx_heartbeat_at x, jx_executor_id x)) (live_declarations env db liveness)))"

definition AllExecutors :: "env \<Rightarrow> db \<Rightarrow> int \<Rightarrow> Executor list" where
  "AllExecutors env db livenessSeconds =
     map (\<lambda>x. (view_of x)\<lparr>x_Live := live env livenessSeconds x,
                 x_Handlers := sort (map jh_handler_key (filter (\<lambda>h. jh_executor_id h = jx_executor_id x) (handlers db)))\<rparr>)
       (sort_key (\<lambda>x. (jx_executor_group x, jx_executor_id x)) (executors db))"

end
