(* ===== verification/Catalogue.thy ===== *)
theory Catalogue
  imports Listings Examples
begin

text \<open>
  The catalogue as the operator sees it: every job has its state row in every database the store can reach, so the listing
  drops none, and the two previews say what the two synchronisations then do.
\<close>

section \<open>Which operations write the definitions\<close>

lemma defs_update [simp]:
  "defs (snd (update_state P f db)) = defs db" "defs (snd (update_exec Q g db)) = defs db" "defs (snd (update_executor R h db)) = defs db"
  "defs (audit env a b c d e db) = defs db"
  by (simp_all add: update_state_def update_exec_def update_executor_def audit_def)

lemma assert_defs_kept [dest]:
  "assertOne (update_state P f db) = Inr db' \<Longrightarrow> defs db' = defs db" "assertOne (update_exec Q g db) = Inr db' \<Longrightarrow> defs db' = defs db"
  "assertSome e (update_state P f db) = Inr db' \<Longrightarrow> defs db' = defs db" "assertSome e (update_exec Q g db) = Inr db' \<Longrightarrow> defs db' = defs db"
  "assertAtMostOne (update_state P f db) = Inr db' \<Longrightarrow> defs db' = defs db" "assertAtMostOne (update_exec Q g db) = Inr db' \<Longrightarrow> defs db' = defs db"
  by (auto dest: assert_snd)

lemma defs_small:
  "Renew env h n db = Inr db' \<Longrightarrow> defs db' = defs db"
  "ExtendDeadline env h n db = Inr db' \<Longrightarrow> defs db' = defs db"
  "RequestCancel env i a r db = Inr db' \<Longrightarrow> defs db' = defs db"
  "Accept env i t n q db = Inr db' \<Longrightarrow> defs db' = defs db"
  "Retarget env h x db = Inr db' \<Longrightarrow> defs db' = defs db"
  "SetPaused env j paused a r db = Inr db' \<Longrightarrow> defs db' = defs db"
  "AuthorizedRetry env k a r db = Inr db' \<Longrightarrow> defs db' = defs db"
  by (force simp: Renew_def ExtendDeadline_def RequestCancel_def Accept_def Retarget_def SetPaused_def AuthorizedRetry_def Let_def split: if_splits option.splits)+

lemma defs_Adopt: "Adopt env v w l q pr db = Inr (n, db') \<Longrightarrow> defs db' = defs db"
  by (force simp: Adopt_def Let_def split: if_splits option.splits)

lemma defs_insert [simp]: "defs (snd (insertExecution env r db)) = defs db"
  by (simp add: insertExecution_def)

lemma defs_Trigger: "Trigger json env j q a r ps db = Inr (k, db') \<Longrightarrow> defs db' = defs db"
  by (force simp: Trigger_def trigger_tx_def Let_def split: if_splits option.splits)

lemma defs_settle: "settlePollClock env h db = Inr db' \<Longrightarrow> defs db' = defs db"
  by (force simp: settlePollClock_def Let_def split: if_splits option.splits)

lemma defs_waiting:
  "expireReadyExecution env i db = Inr db' \<Longrightarrow> defs db' = defs db" "deferCandidate env i b db = Inr db' \<Longrightarrow> defs db' = defs db"
  by (auto simp: expireReadyExecution_def deferCandidate_def Let_def split: if_splits option.splits)

lemma defs_contention: "applyContention env p def st db = Inr (r, db') \<Longrightarrow> defs db' = defs db"
  by (auto simp: applyContention_def split: if_splits dest!: assert_defs_kept defs_settle defs_waiting)

lemma defs_acquire: "acquire env p def st db = Inr (r, db') \<Longrightarrow> defs db' = defs db"
  by (auto simp: acquire_def Let_def split: if_splits dest!: assert_defs_kept)

lemma defs_Claim: "Claim env p run db = Inr (cr, db') \<Longrightarrow> defs db' = defs db"
  by (auto simp: Claim_def claim_decide_def dest: defs_waiting defs_contention defs_acquire split: if_splits option.splits)

lemma defs_clocks:
  "advanceFireClock env j t v db = Inr db' \<Longrightarrow> defs db' = defs db" "clearPollClock env j db = Inr db' \<Longrightarrow> defs db' = defs db"
  "normalizeClocks env st def c db = Inr (x, db') \<Longrightarrow> defs db' = defs db"
  by (auto simp: advanceFireClock_def clearPollClock_def normalizeClocks_def)

lemma defs_cron:
  "cron_commit env j def cr t out db = Inr (m, db') \<Longrightarrow> defs db' = defs db"
  "cron_due env j def sched g dueAt db = Inr (m, db') \<Longrightarrow> defs db' = defs db"
  "cron_live env j def sched g st db = Inr (m, db') \<Longrightarrow> defs db' = defs db"
proof -
  show commit: "cron_commit env j def cr t out db = Inr (m, db') \<Longrightarrow> defs db' = defs db" for cr t out
    by (cases cr) (auto simp: cron_commit_def Let_def dest!: defs_clocks)
  show due: "cron_due env j def sched g dueAt db = Inr (m, db') \<Longrightarrow> defs db' = defs db" for dueAt
    by (auto simp: cron_due_def Let_def dest!: commit)
  show "cron_live env j def sched g st db = Inr (m, db') \<Longrightarrow> defs db' = defs db"
    by (cases "js_next_fire_at st") (auto simp: cron_live_def dest!: due split: if_splits)
qed

lemma defs_MaterializeCron: "MaterializeCron env j c g db = Inr (m, db') \<Longrightarrow> defs db' = defs db"
  by (auto simp: MaterializeCron_def split: if_splits dest!: defs_clocks defs_cron)

lemma defs_MaterializePoll: "MaterializePoll env j k c db = Inr (m, db') \<Longrightarrow> defs db' = defs db"
  by (auto simp: MaterializePoll_def Let_def split: if_splits option.splits dest!: defs_clocks)

lemma defs_Recompute: "Recompute env j c db = Inr (t, db') \<Longrightarrow> defs db' = defs db"
  by (auto simp: Recompute_def dest: defs_clocks)

lemma defs_executors:
  "Register env e n db = Inr db' \<Longrightarrow> defs db' = defs db" "ExecutorHeartbeat env x y n db = (ok, db') \<Longrightarrow> defs db' = defs db"
  "defs (delete_executors P db) = defs db"
  by (auto simp: Register_def ExecutorHeartbeat_def delete_executors_def Let_def upsert_executor_def update_executor_def
     split: if_splits option.splits)

lemma defs_reap: "reap_each cs n db = Inr (m, db') \<Longrightarrow> defs db' = defs db"
  by (induction cs n db rule: reap_each.induct) (auto simp: Let_def split: if_splits)

text \<open>A definition is inserted with its state row.\<close>

definition job_names :: "db \<Rightarrow> string set" where "job_names db = jd_job_name ` set (defs db)"

definition state_names :: "db \<Rightarrow> string set" where "state_names db = js_job_name ` set (states db)"

definition new_jobs_paired :: "db \<Rightarrow> db \<Rightarrow> bool" where
  "new_jobs_paired db db' \<longleftrightarrow> state_names db \<subseteq> state_names db' \<and> job_names db' \<subseteq> job_names db \<union> state_names db'"

lemma paired_trans: "new_jobs_paired a b \<Longrightarrow> new_jobs_paired b c \<Longrightarrow> new_jobs_paired a c"
  unfolding new_jobs_paired_def by blast

lemma paired_states: "states db' = states db \<Longrightarrow> job_names db' = job_names db \<Longrightarrow> new_jobs_paired db db'"
  by (auto simp: new_jobs_paired_def state_names_def)

lemma paired_refl: "new_jobs_paired db db"
  by (rule paired_states) simp_all

lemma paired_defs_update:
  assumes "\<And>d. jd_job_name (f d) = jd_job_name d"
  shows "new_jobs_paired db (snd (update_def P f db))"
proof (rule paired_states)
  have "set (map jd_job_name (sql_update P f (defs db))) = set (map jd_job_name (defs db))"
    by (simp only: keys_update [of jd_job_name f, OF assms])
  then show "job_names (snd (update_def P f db)) = job_names db" by (simp add: job_names_def update_def_def)
qed (simp add: update_def_def)

lemma paired_audit: "new_jobs_paired db (audit env a b c d e db)"
  by (rule paired_states) (simp_all add: audit_def job_names_def)

lemma paired_insert:
  assumes "insert_job env d nf a dup db = Inr db'"
  shows "new_jobs_paired db db'"
proof -
  have "db' = db\<lparr>defs := defs db @ [new_def env d a], states := states db @ [new_state env d nf]\<rparr>"
    using assms by (auto simp: insert_job_def Let_def split: if_splits)
  then show ?thesis
    by (auto simp: new_jobs_paired_def job_names_def state_names_def new_def_def new_state_def)
qed

lemma locks_stay:
  assumes "own_step\<^sup>*\<^sup>* a b" "locks a j \<noteq> None"
  shows "locks b j \<noteq> None"
  using assms by (induction rule: rtranclp_induct) (auto elim: own_step.cases)

lemma paired_same_defs:
  assumes "sim db db'" "defs db' = defs db"
  shows "new_jobs_paired db db'"
  using locks_stay [of "abs_db db" "abs_db db'"] assms
  by (auto simp: sim_def new_jobs_paired_def job_names_def state_names_def row_of_None)

lemma paired_copied: "insertCopiedJob env d nf src a r db = Inr db' \<Longrightarrow> new_jobs_paired db db'"
  by (auto simp: insertCopiedJob_def dest!: paired_insert intro: paired_trans [OF _ paired_audit])

lemma paired_copy_each: "copy_each env src a r ss ex db = Inr (cs, sk, db') \<Longrightarrow> new_jobs_paired db db'"
proof (induction env src a r ss ex db arbitrary: cs sk rule: copy_each.induct)
  case (2 env src a r s ss ex db)
  show ?case
  proof (cases "d_JobName (sd_Definition s) \<in> set ex")
    case True
    then show ?thesis using 2 by (auto simp: Let_def)
  next
    case False
    then obtain db1 cs1 where "insertCopiedJob env (sd_Definition s) (sd_NextFire s) src a r db = Inr db1"
      "copy_each env src a r ss (d_JobName (sd_Definition s) # ex) db1 = Inr (cs1, sk, db')"
      using 2(3) by (auto simp: Let_def)
    then show ?thesis using 2(2) [OF refl False] paired_copied paired_trans by blast
  qed
qed (simp add: paired_refl)

lemma paired_checked:
  assumes "update_def_checked P f db = Inr u" "\<And>d. jd_job_name (f d) = jd_job_name d"
  shows "new_jobs_paired db (snd u)"
  using assms paired_defs_update [of f] by (simp add: update_def_checked_Inr)

lemma sync_def_name: "jd_job_name (sync_def_set env d a r) = jd_job_name r"
  by (simp add: sync_def_set_def assign_def_def)

lemma paired_sync_each: "sync_each env src a r plan ss db = Inr db' \<Longrightarrow> new_jobs_paired db db'"
proof (induction env src a r plan ss db rule: sync_each.induct)
  case (2 env src a r plan s ss db)
  have "new_jobs_paired db db1" if "sync_one env src a r plan s db = Inr db1" for db1
    using that paired_checked [OF _ sync_def_name]
    by (fastforce simp: sync_one_def Let_def split: if_splits option.splits dest: paired_copied assert_snd
        intro: paired_refl paired_trans [OF _ paired_audit])
  then show ?case using 2 by (auto intro: paired_trans)
qed (simp add: paired_refl)

lemma paired_describe_each: "describe_each env m a r js (x, db) = Inr (y, db') \<Longrightarrow> new_jobs_paired db db'"
proof (induction js arbitrary: x db)
  case (Cons k js)
  have "new_jobs_paired db db1" if "describe_one env m a r k (x, db) = Inr (z, db1)" for z db1
    using that paired_defs_update [of "describe_set env (coalesce_str (m (jd_handler_key k))) a" db]
    by (auto simp: describe_one_def Let_def describe_set_def paired_refl split: if_splits dest!: assert_snd intro: paired_trans [OF _ paired_audit])
  then show ?case using Cons by (auto intro: paired_trans)
qed (simp add: paired_refl)

lemma paired_SyncJobs: "SyncJobs env ss src a r db = Inr (sy, db') \<Longrightarrow> new_jobs_paired db db'"
  by (auto simp: SyncJobs_def Let_def dest!: paired_sync_each split: if_splits)

lemma paired_UpdateJob: "UpdateJob env d v a r db = Inr db' \<Longrightarrow> new_jobs_paired db db'"
  using paired_checked [OF _ sync_def_name]
  by (fastforce simp: UpdateJob_def dest: assert_snd intro: paired_trans [OF _ paired_audit] split: if_splits)

lemma paired_Retire:
  assumes "Retire env j a r db = Inr db'"
  shows "new_jobs_paired db db'"
proof -
  let ?db1 = "snd (update_def (\<lambda>r. jd_job_name r = j \<and> \<not> jd_retired r) (retire_def_set env a) db)"
  have "states db' = states ?db1" "defs db' = defs ?db1"
    using assms by (auto simp: Retire_def Let_def update_exec_def audit_def dest!: assert_snd split: if_splits)
  then have "new_jobs_paired ?db1 db'" by (intro paired_states) (simp_all add: job_names_def)
  moreover have "new_jobs_paired db ?db1" by (rule paired_defs_update) (simp add: retire_def_set_def)
  ultimately show ?thesis using paired_trans by blast
qed

lemma defs_released:
  assumes "lock_releaser op j i t n" "op db = Inr db'" "wf_db db"
  shows "defs db' = defs db"
  using lock_releaser.released [OF assms(1,2) wf_dbD(1) [OF assms(3)]] by (auto simp: given_up_def)

lemmas defs_kept = defs_small defs_Adopt defs_Claim defs_MaterializeCron defs_MaterializePoll defs_Recompute defs_Trigger defs_executors(1,2)
  defs_released [OF complete_tx.lock_releaser_axioms] defs_released [OF retry_tx.lock_releaser_axioms]
  defs_released [OF refuse_tx.lock_releaser_axioms] defs_released [OF fence_tx.lock_releaser_axioms]
  defs_released [OF silent_tx.lock_releaser_axioms]

lemma defs_resolved: "Resolve env v b db = Inr (st, db') \<Longrightarrow> wf_db db \<Longrightarrow> defs db' = defs db"
  by (rule defs_released [OF resolve_tx.lock_releaser_axioms]) (auto simp: db_of_Inr)

lemma defs_owner: "ReleaseAsOwner env h db = Inr (st, db') \<Longrightarrow> wf_db db \<Longrightarrow> defs db' = defs db"
  by (rule defs_released [OF owner_tx.lock_releaser_axioms]) (auto simp: db_of_Inr)

lemma db_step_paired:
  assumes "db_step db db'" "wf_db db"
  shows "new_jobs_paired db db'"
proof -
  have sim: "sim db db'" using assms by (rule db_step_sim)
  have same: "defs db' = defs db \<Longrightarrow> ?thesis" using sim by (rule paired_same_defs)
  from assms(1) show ?thesis
  proof cases
    case (18 env d nf a r)
    then show ?thesis by (auto simp: CreateJob_def dest!: paired_insert intro: paired_trans [OF _ paired_audit] split: if_splits)
  next
    case (19 env ss src a r cs sk)
    then show ?thesis by (auto simp: CopyJobs_def dest!: paired_copy_each split: if_splits)
  next
    case (22 env m a r ds)
    then show ?thesis by (auto simp: SyncJobDescriptions_def dest!: paired_describe_each split: if_splits)
  next
    case (27 env sr ot l n)
    then show ?thesis by (intro same) (auto simp: ReapExecutions_def dest: defs_reap split: if_splits)
  next
    case (30 x)
    then show ?thesis by (intro same) (auto simp: Deregister_def defs_executors)
  next
    case (31 env rt n)
    then show ?thesis by (intro same) (auto simp: ReapExecutors_def Let_def defs_executors)
  qed (use assms(2) in \<open>blast intro: same paired_SyncJobs paired_UpdateJob paired_Retire dest: defs_kept defs_resolved defs_owner\<close>)+
qed

lemma reachable_paired: "reachable db \<Longrightarrow> job_names db \<subseteq> state_names db"
proof (induction rule: rtranclp_induct)
  case (step db db')
  then show ?case using db_step_paired [OF step(2) reachable_ok(1) [OF step(1)]] by (auto simp: new_jobs_paired_def)
qed (simp add: job_names_def empty_db_def)

section \<open>The previews\<close>

lemma row_of_perm:
  assumes "distinct (map key t)" "set u = set t" "distinct (map key u)"
  shows "row_of key u k = row_of key t k"
proof (cases "row_of key t k")
  case None
  then have "row_of key u k = None" using assms(2) unfolding row_of_None by simp
  then show ?thesis using None by simp
next
  case (Some r)
  then have "r \<in> set u" "key r = k" using assms(2) row_of_Some by force+
  then show ?thesis using Some row_of_mem [OF assms(3)] by auto
qed

lemma map_of_rows: "map_of (map (\<lambda>d. (key d, F d)) t) k = map_option F (row_of key t k)"
  by (induction t) auto

lemma Jobs_paired:
  assumes "job_names db \<subseteq> state_names db"
  shows "map (\<lambda>v. (d_JobName (jv_Definition v), jv_Definition v)) (Jobs db) =
    map (\<lambda>d. (jd_job_name d, (definition_of d)\<lparr>d_UpdatedBy := coalesce_str (jd_updated_by d)\<rparr>)) (sort_key jd_job_name (defs db))"
proof -
  have "state_row db (jd_job_name d) \<noteq> None" if "d \<in> set (defs db)" for d
    using assms that by (auto simp: job_names_def state_names_def row_of_None)
  then have "concat (map (\<lambda>d. case state_row db (jd_job_name d) of None \<Rightarrow> [] | Some s \<Rightarrow> [scanJob d s]) ds) =
    map (\<lambda>d. scanJob d (the (state_row db (jd_job_name d)))) ds" if "set ds \<subseteq> set (defs db)" for ds
    using that by (induction ds) (auto split: option.splits)
  then show ?thesis by (simp add: Jobs_def scanJob_def definition_of_def)
qed

lemma preview_definitions:
  assumes "job_names db \<subseteq> state_names db" "distinct (map jd_job_name (defs db))"
  shows "job_definitions (Jobs db) = lockedDefinitions db"
proof
  fix name
  let ?ds = "sort_key jd_job_name (defs db)"
  have d: "distinct (map jd_job_name ?ds)" using assms(2) by (simp add: distinct_map)
  have "row_of jd_job_name (rev ?ds) name = def_row db name"
    by (rule row_of_perm [OF assms(2)]) (use d in \<open>simp_all add: rev_map [symmetric]\<close>)
  then show "job_definitions (Jobs db) name = lockedDefinitions db name"
    by (simp add: job_definitions_def Jobs_paired [OF assms(1)] rev_map map_of_rows lockedDefinitions_def)
qed

definition add_plan :: "JobDescriptionSync \<Rightarrow> JobDescriptionSync \<Rightarrow> JobDescriptionSync" where
  "add_plan x y = \<lparr>ds_Changes = ds_Changes x @ ds_Changes y, ds_Missing = ds_Missing x @ ds_Missing y,
     ds_Unchanged = ds_Unchanged x + ds_Unchanged y\<rparr>"

lemma shown_fields [simp]:
  "d_Retired ((definition_of d)\<lparr>d_UpdatedBy := u\<rparr>) = jd_retired d" "d_JobName ((definition_of d)\<lparr>d_UpdatedBy := u\<rparr>) = jd_job_name d"
  "d_HandlerKey ((definition_of d)\<lparr>d_UpdatedBy := u\<rparr>) = jd_handler_key d"
  "d_Description ((definition_of d)\<lparr>d_UpdatedBy := u\<rparr>) = coalesce_str (jd_description d)"
  by (simp_all add: definition_of_def)

lemma describe_each_plan:
  "describe_each env m a r js (x, db) = Inr (y, db') \<Longrightarrow>
   y = add_plan x (descriptionSyncPlan (map (\<lambda>d. (definition_of d)\<lparr>d_UpdatedBy := coalesce_str (jd_updated_by d)\<rparr>) js) m)"
proof (induction js arbitrary: x db)
  case (Cons j js)
  then obtain x1 db1 where one: "describe_one env m a r j (x, db) = Inr (x1, db1)" and rest: "describe_each env m a r js (x1, db1) = Inr (y, db')"
    by auto
  from Cons.IH [OF rest] one show ?case
    by (auto simp: describe_one_def Let_def add_plan_def split: if_splits)
qed (simp add: add_plan_def empty_description_sync_def)

lemma preview_descriptions:
  assumes "job_names db \<subseteq> state_names db"
  shows "map jv_Definition (Jobs db) =
    map (\<lambda>d. (definition_of d)\<lparr>d_UpdatedBy := coalesce_str (jd_updated_by d)\<rparr>) (sort_key jd_job_name (defs db))"
  using arg_cong [OF Jobs_paired [OF assms], of "map snd"] by (simp add: comp_def)

section \<open>What a synchronisation leaves\<close>

lemma update_def_one:
  assumes "assertOne (update_def P f db) = Inr db'" "distinct (map jd_job_name (defs db))"
    and "\<And>r. P r \<Longrightarrow> jd_job_name r = n" "\<And>r. jd_job_name (f r) = jd_job_name r"
  shows "\<exists>r. def_row db n = Some r \<and> P r \<and> def_row db' = (def_row db)(n \<mapsto> f r)" "map jd_job_name (defs db') = map jd_job_name (defs db)"
proof -
  have db': "db' = db\<lparr>defs := sql_update P f (defs db)\<rparr>" and one: "rows_changed P f (defs db) = 1"
    using assms(1) by (auto simp: assertOne_def update_def_def split: if_splits)
  from one have "filter (\<lambda>r. P r \<and> f r \<noteq> r) (defs db) \<noteq> []" by (auto simp: rows_changed_def)
  then obtain r where r: "r \<in> set (defs db)" "P r" by (auto simp: filter_empty_conv)
  have row: "def_row db n = Some r" using row_of_mem [OF assms(2) r(1)] assms(3) [OF r(2)] by simp
  have "def_row db' k = ((def_row db)(n \<mapsto> f r)) k" for k
  proof (cases "k = n")
    case False
    then have "\<not> P q" if "def_row db k = Some q" for q using assms(3) that row_of_Some by fastforce
    then show ?thesis using False by (auto simp: db' row_of_update [of jd_job_name f, OF assms(4)] intro: option.map_ident_strong)
  qed (use row r in \<open>simp add: db' row_of_update [of jd_job_name f, OF assms(4)]\<close>)
  then show "\<exists>r. def_row db n = Some r \<and> P r \<and> def_row db' = (def_row db)(n \<mapsto> f r)" using row r(2) by blast
  show "map jd_job_name (defs db') = map jd_job_name (defs db)" by (simp add: db' keys_update [of jd_job_name f, OF assms(4)])
qed

lemma audit_def_row [simp]: "defs (audit env a b c d e db) = defs db"
  by (simp add: audit_def)

text \<open>The row of a name after one seed of a plan.\<close>

definition seeded :: "env \<Rightarrow> string \<Rightarrow> JobSyncResult \<Rightarrow> JobSeed \<Rightarrow> job_definition option \<Rightarrow> job_definition option" where
  "seeded env actor plan s row =
     (let d = sd_Definition s in
      if d_JobName d \<in> set (sy_Created plan) then Some (new_def env d actor)
      else if d_JobName d \<in> ch_JobName ` set (sy_Updated plan) then map_option (sync_def_set env d actor) row
      else row)"

abbreviation seed_name :: "JobSeed \<Rightarrow> string" where "seed_name s \<equiv> d_JobName (sd_Definition s)"

definition synced_row :: "env \<Rightarrow> string \<Rightarrow> JobSyncResult \<Rightarrow> JobSeed list \<Rightarrow> db \<Rightarrow> string \<Rightarrow> job_definition option" where
  "synced_row env actor plan seeds db n =
     (case find (\<lambda>s. seed_name s = n) seeds of None \<Rightarrow> def_row db n | Some s \<Rightarrow> seeded env actor plan s (def_row db n))"

lemma sync_one_rows:
  assumes "sync_one env src a r plan s db = Inr db'" "distinct (map jd_job_name (defs db))"
  shows "def_row db' = (def_row db)(seed_name s := seeded env a plan s (def_row db (seed_name s)))" "distinct (map jd_job_name (defs db'))"
proof -
  let ?d = "sd_Definition s" and ?n = "seed_name s"
  have "def_row db' = (def_row db)(?n := seeded env a plan s (def_row db ?n)) \<and> distinct (map jd_job_name (defs db'))"
  proof (cases "?n \<in> set (sy_Created plan)")
    case True
    then have "def_row db ?n = None" "defs db' = defs db @ [new_def env ?d a]"
      using assms(1) by (auto simp: sync_one_def insertCopiedJob_def insert_job_def Let_def split: if_splits)
    moreover have "jd_job_name (new_def env ?d a) = ?n" by (simp add: new_def_def)
    moreover from calculation(1) have "?n \<notin> jd_job_name ` set (defs db)" by (simp add: row_of_None)
    moreover have "def_row db' k = ((def_row db)(?n \<mapsto> new_def env ?d a)) k" for k
      using calculation(1-3) by (cases "def_row db k") (auto simp: row_of_append)
    ultimately show ?thesis using True assms(2) by (simp add: seeded_def fun_eq_iff)
  next
    case new: False
    show ?thesis
    proof (cases "find (\<lambda>c. ch_JobName c = ?n) (rev (sy_Updated plan))")
      case None
      then have "?n \<notin> ch_JobName ` set (sy_Updated plan)" by (auto simp: find_None_iff)
      then show ?thesis using new None assms by (auto simp: sync_one_def seeded_def Let_def)
    next
      case (Some c)
      then have upd: "?n \<in> ch_JobName ` set (sy_Updated plan)" by (metis (mono_tags, lifting) find_None_iff image_eqI option.distinct(1) set_rev)
      obtain db1 where one: "assertOne (update_def (\<lambda>r. jd_job_name r = ?n \<and> \<not> jd_retired r) (sync_def_set env ?d a) db) = Inr db1" "defs db' = defs db1"
        using assms(1) new Some by (auto simp: sync_one_def Let_def update_def_checked_Inr)
      show ?thesis
        using update_def_one [OF one(1) assms(2), of ?n] sync_def_name [of env ?d a] new upd one(2) assms(2)
        by (auto simp: seeded_def Let_def simp flip: fun_upd_apply)
    qed
  qed
  then show "def_row db' = (def_row db)(?n := seeded env a plan s (def_row db ?n))" "distinct (map jd_job_name (defs db'))" by simp_all
qed

lemma sync_each_rows:
  "sync_each env src a r plan ss db = Inr db' \<Longrightarrow> distinct (map jd_job_name (defs db)) \<Longrightarrow> distinct (map seed_name ss) \<Longrightarrow>
   def_row db' n = synced_row env a plan ss db n"
proof (induction ss arbitrary: db)
  case (Cons s ss)
  then obtain db1 where one: "sync_one env src a r plan s db = Inr db1" and rest: "sync_each env src a r plan ss db1 = Inr db'" by auto
  note row = sync_one_rows [OF one Cons.prems(2)]
  have "def_row db' n = synced_row env a plan ss db1 n" using Cons.IH [OF rest row(2)] Cons.prems(3) by simp
  moreover have "find (\<lambda>x. seed_name x = seed_name s) ss = None" using Cons.prems(3) by (auto simp: find_None_iff image_iff)
  ultimately show ?case by (auto simp: synced_row_def row(1) split: option.splits)
qed (simp add: synced_row_def)

lemma plan_created: "n \<in> set (sy_Created (planJobSync seeds ex)) \<Longrightarrow> ex n = None"
  by (induction seeds) (auto simp: emptyJobSyncResult_def Let_def split: option.splits if_splits)

text \<open>And after a synchronisation of descriptions.\<close>

definition described_row :: "env \<Rightarrow> string \<Rightarrow> JobDescriptionChange list \<Rightarrow> db \<Rightarrow> string \<Rightarrow> job_definition option" where
  "described_row env actor cs db n =
     (case find (\<lambda>c. dch_JobName c = n) cs of None \<Rightarrow> def_row db n | Some c \<Rightarrow> map_option (describe_set env (dch_After c) actor) (def_row db n))"

lemma describe_one_rows:
  assumes "describe_one env m a r j (x, db) = Inr (y, db')" "distinct (map jd_job_name (defs db))" "def_row db (jd_job_name j) = Some j"
  obtains "ds_Changes y = ds_Changes x" "db' = db"
  | c where "ds_Changes y = ds_Changes x @ [c]" "dch_JobName c = jd_job_name j" "distinct (map jd_job_name (defs db'))"
      "def_row db' = (def_row db)(jd_job_name j \<mapsto> describe_set env (dch_After c) a j)"
proof -
  let ?nxt = "coalesce_str (m (jd_handler_key j))"
  show ?thesis
  proof (cases "jd_retired j \<or> ?nxt = [] \<or> coalesce_str (jd_description j) = ?nxt")
    case True
    then show ?thesis using assms(1) that(1) by (auto simp: describe_one_def Let_def split: if_splits)
  next
    case False
    then obtain db1 where one: "assertOne (update_def (\<lambda>r. jd_job_name r = jd_job_name j \<and> jd_version r = jd_version j) (describe_set env ?nxt a) db) = Inr db1"
      "defs db' = defs db1" and y: "ds_Changes y = ds_Changes x @ [\<lparr>dch_JobName = jd_job_name j, dch_HandlerKey = jd_handler_key j,
         dch_Before = coalesce_str (jd_description j), dch_After = ?nxt\<rparr>]"
      using assms(1) by (auto simp: describe_one_def Let_def)
    show ?thesis
      by (rule that(2) [OF y])
        (use update_def_one [OF one(1) assms(2), of "jd_job_name j"] one(2) assms(2,3) in \<open>auto simp: describe_set_def\<close>)
  qed
qed

lemma describe_each_rows:
  "describe_each env m a r js (x, db) = Inr (y, db') \<Longrightarrow> distinct (map jd_job_name (defs db)) \<Longrightarrow> distinct (map jd_job_name js) \<Longrightarrow>
   (\<And>j. j \<in> set js \<Longrightarrow> def_row db (jd_job_name j) = Some j) \<Longrightarrow>
   \<exists>cs. ds_Changes y = ds_Changes x @ cs \<and> dch_JobName ` set cs \<subseteq> jd_job_name ` set js \<and> (\<forall>n. def_row db' n = described_row env a cs db n)"
proof (induction js arbitrary: x db)
  case (Cons j js)
  then obtain x1 db1 where one: "describe_one env m a r j (x, db) = Inr (x1, db1)" and rest: "describe_each env m a r js (x1, db1) = Inr (y, db')"
    by auto
  from one Cons.prems(2) Cons.prems(4) [of j, simplified] show ?case
  proof (cases rule: describe_one_rows)
    case 1
    then obtain cs where "ds_Changes y = ds_Changes x @ cs" "dch_JobName ` set cs \<subseteq> jd_job_name ` set js" "\<forall>n. def_row db' n = described_row env a cs db n"
      using Cons.IH [OF rest] Cons.prems by auto
    then show ?thesis by (intro exI [of _ cs]) auto
  next
    case (2 c)
    have "def_row db1 (jd_job_name k) = Some k" if "k \<in> set js" for k
      using that Cons.prems(3) Cons.prems(4) [of k] by (auto simp: 2(4) image_iff)
    from Cons.IH [OF rest 2(3) _ this] Cons.prems(3) obtain cs where cs: "ds_Changes y = ds_Changes x1 @ cs"
      "dch_JobName ` set cs \<subseteq> jd_job_name ` set js" "\<And>n. def_row db' n = described_row env a cs db1 n" by auto
    have "jd_job_name j \<notin> dch_JobName ` set cs" using cs(2) Cons.prems(3) by auto
    then have "find (\<lambda>c. dch_JobName c = jd_job_name j) cs = None" by (auto simp: find_None_iff image_iff)
    then have "def_row db' n = described_row env a (c # cs) db n" for n
      using cs(3) [of n] Cons.prems(4) [of j] by (auto simp: described_row_def 2(2,4) split: option.splits)
    then show ?thesis using cs(1,2) 2(1,2) by (intro exI [of _ "c # cs"]) auto
  qed
qed (simp add: described_row_def)

text \<open>C22: The two previews tell the truth about what is then written. On a database the store can reach, when a synchronisation of the
  catalogue goes through, its answer is what the preview listed, and the definitions it leaves are those: a job listed as
  created had no definition and has the seed's, one listed as updated has the seed's values under its next version, every
  other definition is as it was (the seeds name each job once, as the catalogue they are read from does). When one of the
  descriptions goes through, its answer is what the preview listed, each job listed has the description listed, and every
  other definition is as it was.\<close>

theorem previews_match:
  assumes "reachable db"
  shows "(SyncJobs env seeds src a r db = Inr (plan, db1) \<longrightarrow> PlanJobSync db seeds = plan \<and>
      (\<forall>n \<in> set (sy_Created plan). def_row db n = None) \<and>
      (distinct (map seed_name seeds) \<longrightarrow> (\<forall>n. def_row db1 n = synced_row env a plan seeds db n))) \<and>
    (SyncJobDescriptions env m a r db = Inr (res, db2) \<longrightarrow> PlanJobDescriptionSync db m = res \<and>
      (\<forall>n. def_row db2 n = described_row env a (ds_Changes res) db n))"
proof (intro conjI impI)
  note paired = reachable_paired [OF assms]
  have keys: "distinct (map jd_job_name (defs db))" using reachable_keys [OF assms] by (simp add: keys_ok_def)
  have shown: "job_definitions (Jobs db) = lockedDefinitions db" by (rule preview_definitions [OF paired keys])
  {
    assume "SyncJobs env seeds src a r db = Inr (plan, db1)"
    then have plan: "plan = planJobSync seeds (lockedDefinitions db)" and each: "sync_each env src a r plan seeds db = Inr db1"
      by (auto simp: SyncJobs_def Let_def split: if_splits)
    show "PlanJobSync db seeds = plan" by (simp add: PlanJobSync_def plan shown)
    show "\<forall>n \<in> set (sy_Created plan). def_row db n = None"
      using plan_created by (fastforce simp: plan lockedDefinitions_def)
    show "\<forall>n. def_row db1 n = synced_row env a plan seeds db n" if "distinct (map seed_name seeds)"
      using sync_each_rows [OF each keys that] by blast
  }
  assume "SyncJobDescriptions env m a r db = Inr (res, db2)"
  then have each: "describe_each env (map_of m) a r (sort_key jd_job_name (defs db)) (empty_description_sync, db) = Inr (res, db2)"
    by (auto simp: SyncJobDescriptions_def split: if_splits)
  show "PlanJobDescriptionSync db m = res"
    using describe_each_plan [OF each] preview_descriptions [OF paired]
    by (simp add: PlanJobDescriptionSync_def add_plan_def empty_description_sync_def)
  show "\<forall>n. def_row db2 n = described_row env a (ds_Changes res) db n"
    using describe_each_rows [OF each keys] row_of_mem [OF keys] keys by (auto simp: empty_description_sync_def distinct_map)
qed

definition described_run :: "(JobDescriptionSync \<times> db) result" where
  "described_run = SyncJobDescriptions (env_at 200) [(''h'', ''drains the queue'')] ''op'' ''docs'' created"

definition resynced_run :: "(JobSyncResult \<times> db) result" where
  "resynced_run = SyncJobs (env_at 200) [\<lparr>sd_Definition = job_a\<lparr>d_MaxAttempts := 5\<rparr>, sd_NextFire = 0\<rparr>] ''east'' ''op'' ''align'' created"

theorem previews_match_witness:
  "PlanJobSync created [\<lparr>sd_Definition = job_a\<lparr>d_MaxAttempts := 5\<rparr>, sd_NextFire = 0\<rparr>] = fst (projr resynced_run) \<and>
   def_row (snd (projr resynced_run)) ''a'' =
     map_option (sync_def_set (env_at 200) (job_a\<lparr>d_MaxAttempts := 5\<rparr>) ''op'') (def_row created ''a'') \<and>
   PlanJobDescriptionSync created [(''h'', ''drains the queue'')] = fst (projr described_run) \<and>
   def_row (snd (projr described_run)) ''a'' = map_option (describe_set (env_at 200) ''drains the queue'' ''op'') (def_row created ''a'')"
proof -
  let ?seeds = "[\<lparr>sd_Definition = job_a\<lparr>d_MaxAttempts := 5\<rparr>, sd_NextFire = 0\<rparr>]"
  have runs: "resynced_run = Inr (fst (projr resynced_run), snd (projr resynced_run))" "described_run = Inr (fst (projr described_run), snd (projr described_run))"
    by code_simp+
  have rows: "synced_row (env_at 200) ''op'' (fst (projr resynced_run)) ?seeds created ''a'' =
      map_option (sync_def_set (env_at 200) (job_a\<lparr>d_MaxAttempts := 5\<rparr>) ''op'') (def_row created ''a'')"
    "described_row (env_at 200) ''op'' (ds_Changes (fst (projr described_run))) created ''a'' =
      map_option (describe_set (env_at 200) ''drains the queue'' ''op'') (def_row created ''a'')" by code_simp+
  show ?thesis
    using previews_match [OF reach_created, THEN conjunct1, rule_format, OF runs(1) [unfolded resynced_run_def]]
      previews_match [OF reach_created, THEN conjunct2, rule_format, OF runs(2) [unfolded described_run_def]] rows
    by (simp add: resynced_run_def described_run_def)
qed

text \<open>C26: Every job has its state row: in every database the store can reach no definition lacks the row that both scheduling
  scans and every claim read, so no job that can be listed is inert.\<close>

theorem jobs_have_state:
  assumes "reachable db" "d \<in> set (defs db)"
  shows "state_row db (jd_job_name d) \<noteq> None"
  using reachable_paired [OF assms(1)] assms(2) by (auto simp: job_names_def state_names_def row_of_None)

theorem jobs_have_state_witness: "state_row created (jd_job_name (hd (defs created))) \<noteq> None"
proof -
  have "hd (defs created) \<in> set (defs created)" by code_simp
  with reach_created show ?thesis by (rule jobs_have_state)
qed

end
