(* ===== verification/Requests.thy ===== *)
theory Requests
  imports Listings CronParse Examples "HOL-Library.Signed_Division"
begin

text \<open>
  What the operator API makes of a request before it reaches a store (\<^verbatim>\<open>src/internal/admin/api.go\<close>, \<^verbatim>\<open>jobs.go\<close>,
  \<^verbatim>\<open>executions.go\<close>, \<^verbatim>\<open>provision.go\<close>): the errors it answers with, the validation of a job, a schedule and a database name,
  and the JSON it renders. A body arrives decoded, its strings and integers as \<open>encoding/json\<close> yields them.
\<close>

section \<open>Errors\<close>

text \<open>\<open>Panicked\<close> is a panic of the handler, which net/http recovers by dropping the connection.\<close>

datatype api_error = ErrBadRequest | ErrNotFound | StoreError error | Panicked

definition classify :: "api_error \<Rightarrow> (int \<times> string) option" where
  "classify err =
     (case err of
        Panicked \<Rightarrow> None
      | ErrBadRequest \<Rightarrow> Some (400, ''invalid'')
      | ErrNotFound \<Rightarrow> Some (404, ''not_found'')
      | StoreError e \<Rightarrow>
          Some (if e = ErrNoSuchJob \<or> e = ErrNoSuchExecution then (404, ''not_found'')
                else if e = ErrStaleVersion then (409, ''stale'')
                else if e = ErrNotQuiesced then (409, ''not_quiesced'')
                else if e = ErrContended \<or> e = ErrNotRunnable then (409, ''refused'')
                else if e = ErrProtocol then (400, ''invalid'')
                else (500, ''error'')))"

definition of_store :: "'a result \<Rightarrow> api_error + 'a" where
  "of_store r = (case r of Inl e \<Rightarrow> Inl (StoreError e) | Inr x \<Rightarrow> Inr x)"

definition guard :: "bool \<Rightarrow> api_error + unit" where
  "guard ok = (if ok then Inr () else Inl ErrBadRequest)"

definition requireReason :: "string \<Rightarrow> api_error + unit" where
  "requireReason reason = guard (TrimSpace reason \<noteq> [])"

definition atoiDefault :: "string \<Rightarrow> int \<Rightarrow> int" where
  "atoiDefault s d = (if s = [] then d else case parseInt s of None \<Rightarrow> d | Some n \<Rightarrow> n)"

section \<open>Schedules\<close>

definition cron_result :: "cron_error + 'a \<Rightarrow> api_error + 'a" where
  "cron_result r = (case r of Inl CronPanic \<Rightarrow> Inl Panicked | Inl _ \<Rightarrow> Inl ErrBadRequest | Inr x \<Rightarrow> Inr x)"

text \<open>The zero time for a schedule that is not cron is never stored (\<open>new_state\<close>).\<close>

definition parseCron :: "location \<Rightarrow> ScheduleKind \<Rightarrow> string \<Rightarrow> time \<Rightarrow> api_error + time" where
  "parseCron loc kind expr t =
     (if kind \<noteq> ScheduleCron then Inr 0
      else bindE (cron_result (Parse expr)) (\<lambda>e. cron_result (expr_Next e loc (t - Nanosecond))))"

section \<open>Jobs\<close>

record jobBody =
  jb_JobName :: string
  jb_HandlerKey :: string
  jb_ExecutorGroup :: string
  jb_ScheduleKind :: string
  jb_ScheduleExpr :: string
  jb_Enabled :: bool
  jb_Concurrency :: string
  jb_Misfire :: string
  jb_MaxAttempts :: int
  jb_MaxRecoveries :: int
  jb_LeaseSeconds :: int
  jb_TimeoutSecond :: int
  jb_Params :: string
  jb_Description :: string
  jb_Reason :: string

definition kind_of :: "string \<Rightarrow> ScheduleKind option" where
  "kind_of s = (if s = ''CRON'' then Some ScheduleCron else if s = ''FIXED_DELAY'' then Some ScheduleFixedDelay else None)"

definition concurrency_of :: "string \<Rightarrow> ConcurrencyPolicy option" where
  "concurrency_of s =
     (if s = [] then Some DefaultConcurrencyPolicy else if s = ''QUEUE'' then Some PolicyQueue
      else if s = ''FORBID'' then Some PolicyForbid else None)"

definition misfire_of :: "string \<Rightarrow> MisfirePolicy option" where
  "misfire_of s =
     (if s = [] then Some DefaultMisfirePolicy else if s = ''SKIP'' then Some MisfireSkip
      else if s = ''FIRE_ONCE'' then Some MisfireFireOnce else None)"

definition or_default :: "int \<Rightarrow> int \<Rightarrow> int" where
  "or_default d n = (if n = 0 then d else n)"

text \<open>The product of a \<open>time.Duration\<close> made from the number of seconds wraps at 64 bits.\<close>

definition body_definition :: "jobBody \<Rightarrow> ScheduleKind \<Rightarrow> ConcurrencyPolicy \<Rightarrow> MisfirePolicy \<Rightarrow> Definition" where
  "body_definition b kind conc mis =
     \<lparr>d_JobName = jb_JobName b, d_HandlerKey = jb_HandlerKey b, d_ExecutorGroup = jb_ExecutorGroup b, d_ScheduleKind = kind,
      d_ScheduleExpr = jb_ScheduleExpr b, d_Enabled = jb_Enabled b, d_Retired = False, d_Concurrency = conc, d_Misfire = mis,
      d_MaxAttempts = or_default 3 (jb_MaxAttempts b), d_MaxRecoveries = or_default 3 (jb_MaxRecoveries b),
      d_Lease = or_default (60 * Second) (int64 (jb_LeaseSeconds b * Second)),
      d_Timeout = or_default (15 * Minute) (int64 (jb_TimeoutSecond b * Second)),
      d_Params = jb_Params b, d_Description = jb_Description b, d_Version = 0, d_UpdatedBy = []\<rparr>"

definition check_bounds :: "Definition \<Rightarrow> api_error + unit" where
  "check_bounds d =
     bindE (guard (1 \<le> d_MaxAttempts d \<and> d_MaxAttempts d \<le> 100)) (\<lambda>_.
     bindE (guard (1 \<le> d_MaxRecoveries d \<and> d_MaxRecoveries d \<le> 100)) (\<lambda>_.
     bindE (guard (10 * Second \<le> d_Lease d)) (\<lambda>_.
     guard (Second \<le> d_Timeout d \<and> d_Timeout d \<le> 7 * 24 * Hour))))"

definition check_delay :: "Definition \<Rightarrow> api_error + unit" where
  "check_delay d =
     (if d_ScheduleKind d \<noteq> ScheduleFixedDelay then Inr ()
      else case Delay d of Inl _ \<Rightarrow> Inl ErrBadRequest | Inr delay \<Rightarrow> guard (delay \<le> 24 * Hour))"

definition check_names :: "Definition \<Rightarrow> api_error + unit" where
  "check_names d =
     bindE (guard (checkIdentifier (d_JobName d) 128)) (\<lambda>_.
     bindE (guard (checkIdentifier (d_HandlerKey d) 128)) (\<lambda>_.
     bindE (guard (d_ExecutorGroup d = [] \<or> checkIdentifier (d_ExecutorGroup d) 64)) (\<lambda>_.
     guard (length (d_Description d) \<le> 512))))"

definition check_params :: "json_codec \<Rightarrow> string \<Rightarrow> api_error + unit" where
  "check_params json ps =
     (if ps = [] then Inr ()
      else bindE (guard (length ps \<le> MaxParamsBytes)) (\<lambda>_. guard (decode json ps \<noteq> None)))"

definition toDefinition :: "json_codec \<Rightarrow> jobBody \<Rightarrow> api_error + Definition" where
  "toDefinition json b =
     bindE (guard (jb_JobName b \<noteq> [] \<and> jb_HandlerKey b \<noteq> [])) (\<lambda>_.
     case kind_of (jb_ScheduleKind b) of None \<Rightarrow> Inl ErrBadRequest | Some kind \<Rightarrow>
     bindE (guard (jb_ScheduleExpr b \<noteq> [])) (\<lambda>_.
     case concurrency_of (jb_Concurrency b) of None \<Rightarrow> Inl ErrBadRequest | Some conc \<Rightarrow>
     (case misfire_of (jb_Misfire b) of None \<Rightarrow> Inl ErrBadRequest | Some mis \<Rightarrow>
     (let d = body_definition b kind conc mis in
      bindE (check_bounds d) (\<lambda>_.
      bindE (check_delay d) (\<lambda>_.
      bindE (guard (d_Lease d \<le> d_Timeout d)) (\<lambda>_.
      bindE (check_names d) (\<lambda>_.
      bindE (check_params json (d_Params d)) (\<lambda>_. Inr d)))))))))"

section \<open>Connections\<close>

definition database_char :: "char \<Rightarrow> bool" where
  "database_char c =
     (let n = of_char c :: nat in
      97 \<le> n \<and> n \<le> 122 \<or> 65 \<le> n \<and> n \<le> 90 \<or> 48 \<le> n \<and> n \<le> 57 \<or> c = CHR ''_'')"

definition checkDatabaseName :: "string \<Rightarrow> api_error + unit" where
  "checkDatabaseName name =
     bindE (guard (length name \<noteq> 0 \<and> length name \<le> 64)) (\<lambda>_.
     bindE (guard (list_all database_char name)) (\<lambda>_.
     guard (\<not> (48 \<le> (of_char (hd name) :: nat) \<and> (of_char (hd name) :: nat) \<le> 57))))"

text \<open>\<open>DSNFor\<close> is nothing when the deployment supplied none.\<close>

definition resolveDSN :: "(string \<Rightarrow> string) option \<Rightarrow> string \<Rightarrow> string \<Rightarrow> api_error + string" where
  "resolveDSN DSNFor dsn0 database0 =
     (let dsn = TrimSpace dsn0; database = TrimSpace database0 in
      if dsn \<noteq> [] then Inr dsn
      else if database = [] then Inl ErrBadRequest
      else case DSNFor of
             None \<Rightarrow> Inl ErrBadRequest
           | Some compose \<Rightarrow> bindE (checkDatabaseName database) (\<lambda>_. Inr (compose database)))"

section \<open>Rendering\<close>

text \<open>
  A JSON value; \<open>JTime\<close> is an instant rendered as RFC 3339, \<open>JWall\<close> a wall time, \<open>JRaw\<close> text that is JSON already, \<open>JError\<close>
  the message of an error.
\<close>

datatype json =
    JNull | JBool bool | JInt int | JStr string | JRaw string | JTime time | JWall civil | JError error
  | JArr "json list" | JObj "(string \<times> json) list"

definition nullTime :: "time option \<Rightarrow> json" where
  "nullTime t = (case t of None \<Rightarrow> JNull | Some t \<Rightarrow> JTime t)"

definition rawOrNull :: "string \<Rightarrow> json" where
  "rawOrNull b = (if b = [] then JNull else JRaw b)"

definition concurrency_name :: "ConcurrencyPolicy \<Rightarrow> string" where
  "concurrency_name p = (case p of PolicyQueue \<Rightarrow> ''QUEUE'' | PolicyForbid \<Rightarrow> ''FORBID'')"

definition misfire_name :: "MisfirePolicy \<Rightarrow> string" where
  "misfire_name p = (case p of MisfireSkip \<Rightarrow> ''SKIP'' | MisfireFireOnce \<Rightarrow> ''FIRE_ONCE'')"

definition trigger_name :: "TriggerType \<Rightarrow> string" where
  "trigger_name t = (case t of TriggerCron \<Rightarrow> ''cron'' | TriggerManual \<Rightarrow> ''manual'' | TriggerPoll \<Rightarrow> ''poll'')"

definition reason_name :: "TerminalReason \<Rightarrow> string" where
  "reason_name r =
     (case r of ReasonHandlerConfirmed \<Rightarrow> ''handler_confirmed'' | ReasonFenced \<Rightarrow> ''fenced'' | ReasonTimeout \<Rightarrow> ''timeout''
      | ReasonBudgetExhausted \<Rightarrow> ''budget_exhausted'' | ReasonPermanentFailure \<Rightarrow> ''permanent_failure''
      | ReasonRetired \<Rightarrow> ''retired'' | ReasonConcurrencySkipped \<Rightarrow> ''concurrency_skipped'')"

definition outcome_name :: "AttemptOutcome \<Rightarrow> string" where
  "outcome_name a =
     (case a of AttemptSuccess \<Rightarrow> ''success'' | AttemptFailed \<Rightarrow> ''failed'' | AttemptUnknown \<Rightarrow> ''unknown''
      | AttemptFenced \<Rightarrow> ''fenced'')"

definition jobJSON :: "JobView \<Rightarrow> json" where
  "jobJSON v =
     (let d = jv_Definition v in
      JObj
        [(''job_name'', JStr (d_JobName d)), (''handler_key'', JStr (d_HandlerKey d)),
         (''executor_group'', JStr (d_ExecutorGroup d)), (''schedule_kind'', JStr (kind_name (d_ScheduleKind d))),
         (''schedule_expr'', JStr (d_ScheduleExpr d)), (''enabled'', JBool (d_Enabled d)), (''retired'', JBool (d_Retired d)),
         (''paused'', JBool (jv_OpsPaused v)), (''concurrency_policy'', JStr (concurrency_name (d_Concurrency d))),
         (''misfire_policy'', JStr (misfire_name (d_Misfire d))), (''max_attempts'', JInt (d_MaxAttempts d)),
         (''max_recoveries'', JInt (d_MaxRecoveries d)), (''lease_seconds'', JInt (d_Lease d div Second)),
         (''timeout_seconds'', JInt (d_Timeout d div Second)), (''params'', rawOrNull (d_Params d)),
         (''description'', JStr (d_Description d)), (''version'', JInt (d_Version d)), (''updated_by'', JStr (d_UpdatedBy d)),
         (''next_fire_at'', nullTime (jv_NextFireAt v)), (''next_poll_at'', nullTime (jv_NextPollAt v)),
         (''active_execution'', JStr (jv_ActiveExec v)), (''active_owner'', JStr (jv_ActiveOwner v)),
         (''last_success_at'', nullTime (jv_LastSuccessAt v)), (''last_failure_at'', nullTime (jv_LastFailureAt v)),
         (''config_version'', JInt (jv_ConfigVersion v))])"

definition statusLabel :: "job_execution \<Rightarrow> string" where
  "statusLabel e =
     (case je_status e of
        StatusCancelled \<Rightarrow>
          (case je_terminal_reason e of
             Some ReasonHandlerConfirmed \<Rightarrow> ''cancelled (handler confirmed stopped)''
           | Some ReasonFenced \<Rightarrow> ''cancelled (fenced; side effects unverified)''
           | _ \<Rightarrow> ''cancelled'')
      | StatusDead \<Rightarrow>
          (case je_terminal_reason e of
             Some ReasonTimeout \<Rightarrow> ''dead (runtime cap elapsed; side effects unverified)''
           | Some ReasonBudgetExhausted \<Rightarrow> ''dead (attempt budget exhausted)''
           | Some ReasonPermanentFailure \<Rightarrow> ''dead (permanent failure; not retried)''
           | _ \<Rightarrow> ''dead'')
      | StatusCancelRequested \<Rightarrow> ''stopping (asked; still holds its slot)''
      | StatusSkipped \<Rightarrow> ''skipped (FORBID: the previous run was still going)''
      | st \<Rightarrow> status_name st)"

definition executionJSON :: "job_execution \<Rightarrow> json" where
  "executionJSON e =
     JObj
       [(''execution_key'', JStr (je_execution_key e)), (''job_name'', JStr (je_job_name e)),
        (''trigger_type'', JStr (trigger_name (je_trigger_type e))), (''status'', JStr (status_name (je_status e))),
        (''status_label'', JStr (statusLabel e)), (''attempt_no'', JInt (je_attempt_no e)),
        (''max_attempts'', JInt (je_max_attempts e)), (''recovery_count'', JInt (je_recovery_count e)),
        (''scheduled_at'', JTime (je_scheduled_at e)), (''available_at'', JTime (je_available_at e)),
        (''started_at'', nullTime (je_started_at e)), (''finished_at'', nullTime (je_finished_at e)),
        (''owner_instance'', JStr (coalesce_str (je_owner_instance e))),
        (''dispatched_to'', JStr (coalesce_str (je_dispatched_to e))),
        (''failure_kind'', JStr (coalesce_str (je_failure_kind e))),
        (''terminal_reason'', JStr (coalesce_str (map_option reason_name (je_terminal_reason e)))),
        (''result_summary'', JStr (coalesce_str (je_result_summary e))),
        (''error_message'', JStr (coalesce_str (je_error_message e)))]"

definition changeJSON :: "JobDefinitionChange \<Rightarrow> json" where
  "changeJSON c =
     JObj [(''job_name'', JStr (ch_JobName c)),
           (''fields'', JArr (map (\<lambda>f. JObj [(''field'', JStr (fch_Field f)), (''before'', JStr (fch_Before f)), (''after'', JStr (fch_After f))])
              (ch_Fields c)))]"

definition syncJSON :: "JobSyncResult \<Rightarrow> json" where
  "syncJSON r =
     JObj [(''created'', JArr (map JStr (sy_Created r))), (''updated'', JArr (map changeJSON (sy_Updated r))),
           (''unchanged'', JArr (map JStr (sy_Unchanged r))), (''blocked_retired'', JArr (map JStr (sy_BlockedRetired r)))]"

definition descriptionJSON :: "JobDescriptionSync \<Rightarrow> json" where
  "descriptionJSON r =
     JObj [(''changes'', JArr (map (\<lambda>c. JObj [(''job_name'', JStr (dch_JobName c)), (''handler_key'', JStr (dch_HandlerKey c)),
              (''before'', JStr (dch_Before c)), (''after'', JStr (dch_After c))]) (ds_Changes r))),
           (''missing'', JArr (map JStr (ds_Missing r))), (''unchanged'', JInt (int (ds_Unchanged r)))]"

section \<open>The preview of a schedule\<close>

primrec next_fires :: "Expression \<Rightarrow> location \<Rightarrow> nat \<Rightarrow> time \<Rightarrow> cron_error + time list" where
  "next_fires e loc 0 at' = Inr []"
| "next_fires e loc (Suc n) at' =
     bindE (expr_Next e loc at') (\<lambda>nxt. bindE (next_fires e loc n nxt) (\<lambda>rest. Inr (nxt # rest)))"

text \<open>The kind, the expression and the count as the query carries them; for a poller the parsed delay in milliseconds.\<close>

datatype schedule_preview = PreviewDelay int duration | PreviewFires "civil list"

definition preview_count :: "string \<Rightarrow> nat" where
  "preview_count q = (let n = atoiDefault q 5 in if n < 1 \<or> n > 20 then 5 else nat n)"

definition preview_poller :: "string \<Rightarrow> Definition" where
  "preview_poller expr =
     \<lparr>d_JobName = ''preview'', d_HandlerKey = [], d_ExecutorGroup = [], d_ScheduleKind = ScheduleFixedDelay, d_ScheduleExpr = expr,
      d_Enabled = False, d_Retired = False, d_Concurrency = DefaultConcurrencyPolicy, d_Misfire = DefaultMisfirePolicy,
      d_MaxAttempts = 0, d_MaxRecoveries = 0, d_Lease = 0, d_Timeout = 0, d_Params = [], d_Description = [], d_Version = 0,
      d_UpdatedBy = []\<rparr>"

definition previewSchedule :: "location \<Rightarrow> time \<Rightarrow> string \<Rightarrow> string \<Rightarrow> string \<Rightarrow> api_error + schedule_preview" where
  "previewSchedule loc t kind0 expr0 count =
     (let kind = ToUpper (TrimSpace kind0); expr = TrimSpace expr0 in
      bindE (guard (expr \<noteq> [])) (\<lambda>_.
      if kind = ''FIXED_DELAY'' then
        (case Delay (preview_poller expr) of
           Inl _ \<Rightarrow> Inl ErrBadRequest
         | Inr d \<Rightarrow> Inr (PreviewDelay (d sdiv Millisecond) d))
      else if kind = ''CRON'' \<or> kind = [] then
        bindE (cron_result (Parse expr)) (\<lambda>e.
        bindE (cron_result (next_fires e loc (preview_count count) (t - Nanosecond))) (\<lambda>fires.
        Inr (PreviewFires (map (civilOf loc) fires))))
      else Inl ErrBadRequest))"

section \<open>What validation guarantees\<close>

lemma guard_simps [simp]: "guard P = Inr u \<longleftrightarrow> P" "guard P = Inl e \<longleftrightarrow> \<not> P \<and> e = ErrBadRequest"
  by (auto simp: guard_def)

lemma toDefinitionD:
  assumes "toDefinition json b = Inr d"
  shows "check_bounds d = Inr ()" "check_delay d = Inr ()" "d_Lease d \<le> d_Timeout d" "check_names d = Inr ()" "check_params json (d_Params d) = Inr ()"
    "d_JobName d = jb_JobName b" "d_Retired d = False"
  using assms by (auto simp: toDefinition_def Let_def body_definition_def split: option.splits)

lemma check_bounds_iff:
  "check_bounds d = Inr () \<longleftrightarrow> 1 \<le> d_MaxAttempts d \<and> d_MaxAttempts d \<le> 100 \<and> 1 \<le> d_MaxRecoveries d \<and> d_MaxRecoveries d \<le> 100 \<and>
     10 * Second \<le> d_Lease d \<and> Second \<le> d_Timeout d \<and> d_Timeout d \<le> 7 * 24 * Hour"
  by (auto simp: check_bounds_def)

lemma check_names_iff:
  "check_names d = Inr () \<longleftrightarrow> checkIdentifier (d_JobName d) 128 \<and> checkIdentifier (d_HandlerKey d) 128 \<and>
     (d_ExecutorGroup d = [] \<or> checkIdentifier (d_ExecutorGroup d) 64) \<and> length (d_Description d) \<le> 512"
  by (auto simp: check_names_def)

lemma bounds_rows: "check_bounds d = Inr () \<Longrightarrow> checks_ok (new_def env d actor)"
  using zdiv_mono1 [of "10 * Second" "d_Lease d" Second] zdiv_mono1 [of Second "d_Timeout d" Second] zdiv_mono1 [of "d_Timeout d" "7 * 24 * Hour" Second]
  by (simp add: check_bounds_iff checks_ok_def new_def_def)

lemma names_fit:
  assumes "check_names d = Inr ()"
  shows "widths_ok (new_def env d actor) \<longleftrightarrow> fits 128 (d_ScheduleExpr d) \<and> fits 64 actor"
  using assms by (auto simp: check_names_iff checkIdentifier_def widths_ok_def new_def_def fits_def)


definition plain_body :: jobBody where
  "plain_body =
     \<lparr>jb_JobName = ''a'', jb_HandlerKey = ''h'', jb_ExecutorGroup = [], jb_ScheduleKind = ''FIXED_DELAY'', jb_ScheduleExpr = ''5000'',
      jb_Enabled = True, jb_Concurrency = [], jb_Misfire = [], jb_MaxAttempts = 0, jb_MaxRecoveries = 0, jb_LeaseSeconds = 60,
      jb_TimeoutSecond = 600, jb_Params = [], jb_Description = [], jb_Reason = ''new''\<rparr>"

lemma plain_body_accepted: "toDefinition no_json plain_body = Inr (job_a)"
  by code_simp


text \<open>C15: The number of seconds of a lease is not what is checked: it wraps. A body and the one that asks for \<open>2 ^ 55\<close> seconds more of
  lease are accepted or refused alike and yield the same definition, and likewise for the timeout, so the bounds that
  guard both fields admit numbers a thousand million years outside them.\<close>

theorem seconds_wrap:
  "toDefinition json (b\<lparr>jb_LeaseSeconds := jb_LeaseSeconds b + 2 ^ 55\<rparr>) = toDefinition json b \<and>
   toDefinition json (b\<lparr>jb_TimeoutSecond := jb_TimeoutSecond b + 2 ^ 55\<rparr>) = toDefinition json b"
proof -
  have "(n + 2 ^ 55) * Second = n * Second + 2 ^ 64 * 1953125" for n :: int by simp
  moreover have "int64 (n + 2 ^ 64 * k) = int64 n" for n k
  proof -
    have "(word_of_int (n + 2 ^ 64 * k) :: 64 word) = word_of_int n"
      unfolding word_of_int_eq_iff take_bit_eq_mod by simp
    then show ?thesis by (simp add: int64_def)
  qed
  ultimately have "int64 ((n + 2 ^ 55) * Second) = int64 (n * Second)" for n by metis
  then show ?thesis by (simp add: toDefinition_def body_definition_def cong: option.case_cong)
qed

lemma next_fires_total:
  assumes "zone loc" "Parse expr = Inr e"
  shows "\<exists>fires. next_fires e loc n t = Inr fires \<and> length fires = n \<and> (0 < n \<longrightarrow> expr_Next e loc t = Inr (hd fires)) \<and>
    (\<forall>i. Suc i < n \<longrightarrow> expr_Next e loc (fires ! i) = Inr (fires ! Suc i))"
proof (induction n arbitrary: t)
  case (Suc n)
  obtain x where x: "expr_Next e loc t = Inr x"
    using Parse_fields [OF assms(2)] zone.next_total [OF assms(1)] by blast
  from Suc.IH [of x] obtain fires where fires: "next_fires e loc n x = Inr fires" "length fires = n"
    "0 < n \<longrightarrow> expr_Next e loc x = Inr (hd fires)" "\<forall>i. Suc i < n \<longrightarrow> expr_Next e loc (fires ! i) = Inr (fires ! Suc i)" by blast
  have "expr_Next e loc ((x # fires) ! i) = Inr ((x # fires) ! Suc i)" if "Suc i < Suc n" for i
    using that fires by (cases i) (auto simp: hd_conv_nth)
  with x fires show ?case by auto
qed simp

text \<open>A preview tells when the job will run: for an expression that parses, in every zone, it answers with as many instants as
  asked for, the first of which is the fire a job created at that moment is given and each later one the next fire after
  the one before.\<close>

lemma preview_matches_creation:
  assumes "zone loc" "Parse (TrimSpace expr) = Inr e"
  shows "\<exists>fires. previewSchedule loc t ''CRON'' expr count = Inr (PreviewFires (map (civilOf loc) fires)) \<and>
    length fires = preview_count count \<and> parseCron loc ScheduleCron (TrimSpace expr) t = Inr (hd fires) \<and>
    (\<forall>i. Suc i < length fires \<longrightarrow> expr_Next e loc (fires ! i) = Inr (fires ! Suc i))"
proof -
  obtain fires where fires: "next_fires e loc (preview_count count) (t - Nanosecond) = Inr fires" "length fires = preview_count count"
    "0 < preview_count count \<longrightarrow> expr_Next e loc (t - Nanosecond) = Inr (hd fires)"
    "\<forall>i. Suc i < preview_count count \<longrightarrow> expr_Next e loc (fires ! i) = Inr (fires ! Suc i)"
    using next_fires_total [OF assms, of "preview_count count" "t - Nanosecond"] by auto
  have kind: "ToUpper (TrimSpace ''CRON'') = ''CRON''" by code_simp
  have "Parse [] = Inl CronInvalid" by code_simp
  then have "TrimSpace expr \<noteq> []" using assms(2) by auto
  moreover have "0 < preview_count count" by (simp add: preview_count_def Let_def)
  ultimately show ?thesis using assms(2) fires kind
    by (auto simp: previewSchedule_def parseCron_def cron_result_def guard_def)
qed

end
