(* ===== verification/Control.thy ===== *)
theory Control
  imports Schema Sha256 "HOL-Library.List_Lexorder" "HOL-Library.Char_ord" "HOL-Library.Product_Lexorder"
begin

text \<open>
  The control database (\<^verbatim>\<open>src/internal/control\<close>): the registry of tenants, who may register as an executor, what each
  instance says it has applied, and the audit of every change. A transaction is a function to a result, as in the
  store. The AEAD cipher is a parameter; nonces are arguments of the operations that draw one.
\<close>

section \<open>Tables\<close>

record tenant_registry =
  tr_tenant :: string
  tr_coordination_dsn :: string
  tr_enabled :: bool
  tr_generation :: int
  tr_schema_uuid :: string
  tr_schema_version :: "string option"
  tr_admitted_at :: "time option"
  tr_last_error :: "string option"
  tr_created_at :: time
  tr_updated_at :: time

record tenant_observation =
  to_tenant :: string
  to_instance_id :: string
  to_generation :: int
  to_quiesced :: bool
  to_observed_at :: time

record executor_identity =
  ei_identity :: string
  ei_tenant :: string
  ei_executor_group :: string
  ei_token_sha256 :: "string option"
  ei_disabled :: bool
  ei_created_at :: time

record control_audit =
  ca_id :: int
  ca_actor :: string
  ca_action :: string
  ca_tenant :: "string option"
  ca_detail :: "string option"
  ca_created_at :: time

record ctl =
  registry :: "tenant_registry list"
  observations :: "tenant_observation list"
  identities :: "executor_identity list"
  ctl_audits :: "control_audit list"
  ctl_next_audit :: int

abbreviation tenant_row :: "ctl \<Rightarrow> string \<Rightarrow> tenant_registry option" where
  "tenant_row c \<equiv> row_of tr_tenant (registry c)"

abbreviation obs_key :: "tenant_observation \<Rightarrow> string \<times> string" where
  "obs_key ob \<equiv> (to_tenant ob, to_instance_id ob)"

abbreviation identity_key :: "executor_identity \<Rightarrow> string \<times> string" where
  "identity_key i \<equiv> (ei_identity i, ei_tenant i)"

text \<open>The primary keys.\<close>

definition ctl_keys_ok :: "ctl \<Rightarrow> bool" where
  "ctl_keys_ok c \<longleftrightarrow> distinct (map tr_tenant (registry c)) \<and> distinct (map obs_key (observations c)) \<and>
     distinct (map identity_key (identities c))"

definition control_roundUpSeconds :: "duration \<Rightarrow> int" where
  "control_roundUpSeconds d = (let s = (d + Second - 1) div Second in if s < 1 then 1 else s)"

section \<open>Stored connection strings\<close>

definition LastIndex :: "string \<Rightarrow> char \<Rightarrow> nat option" where
  "LastIndex s c = (if c \<in> set s then Some (length s - 1 - length (takeWhile (\<lambda>x. x \<noteq> c) (rev s))) else None)"

definition MaskedDSN :: "string \<Rightarrow> string" where
  "MaskedDSN dsn =
     (case LastIndex dsn (CHR ''@'') of
        None \<Rightarrow> ''(unparseable)''
      | Some at' \<Rightarrow> takeWhile (\<lambda>c. c \<noteq> CHR '':'') (take at' dsn) @ '':***@'' @ drop (at' + 1) dsn)"

text \<open>
  \<open>Seal\<close> and \<open>Open\<close> take the nonce first; there is no additional data. A store with no key has no cipher.
\<close>

record AEAD =
  NonceSize :: nat
  Seal :: "string \<Rightarrow> string \<Rightarrow> string"
  Open :: "string \<Rightarrow> string \<Rightarrow> string option"

definition dsnPlain :: char where "dsnPlain = CHR 0x00"
definition dsnSealed :: char where "dsnSealed = CHR 0x01"

datatype dsn_error = DSNEmpty | DSNKeyMissing | DSNShort | DSNUndecipherable

fun dsn_message :: "dsn_error \<Rightarrow> string" where
  "dsn_message DSNEmpty = ''control: stored DSN is empty''"
| "dsn_message DSNKeyMissing = ''control: this installation's DSNs are encrypted, but no -dsn-key was given; start with the key they were stored under''"
| "dsn_message DSNShort = ''control: stored DSN is shorter than a nonce''"
| "dsn_message DSNUndecipherable = ''control: cannot decrypt DSN; is the encryption key the one it was stored with? cipher: message authentication failed''"

text \<open>The nonce is what \<open>rand.Reader\<close> supplies, \<open>None\<close> when it fails.\<close>

definition seal :: "AEAD option \<Rightarrow> string option \<Rightarrow> string \<Rightarrow> string result" where
  "seal aead rand plain =
     (case aead of
        None \<Rightarrow> Inr (dsnPlain # plain)
      | Some c \<Rightarrow> (case rand of
          None \<Rightarrow> Inl ErrOther
        | Some bytes \<Rightarrow>
            let nonce = take (NonceSize c) bytes in
            if length nonce < NonceSize c then Inl ErrOther
            else Inr (dsnSealed # nonce @ Seal c nonce plain)))"

definition unseal :: "AEAD \<Rightarrow> string \<Rightarrow> dsn_error + string" where
  "unseal c sealed =
     (let n = NonceSize c in
      if length sealed < n then Inl DSNShort
      else case Open c (take n sealed) (drop n sealed) of None \<Rightarrow> Inl DSNUndecipherable | Some plain \<Rightarrow> Inr plain)"

definition open_untagged :: "AEAD option \<Rightarrow> string \<Rightarrow> dsn_error + string" where
  "open_untagged aead stored = (case aead of None \<Rightarrow> Inl DSNKeyMissing | Some c \<Rightarrow> unseal c stored)"

definition open_dsn :: "AEAD option \<Rightarrow> string \<Rightarrow> dsn_error + string" where
  "open_dsn aead stored =
     (case stored of
        [] \<Rightarrow> Inl DSNEmpty
      | tag # body \<Rightarrow>
          if tag = dsnPlain then Inr body
          else if tag = dsnSealed then
            (case aead of
               None \<Rightarrow> Inl DSNKeyMissing
             | Some c \<Rightarrow> (case unseal c body of Inr v \<Rightarrow> Inr v | Inl _ \<Rightarrow> open_untagged aead stored))
          else open_untagged aead stored)"

section \<open>Reads\<close>

record Tenant =
  tn_Name :: string
  tn_Enabled :: bool
  tn_Generation :: int
  tn_SchemaUUID :: string
  tn_SchemaVersion :: string
  tn_AdmittedAt :: "time option"
  tn_LastError :: string
  tn_DSN :: string

definition tenant_of :: "AEAD option \<Rightarrow> tenant_registry \<Rightarrow> Tenant" where
  "tenant_of aead r =
     (let t = \<lparr>tn_Name = tr_tenant r, tn_Enabled = tr_enabled r, tn_Generation = tr_generation r,
               tn_SchemaUUID = tr_schema_uuid r, tn_SchemaVersion = coalesce_str (tr_schema_version r),
               tn_AdmittedAt = tr_admitted_at r, tn_LastError = coalesce_str (tr_last_error r), tn_DSN = []\<rparr>
      in case open_dsn aead (tr_coordination_dsn r) of
           Inr dsn \<Rightarrow> t\<lparr>tn_DSN := dsn\<rparr>
         | Inl e \<Rightarrow> t\<lparr>tn_LastError := dsn_message e, tn_Enabled := False\<rparr>)"

definition Tenants :: "AEAD option \<Rightarrow> ctl \<Rightarrow> Tenant list" where
  "Tenants aead c = map (tenant_of aead) (sort_key tr_tenant (registry c))"

definition CurrentGeneration :: "ctl \<Rightarrow> string \<Rightarrow> int \<times> bool" where
  "CurrentGeneration c name =
     (case tenant_row c name of None \<Rightarrow> (0, False) | Some r \<Rightarrow> (tr_generation r, tr_enabled r))"

record Identity =
  id_Identity :: string
  id_Tenant :: string
  id_Group :: string
  id_HasToken :: bool
  id_Disabled :: bool
  id_CreatedAt :: time

definition Identities :: "ctl \<Rightarrow> Identity list" where
  "Identities c =
     map (\<lambda>i. \<lparr>id_Identity = ei_identity i, id_Tenant = ei_tenant i, id_Group = ei_executor_group i,
               id_HasToken = ei_token_sha256 i \<noteq> None, id_Disabled = ei_disabled i, id_CreatedAt = ei_created_at i\<rparr>)
         (sort_key (\<lambda>i. (ei_tenant i, ei_identity i)) (identities c))"

section \<open>Identities\<close>

text \<open>The number of an entry is the next of an AUTO_INCREMENT column, which a rolled-back INSERT uses up.\<close>

definition record_audit :: "env \<Rightarrow> string \<Rightarrow> string \<Rightarrow> string \<Rightarrow> string \<Rightarrow> ctl \<Rightarrow> ctl result" where
  "record_audit env actor action tenant detail c =
     (if actor = [] then Inl ErrProtocol
      else Inr (c\<lparr>ctl_audits := ctl_audits c @
                    [\<lparr>ca_id = ctl_next_audit c + int (burned env), ca_actor = actor, ca_action = action, ca_tenant = nullString tenant,
                      ca_detail = nullString detail, ca_created_at = now env\<rparr>],
                  ctl_next_audit := ctl_next_audit c + int (burned env) + 1\<rparr>))"

definition Audit :: "env \<Rightarrow> string \<Rightarrow> string \<Rightarrow> string \<Rightarrow> string \<Rightarrow> ctl \<Rightarrow> ctl result" where
  "Audit env actor action tenant detail c = record_audit env actor action tenant detail c"

definition insert_identity :: "executor_identity \<Rightarrow> ctl \<Rightarrow> ctl result" where
  "insert_identity i c =
     (if row_of identity_key (identities c) (identity_key i) \<noteq> None then Inl ErrOther
      else Inr (c\<lparr>identities := identities c @ [i]\<rparr>))"

definition AddIdentity ::
  "env \<Rightarrow> string \<Rightarrow> string \<Rightarrow> string \<Rightarrow> string \<Rightarrow> string \<Rightarrow> string \<Rightarrow> ctl \<Rightarrow> ctl result" where
  "AddIdentity env identity tenant grp tokenSHA actor reason c =
     (if identity = [] \<or> tenant = [] then Inl ErrProtocol
      else if reason = [] then Inl ErrProtocol
      else bindE (insert_identity \<lparr>ei_identity = identity, ei_tenant = tenant, ei_executor_group = grp,
                    ei_token_sha256 = nullString tokenSHA, ei_disabled = False, ei_created_at = now env\<rparr> c) (\<lambda>c.
        let how = (if tokenSHA \<noteq> [] then ''by shared token'' else ''by client certificate'');
            scope = (if grp \<noteq> [] then ''group '' @ grp else ''any group'')
        in record_audit env actor ''executor_authorized'' tenant
             (reason @ '' ('' @ identity @ '', '' @ how @ '', '' @ scope @ '')'') c))"

definition SetIdentityDisabled :: "env \<Rightarrow> string \<Rightarrow> string \<Rightarrow> bool \<Rightarrow> string \<Rightarrow> string \<Rightarrow> ctl \<Rightarrow> ctl result" where
  "SetIdentityDisabled env identity tenant disabled actor reason c =
     (if reason = [] then Inl ErrProtocol
      else
        let P = (\<lambda>i. ei_identity i = identity \<and> ei_tenant i = tenant \<and> ei_disabled i \<noteq> disabled);
            f = (\<lambda>i. i\<lparr>ei_disabled := disabled\<rparr>)
        in if rows_changed P f (identities c) = 0 then Inl ErrProtocol
           else record_audit env actor (if disabled then ''executor_revoked'' else ''executor_restored'') tenant
                  (reason @ '' ('' @ identity @ '')'') (c\<lparr>identities := sql_update P f (identities c)\<rparr>))"

definition DeleteIdentity :: "env \<Rightarrow> string \<Rightarrow> string \<Rightarrow> string \<Rightarrow> string \<Rightarrow> ctl \<Rightarrow> ctl result" where
  "DeleteIdentity env identity tenant actor reason c =
     (if identity = [] \<or> tenant = [] then Inl ErrProtocol
      else if reason = [] then Inl ErrProtocol
      else case row_of identity_key (identities c) (identity, tenant) of
        None \<Rightarrow> Inl ErrProtocol
      | Some i \<Rightarrow>
          if \<not> ei_disabled i then Inl ErrProtocol
          else record_audit env actor ''executor_deleted'' tenant (reason @ '' ('' @ identity @ '')'')
                 (c\<lparr>identities := sql_delete (\<lambda>i. ei_identity i = identity \<and> ei_tenant i = tenant) (identities c)\<rparr>))"

section \<open>Tenants\<close>

definition new_tenant :: "env \<Rightarrow> string \<Rightarrow> string \<Rightarrow> string \<Rightarrow> tenant_registry" where
  "new_tenant env name sealed schemaUUID =
     \<lparr>tr_tenant = name, tr_coordination_dsn = sealed, tr_enabled = True, tr_generation = 1, tr_schema_uuid = schemaUUID,
      tr_schema_version = None, tr_admitted_at = None, tr_last_error = None, tr_created_at = now env, tr_updated_at = now env\<rparr>"

definition AddTenant ::
  "AEAD option \<Rightarrow> string option \<Rightarrow> env \<Rightarrow> string \<Rightarrow> string \<Rightarrow> string \<Rightarrow> string \<Rightarrow> string \<Rightarrow> ctl \<Rightarrow> ctl result" where
  "AddTenant aead rand env name dsn schemaUUID actor reason c =
     (if reason = [] then Inl ErrProtocol
      else if name = [] \<or> dsn = [] \<or> schemaUUID = [] then Inl ErrProtocol
      else bindE (seal aead rand dsn) (\<lambda>sealed.
        if tenant_row c name \<noteq> None then Inl ErrOther
        else record_audit env actor ''tenant_added'' name
               (reason @ '' (expects schema '' @ schemaUUID @ ''; DSN stored encrypted)'')
               (c\<lparr>registry := registry c @ [new_tenant env name sealed schemaUUID]\<rparr>)))"

definition enable_set :: "env \<Rightarrow> bool \<Rightarrow> tenant_registry \<Rightarrow> tenant_registry" where
  "enable_set env enabled r = r\<lparr>tr_enabled := enabled, tr_generation := tr_generation r + 1, tr_updated_at := now env\<rparr>"

definition SetTenantEnabled :: "env \<Rightarrow> string \<Rightarrow> bool \<Rightarrow> string \<Rightarrow> string \<Rightarrow> ctl \<Rightarrow> ctl result" where
  "SetTenantEnabled env name enabled actor reason c =
     (if reason = [] then Inl ErrProtocol
      else
        let P = (\<lambda>r. tr_tenant r = name \<and> tr_enabled r \<noteq> enabled)
        in if rows_changed P (enable_set env enabled) (registry c) = 0 then Inl ErrProtocol
           else record_audit env actor (if enabled then ''tenant_enabled'' else ''tenant_disabled'') name reason
                  (c\<lparr>registry := sql_update P (enable_set env enabled) (registry c)\<rparr>))"

text \<open>An observation recent enough for its instance to count as live, and one that acknowledges a generation.\<close>

definition obs_live :: "env \<Rightarrow> duration \<Rightarrow> tenant_observation \<Rightarrow> bool" where
  "obs_live env liveness ob \<longleftrightarrow> to_observed_at ob \<ge> add_seconds (utc env) (- control_roundUpSeconds liveness)"

definition acknowledges :: "int \<Rightarrow> tenant_observation \<Rightarrow> bool" where
  "acknowledges generation ob \<longleftrightarrow> to_generation ob \<ge> generation \<and> to_quiesced ob"

definition blockersTx :: "env \<Rightarrow> string \<Rightarrow> int \<Rightarrow> duration \<Rightarrow> ctl \<Rightarrow> string list" where
  "blockersTx env tenant generation liveness c =
     map to_instance_id
       (filter (\<lambda>ob. obs_live env liveness ob \<and> \<not> acknowledges generation ob)
         (sort_key to_instance_id (filter (\<lambda>ob. to_tenant ob = tenant) (observations c))))"

definition repoint_set :: "env \<Rightarrow> string \<Rightarrow> string \<Rightarrow> tenant_registry \<Rightarrow> tenant_registry" where
  "repoint_set env sealed schemaUUID r =
     r\<lparr>tr_coordination_dsn := sealed, tr_schema_uuid := schemaUUID, tr_schema_version := None, tr_admitted_at := None,
       tr_generation := tr_generation r + 1, tr_updated_at := now env\<rparr>"

definition SetTenantDSN ::
  "AEAD option \<Rightarrow> string option \<Rightarrow> env \<Rightarrow> string \<Rightarrow> string \<Rightarrow> string \<Rightarrow> string \<Rightarrow> string \<Rightarrow> bool \<Rightarrow> duration \<Rightarrow> ctl \<Rightarrow> ctl result" where
  "SetTenantDSN aead rand env name dsn schemaUUID actor reason quiescedElsewhere liveness c =
     (if reason = [] then Inl ErrProtocol
      else if \<not> quiescedElsewhere then Inl ErrNotQuiesced
      else bindE (seal aead rand dsn) (\<lambda>sealed.
        case tenant_row c name of
          None \<Rightarrow> Inl ErrOther
        | Some r \<Rightarrow>
            if blockersTx env name (tr_generation r) liveness c \<noteq> [] then Inl ErrNotQuiesced
            else
              let P = (\<lambda>r. tr_tenant r = name \<and> \<not> tr_enabled r)
              in if rows_changed P (repoint_set env sealed schemaUUID) (registry c) = 0 then Inl ErrNotQuiesced
                 else record_audit env actor ''tenant_dsn_changed'' name
                        (reason @ '' (now expects schema '' @ schemaUUID @ '')'')
                        (c\<lparr>registry := sql_update P (repoint_set env sealed schemaUUID) (registry c)\<rparr>)))"

text \<open>\<open>admitErr\<close> is the text of the error, if there was one; it is cut at 512 bytes.\<close>

definition admission_set :: "env \<Rightarrow> string \<Rightarrow> string option \<Rightarrow> tenant_registry \<Rightarrow> tenant_registry" where
  "admission_set env schemaVersion admitErr r =
     r\<lparr>tr_schema_version := nullString schemaVersion,
       tr_admitted_at := (if admitErr = None then Some (now env) else None),
       tr_last_error := map_option (take 512) admitErr, tr_updated_at := now env\<rparr>"

definition RecordAdmission :: "env \<Rightarrow> string \<Rightarrow> string \<Rightarrow> string option \<Rightarrow> ctl \<Rightarrow> ctl" where
  "RecordAdmission env name schemaVersion admitErr c =
     c\<lparr>registry := sql_update (\<lambda>r. tr_tenant r = name) (admission_set env schemaVersion admitErr) (registry c)\<rparr>"

section \<open>Observations\<close>

definition Observe :: "env \<Rightarrow> string \<Rightarrow> string \<Rightarrow> int \<Rightarrow> bool \<Rightarrow> ctl \<Rightarrow> ctl" where
  "Observe env tenant instanceID generation quiesced c =
     (if row_of obs_key (observations c) (tenant, instanceID) = None
      then c\<lparr>observations := observations c @
               [\<lparr>to_tenant = tenant, to_instance_id = instanceID, to_generation = generation, to_quiesced = quiesced,
                 to_observed_at = utc env\<rparr>]\<rparr>
      else c\<lparr>observations := sql_update (\<lambda>ob. to_tenant ob = tenant \<and> to_instance_id ob = instanceID)
               (\<lambda>ob. ob\<lparr>to_generation := generation, to_quiesced := quiesced, to_observed_at := utc env\<rparr>) (observations c)\<rparr>)"

record Blocker =
  b_InstanceID :: string
  b_Generation :: int
  b_Quiesced :: bool
  b_ObservedAt :: time

definition Blockers :: "env \<Rightarrow> ctl \<Rightarrow> string \<Rightarrow> int \<Rightarrow> duration \<Rightarrow> Blocker list" where
  "Blockers env c tenant generation liveness =
     map (\<lambda>ob. \<lparr>b_InstanceID = to_instance_id ob, b_Generation = to_generation ob, b_Quiesced = to_quiesced ob,
                b_ObservedAt = to_observed_at ob\<rparr>)
       (sort_key to_instance_id
         (filter (\<lambda>ob. to_tenant ob = tenant \<and> obs_live env liveness ob \<and> \<not> acknowledges generation ob) (observations c)))"

definition ReapObservations :: "env \<Rightarrow> duration \<Rightarrow> ctl \<Rightarrow> ctl" where
  "ReapObservations env retention c =
     c\<lparr>observations := sql_delete (\<lambda>ob. to_observed_at ob < add_seconds (utc env) (- control_roundUpSeconds retention)) (observations c)\<rparr>"

section \<open>Admission checks\<close>

text \<open>
  What a tenant's pool answers (\<^verbatim>\<open>src/internal/control/admit.go\<close>): the identity row, an error when it cannot be read; the
  database clock, as the digits the driver parsed and the name of the location it tagged them with, nothing when the
  scan fails.
\<close>

record schema_view =
  sv_identity :: "(string \<times> string \<times> string) option result"
  sv_clock :: "(time \<times> string) option"

definition SchemaVersion :: string where "SchemaVersion = ''3''"

definition IdentityVersion :: "schema_view \<Rightarrow> string \<Rightarrow> string \<Rightarrow> string result" where
  "IdentityVersion view tenant expectUUID =
     (case sv_identity view of
        Inl _ \<Rightarrow> Inl ErrSchemaIdentity
      | Inr None \<Rightarrow> Inl ErrSchemaIdentity
      | Inr (Some (gotTenant, gotUUID, gotVersion)) \<Rightarrow>
          if gotTenant \<noteq> tenant then Inl ErrSchemaIdentity
          else if gotUUID \<noteq> expectUUID then Inl ErrSchemaIdentity
          else Inr gotVersion)"

definition assertClockContract :: "schema_view \<Rightarrow> string \<Rightarrow> time \<Rightarrow> unit result" where
  "assertClockContract view loc host =
     (case sv_clock view of
        None \<Rightarrow> Inl ErrTimeZone
      | Some (digits, got) \<Rightarrow>
          if got \<noteq> loc then Inl ErrTimeZone
          else if \<bar>host - truncate_second digits\<bar> > Minute then Inl ErrTimeZone
          else Inr ())"

definition Admit :: "schema_view \<Rightarrow> string \<Rightarrow> string \<Rightarrow> string \<Rightarrow> time \<Rightarrow> unit result" where
  "Admit view tenant expectUUID loc host =
     bindE (IdentityVersion view tenant expectUUID) (\<lambda>gotVersion.
       if gotVersion \<noteq> SchemaVersion then Inl ErrSchemaVersion else assertClockContract view loc host)"

section \<open>The fence\<close>

text \<open>Instants are monotonic readings; \<open>None\<close> is the zero time.\<close>

record Fence =
  fc_limit :: duration
  fc_lastRead :: "time option"

definition NewFence :: "duration \<Rightarrow> Fence" where
  "NewFence limit = \<lparr>fc_limit = limit, fc_lastRead = None\<rparr>"

definition Refresh :: "time \<Rightarrow> Fence \<Rightarrow> Fence" where
  "Refresh at' f = f\<lparr>fc_lastRead := Some at'\<rparr>"

definition Check :: "time \<Rightarrow> Fence \<Rightarrow> unit result" where
  "Check at' f =
     (case fc_lastRead f of
        None \<Rightarrow> Inl ErrControlStale
      | Some lastRead \<Rightarrow> if at' - lastRead > fc_limit f then Inl ErrControlStale else Inr ())"

definition Healthy :: "time \<Rightarrow> Fence \<Rightarrow> bool" where
  "Healthy at' f \<longleftrightarrow> Check at' f = Inr ()"

end
