(* ===== verification/Runtime.thy ===== *)
theory Runtime
  imports Control
begin

text \<open>
  The tenant runtime (\<^verbatim>\<open>src/internal/runtime/registry.go\<close>): one registry per instance polls the control database, admits and
  retires tenants and refreshes the fence. Its goroutines, the poll, an admission per tenant and the retirements,
  interleave: each is a sequence of sections, a section being what runs under the mutex or one statement against
  the control database, and between two sections anything else may happen and time may pass. The engines are reduced to
  whether they still acquire work and how much they track.
\<close>

section \<open>State\<close>

datatype admit_pc =
    Verifying \<comment> \<open>opening the pool, checking and upgrading the schema\<close>
  | Asking time \<comment> \<open>about to read the current generation, since \<open>provedAt\<close>\<close>
  | Confirmed time \<comment> \<open>the generation was confirmed\<close>
  | Fresh \<comment> \<open>and the proof was fresh\<close>
  | Published \<comment> \<open>the engine is started\<close>
  | Recorded \<comment> \<open>the admission is recorded\<close>

record admission =
  ad_tenant :: Tenant
  ad_announced :: time \<comment> \<open>history: when the intent was declared\<close>
  ad_pc :: admit_pc

datatype retire_pc = Draining | Removed

text \<open>A pointer to a tenant is an address of the heap \<open>rg_objs\<close>.\<close>

record retirement =
  re_ptr :: nat
  re_name :: string
  re_ack :: int
  re_pc :: retire_pc

datatype pass_pc =
    Reading
  | Noting "Tenant list"
  | Snapshot
  | Retiring
  | Observing "Tenant list" bool
  | Refreshing time
  | Admitting "Tenant list"

record pass =
  pa_readAt :: time
  pa_want :: "Tenant list"
  pa_registered :: "string \<rightharpoonup> int"
  pa_have :: "string \<rightharpoonup> nat"
  pa_pc :: pass_pc

record tenant =
  te_name :: string
  te_generation :: int
  te_dsn :: string \<comment> \<open>the pool, by what it was opened with\<close>
  te_claiming :: bool \<comment> \<open>the engine is started and \<open>StopClaiming\<close> has not been called\<close>
  te_tracking :: nat
  te_retireDeferred :: bool
  te_draining :: bool
  te_announced :: time \<comment> \<open>history\<close>
  te_published :: time \<comment> \<open>history\<close>

record Registry =
  rg_tenants :: "string \<rightharpoonup> nat"
  rg_objs :: "nat \<Rightarrow> tenant"
  rg_next :: nat \<comment> \<open>the next free address\<close>
  rg_admitting :: "string \<rightharpoonup> admission"
  rg_seen :: "string \<rightharpoonup> int"
  rg_stopped :: bool
  rg_fence :: Fence
  rg_pass :: "pass option"
  rg_retirements :: "retirement list"

definition no_tenant :: tenant where
  "no_tenant =
     \<lparr>te_name = [], te_generation = 0, te_dsn = [], te_claiming = False, te_tracking = 0, te_retireDeferred = False,
      te_draining = False, te_announced = 0, te_published = 0\<rparr>"

definition NewRegistry :: "duration \<Rightarrow> Registry" where
  "NewRegistry limit =
     \<lparr>rg_tenants = Map.empty, rg_objs = (\<lambda>_. no_tenant), rg_next = 0, rg_admitting = Map.empty, rg_seen = Map.empty, rg_stopped = False,
      rg_fence = NewFence limit, rg_pass = None, rg_retirements = []\<rparr>"

datatype RuntimeAvailability = TenantAvailable nat | TenantPending | TenantUnknown

definition Lookup :: "Registry \<Rightarrow> string \<Rightarrow> RuntimeAvailability" where
  "Lookup r name =
     (case rg_tenants r name of
        Some p \<Rightarrow> TenantAvailable p
      | None \<Rightarrow> if rg_seen r name \<noteq> None then TenantPending else TenantUnknown)"

definition set_pc :: "pass_pc \<Rightarrow> pass \<Rightarrow> Registry \<Rightarrow> Registry" where
  "set_pc pc pa r = r\<lparr>rg_pass := Some (pa\<lparr>pa_pc := pc\<rparr>)\<rparr>"

definition upd_obj :: "nat \<Rightarrow> (tenant \<Rightarrow> tenant) \<Rightarrow> Registry \<Rightarrow> Registry" where
  "upd_obj p f r = r\<lparr>rg_objs := (rg_objs r)(p := f (rg_objs r p))\<rparr>"

section \<open>The poll\<close>

text \<open>\<open>readAt := time.Now()\<close>, then the rows of the registry; a read that fails ends the pass.\<close>

definition begin_pass :: "time \<Rightarrow> Registry \<Rightarrow> Registry" where
  "begin_pass t r =
     r\<lparr>rg_pass := Some \<lparr>pa_readAt = t, pa_want = [], pa_registered = Map.empty, pa_have = Map.empty, pa_pc = Reading\<rparr>\<rparr>"

definition read_rows :: "AEAD option \<Rightarrow> ctl \<Rightarrow> pass \<Rightarrow> Registry \<Rightarrow> Registry" where
  "read_rows aead c pa r = set_pc (Noting (Tenants aead c)) pa r"

definition end_pass :: "Registry \<Rightarrow> Registry" where
  "end_pass r = r\<lparr>rg_pass := None\<rparr>"

text \<open>The newest generation seen, under the mutex.\<close>

definition note_row :: "(string \<rightharpoonup> nat) \<Rightarrow> Tenant \<Rightarrow> (string \<rightharpoonup> int) \<Rightarrow> (string \<rightharpoonup> int)" where
  "note_row tenants t seen =
     (let g = (case seen (tn_Name t) of None \<Rightarrow> 0 | Some g \<Rightarrow> g);
          seen = (if tn_Generation t > g \<and> tn_Enabled t then seen(tn_Name t \<mapsto> tn_Generation t) else seen)
      in if tn_Enabled t then seen
         else if tenants (tn_Name t) = None then seen(tn_Name t := None) else seen)"

definition note_rows :: "Tenant list \<Rightarrow> pass \<Rightarrow> Registry \<Rightarrow> Registry" where
  "note_rows rows pa r =
     r\<lparr>rg_seen := fold (note_row (rg_tenants r)) rows (rg_seen r) |` (tn_Name ` set rows),
       rg_pass := Some (pa\<lparr>pa_want := filter tn_Enabled rows,
                           pa_registered := map_of (map (\<lambda>t. (tn_Name t, tn_Generation t)) rows),
                           pa_pc := Snapshot\<rparr>)\<rparr>"

definition take_snapshot :: "pass \<Rightarrow> Registry \<Rightarrow> Registry" where
  "take_snapshot pa r = r\<lparr>rg_pass := Some (pa\<lparr>pa_have := rg_tenants r, pa_pc := Retiring\<rparr>)\<rparr>"

definition wanted :: "pass \<Rightarrow> string \<Rightarrow> Tenant option" where
  "wanted pa name = find (\<lambda>w. tn_Name w = name) (pa_want pa)"

definition superseded :: "pass \<Rightarrow> string \<Rightarrow> tenant \<Rightarrow> bool" where
  "superseded pa name t \<longleftrightarrow> (case wanted pa name of None \<Rightarrow> True | Some w \<Rightarrow> tn_Generation w \<noteq> te_generation t)"

definition skipRetirement :: "bool \<Rightarrow> bool \<Rightarrow> bool" where
  "skipRetirement draining deferred \<longleftrightarrow> draining \<and> \<not> deferred"

text \<open>The body of the retirement loop for a superseded tenant: it leaves \<open>have\<close>, and unless it is being drained it is told to
  stop claiming and a retirement starts.\<close>

definition retire_one :: "string \<Rightarrow> nat \<Rightarrow> pass \<Rightarrow> Registry \<Rightarrow> Registry" where
  "retire_one name p pa r =
     (let t = rg_objs r p;
          r = r\<lparr>rg_pass := Some (pa\<lparr>pa_have := (pa_have pa)(name := None)\<rparr>)\<rparr>
      in if skipRetirement (te_draining t) (te_retireDeferred t) then r
         else (upd_obj p (\<lambda>t. t\<lparr>te_retireDeferred := False, te_draining := True, te_claiming := False\<rparr>) r)
           \<lparr>rg_retirements := rg_retirements r @
              [\<lparr>re_ptr = p, re_name = name,
                re_ack = (case pa_registered pa name of None \<Rightarrow> 0 | Some g \<Rightarrow> g), re_pc = Draining\<rparr>]\<rparr>)"

definition begin_observing :: "pass \<Rightarrow> Registry \<Rightarrow> Registry" where
  "begin_observing pa r = set_pc (Observing (filter (\<lambda>w. pa_have pa (tn_Name w) \<noteq> None) (pa_want pa)) True) pa r"

text \<open>An observation, and whether it lands.\<close>

definition observeAs :: "env \<Rightarrow> string \<Rightarrow> bool \<Rightarrow> string \<Rightarrow> int \<Rightarrow> bool \<Rightarrow> ctl \<Rightarrow> ctl" where
  "observeAs env instanceID ok name generation quiesced c =
     (if ok then Observe env name instanceID generation quiesced c else c)"

definition engine_idle :: "Registry \<Rightarrow> string \<Rightarrow> bool" where
  "engine_idle r name = (case rg_tenants r name of None \<Rightarrow> True | Some p \<Rightarrow> te_tracking (rg_objs r p) = 0)"

definition observe_tenant :: "env \<Rightarrow> string \<Rightarrow> bool \<Rightarrow> Registry \<Rightarrow> string \<Rightarrow> int \<Rightarrow> ctl \<Rightarrow> ctl" where
  "observe_tenant env instanceID ok r name generation c = observeAs env instanceID ok name generation (engine_idle r name) c"

definition observed_one :: "Tenant \<Rightarrow> Tenant list \<Rightarrow> bool \<Rightarrow> bool \<Rightarrow> pass \<Rightarrow> Registry \<Rightarrow> Registry" where
  "observed_one w todo observed ok pa r = set_pc (Observing (remove1 w todo) (ok \<and> observed)) pa r"

text \<open>Whether this pass may refresh the fence, and the refresh.\<close>

definition may_refresh :: "time \<Rightarrow> bool \<Rightarrow> pass \<Rightarrow> Registry \<Rightarrow> Registry" where
  "may_refresh t observed pa r =
     (if t - pa_readAt pa > fc_limit (rg_fence r) \<or> \<not> observed then end_pass r else set_pc (Refreshing t) pa r)"

definition refresh :: "time \<Rightarrow> pass \<Rightarrow> Registry \<Rightarrow> Registry" where
  "refresh t pa r =
     set_pc (Admitting (filter (\<lambda>w. pa_have pa (tn_Name w) = None) (pa_want pa))) pa (r\<lparr>rg_fence := Refresh t (rg_fence r)\<rparr>)"

text \<open>The body of the admission loop: the tenant is not draining and not being admitted, and the announcement landed.\<close>

definition starts_admission :: "Tenant \<Rightarrow> bool \<Rightarrow> Registry \<Rightarrow> bool" where
  "starts_admission w ok r \<longleftrightarrow> rg_tenants r (tn_Name w) = None \<and> rg_admitting r (tn_Name w) = None \<and> ok"

definition admit_one :: "time \<Rightarrow> Tenant \<Rightarrow> Tenant list \<Rightarrow> bool \<Rightarrow> pass \<Rightarrow> Registry \<Rightarrow> Registry" where
  "admit_one t w todo ok pa r =
     set_pc (Admitting (remove1 w todo)) pa
       (if starts_admission w ok r
        then r\<lparr>rg_admitting := (rg_admitting r)(tn_Name w \<mapsto> \<lparr>ad_tenant = w, ad_announced = t, ad_pc = Verifying\<rparr>)\<rparr>
        else r)"

definition announce :: "env \<Rightarrow> string \<Rightarrow> Tenant \<Rightarrow> bool \<Rightarrow> Registry \<Rightarrow> ctl \<Rightarrow> ctl" where
  "announce env instanceID w ok r c =
     (if starts_admission w ok r then observeAs env instanceID True (tn_Name w) (tn_Generation w) False c else c)"

section \<open>Admission\<close>

text \<open>
  What is checked of the schema before anything is published: its identity, an upgrade when the version is another,
  and after that everything again. The two views are of the pool before and after the upgrade.
\<close>

definition admit_verify ::
  "Tenant \<Rightarrow> string \<Rightarrow> time \<Rightarrow> schema_view option \<Rightarrow> (string \<Rightarrow> unit result) \<Rightarrow> schema_view \<Rightarrow> unit result" where
  "admit_verify t loc host pool upgrade after_upgrade =
     (case pool of
        None \<Rightarrow> Inl ErrOther
      | Some view \<Rightarrow>
          bindE (IdentityVersion view (tn_Name t) (tn_SchemaUUID t)) (\<lambda>version.
          bindE (if version \<noteq> SchemaVersion then upgrade version else Inr ()) (\<lambda>_.
            Admit after_upgrade (tn_Name t) (tn_SchemaUUID t) loc host)))"

definition set_admission :: "string \<Rightarrow> admission \<Rightarrow> admit_pc \<Rightarrow> Registry \<Rightarrow> Registry" where
  "set_admission name ad pc r = r\<lparr>rg_admitting := (rg_admitting r)(name \<mapsto> ad\<lparr>ad_pc := pc\<rparr>)\<rparr>"

definition endAdmit :: "string \<Rightarrow> Registry \<Rightarrow> Registry" where
  "endAdmit name r = r\<lparr>rg_admitting := (rg_admitting r)(name := None)\<rparr>"

definition generation_confirmed :: "ctl \<Rightarrow> Tenant \<Rightarrow> bool" where
  "generation_confirmed c t \<longleftrightarrow> CurrentGeneration c (tn_Name t) = (tn_Generation t, True)"

definition publishable :: "admission \<Rightarrow> Registry \<Rightarrow> bool" where
  "publishable ad r \<longleftrightarrow>
     rg_seen r (tn_Name (ad_tenant ad)) = Some (tn_Generation (ad_tenant ad)) \<and> \<not> rg_stopped r"

definition publish :: "time \<Rightarrow> admission \<Rightarrow> Registry \<Rightarrow> Registry" where
  "publish t ad r =
     (let w = ad_tenant ad; p = rg_next r
      in (set_admission (tn_Name w) ad Published r)
           \<lparr>rg_objs := (rg_objs r)(p :=
              \<lparr>te_name = tn_Name w, te_generation = tn_Generation w, te_dsn = tn_DSN w, te_claiming = True, te_tracking = 0,
               te_retireDeferred = False, te_draining = False, te_announced = ad_announced ad, te_published = t\<rparr>),
            rg_next := p + 1,
            rg_tenants := (rg_tenants r)(tn_Name w \<mapsto> p)\<rparr>)"

section \<open>Retirement\<close>

definition defer_retirement :: "retirement \<Rightarrow> Registry \<Rightarrow> Registry" where
  "defer_retirement re r =
     (upd_obj (re_ptr re) (\<lambda>t. t\<lparr>te_retireDeferred := True\<rparr>) r)\<lparr>rg_retirements := remove1 re (rg_retirements r)\<rparr>"

definition remove_tenant :: "retirement \<Rightarrow> Registry \<Rightarrow> Registry" where
  "remove_tenant re r =
     r\<lparr>rg_tenants := (if rg_tenants r (re_name re) = Some (re_ptr re) then (rg_tenants r)(re_name re := None) else rg_tenants r),
       rg_seen := (rg_seen r)(re_name re := None),
       rg_retirements := remove1 re (rg_retirements r) @ [re\<lparr>re_pc := Removed\<rparr>]\<rparr>"

definition end_retirement :: "retirement \<Rightarrow> Registry \<Rightarrow> Registry" where
  "end_retirement re r = r\<lparr>rg_retirements := remove1 re (rg_retirements r)\<rparr>"

text \<open>The acknowledgement of the generation the retirement was for.\<close>

definition acknowledge :: "env \<Rightarrow> string \<Rightarrow> bool \<Rightarrow> retirement \<Rightarrow> Registry \<Rightarrow> ctl \<Rightarrow> ctl" where
  "acknowledge env instanceID ok re r c = (if re_ack re > 0 then observe_tenant env instanceID ok r (re_name re) (re_ack re) c else c)"

section \<open>Shutdown\<close>

definition Stop_begin :: "Registry \<Rightarrow> Registry" where
  "Stop_begin r = r\<lparr>rg_stopped := True\<rparr>"

definition Stop_finish :: "Registry \<Rightarrow> Registry" where
  "Stop_finish r = r\<lparr>rg_tenants := Map.empty, rg_objs := \<lambda>p. (rg_objs r p)\<lparr>te_claiming := False\<rparr>\<rparr>"

end
