(* ===== verification/Auth.thy ===== *)
theory Auth
  imports Server Runtime
begin

text \<open>
  Who may call (\<^verbatim>\<open>src/internal/server/auth.go\<close>): the credential of a call, the identities of the control database, and
  the interceptor every call of an executor passes. MySQL compares \<open>identity\<close> and \<open>tenant\<close> under the collation of their
  columns: that comparison is the parameter \<open>same\<close>. A query that fails is \<open>None\<close>.
\<close>

section \<open>Credentials\<close>

record certificate =
  ce_CommonName :: string
  ce_DNSNames :: "string list"
  ce_Subject :: string \<comment> \<open>\<open>Subject.String()\<close>\<close>

text \<open>What the context of a call carries: the verified chains when the peer spoke TLS, and the values of the metadata key
  \<open>authorization\<close> when there is metadata.\<close>

record inbound =
  ib_VerifiedChains :: "certificate list list option"
  ib_authorization :: "string list option"

record DBAuthenticator =
  au_RequireCredential :: bool
  au_AllowUnlistedIdentities :: bool

definition subjectOf :: "certificate \<Rightarrow> string" where
  "subjectOf cert =
     (if ce_CommonName cert \<noteq> [] then ce_CommonName cert
      else case ce_DNSNames cert of d # _ \<Rightarrow> d | [] \<Rightarrow> ce_Subject cert)"

definition mtlsSubject :: "inbound \<Rightarrow> string option" where
  "mtlsSubject ib =
     (case ib_VerifiedChains ib of Some ((cert # _) # _) \<Rightarrow> Some (subjectOf cert) | _ \<Rightarrow> None)"

text \<open>\<open>strings.EqualFold\<close> against a word of ASCII letters none of which is k or s: no other rune folds to them.\<close>

definition fold_ascii :: "char \<Rightarrow> char" where
  "fold_ascii c = (if 65 \<le> (of_char c :: nat) \<and> (of_char c :: nat) \<le> 90 then char_of (of_char c + 32 :: nat) else c)"

definition token_of :: "string \<Rightarrow> string option" where
  "token_of v =
     (if length v > 7 \<and> map fold_ascii (take 7 v) = ''bearer '' \<and> TrimSpace (drop 7 v) \<noteq> []
      then Some (TrimSpace (drop 7 v)) else None)"

fun first_token :: "string list \<Rightarrow> string option" where
  "first_token [] = None"
| "first_token (v # vs) = (case token_of v of Some tok \<Rightarrow> Some tok | None \<Rightarrow> first_token vs)"

definition bearerToken :: "inbound \<Rightarrow> string option" where
  "bearerToken ib = Option.bind (ib_authorization ib) first_token"

definition HashToken :: "string \<Rightarrow> string" where
  "HashToken tok = EncodeToString (Sum256 tok)"

section \<open>Identities\<close>

text \<open>Of the rows that match, the query returns one; which is up to the database (\<open>pick\<close>).\<close>

definition token_rows :: "string \<Rightarrow> executor_identity list \<Rightarrow> executor_identity list" where
  "token_rows hash rows = filter (\<lambda>i. ei_token_sha256 i = Some hash \<and> \<not> ei_disabled i) rows"

definition identityForToken :: "nat \<Rightarrow> executor_identity list option \<Rightarrow> string \<Rightarrow> string rpc" where
  "identityForToken pick table tok =
     (case table of
        None \<Rightarrow> Inl Internal
      | Some rows \<Rightarrow>
          (case token_rows (HashToken tok) rows of
             [] \<Rightarrow> Inl Unauthenticated
           | found \<Rightarrow> Inr (ei_identity (found ! (pick mod length found)))))"

definition Authenticate :: "DBAuthenticator \<Rightarrow> nat \<Rightarrow> executor_identity list option \<Rightarrow> inbound \<Rightarrow> string rpc" where
  "Authenticate a pick table ib =
     (case mtlsSubject ib of
        Some sub \<Rightarrow> Inr sub
      | None \<Rightarrow>
          (case bearerToken ib of
             Some tok \<Rightarrow> identityForToken pick table tok
           | None \<Rightarrow> if au_RequireCredential a then Inl Unauthenticated else Inr ''anonymous''))"

definition authorizing :: "(string \<Rightarrow> string \<Rightarrow> bool) \<Rightarrow> string \<Rightarrow> string \<Rightarrow> executor_identity \<Rightarrow> bool" where
  "authorizing same subject tenant i \<longleftrightarrow> same (ei_identity i) subject \<and> same (ei_tenant i) tenant \<and> \<not> ei_disabled i"

definition Authorize ::
  "DBAuthenticator \<Rightarrow> (string \<Rightarrow> string \<Rightarrow> bool) \<Rightarrow> executor_identity list option \<Rightarrow> string \<Rightarrow> string \<Rightarrow> string \<Rightarrow> bool \<Rightarrow> unit rpc" where
  "Authorize a same table subject tenant grp checkGroup =
     (case table of
        None \<Rightarrow> Inl Internal
      | Some rows \<Rightarrow>
          (case find (authorizing same subject tenant) rows of
             None \<Rightarrow> if au_AllowUnlistedIdentities a then Inr () else Inl PermissionDenied
           | Some i \<Rightarrow>
               if checkGroup \<and> ei_executor_group i \<noteq> [] \<and> ei_executor_group i \<noteq> grp then Inl PermissionDenied else Inr ()))"

section \<open>Calls\<close>

datatype request =
    RegisterCall RegisterRequest
  | HeartbeatCall HeartbeatRequest
  | ProgressCall ReportProgressRequest
  | ResultCall ReportResultRequest

datatype reply =
    Registered RegisterResponse
  | Known bool
  | Proceed bool int
  | AlreadyRecorded bool

text \<open>The tenant, and the group of the one message that has one.\<close>

fun tenantAndGroupOf :: "request \<Rightarrow> string \<times> string \<times> bool" where
  "tenantAndGroupOf (RegisterCall q) = (rq_Tenant q, rq_Group q, True)"
| "tenantAndGroupOf (HeartbeatCall q) = (hq_Tenant q, [], False)"
| "tenantAndGroupOf (ProgressCall q) = (pq_Tenant q, [], False)"
| "tenantAndGroupOf (ResultCall q) = (rt_Tenant q, [], False)"

text \<open>\<open>SchedulerTenants\<close> (\<^verbatim>\<open>src/internal/runtime/registry.go\<close>): how the server asks the tenant runtime.\<close>

definition SchedulerTenants_Lookup :: "Registry \<Rightarrow> string \<Rightarrow> Availability" where
  "SchedulerTenants_Lookup r name =
     (case Lookup r name of TenantAvailable _ \<Rightarrow> Available | TenantPending \<Rightarrow> Pending | TenantUnknown \<Rightarrow> UnknownTenant)"

definition answer :: "('a \<Rightarrow> reply) \<Rightarrow> 'a rpc eng \<Rightarrow> reply rpc eng" where
  "answer f m = do { r \<leftarrow> m; return (map_sum id f r) }"

fun handler :: "ServerConfig \<Rightarrow> int \<Rightarrow> (string \<Rightarrow> Availability) \<Rightarrow> worlds \<Rightarrow> string \<Rightarrow> request \<Rightarrow> reply rpc eng" where
  "handler cfg backoffSeconds lookup W subject (RegisterCall q) = answer Registered (server_Register cfg lookup W subject q)"
| "handler cfg backoffSeconds lookup W subject (HeartbeatCall q) = answer Known (server_Heartbeat lookup W subject q)"
| "handler cfg backoffSeconds lookup W subject (ProgressCall q) = answer (\<lambda>(b, n). Proceed b n) (server_ReportProgress cfg lookup W q)"
| "handler cfg backoffSeconds lookup W subject (ResultCall q) = answer AlreadyRecorded (server_ReportResult backoffSeconds lookup W q)"

text \<open>The two queries of one call may see different rows.\<close>

definition UnaryAuthInterceptor ::
  "DBAuthenticator \<Rightarrow> (string \<Rightarrow> string \<Rightarrow> bool) \<Rightarrow> nat \<Rightarrow> executor_identity list option \<Rightarrow> executor_identity list option \<Rightarrow>
   (string \<Rightarrow> request \<Rightarrow> reply rpc eng) \<Rightarrow> inbound \<Rightarrow> request \<Rightarrow> reply rpc eng" where
  "UnaryAuthInterceptor a same pick table1 table2 handle ib req =
     (case Authenticate a pick table1 ib of
        Inl c \<Rightarrow> return (Inl c)
      | Inr subject \<Rightarrow>
          let (tenant, grp, hasGroup) = tenantAndGroupOf req in
          if tenant = [] then handle subject req
          else case Authorize a same table2 subject tenant grp hasGroup of
                 Inl c \<Rightarrow> return (Inl c)
               | Inr _ \<Rightarrow> handle subject req)"

section \<open>No effect without authority\<close>

text \<open>A credential: a verified certificate, or a token whose hash an enabled row carries.\<close>

definition credential :: "executor_identity list option \<Rightarrow> inbound \<Rightarrow> string \<Rightarrow> bool" where
  "credential table ib subject \<longleftrightarrow>
     mtlsSubject ib = Some subject \<or>
     (\<exists>tok rows i. bearerToken ib = Some tok \<and> table = Some rows \<and> i \<in> set rows \<and> ei_token_sha256 i = Some (HashToken tok) \<and>
        \<not> ei_disabled i \<and> ei_identity i = subject)"

lemma Authenticate_credential:
  assumes "Authenticate a pick table ib = Inr subject" "au_RequireCredential a"
  shows "credential table ib subject"
proof (cases "mtlsSubject ib")
  case (Some sub)
  then show ?thesis using assms(1) by (simp add: Authenticate_def credential_def)
next
  case None
  then obtain tok where tok: "bearerToken ib = Some tok" "identityForToken pick table tok = Inr subject"
    using assms by (auto simp: Authenticate_def split: option.splits)
  then obtain rows where rows: "table = Some rows" by (auto simp: identityForToken_def split: option.splits)
  let ?found = "token_rows (HashToken tok) rows"
  have "?found \<noteq> []" "subject = ei_identity (?found ! (pick mod length ?found))"
    using tok(2) rows by (auto simp: identityForToken_def split: list.splits)
  moreover from this have "?found ! (pick mod length ?found) \<in> set ?found" by simp
  ultimately show ?thesis using tok(1) rows unfolding credential_def token_rows_def by auto
qed

lemma Authorize_row:
  assumes "Authorize a same table subject tenant grp checkGroup = Inr ()" "\<not> au_AllowUnlistedIdentities a"
  obtains rows i where "table = Some rows" "i \<in> set rows" "authorizing same subject tenant i"
    "checkGroup \<Longrightarrow> ei_executor_group i = [] \<or> ei_executor_group i = grp"
  using assms
  by (auto simp: Authorize_def find_Some_iff in_set_conv_nth split: option.splits if_splits)

lemma with_store_no_tenant:
  "run_state (with_store lookup W [] body) s = (r, s') \<Longrightarrow> (\<exists>c. r = Inl c) \<and> s' = snd (run_state (observe W) s)"
  by (auto simp: with_store_def serve_def split_def split: if_splits)

lemma answer_no_tenant:
  "run_state (answer f (with_store lookup W [] body)) s = (r, s') \<Longrightarrow> (\<exists>c. r = Inl c) \<and> s' = snd (run_state (observe W) s)"
  by (auto simp: answer_def split: prod.splits dest!: with_store_no_tenant)

lemma handler_no_tenant:
  assumes "fst (tenantAndGroupOf req) = []" "run_state (handler cfg backoffSeconds lookup W subject req) s = (r, s')"
  shows "(\<exists>c. r = Inl c) \<and> s' = snd (run_state (observe W) s)"
  using assms
  by (cases req) (simp_all add: server_Register_def server_Heartbeat_def server_ReportProgress_def server_ReportResult_def answer_no_tenant)

text \<open>C16: With credentials required and unlisted identities refused, a call that names a tenant is answered with an error and leaves everything
  as it was, unless the caller presented a verified certificate or a token some enabled identity carries, and an enabled
  identity of that name is listed for this very tenant, without a group or, when it registers, with the group it asks for; a call that names no
  tenant is answered with an error too, and all that happens meanwhile is what other instances do.\<close>

theorem unauthorized_no_effect:
  assumes "au_RequireCredential a" "\<not> au_AllowUnlistedIdentities a" "tenantAndGroupOf req = (tenant, grp, hasGroup)"
    and "run_state (UnaryAuthInterceptor a same pick t1 t2 (handler cfg backoffSeconds lookup W) ib req) s = (r, s')"
    and "\<not> (\<exists>subject rows i. credential t1 ib subject \<and> t2 = Some rows \<and> i \<in> set rows \<and> authorizing same subject tenant i \<and>
              (hasGroup \<longrightarrow> ei_executor_group i = [] \<or> ei_executor_group i = grp))"
  shows "(\<exists>c. r = Inl c) \<and> (s' = s \<or> tenant = [] \<and> s' = snd (run_state (observe W) s))"
proof (cases "Authenticate a pick t1 ib")
  case (Inl c)
  then show ?thesis using assms(4) by (auto simp: UnaryAuthInterceptor_def)
next
  case (Inr subject)
  then have cred: "credential t1 ib subject" using assms(1) by (rule Authenticate_credential)
  show ?thesis
  proof (cases "tenant = []")
    case True
    then have "run_state (handler cfg backoffSeconds lookup W subject req) s = (r, s')"
      using assms(3,4) Inr by (simp add: UnaryAuthInterceptor_def)
    then show ?thesis using handler_no_tenant [of req] assms(3) True by fastforce
  next
    case False
    have "Authorize a same t2 subject tenant grp hasGroup \<noteq> Inr ()"
      using Authorize_row [OF _ assms(2)] assms(5) cred by metis
    then show ?thesis using assms(3,4) Inr False by (auto simp: UnaryAuthInterceptor_def split: sum.splits)
  qed
qed

text \<open>An executor listed for one tenant reports its heartbeat to another.\<close>

definition worker_rows :: "executor_identity list" where
  "worker_rows = [\<lparr>ei_identity = ''w'', ei_tenant = ''acme'', ei_executor_group = [], ei_token_sha256 = None,
     ei_disabled = False, ei_created_at = 0\<rparr>]"

definition worker_call :: inbound where
  "worker_call = \<lparr>ib_VerifiedChains = Some [[\<lparr>ce_CommonName = ''w'', ce_DNSNames = [], ce_Subject = ''CN=w''\<rparr>]], ib_authorization = None\<rparr>"

theorem unauthorized_no_effect_witness:
  "\<forall>cfg W lookup s. let
     (r, s') = run_state (UnaryAuthInterceptor \<lparr>au_RequireCredential = True, au_AllowUnlistedIdentities = False\<rparr> (=) 0
       (Some worker_rows) (Some worker_rows) (handler cfg 5 lookup W) worker_call
       (HeartbeatCall \<lparr>hq_Tenant = ''globex'', hq_ExecutorId = ''x'', hq_Running = 0\<rparr>)) s
     in (\<exists>c. r = Inl c) \<and> s' = s"
proof (intro allI)
  fix cfg W lookup s
  let ?run = "run_state (UnaryAuthInterceptor \<lparr>au_RequireCredential = True, au_AllowUnlistedIdentities = False\<rparr> (=) 0
       (Some worker_rows) (Some worker_rows) (handler cfg 5 lookup W) worker_call
       (HeartbeatCall \<lparr>hq_Tenant = ''globex'', hq_ExecutorId = ''x'', hq_Running = 0\<rparr>)) s"
  have "(\<exists>c. fst ?run = Inl c) \<and> (snd ?run = s \<or> ''globex'' = [] \<and> snd ?run = snd (run_state (observe W) s))"
    by (rule unauthorized_no_effect [where grp = "[]" and hasGroup = False, OF _ _ _ surjective_pairing]) (simp_all add: worker_rows_def authorizing_def)
  then show "let (r, s') = ?run in (\<exists>c. r = Inl c) \<and> s' = s" by (simp add: split_def)
qed

end
