(* ===== verification/Sessions.thy ===== *)
theory Sessions
  imports Auth
begin

text \<open>
  Who may use the operator API (\<^verbatim>\<open>src/internal/admin/auth.go\<close>): accounts and sessions of the control database, an identity
  header from a trusted proxy, first-run setup, and the requirement of a role around a handler. bcrypt is a parameter.
\<close>

section \<open>Roles\<close>

definition RoleViewer :: string where "RoleViewer = ''VIEWER''"
definition RoleOperator :: string where "RoleOperator = ''OPERATOR''"

definition allows :: "string \<Rightarrow> string \<Rightarrow> bool" where
  "allows r required = (if required = RoleViewer then r = RoleViewer \<or> r = RoleOperator else r = RoleOperator)"

section \<open>Accounts\<close>

record admin_user =
  us_username :: string
  us_password_hash :: string
  us_role :: string
  us_disabled :: bool
  us_created_at :: time
  us_updated_at :: time

record admin_session =
  ss_token_sha256 :: string
  ss_username :: string
  ss_role :: string
  ss_created_at :: time
  ss_expires_at :: time

record accounts =
  ac_users :: "admin_user list"
  ac_sessions :: "admin_session list"

record bcrypt =
  CompareHashAndPassword :: "string \<Rightarrow> string \<Rightarrow> bool" \<comment> \<open>returns nil\<close>
  GenerateFromPassword :: "string \<Rightarrow> string option"

record TrustedHeader =
  th_Enabled :: bool
  th_UserHeader :: string
  th_RoleHeader :: string
  th_DefaultRole :: string

record AdminAuth =
  aa_ttl :: duration
  aa_trusted :: TrustedHeader

definition NewAuth :: "duration \<Rightarrow> TrustedHeader \<Rightarrow> AdminAuth" where
  "NewAuth ttl trusted =
     \<lparr>aa_ttl = ttl, aa_trusted = (if th_DefaultRole trusted = [] then trusted\<lparr>th_DefaultRole := RoleViewer\<rparr> else trusted)\<rparr>"

text \<open>A request, as far as it identifies its sender: \<open>Header.Get\<close>, and the session cookie.\<close>

record http_request =
  hr_Header :: "string \<Rightarrow> string"
  hr_cookie :: "string option"

definition session_row :: "time \<Rightarrow> string \<Rightarrow> accounts \<Rightarrow> (string \<times> string) option" where
  "session_row t token ac =
     (case [(ss_username s, us_role u). s \<leftarrow> ac_sessions ac, u \<leftarrow> ac_users ac,
              us_username u = ss_username s \<and> ss_token_sha256 s = HashToken token \<and> ss_expires_at s > t \<and> \<not> us_disabled u] of
        [] \<Rightarrow> None
      | found # _ \<Rightarrow> Some found)"

definition identify :: "AdminAuth \<Rightarrow> time \<Rightarrow> accounts option \<Rightarrow> http_request \<Rightarrow> (string \<times> string) option" where
  "identify a t table r =
     (let tr = aa_trusted a; user = TrimSpace (hr_Header r (th_UserHeader tr)) in
      if th_Enabled tr \<and> user \<noteq> [] then
        (let got = ToUpper (TrimSpace (hr_Header r (th_RoleHeader tr)))
         in Some (user, if got = RoleOperator \<or> got = RoleViewer then got else th_DefaultRole tr))
      else case hr_cookie r of
             None \<Rightarrow> None
           | Some c \<Rightarrow> Option.bind table (session_row t c))"

section \<open>Signing in and out\<close>

datatype verify_error = BadCredentials | VerifyFailed

definition verify :: "bcrypt \<Rightarrow> accounts \<Rightarrow> string \<Rightarrow> string \<Rightarrow> verify_error + string" where
  "verify bc ac username password =
     (case row_of us_username (ac_users ac) username of
        None \<Rightarrow> Inl BadCredentials
      | Some u \<Rightarrow>
          if us_disabled u then Inl BadCredentials
          else if \<not> CompareHashAndPassword bc (us_password_hash u) password then Inl BadCredentials
          else let got = ToUpper (us_role u) in
            if got \<noteq> RoleViewer \<and> got \<noteq> RoleOperator then Inl VerifyFailed else Inr got)"

text \<open>\<open>token\<close> is what the random source supplies, encoded; the sweep of expired rows may fail without consequence.\<close>

definition issue :: "AdminAuth \<Rightarrow> time \<Rightarrow> bool \<Rightarrow> string option \<Rightarrow> string \<Rightarrow> string \<Rightarrow> accounts \<Rightarrow> (string \<times> accounts) option" where
  "issue a t swept rand actor role ac =
     (case rand of
        None \<Rightarrow> None
      | Some token \<Rightarrow>
          if row_of ss_token_sha256 (ac_sessions ac) (HashToken token) \<noteq> None then None
          else
            let ss = ac_sessions ac @
                       [\<lparr>ss_token_sha256 = HashToken token, ss_username = actor, ss_role = role, ss_created_at = t,
                         ss_expires_at = t + aa_ttl a\<rparr>]
            in Some (token, ac\<lparr>ac_sessions := if swept then sql_delete (\<lambda>s. ss_expires_at s \<le> t) ss else ss\<rparr>))"

datatype login_reply = LoginOK string string | LoginUnauthorized | LoginFailed

definition login :: "AdminAuth \<Rightarrow> bcrypt \<Rightarrow> time \<Rightarrow> bool \<Rightarrow> string option \<Rightarrow> string \<Rightarrow> string \<Rightarrow> accounts \<Rightarrow> login_reply \<times> accounts" where
  "login a bc t swept rand username password ac =
     (case verify bc ac username password of
        Inl _ \<Rightarrow> (LoginUnauthorized, ac)
      | Inr role \<Rightarrow>
          (case issue a t swept rand username role ac of
             None \<Rightarrow> (LoginFailed, ac)
           | Some (token, ac') \<Rightarrow> (LoginOK token role, ac')))"

text \<open>\<open>deleted\<close> says whether the DELETE went through; its error is discarded, and \<open>logout\<close> answers the same either way.\<close>

definition revoke :: "bool \<Rightarrow> string \<Rightarrow> accounts \<Rightarrow> accounts" where
  "revoke deleted token ac =
     (if deleted then ac\<lparr>ac_sessions := sql_delete (\<lambda>s. ss_token_sha256 s = HashToken token) (ac_sessions ac)\<rparr> else ac)"

definition logout :: "bool \<Rightarrow> http_request \<Rightarrow> accounts \<Rightarrow> int \<times> string \<times> accounts" where
  "logout deleted r ac =
     (200, ''signed out'', case hr_cookie r of None \<Rightarrow> ac | Some token \<Rightarrow> revoke deleted token ac)"

section \<open>First-run setup\<close>

definition SetupNeeded :: "accounts \<Rightarrow> bool" where
  "SetupNeeded ac \<longleftrightarrow> rows_matched (\<lambda>u. \<not> us_disabled u) (ac_users ac) = 0"

definition HashPassword :: "bcrypt \<Rightarrow> string \<Rightarrow> string option" where
  "HashPassword bc password = (if length password < 12 then None else GenerateFromPassword bc password)"

definition CreateFirstAdmin :: "bcrypt \<Rightarrow> time \<Rightarrow> string \<Rightarrow> string \<Rightarrow> accounts \<Rightarrow> accounts result" where
  "CreateFirstAdmin bc t username password ac =
     (if username = [] then Inl ErrProtocol
      else case HashPassword bc password of
             None \<Rightarrow> Inl ErrProtocol
           | Some hash \<Rightarrow>
               if ac_users ac \<noteq> [] then Inl ErrProtocol
               else Inr (ac\<lparr>ac_users := [\<lparr>us_username = username, us_password_hash = hash, us_role = RoleOperator,
                              us_disabled = False, us_created_at = t, us_updated_at = t\<rparr>]\<rparr>))"

section \<open>The requirement around a handler\<close>

datatype access = Unauthorized | Forbidden | Granted string string

definition Require :: "AdminAuth \<Rightarrow> time \<Rightarrow> accounts option \<Rightarrow> string \<Rightarrow> http_request \<Rightarrow> access" where
  "Require a t table required r =
     (case identify a t table r of
        None \<Rightarrow> Unauthorized
      | Some (actor, role) \<Rightarrow> if allows role required then Granted actor role else Forbidden)"

section \<open>Sessions follow their accounts\<close>

lemma session_rowD:
  assumes "session_row t token ac = Some (user, role)"
  obtains s u where "s \<in> set (ac_sessions ac)" "u \<in> set (ac_users ac)" "us_username u = user" "ss_username s = user" "us_role u = role"
    "ss_token_sha256 s = HashToken token" "t < ss_expires_at s" "\<not> us_disabled u"
proof -
  have "(user, role) \<in> set [(ss_username s, us_role u). s \<leftarrow> ac_sessions ac, u \<leftarrow> ac_users ac,
              us_username u = ss_username s \<and> ss_token_sha256 s = HashToken token \<and> ss_expires_at s > t \<and> \<not> us_disabled u]"
    using assms unfolding session_row_def by (auto split: list.splits simp del: set_concat)
  then show thesis using that by auto
qed

section \<open>What becomes of sessions\<close>

text \<open>C11: An installation whose accounts are all disabled cannot be entered again by its own sign-in: it reports that it needs its first administrator,
  yet refuses to create one, and refuses every sign-in and every session, whatever the password or token.\<close>

theorem setup_dead_end:
  assumes "ac_users ac \<noteq> []" "\<forall>u \<in> set (ac_users ac). us_disabled u"
  shows "SetupNeeded ac \<and> (\<exists>e. CreateFirstAdmin bc t username password ac = Inl e) \<and>
    login a bc t swept rand username password ac = (LoginUnauthorized, ac) \<and> session_row t token ac = None"
proof -
  have "SetupNeeded ac" using assms(2) by (auto simp: SetupNeeded_def rows_matched_def)
  moreover have "verify bc ac username password = Inl BadCredentials"
    using assms(2) by (auto simp: verify_def split: option.splits dest!: row_of_Some)
  moreover have "session_row t token ac = None"
    using assms(2) by (cases "session_row t token ac") (auto elim!: session_rowD)
  ultimately show ?thesis using assms(1) by (auto simp: CreateFirstAdmin_def login_def split: option.splits)
qed

text \<open>What happens to the accounts and sessions of an installation: sign-ins, sign-outs, first-run setup, and edits of the accounts made in
  the database. No sign-in is handed a token with the hash \<open>h\<close>.\<close>

inductive account_step :: "string \<Rightarrow> accounts \<Rightarrow> accounts \<Rightarrow> bool" for h where
  signs_in: "(\<And>tok. rand = Some tok \<Longrightarrow> HashToken tok \<noteq> h) \<Longrightarrow> account_step h ac (snd (login a bc t swept rand username password ac))"
| signs_out: "logout deleted r ac = (code, text, ac') \<Longrightarrow> account_step h ac ac'"
| sets_up: "CreateFirstAdmin bc t username password ac = Inr ac' \<Longrightarrow> account_step h ac ac'"
| edits: "account_step h ac (ac\<lparr>ac_users := us\<rparr>)"

definition no_session :: "string \<Rightarrow> accounts \<Rightarrow> bool" where
  "no_session h ac \<longleftrightarrow> (\<forall>s \<in> set (ac_sessions ac). ss_token_sha256 s \<noteq> h)"

lemma account_step_no_session: "account_step h ac ac' \<Longrightarrow> no_session h ac \<Longrightarrow> no_session h ac'"
  by (induction rule: account_step.induct)
    (auto simp: no_session_def login_def issue_def logout_def revoke_def sql_delete_def CreateFirstAdmin_def Let_def
      split: sum.splits option.splits if_splits)

lemma account_steps_no_session: "(account_step h)\<^sup>*\<^sup>* ac ac' \<Longrightarrow> no_session h ac \<Longrightarrow> no_session h ac'"
  by (induction rule: rtranclp_induct) (auto intro: account_step_no_session)

text \<open>C24: What signing out does to a session depends on one DELETE whose failure nobody is told of. Where identities do not come from a
  trusted header: if the DELETE goes through, signing out is final, whatever sign-ins, sign-outs, setup and edits of accounts
  follow, as long as no new session is given a token of the same hash: the token identifies nobody at any later time. If it
  fails, the answer is the same, and the session is accepted exactly as before.\<close>

theorem logout_is_final:
  assumes "hr_cookie r = Some token" "logout deleted r ac = (code, text, ac1)" "\<not> th_Enabled (aa_trusted a)"
  shows "code = 200 \<and> text = ''signed out'' \<and>
    (deleted \<longrightarrow> (\<forall>ac'. (account_step (HashToken token))\<^sup>*\<^sup>* ac1 ac' \<longrightarrow>
       session_row t token ac' = None \<and> Require a t (Some ac') role r = Unauthorized)) \<and>
    (\<not> deleted \<longrightarrow> Require a t (Some ac1) role r = Require a t (Some ac) role r)"
proof (intro conjI impI allI)
  fix ac' assume d: deleted and run: "(account_step (HashToken token))\<^sup>*\<^sup>* ac1 ac'"
  have "no_session (HashToken token) ac1" using assms(1,2) d by (auto simp: no_session_def logout_def revoke_def sql_delete_def)
  from account_steps_no_session [OF run this] show none: "session_row t token ac' = None"
    by (cases "session_row t token ac'") (auto simp: no_session_def elim!: session_rowD)
  show "Require a t (Some ac') role r = Unauthorized" using none assms(1,3) by (simp add: Require_def identify_def Let_def)
qed (use assms in \<open>auto simp: logout_def revoke_def\<close>)

section \<open>Instances\<close>

definition account :: "bool \<Rightarrow> admin_user" where
  "account off = \<lparr>us_username = ''ada'', us_password_hash = ''h'', us_role = RoleOperator, us_disabled = off, us_created_at = 0, us_updated_at = 0\<rparr>"

definition plain_bcrypt :: bcrypt where
  "plain_bcrypt = \<lparr>CompareHashAndPassword = (=), GenerateFromPassword = Some\<rparr>"

definition cookie_auth :: AdminAuth where
  "cookie_auth = NewAuth Hour \<lparr>th_Enabled = False, th_UserHeader = [], th_RoleHeader = [], th_DefaultRole = []\<rparr>"

theorem setup_dead_end_witness:
  "SetupNeeded \<lparr>ac_users = [account True], ac_sessions = []\<rparr> \<and>
   (\<exists>e. CreateFirstAdmin plain_bcrypt 0 ''ada'' ''a long password'' \<lparr>ac_users = [account True], ac_sessions = []\<rparr> = Inl e)"
  using setup_dead_end [of "\<lparr>ac_users = [account True], ac_sessions = []\<rparr>" plain_bcrypt 0 "''ada''" "''a long password''"]
  by (simp add: account_def)

definition signed_in :: accounts where
  "signed_in = snd (login cookie_auth plain_bcrypt 0 True (Some ''tok'') ''ada'' ''h'' \<lparr>ac_users = [account False], ac_sessions = []\<rparr>)"

definition with_cookie :: http_request where "with_cookie = \<lparr>hr_Header = (\<lambda>_. []), hr_cookie = Some ''tok''\<rparr>"

abbreviation left_by :: "bool \<Rightarrow> accounts" where
  "left_by deleted \<equiv> snd (snd (logout deleted with_cookie signed_in))"

theorem logout_is_final_witness:
  "Require cookie_auth 1 (Some signed_in) RoleOperator with_cookie = Granted ''ada'' RoleOperator \<and>
   Require cookie_auth 1 (Some (left_by True)) RoleOperator with_cookie = Unauthorized \<and>
   Require cookie_auth 1 (Some (left_by False)) RoleOperator with_cookie = Granted ''ada'' RoleOperator"
proof -
  have out: "logout d with_cookie signed_in = (200, ''signed out'', left_by d)" for d by (simp add: logout_def)
  have c: "hr_cookie with_cookie = Some ''tok''" "\<not> th_Enabled (aa_trusted cookie_auth)"
    by (simp_all add: with_cookie_def cookie_auth_def NewAuth_def)
  have "Require cookie_auth 1 (Some (left_by True)) RoleOperator with_cookie = Unauthorized"
    "Require cookie_auth 1 (Some (left_by False)) RoleOperator with_cookie = Require cookie_auth 1 (Some signed_in) RoleOperator with_cookie"
    using logout_is_final [OF c(1) out c(2), of True 1 RoleOperator] logout_is_final [OF c(1) out c(2), of False 1 RoleOperator] by auto
  moreover have "Require cookie_auth 1 (Some signed_in) RoleOperator with_cookie = Granted ''ada'' RoleOperator"
    by (simp add: signed_in_def login_def verify_def issue_def account_def plain_bcrypt_def cookie_auth_def NewAuth_def with_cookie_def row_of_def
        sql_delete_def RoleOperator_def RoleViewer_def Require_def identify_def session_row_def allows_def Let_def)
  ultimately show ?thesis by simp
qed

end
