(* ===== verification/AdminApi.thy ===== *)
theory AdminApi
  imports Requests Sessions Control
begin

text \<open>
  The handlers of the operator API (\<^verbatim>\<open>src/internal/admin/api.go\<close>, \<^verbatim>\<open>jobs.go\<close>, \<^verbatim>\<open>executions.go\<close>) over a site: the control
  database and the coordination databases of the tenants this replica has admitted. A handler that reads before it
  writes is given what those reads saw (\<open>seen\<close>), since others may write in between; the reply of one that reads
  back what it wrote shows the database it committed. The message of an error is not modelled.
\<close>

section \<open>A site\<close>

record site =
  si_ctl :: ctl
  si_tenants :: "string \<rightharpoonup> db"

text \<open>A database opened by its connection string: its coordination tables, if they can be read, and what admission asks of it.\<close>

record opened =
  op_db :: "db option"
  op_view :: schema_view

record ApiConfig =
  cg_ExecutorLiveness :: duration
  cg_InstanceLiveness :: duration
  cg_Location :: location
  cg_LocationName :: string
  cg_DSNFor :: "(string \<Rightarrow> string) option"
  cg_Address :: string
  cg_User :: string
  cg_json :: json_codec
  cg_aead :: "AEAD option"

type_synonym reply = "int \<times> json"

type_synonym outcome = "api_error + reply"

definition tenantStore :: "site \<Rightarrow> string \<Rightarrow> api_error + db" where
  "tenantStore s name =
     (if name = [] then Inl ErrBadRequest else case si_tenants s name of None \<Rightarrow> Inl ErrNotFound | Some db \<Rightarrow> Inr db)"

text \<open>A write in a tenant's database, and one in the control database: nothing is committed on an error.\<close>

definition in_tenant :: "string \<Rightarrow> (db \<Rightarrow> api_error + outcome \<times> db) \<Rightarrow> site \<Rightarrow> outcome \<times> site" where
  "in_tenant tenant f s =
     (case bindE (tenantStore s tenant) f of
        Inl e \<Rightarrow> (Inl e, s)
      | Inr (out, db) \<Rightarrow> (out, s\<lparr>si_tenants := (si_tenants s)(tenant \<mapsto> db)\<rparr>))"

definition in_control :: "(ctl \<Rightarrow> api_error + outcome \<times> ctl) \<Rightarrow> site \<Rightarrow> outcome \<times> site" where
  "in_control f s = (case f (si_ctl s) of Inl e \<Rightarrow> (Inl e, s) | Inr (out, c) \<Rightarrow> (out, s\<lparr>si_ctl := c\<rparr>))"

text \<open>A handler that writes nothing answers 200 with an empty body.\<close>

definition no_body :: outcome where "no_body = Inr (200, JNull)"

section \<open>Jobs\<close>

definition listJobs :: "site \<Rightarrow> string \<Rightarrow> outcome" where
  "listJobs s tenant = bindE (tenantStore s tenant) (\<lambda>db. Inr (200, JArr (map jobJSON (Jobs db))))"

definition getJob :: "site \<Rightarrow> string \<Rightarrow> string \<Rightarrow> outcome" where
  "getJob s tenant name =
     bindE (tenantStore s tenant) (\<lambda>db. bindE (of_store (Job db name)) (\<lambda>j. Inr (200, jobJSON j)))"

definition show_job :: "int \<Rightarrow> string \<Rightarrow> db \<Rightarrow> outcome" where
  "show_job code name db = bindE (of_store (Job db name)) (\<lambda>j. Inr (code, jobJSON j))"

definition createJob :: "ApiConfig \<Rightarrow> env \<Rightarrow> time \<Rightarrow> string \<Rightarrow> string \<Rightarrow> jobBody \<Rightarrow> site \<Rightarrow> outcome \<times> site" where
  "createJob cfg env t actor tenant body =
     in_tenant tenant (\<lambda>db.
       bindE (requireReason (jb_Reason body)) (\<lambda>_.
       bindE (toDefinition (cg_json cfg) body) (\<lambda>def.
       bindE (parseCron (cg_Location cfg) (d_ScheduleKind def) (d_ScheduleExpr def) t) (\<lambda>nxt.
       bindE (of_store (CreateJob env def nxt actor (jb_Reason body) db)) (\<lambda>db.
       Inr (show_job 201 (d_JobName def) db, db))))))"

definition patchJob :: "ApiConfig \<Rightarrow> env \<Rightarrow> time \<Rightarrow> string \<Rightarrow> string \<Rightarrow> string \<Rightarrow> string \<Rightarrow> jobBody \<Rightarrow> site \<Rightarrow> outcome \<times> site" where
  "patchJob cfg env t actor tenant name ifMatch body0 =
     in_tenant tenant (\<lambda>db.
       let version = atoiDefault ifMatch (- 1); body = body0\<lparr>jb_JobName := name\<rparr> in
       bindE (guard (ifMatch \<noteq> [])) (\<lambda>_.
       bindE (guard (0 \<le> version)) (\<lambda>_.
       bindE (requireReason (jb_Reason body)) (\<lambda>_.
       bindE (toDefinition (cg_json cfg) body) (\<lambda>def.
       bindE (parseCron (cg_Location cfg) (d_ScheduleKind def) (d_ScheduleExpr def) t) (\<lambda>_.
       bindE (of_store (UpdateJob env def version actor (jb_Reason body) db)) (\<lambda>db.
       Inr (show_job 200 name db, db))))))))"

definition setPaused :: "env \<Rightarrow> string \<Rightarrow> string \<Rightarrow> string \<Rightarrow> bool \<Rightarrow> string \<Rightarrow> site \<Rightarrow> outcome \<times> site" where
  "setPaused env actor tenant name paused reason =
     in_tenant tenant (\<lambda>db.
       bindE (requireReason reason) (\<lambda>_.
       bindE (of_store (SetPaused env name paused actor reason db)) (\<lambda>db.
       Inr (Inr (200, JObj [(''paused'', JBool paused)]), db))))"

definition retireJob :: "env \<Rightarrow> string \<Rightarrow> string \<Rightarrow> string \<Rightarrow> string \<Rightarrow> site \<Rightarrow> outcome \<times> site" where
  "retireJob env actor tenant name reason =
     in_tenant tenant (\<lambda>db.
       bindE (requireReason reason) (\<lambda>_.
       bindE (of_store (Retire env name actor reason db)) (\<lambda>db.
       Inr (Inr (200, JObj [(''retired'', JBool True)]), db))))"

definition check_override :: "json_codec \<Rightarrow> string \<Rightarrow> api_error + unit" where
  "check_override json ps =
     (if ps = [] then Inr ()
      else bindE (guard (length ps \<le> MaxParamsBytes)) (\<lambda>_.
           case decode json ps of None \<Rightarrow> Inl ErrBadRequest | Some None \<Rightarrow> Inl ErrBadRequest | Some (Some _) \<Rightarrow> Inr ()))"

definition triggerJob :: "ApiConfig \<Rightarrow> env \<Rightarrow> string \<Rightarrow> string \<Rightarrow> string \<Rightarrow> string \<Rightarrow> string \<Rightarrow> string \<Rightarrow> site \<Rightarrow> outcome \<times> site" where
  "triggerJob cfg env actor tenant name requestID params reason =
     in_tenant tenant (\<lambda>db.
       bindE (requireReason reason) (\<lambda>_.
       bindE (guard (requestID \<noteq> [])) (\<lambda>_.
       bindE (check_override (cg_json cfg) params) (\<lambda>_.
       bindE (of_store (Trigger (cg_json cfg) env name requestID actor reason params db)) (\<lambda>(key, db).
       Inr (Inr (202, JObj [(''execution_key'', JStr key)]), db))))))"

section \<open>The catalogue\<close>

fun check_targets :: "site \<Rightarrow> string \<Rightarrow> string list \<Rightarrow> string list \<Rightarrow> api_error + unit" where
  "check_targets s source used [] = Inr ()"
| "check_targets s source used (raw # targets) =
     (let target = TrimSpace raw in
      bindE (guard (target \<noteq> [] \<and> target = raw)) (\<lambda>_.
      bindE (guard (target \<noteq> source)) (\<lambda>_.
      bindE (guard (target \<notin> set used)) (\<lambda>_.
      bindE (guard (si_tenants s target \<noteq> None)) (\<lambda>_.
      check_targets s source (target # used) targets)))))"

definition copyTargetStores :: "site \<Rightarrow> string \<Rightarrow> string list \<Rightarrow> api_error + unit" where
  "copyTargetStores s source targets =
     bindE (guard (length targets \<noteq> 0 \<and> length targets \<le> 100)) (\<lambda>_. check_targets s source [] targets)"

fun seeds_of :: "location \<Rightarrow> time \<Rightarrow> JobView list \<Rightarrow> api_error + JobSeed list" where
  "seeds_of loc t [] = Inr []"
| "seeds_of loc t (job # jobs) =
     (if d_Retired (jv_Definition job) then seeds_of loc t jobs
      else
        let def = (jv_Definition job)\<lparr>d_Retired := False, d_Version := 0, d_UpdatedBy := []\<rparr> in
        bindE (parseCron loc (d_ScheduleKind def) (d_ScheduleExpr def) t) (\<lambda>nxt.
        bindE (seeds_of loc t jobs) (\<lambda>seeds.
        Inr (\<lparr>sd_Definition = def, sd_NextFire = nxt\<rparr> # seeds))))"

definition activeJobSeeds :: "ApiConfig \<Rightarrow> time \<Rightarrow> db \<Rightarrow> api_error + JobSeed list" where
  "activeJobSeeds cfg t db = seeds_of (cg_Location cfg) t (Jobs db)"

definition previewAllJobSync :: "ApiConfig \<Rightarrow> time \<Rightarrow> string \<Rightarrow> string list \<Rightarrow> site \<Rightarrow> outcome" where
  "previewAllJobSync cfg t source targets s =
     bindE (tenantStore s source) (\<lambda>db.
     bindE (copyTargetStores s source targets) (\<lambda>_.
     bindE (activeJobSeeds cfg t db) (\<lambda>seeds.
     Inr (200, JObj [(''source'', JStr source), (''available'', JInt (int (length seeds))),
       (''results'', JArr (map (\<lambda>target. JObj [(''tenant'', JStr target),
          (''plan'', syncJSON (PlanJobSync (the (si_tenants s target)) seeds))]) targets))]))))"

text \<open>
  One target of a copy. The plan is shown whether or not the transaction went through; a request without an actor is
  refused before there is one.
\<close>

definition copy_to :: "env \<Rightarrow> JobSeed list \<Rightarrow> string \<Rightarrow> string \<Rightarrow> string \<Rightarrow> string \<Rightarrow> site \<Rightarrow> json \<times> site" where
  "copy_to env seeds source actor reason target s =
     (let db = the (si_tenants s target);
          plan = (if actor = [] then JObj [(''created'', JNull), (''updated'', JNull), (''unchanged'', JNull), (''blocked_retired'', JNull)]
                  else syncJSON (planJobSync seeds (lockedDefinitions db)))
      in case SyncJobs env seeds source actor reason db of
           Inl e \<Rightarrow> (JObj [(''tenant'', JStr target), (''plan'', plan), (''error'', JError e)], s)
         | Inr (_, db') \<Rightarrow>
             (JObj [(''tenant'', JStr target), (''plan'', plan)], s\<lparr>si_tenants := (si_tenants s)(target \<mapsto> db')\<rparr>))"

fun copy_all :: "env \<Rightarrow> JobSeed list \<Rightarrow> string \<Rightarrow> string \<Rightarrow> string \<Rightarrow> string list \<Rightarrow> site \<Rightarrow> json list \<times> site" where
  "copy_all env seeds source actor reason [] s = ([], s)"
| "copy_all env seeds source actor reason (target # targets) s =
     (let (r, s) = copy_to env seeds source actor reason target s; (rs, s) = copy_all env seeds source actor reason targets s
      in (r # rs, s))"

text \<open>\<open>src\<close> is the source's database as the listing of its jobs read it.\<close>

definition copyAllJobs :: "ApiConfig \<Rightarrow> env \<Rightarrow> time \<Rightarrow> db \<Rightarrow> string \<Rightarrow> string \<Rightarrow> string list \<Rightarrow> string \<Rightarrow> site \<Rightarrow> outcome \<times> site" where
  "copyAllJobs cfg env t src actor source targets reason s =
     (case bindE (tenantStore s source) (\<lambda>_.
           bindE (requireReason reason) (\<lambda>_.
           bindE (copyTargetStores s source targets) (\<lambda>_. activeJobSeeds cfg t src))) of
        Inl e \<Rightarrow> (Inl e, s)
      | Inr seeds \<Rightarrow>
          let (rs, s) = copy_all env seeds source actor reason targets s
          in (Inr (200, JObj [(''source'', JStr source), (''available'', JInt (int (length seeds))), (''results'', JArr rs)]), s))"

definition liveHandlerDescriptions :: "ApiConfig \<Rightarrow> env \<Rightarrow> db \<Rightarrow> (string \<times> string) list" where
  "liveHandlerDescriptions cfg env db =
     map (\<lambda>h. (hm_Key h, hm_Description h))
       (filter (\<lambda>h. hm_Description h \<noteq> []) (DeclaredHandlerMetadata env db (cg_ExecutorLiveness cfg)))"

definition previewJobDescriptionSync :: "ApiConfig \<Rightarrow> env \<Rightarrow> string \<Rightarrow> site \<Rightarrow> outcome" where
  "previewJobDescriptionSync cfg env tenant s =
     bindE (tenantStore s tenant) (\<lambda>db.
     Inr (200, descriptionJSON (PlanJobDescriptionSync db (liveHandlerDescriptions cfg env db))))"

definition syncJobDescriptions :: "ApiConfig \<Rightarrow> env \<Rightarrow> db \<Rightarrow> string \<Rightarrow> string \<Rightarrow> string \<Rightarrow> site \<Rightarrow> outcome \<times> site" where
  "syncJobDescriptions cfg env seen actor tenant reason =
     in_tenant tenant (\<lambda>db.
       bindE (requireReason reason) (\<lambda>_.
       bindE (of_store (SyncJobDescriptions env (liveHandlerDescriptions cfg env seen) actor reason db)) (\<lambda>(res, db).
       Inr (Inr (200, descriptionJSON res), db))))"

section \<open>Executions\<close>

text \<open>\<open>time.Parse\<close> with RFC 3339 is the parameter \<open>rfc3339\<close>.\<close>

definition parseTime :: "(string \<Rightarrow> time option) \<Rightarrow> string \<Rightarrow> api_error + time option" where
  "parseTime rfc3339 q =
     (if q = [] then Inr None else case rfc3339 q of None \<Rightarrow> Inl ErrBadRequest | Some t \<Rightarrow> Inr (Some t))"

definition listExecutions ::
  "(string \<Rightarrow> time option) \<Rightarrow> site \<Rightarrow> string \<Rightarrow> string \<Rightarrow> string \<Rightarrow> string \<Rightarrow> string \<Rightarrow> string \<Rightarrow> string \<Rightarrow> outcome" where
  "listExecutions rfc3339 s tenant from to' job status limit offset =
     bindE (tenantStore s tenant) (\<lambda>db.
     bindE (parseTime rfc3339 from) (\<lambda>lo.
     bindE (parseTime rfc3339 to') (\<lambda>hi.
     bindE (of_store (Executions db \<lparr>ef_JobName = job, ef_Status = status, ef_From = lo, ef_To = hi,
              ef_Limit = atoiDefault limit 100, ef_Offset = atoiDefault offset 0\<rparr>)) (\<lambda>(rows, total).
     Inr (200, JObj [(''total'', JInt (int total)), (''items'', JArr (map executionJSON rows))])))))"

definition attemptJSON :: "job_execution_attempt \<Rightarrow> json" where
  "attemptJSON a =
     JObj [(''run_token'', JStr (ja_run_token a)), (''attempt_no'', JInt (ja_attempt_no a)),
           (''executor_id'', JStr (coalesce_str (ja_executor_id a))), (''outcome'', JStr (outcome_name (ja_outcome a))),
           (''failure_kind'', JStr (coalesce_str (ja_failure_kind a))), (''summary'', JStr (coalesce_str (ja_summary a))),
           (''finished_at'', nullTime (ja_finished_at a))]"

definition getExecution :: "env \<Rightarrow> site \<Rightarrow> string \<Rightarrow> string \<Rightarrow> outcome" where
  "getExecution env s tenant key =
     bindE (tenantStore s tenant) (\<lambda>db.
     bindE (of_store (ExecutionByKey env db key)) (\<lambda>row.
     Inr (200, JObj
       [(''execution_key'', JStr (v_ExecutionKey row)), (''job_name'', JStr (v_JobName row)),
        (''status'', JStr (status_name (v_Status row))), (''attempt_no'', JInt (v_AttemptNo row)),
        (''max_attempts'', JInt (v_MaxAttempts row)), (''recovery_count'', JInt (v_RecoveryCount row)),
        (''max_recoveries'', JInt (v_MaxRecoveries row)), (''dispatched_to'', JStr (v_DispatchedTo row)),
        (''attempts'', JArr (map attemptJSON (Attempts db key)))])))"

definition retryExecution :: "env \<Rightarrow> string \<Rightarrow> string \<Rightarrow> string \<Rightarrow> string \<Rightarrow> site \<Rightarrow> outcome \<times> site" where
  "retryExecution env actor tenant key reason =
     in_tenant tenant (\<lambda>db.
       bindE (requireReason reason) (\<lambda>_.
       bindE (of_store (AuthorizedRetry env key actor reason db)) (\<lambda>db.
       Inr (Inr (200, JObj [(''queued'', JBool True)]), db))))"

definition cancelExecution :: "env \<Rightarrow> db \<Rightarrow> string \<Rightarrow> string \<Rightarrow> string \<Rightarrow> string \<Rightarrow> site \<Rightarrow> outcome \<times> site" where
  "cancelExecution env seen actor tenant key reason =
     in_tenant tenant (\<lambda>db.
       bindE (requireReason reason) (\<lambda>_.
       bindE (of_store (ExecutionByKey env seen key)) (\<lambda>row.
       bindE (of_store (RequestCancel env (v_ID row) actor reason db)) (\<lambda>db.
       Inr (Inr (200, JObj [(''status'', JStr ''cancel_requested''),
              (''note'', JStr ''the handler has been asked to stop; it keeps its slot until it confirms or is fenced'')]), db)))))"

section \<open>Executors\<close>

definition executorJSON :: "Executor \<Rightarrow> json" where
  "executorJSON x =
     JObj [(''executor_id'', JStr (x_ExecutorID x)), (''group'', JStr (x_Group x)), (''address'', JStr (x_Address x)),
           (''contract_version'', JStr (x_ContractVersion x)), (''revision'', JStr (x_Revision x)), (''capacity'', JInt (x_Capacity x)),
           (''running'', JInt (x_Running x)), (''handlers'', JArr (map JStr (x_Handlers x))), (''started_at'', JTime (x_StartedAt x)),
           (''heartbeat_at'', JTime (x_HeartbeatAt x)), (''live'', JBool (x_Live x))]"

definition listExecutors :: "ApiConfig \<Rightarrow> env \<Rightarrow> site \<Rightarrow> string \<Rightarrow> outcome" where
  "listExecutors cfg env s tenant =
     bindE (tenantStore s tenant) (\<lambda>db.
     Inr (200, JArr (map executorJSON (AllExecutors env db ((cg_ExecutorLiveness cfg + Second - 1) sdiv Second)))))"

definition listOrphans :: "ApiConfig \<Rightarrow> env \<Rightarrow> site \<Rightarrow> string \<Rightarrow> outcome" where
  "listOrphans cfg env s tenant =
     bindE (tenantStore s tenant) (\<lambda>db.
     Inr (200, JArr (map (\<lambda>o'. JObj [(''job_name'', JStr (on_JobName o')), (''handler_key'', JStr (on_HandlerKey o')),
        (''executor_group'', JStr (on_Group o'))]) (Orphans env db (cg_ExecutorLiveness cfg)))))"

definition handlers_route :: "ApiConfig \<Rightarrow> env \<Rightarrow> site \<Rightarrow> string \<Rightarrow> outcome" where
  "handlers_route cfg env s tenant =
     bindE (tenantStore s tenant) (\<lambda>db. Inr (200, JArr (map JStr (DeclaredHandlers env db (cg_ExecutorLiveness cfg)))))"

definition handlerCatalog :: "ApiConfig \<Rightarrow> env \<Rightarrow> site \<Rightarrow> string \<Rightarrow> outcome" where
  "handlerCatalog cfg env s tenant =
     bindE (tenantStore s tenant) (\<lambda>db.
     Inr (200, JArr (map (\<lambda>h. JObj [(''handler_key'', JStr (hm_Key h)), (''description'', JStr (hm_Description h))])
        (DeclaredHandlerMetadata env db (cg_ExecutorLiveness cfg)))))"

section \<open>Executor identities\<close>

text \<open>\<open>strings.EqualFold(auth, "token")\<close>: the Kelvin sign also folds to k.\<close>

fun fold_kelvin :: "string \<Rightarrow> string" where
  "fold_kelvin (a # b # c # s) =
     (if (of_char a :: nat) = 226 \<and> (of_char b :: nat) = 132 \<and> (of_char c :: nat) = 170 then CHR ''k'' # fold_kelvin s
      else fold_ascii a # fold_kelvin (b # c # s))"
| "fold_kelvin s = map fold_ascii s"

definition listIdentities :: "site \<Rightarrow> outcome" where
  "listIdentities s =
     Inr (200, JArr (map (\<lambda>i. JObj [(''identity'', JStr (id_Identity i)), (''tenant'', JStr (id_Tenant i)), (''group'', JStr (id_Group i)),
        (''auth'', JStr (if id_HasToken i then ''token'' else ''mTLS'')), (''disabled'', JBool (id_Disabled i)),
        (''created_at'', JTime (id_CreatedAt i))]) (Identities (si_ctl s))))"

text \<open>\<open>rand\<close> is the token the random source supplies, encoded; nothing when reading it fails.\<close>

definition addIdentity :: "env \<Rightarrow> string option \<Rightarrow> string \<Rightarrow> string \<Rightarrow> string \<Rightarrow> string \<Rightarrow> string \<Rightarrow> string \<Rightarrow> site \<Rightarrow> outcome \<times> site" where
  "addIdentity env rand actor identity tenant grp auth reason =
     in_control (\<lambda>c.
       bindE (requireReason reason) (\<lambda>_.
       bindE (if fold_kelvin auth = ''token''
              then (case rand of None \<Rightarrow> Inl (StoreError ErrOther) | Some tok \<Rightarrow> Inr (tok, HashToken tok)) else Inr ([], [])) (\<lambda>(token, sha).
       bindE (of_store (AddIdentity env identity tenant grp sha actor reason c)) (\<lambda>c.
       Inr (Inr (201, JObj [(''identity'', JStr identity), (''tenant'', JStr tenant), (''token'', JStr token)]), c)))))"

definition setIdentityDisabled :: "env \<Rightarrow> string \<Rightarrow> string \<Rightarrow> string \<Rightarrow> bool option \<Rightarrow> string \<Rightarrow> site \<Rightarrow> outcome \<times> site" where
  "setIdentityDisabled env actor identity tenant disabled reason =
     in_control (\<lambda>c.
       bindE (requireReason reason) (\<lambda>_.
       case disabled of
         None \<Rightarrow> Inl ErrBadRequest
       | Some b \<Rightarrow> bindE (of_store (SetIdentityDisabled env identity tenant b actor reason c)) (\<lambda>c. Inr (no_body, c))))"

definition deleteIdentity :: "env \<Rightarrow> string \<Rightarrow> string \<Rightarrow> string \<Rightarrow> string \<Rightarrow> site \<Rightarrow> outcome \<times> site" where
  "deleteIdentity env actor identity tenant reason =
     in_control (\<lambda>c.
       bindE (requireReason reason) (\<lambda>_.
       bindE (of_store (DeleteIdentity env identity tenant actor reason c)) (\<lambda>c. Inr (no_body, c))))"

section \<open>Tenants\<close>

definition listTenants :: "ApiConfig \<Rightarrow> site \<Rightarrow> outcome" where
  "listTenants cfg s =
     Inr (200, JArr (map (\<lambda>t. JObj
       [(''tenant'', JStr (tn_Name t)), (''enabled'', JBool (tn_Enabled t)), (''generation'', JInt (tn_Generation t)),
        (''schema_uuid'', JStr (tn_SchemaUUID t)), (''schema_version'', JStr (tn_SchemaVersion t)),
        (''admitted'', JBool (si_tenants s (tn_Name t) \<noteq> None)), (''admitted_at'', nullTime (tn_AdmittedAt t)),
        (''last_error'', JStr (tn_LastError t)), (''dsn'', JStr (MaskedDSN (tn_DSN t)))]) (Tenants (cg_aead cfg) (si_ctl s))))"

definition addTenant :: "ApiConfig \<Rightarrow> string option \<Rightarrow> env \<Rightarrow> string \<Rightarrow> string \<Rightarrow> string \<Rightarrow> string \<Rightarrow> string \<Rightarrow> string \<Rightarrow> site \<Rightarrow> outcome \<times> site" where
  "addTenant cfg rand env actor tenant dsn database schemaUUID reason =
     in_control (\<lambda>c.
       bindE (requireReason reason) (\<lambda>_.
       bindE (resolveDSN (cg_DSNFor cfg) dsn database) (\<lambda>dsn.
       bindE (of_store (AddTenant (cg_aead cfg) rand env tenant dsn schemaUUID actor reason c)) (\<lambda>c.
       Inr (Inr (201, JObj [(''tenant'', JStr tenant)]), c)))))"

definition patchTenant :: "env \<Rightarrow> string \<Rightarrow> string \<Rightarrow> bool option \<Rightarrow> string \<Rightarrow> site \<Rightarrow> outcome \<times> site" where
  "patchTenant env actor tenant enabled reason =
     in_control (\<lambda>c.
       bindE (requireReason reason) (\<lambda>_.
       case enabled of
         None \<Rightarrow> Inl ErrBadRequest
       | Some b \<Rightarrow> bindE (of_store (SetTenantEnabled env tenant b actor reason c)) (\<lambda>c. Inr (no_body, c))))"

text \<open>
  The cutover. \<open>open_old\<close> and \<open>open_new\<close> say what opening a connection string gives when the old schema is inspected and when
  the new one is verified; \<open>c1\<close>, \<open>c2\<close> and \<open>c3\<close> are the control database as the three reads before the write saw it.
\<close>

definition oldSchemaQuiescent :: "ApiConfig \<Rightarrow> (string \<Rightarrow> opened option) \<Rightarrow> ctl \<Rightarrow> string \<Rightarrow> api_error + bool \<times> nat" where
  "oldSchemaQuiescent cfg open_old c name =
     (case find (\<lambda>t. tn_Name t = name) (Tenants (cg_aead cfg) c) of
        None \<Rightarrow> Inl ErrNotFound
      | Some t \<Rightarrow>
          if tn_Enabled t then Inl (StoreError ErrNotQuiesced)
          else case Option.bind (open_old (tn_DSN t)) op_db of
                 None \<Rightarrow> Inl (StoreError ErrNotQuiesced)
               | Some db \<Rightarrow> if \<not> Quiet (Quiescent db) then Inl (StoreError ErrNotQuiesced) else Inr (True, q_Queued (Quiescent db)))"

definition verifyNewSchema :: "ApiConfig \<Rightarrow> (string \<Rightarrow> opened option) \<Rightarrow> time \<Rightarrow> string \<Rightarrow> string \<Rightarrow> string \<Rightarrow> api_error + unit" where
  "verifyNewSchema cfg open_new host name dsn schemaUUID =
     (case open_new dsn of
        None \<Rightarrow> Inl ErrBadRequest
      | Some o' \<Rightarrow> guard (Admit (op_view o') name schemaUUID (cg_LocationName cfg) host = Inr ()))"

definition known_generation :: "ApiConfig \<Rightarrow> ctl \<Rightarrow> string \<Rightarrow> int" where
  "known_generation cfg c name =
     foldl (\<lambda>g t. if tn_Name t = name then tn_Generation t else g) 0 (Tenants (cg_aead cfg) c)"

definition repointTenant ::
  "ApiConfig \<Rightarrow> string option \<Rightarrow> env \<Rightarrow> (string \<Rightarrow> opened option) \<Rightarrow> (string \<Rightarrow> opened option) \<Rightarrow> ctl \<Rightarrow> ctl \<Rightarrow> ctl \<Rightarrow>
   string \<Rightarrow> string \<Rightarrow> string \<Rightarrow> string \<Rightarrow> string \<Rightarrow> string \<Rightarrow> bool \<Rightarrow> site \<Rightarrow> outcome \<times> site" where
  "repointTenant cfg rand env open_old open_new c1 c2 c3 actor name dsn0 database schemaUUID reason abandonQueued =
     in_control (\<lambda>c.
       bindE (requireReason reason) (\<lambda>_.
       bindE (guard (schemaUUID \<noteq> [])) (\<lambda>_.
       bindE (resolveDSN (cg_DSNFor cfg) dsn0 database) (\<lambda>dsn.
       bindE (oldSchemaQuiescent cfg open_old c1 name) (\<lambda>(quiet, queued).
       if queued > 0 \<and> \<not> abandonQueued then Inl (StoreError ErrNotQuiesced)
       else if Blockers env c3 name (known_generation cfg c2 name) (cg_InstanceLiveness cfg) \<noteq> [] then Inl (StoreError ErrNotQuiesced)
       else
         bindE (verifyNewSchema cfg open_new (now env) name dsn schemaUUID) (\<lambda>_.
         let note = (if queued > 0 then reason @ '' (abandoning '' @ FormatInt (int queued) @ '' queued execution(s) in the old schema)'' else reason)
         in bindE (of_store (SetTenantDSN (cg_aead cfg) rand env name dsn schemaUUID actor note quiet (cg_InstanceLiveness cfg) c)) (\<lambda>c.
            Inr (no_body, c))))))))"

definition quiescence :: "ApiConfig \<Rightarrow> env \<Rightarrow> site \<Rightarrow> string \<Rightarrow> outcome" where
  "quiescence cfg env s name =
     (case find (\<lambda>t. tn_Name t = name) (Tenants (cg_aead cfg) (si_ctl s)) of
        None \<Rightarrow> Inl ErrNotFound
      | Some t \<Rightarrow>
          let shown = map (\<lambda>b. JObj [(''InstanceID'', JStr (b_InstanceID b)), (''Generation'', JInt (b_Generation b)),
                        (''Quiesced'', JBool (b_Quiesced b)), (''ObservedAt'', JTime (b_ObservedAt b))])
                        (Blockers env (si_ctl s) name (tn_Generation t) (cg_InstanceLiveness cfg));
              base = [(''generation'', JInt (tn_Generation t)), (''blockers'', JArr shown),
                      (''schema_observed'', JBool (si_tenants s name \<noteq> None))]
          in Inr (200, JObj (case si_tenants s name of
               None \<Rightarrow> base
             | Some db \<Rightarrow>
                 let q = Quiescent db in
                 base @ [(''schema_quiescent'', JBool (Quiet q)), (''held'', JInt (int (q_Held q))), (''in_flight'', JInt (int (q_InFlight q))),
                         (''queued_and_would_be_abandoned'', JInt (int (q_Queued q)))])))"

definition controlConnection :: "ApiConfig \<Rightarrow> outcome" where
  "controlConnection cfg =
     Inr (200, JObj [(''available'', JBool (cg_DSNFor cfg \<noteq> None)), (''address'', JStr (cg_Address cfg)), (''user'', JStr (cg_User cfg))])"

section \<open>Probes, identity, first-run setup\<close>

definition readyz :: "bool \<Rightarrow> reply" where
  "readyz healthy =
     (if \<not> healthy then (503, JObj [(''status'', JStr ''fenced from the control database'')]) else (200, JObj [(''status'', JStr ''ready'')]))"

definition me :: "string \<Rightarrow> string \<Rightarrow> outcome" where
  "me actor role = Inr (200, JObj [(''actor'', JStr actor), (''role'', JStr role)])"

definition setupState :: "accounts \<Rightarrow> outcome" where
  "setupState ac = Inr (200, JObj [(''setup_needed'', JBool (SetupNeeded ac))])"

definition createFirstAdmin :: "bcrypt \<Rightarrow> time \<Rightarrow> string \<Rightarrow> string \<Rightarrow> accounts \<Rightarrow> outcome \<times> accounts" where
  "createFirstAdmin bc t username password ac =
     (case CreateFirstAdmin bc t username password ac of
        Inl e \<Rightarrow> (Inl (StoreError e), ac)
      | Inr ac' \<Rightarrow> (Inr (201, JObj [(''username'', JStr username), (''role'', JStr ''OPERATOR'')]), ac'))"

end
