(* ===== verification/Migration.thy ===== *)
theory Migration
  imports Requests Control
begin

text \<open>
  Bringing a tenant's coordination schema to the version this build requires (\<^verbatim>\<open>src/internal/tenantmigration/migration.go\<close>) and
  creating one (\<^verbatim>\<open>src/internal/admin/provision.go\<close>). MySQL is a parameter: what it answers and what a statement makes of
  a schema. A DDL statement commits by itself, so a run that fails or is cut short leaves what it had done.
\<close>

section \<open>The stream of migrations\<close>

definition InitialVersion :: int where "InitialVersion = 1"

record Migration =
  mg_Version :: int
  mg_Name :: string
  mg_DDL :: string

definition Validate :: "Migration list \<Rightarrow> bool" where
  "Validate ms \<longleftrightarrow>
     ms \<noteq> [] \<and>
     list_all (\<lambda>(i, m). mg_Version m = InitialVersion + int i \<and> TrimSpace (mg_Name m) \<noteq> []) (List.enumerate 0 ms)"

definition Pending :: "Migration list \<Rightarrow> string \<Rightarrow> string \<Rightarrow> Migration list result" where
  "Pending ms current required =
     (case (parseInt current, parseInt required) of
        (Some c, Some r) \<Rightarrow>
          if c < InitialVersion then Inl ErrOther
          else if c > r then Inl ErrOther
          else if c = r then Inr []
          else if \<not> Validate ms then Inl ErrOther
          else if r > mg_Version (last ms) then Inl ErrOther
          else
            let pending = filter (\<lambda>m. mg_Version m > c \<and> mg_Version m \<le> r) ms
            in if int (length pending) \<noteq> r - c then Inl ErrOther else Inr pending
      | _ \<Rightarrow> Inl ErrOther)"

section \<open>Statements\<close>

definition nl :: char where "nl = CHR 0x0A"

fun before_comment :: "string \<Rightarrow> string" where
  "before_comment (a # b # s) = (if a = CHR ''-'' \<and> b = CHR ''-'' then [] else a # before_comment (b # s))"
| "before_comment s = s"

fun join_lines :: "string list \<Rightarrow> string" where
  "join_lines [] = []"
| "join_lines [l] = l"
| "join_lines (l # ls) = l @ nl # join_lines ls"

definition SplitDDL :: "string \<Rightarrow> string list" where
  "SplitDDL ddl =
     (let kept = filter (\<lambda>line. TrimSpace line \<noteq> []) (map before_comment (split_on nl ddl))
      in filter (\<lambda>st. st \<noteq> []) (map TrimSpace (split_on (CHR '';'') (join_lines kept))))"

fun contains_str :: "string \<Rightarrow> string \<Rightarrow> bool" where
  "contains_str [] sub \<longleftrightarrow> sub = []"
| "contains_str (c # s) sub \<longleftrightarrow> take (length sub) (c # s) = sub \<or> contains_str s sub"

section \<open>MySQL\<close>

text \<open>
  Of a connection to a schema in state \<open>'s\<close>: executing a statement (nothing when it fails), the type, nullability and default of
  \<open>job_executor_handler.description\<close>, the columns of \<open>idx_job_execution_retention\<close> in order, the recorded version, the number of
  the four tables that are there, and a UUID.
\<close>

record 's mysql =
  Exec :: "string \<Rightarrow> 's \<Rightarrow> 's option"
  description_column :: "'s \<Rightarrow> (string option \<times> string option \<times> string option) option result"
  retention_index :: "'s \<Rightarrow> string option result"
  recorded_version :: "'s \<Rightarrow> string result"
  table_count :: "'s \<Rightarrow> nat result"
  UUID :: "'s \<Rightarrow> string result"
  claim_schema :: "string \<Rightarrow> string \<Rightarrow> string \<Rightarrow> time \<Rightarrow> 's \<Rightarrow> 's option"

definition alreadyApplied :: "'s mysql \<Rightarrow> 's \<Rightarrow> int \<Rightarrow> string \<Rightarrow> bool result" where
  "alreadyApplied m s version st =
     (if version = 3 \<and> contains_str st ''ADD COLUMN description'' then
        bindE (description_column m s) (\<lambda>found.
          case found of
            None \<Rightarrow> Inr False
          | Some (ty, nullable, dflt) \<Rightarrow>
              if coalesce_str ty \<noteq> ''varchar(512)'' \<or> coalesce_str nullable \<noteq> ''NO'' \<or> coalesce_str dflt \<noteq> []
              then Inl ErrOther else Inr True)
      else if version \<noteq> 2 \<or> \<not> contains_str st ''idx_job_execution_retention'' then Inr False
      else
        bindE (retention_index m s) (\<lambda>cols.
          if coalesce_str cols = [] then Inr False
          else if coalesce_str cols \<noteq> ''status,finished_at,id'' then Inl ErrOther
          else Inr True))"

text \<open>One statement, and a run of them with the versions they belong to: the state reached, and the error that stopped it.\<close>

definition apply_statement :: "'s mysql \<Rightarrow> int \<Rightarrow> string \<Rightarrow> 's \<Rightarrow> 's result" where
  "apply_statement m version st s =
     bindE (alreadyApplied m s version st) (\<lambda>skip.
       if skip then Inr s else case Exec m st s of None \<Rightarrow> Inl ErrOther | Some s' \<Rightarrow> Inr s')"

fun run_statements :: "'s mysql \<Rightarrow> (int \<times> string) list \<Rightarrow> 's \<Rightarrow> 's \<times> error option" where
  "run_statements m [] s = (s, None)"
| "run_statements m ((version, st) # sts) s =
     (case apply_statement m version st s of Inl e \<Rightarrow> (s, Some e) | Inr s' \<Rightarrow> run_statements m sts s')"

definition statements_of :: "Migration list \<Rightarrow> (int \<times> string) list" where
  "statements_of ms = concat (map (\<lambda>g. map (\<lambda>st. (mg_Version g, st)) (SplitDDL (mg_DDL g))) ms)"

definition Upgrade :: "'s mysql \<Rightarrow> Migration list \<Rightarrow> string \<Rightarrow> string \<Rightarrow> 's \<Rightarrow> 's \<times> error option" where
  "Upgrade m ms current required s =
     (case Pending ms current required of
        Inl e \<Rightarrow> (s, Some e)
      | Inr [] \<Rightarrow> (s, None)
      | Inr pending \<Rightarrow>
          (case run_statements m (statements_of pending) s of
             (s', Some e) \<Rightarrow> (s', Some e)
           | (s', None) \<Rightarrow>
               (case recorded_version m s' of
                  Inl e \<Rightarrow> (s', Some e)
                | Inr got \<Rightarrow> (s', if got \<noteq> required then Some ErrOther else None))))"

section \<open>The migrations this build ships\<close>

definition retention_ddl :: string where
  "retention_ddl =
     ''-- Index the terminal business timestamp used by bounded execution-history retention.'' @ [nl] @
     ''ALTER TABLE job_execution'' @ [nl] @
     ''    ADD KEY idx_job_execution_retention (status, finished_at, id);'' @ [nl] @ [nl] @
     ''UPDATE schema_identity'' @ [nl] @
     ''SET schema_version = '' @ [CHR 0x27] @ ''2'' @ [CHR 0x27] @ [nl] @
     ''WHERE lock_row = 1 AND schema_version = '' @ [CHR 0x27] @ ''1'' @ [CHR 0x27] @ '';'' @ [nl]"

definition descriptions_ddl :: string where
  "descriptions_ddl =
     ''-- Preserve the operator-facing description supplied by each live executor. It is metadata,'' @ [nl] @
     ''-- not routing authority: handler_key remains the only dispatch key.'' @ [nl] @
     ''ALTER TABLE job_executor_handler'' @ [nl] @
     ''    ADD COLUMN description VARCHAR(512) NOT NULL DEFAULT '' @ [CHR 0x27, CHR 0x27] @ '' AFTER handler_key;'' @ [nl] @ [nl] @
     ''UPDATE schema_identity'' @ [nl] @
     ''SET schema_version = '' @ [CHR 0x27] @ ''3'' @ [CHR 0x27] @ [nl] @
     ''WHERE lock_row = 1 AND schema_version = '' @ [CHR 0x27] @ ''2'' @ [CHR 0x27] @ '';'' @ [nl]"

text \<open>\<open>ddl1\<close> is the text of the first, which creates the tables.\<close>

definition embedded :: "string \<Rightarrow> (string \<times> string) list" where
  "embedded ddl1 =
     [(''001_tenant.sql'', ddl1), (''002_execution_retention.sql'', retention_ddl), (''003_handler_descriptions.sql'', descriptions_ddl)]"

text \<open>\<open>TenantMigrations\<close> over the files of the directory, in the order of their names; all of them end in .sql.\<close>

fun read_migrations :: "(string \<times> string) list \<Rightarrow> Migration list result" where
  "read_migrations [] = Inr []"
| "read_migrations ((name, ddl) # files) =
     (if CHR ''_'' \<notin> set name then Inl ErrOther
      else case parseInt (before_byte (CHR ''_'') name) of
             None \<Rightarrow> Inl ErrOther
           | Some v \<Rightarrow> bindE (read_migrations files) (\<lambda>ms. Inr (\<lparr>mg_Version = v, mg_Name = name, mg_DDL = ddl\<rparr> # ms)))"

definition TenantMigrations :: "(string \<times> string) list \<Rightarrow> Migration list result" where
  "TenantMigrations files =
     bindE (read_migrations files) (\<lambda>ms. if Validate ms then Inr ms else Inl ErrOther)"

section \<open>Provisioning\<close>

fun exec_all :: "'s mysql \<Rightarrow> string list \<Rightarrow> 's \<Rightarrow> 's \<times> bool" where
  "exec_all m [] s = (s, True)"
| "exec_all m (st # sts) s = (case Exec m st s of None \<Rightarrow> (s, False) | Some s' \<Rightarrow> exec_all m sts s')"

text \<open>\<open>reach\<close> says whether the control server can be opened without a schema, \<open>create\<close> whether it executes the statement.\<close>

definition createDatabase :: "(string \<Rightarrow> string) option \<Rightarrow> (string \<Rightarrow> bool) \<Rightarrow> (string \<Rightarrow> bool) \<Rightarrow> string \<Rightarrow> api_error + unit" where
  "createDatabase DSNFor reach create database =
     (case DSNFor of
        None \<Rightarrow> Inr ()
      | Some compose \<Rightarrow>
          bindE (checkDatabaseName database) (\<lambda>_.
          bindE (guard (reach (compose []))) (\<lambda>_.
          if \<not> create (''CREATE DATABASE IF NOT EXISTS `'' @ database @ ''` DEFAULT CHARACTER SET utf8mb4'')
          then Inl (StoreError ErrProtocol) else Inr ())))"

text \<open>The part of the handler that works on the opened schema: the schema it leaves, and its answer, the new UUID.\<close>

definition provision_schema :: "'s mysql \<Rightarrow> (string \<times> string) list \<Rightarrow> time \<Rightarrow> string \<Rightarrow> 's \<Rightarrow> (api_error + string) \<times> 's" where
  "provision_schema m files t tenant s =
     (case table_count m s of
        Inl _ \<Rightarrow> (Inl ErrBadRequest, s)
      | Inr tables \<Rightarrow>
          if tables > 0 then (Inl (StoreError ErrProtocol), s)
          else case TenantMigrations files of
                 Inl _ \<Rightarrow> (Inl (StoreError ErrProtocol), s)
               | Inr ms \<Rightarrow>
                   (case exec_all m (concat (map (SplitDDL \<circ> mg_DDL) ms)) s of
                      (s1, False) \<Rightarrow> (Inl (StoreError ErrProtocol), s1)
                    | (s1, True) \<Rightarrow>
                        (case UUID m s1 of
                           Inl _ \<Rightarrow> (Inl (StoreError ErrProtocol), s1)
                         | Inr uuid \<Rightarrow>
                             (case claim_schema m tenant uuid SchemaVersion t s1 of
                                None \<Rightarrow> (Inl (StoreError ErrProtocol), s1)
                              | Some s2 \<Rightarrow> (Inr uuid, s2)))))"

definition provisionTenant ::
  "(string \<Rightarrow> string) option \<Rightarrow> (string \<Rightarrow> bool) \<Rightarrow> (string \<Rightarrow> bool) \<Rightarrow> (string \<Rightarrow> 's option) \<Rightarrow> 's mysql \<Rightarrow> (string \<times> string) list \<Rightarrow> time \<Rightarrow>
   string \<Rightarrow> string \<Rightarrow> string \<Rightarrow> string \<Rightarrow> (api_error + string) \<times> 's option" where
  "provisionTenant DSNFor reach create OpenDB m files t dsn0 database tenant reason =
     (case bindE (requireReason reason) (\<lambda>_.
           bindE (guard (checkIdentifier tenant 64)) (\<lambda>_.
           bindE (resolveDSN DSNFor dsn0 database) (\<lambda>dsn.
           bindE (if dsn0 = [] then createDatabase DSNFor reach create (TrimSpace database) else Inr ()) (\<lambda>_.
           case OpenDB dsn of None \<Rightarrow> Inl ErrBadRequest | Some s \<Rightarrow> Inr s)))) of
        Inl e \<Rightarrow> (Inl e, None)
      | Inr s \<Rightarrow> (let (r, s') = provision_schema m files t tenant s in (r, Some s')))"

text \<open>\<open>pings\<close> says whether an opened schema answers a ping, \<open>identity\<close> is the row of \<open>schema_identity\<close> if it could be read.\<close>

definition probeTenant ::
  "(string \<Rightarrow> string) option \<Rightarrow> (string \<Rightarrow> 's option) \<Rightarrow> ('s \<Rightarrow> bool) \<Rightarrow> ('s \<Rightarrow> (string \<times> string \<times> string) option) \<Rightarrow> 's mysql \<Rightarrow>
   string \<Rightarrow> string \<Rightarrow> api_error + int \<times> json" where
  "probeTenant DSNFor OpenDB pings identity m dsn0 database =
     bindE (resolveDSN DSNFor dsn0 database) (\<lambda>dsn.
     case OpenDB dsn of
       None \<Rightarrow> Inl ErrBadRequest
     | Some s \<Rightarrow>
         if \<not> pings s then
           (if database \<noteq> [] \<and> DSNFor \<noteq> None
            then Inr (200, JObj [(''reachable'', JBool False), (''creatable'', JBool True), (''tables'', JInt 0), (''provisioned'', JBool False),
                        (''expects_version'', JStr SchemaVersion), (''detail'', JError ErrOther)])
            else Inl ErrBadRequest)
         else case table_count m s of
                Inl _ \<Rightarrow> Inl ErrBadRequest
              | Inr tables \<Rightarrow>
                  Inr (200, JObj ([(''reachable'', JBool True), (''tables'', JInt (int tables)), (''provisioned'', JBool (identity s \<noteq> None))] @
                    (case identity s of
                       None \<Rightarrow> []
                     | Some (tenant, uuid, version) \<Rightarrow>
                         [(''tenant'', JStr tenant), (''schema_uuid'', JStr uuid), (''schema_version'', JStr version),
                          (''version_ok'', JBool (version = SchemaVersion))]) @
                    [(''expects_version'', JStr SchemaVersion)])))"

end
