(* ===== verification/Attribution.thy ===== *)
theory Attribution
  imports AdminApi Migration
begin

text \<open>
  Every route of the operator API that is not a read, behind the role it requires: those an operator changes tenants, jobs, executions
  and executor identities through, provisioning and probing of schemas, first-run setup, signing in and out. What a change made
  through each of them leaves behind, and who can have made it.
\<close>

section \<open>The routes that change tenants and authority\<close>

datatype write_request =
    ReqAddTenant string string string string string \<comment> \<open>tenant, dsn, database, schema uuid, reason\<close>
  | ReqPatchTenant string "bool option" string
  | ReqRepointTenant string string string string string bool
  | ReqCreateJob string jobBody
  | ReqCopyAllJobs string "string list" string
  | ReqSyncDescriptions string string
  | ReqPatchJob string string string jobBody \<comment> \<open>tenant, name, If-Match, body\<close>
  | ReqPauseJob string string string
  | ReqResumeJob string string string
  | ReqTriggerJob string string string string string \<comment> \<open>tenant, name, request id, params, reason\<close>
  | ReqRetireJob string string string
  | ReqRetryExecution string string string
  | ReqCancelExecution string string string
  | ReqAddIdentity string string string string string \<comment> \<open>identity, tenant, group, auth, reason\<close>
  | ReqSetIdentityDisabled string string "bool option" string
  | ReqDeleteIdentity string string string

text \<open>What the handler meets while it runs: clocks, random bytes, and what its reads see before it writes.\<close>

record request_ctx =
  rc_env :: env
  rc_time :: time
  rc_rand :: "string option"
  rc_seen :: "string \<Rightarrow> db"
  rc_old :: "string \<Rightarrow> opened option"
  rc_new :: "string \<Rightarrow> opened option"
  rc_c1 :: ctl
  rc_c2 :: ctl
  rc_c3 :: ctl
  rc_accounts :: bool \<comment> \<open>the accounts can be read to identify the sender\<close>
  rc_swept :: bool \<comment> \<open>a sign-in's sweep of expired sessions goes through\<close>
  rc_deleted :: bool \<comment> \<open>a sign-out's DELETE goes through\<close>

fun write_route :: "ApiConfig \<Rightarrow> request_ctx \<Rightarrow> write_request \<Rightarrow> string \<Rightarrow> site \<Rightarrow> outcome \<times> site" where
  "write_route cfg ctx (ReqAddTenant t dsn database uuid reason) actor = addTenant cfg (rc_rand ctx) (rc_env ctx) actor t dsn database uuid reason"
| "write_route cfg ctx (ReqPatchTenant t enabled reason) actor = patchTenant (rc_env ctx) actor t enabled reason"
| "write_route cfg ctx (ReqRepointTenant t dsn database uuid reason abandon) actor =
     repointTenant cfg (rc_rand ctx) (rc_env ctx) (rc_old ctx) (rc_new ctx) (rc_c1 ctx) (rc_c2 ctx) (rc_c3 ctx) actor t dsn database uuid reason abandon"
| "write_route cfg ctx (ReqCreateJob t body) actor = createJob cfg (rc_env ctx) (rc_time ctx) actor t body"
| "write_route cfg ctx (ReqCopyAllJobs t targets reason) actor =
     copyAllJobs cfg (rc_env ctx) (rc_time ctx) (rc_seen ctx t) actor t targets reason"
| "write_route cfg ctx (ReqSyncDescriptions t reason) actor = syncJobDescriptions cfg (rc_env ctx) (rc_seen ctx t) actor t reason"
| "write_route cfg ctx (ReqPatchJob t name ifMatch body) actor = patchJob cfg (rc_env ctx) (rc_time ctx) actor t name ifMatch body"
| "write_route cfg ctx (ReqPauseJob t name reason) actor = setPaused (rc_env ctx) actor t name True reason"
| "write_route cfg ctx (ReqResumeJob t name reason) actor = setPaused (rc_env ctx) actor t name False reason"
| "write_route cfg ctx (ReqTriggerJob t name request params reason) actor = triggerJob cfg (rc_env ctx) actor t name request params reason"
| "write_route cfg ctx (ReqRetireJob t name reason) actor = retireJob (rc_env ctx) actor t name reason"
| "write_route cfg ctx (ReqRetryExecution t key reason) actor = retryExecution (rc_env ctx) actor t key reason"
| "write_route cfg ctx (ReqCancelExecution t key reason) actor = cancelExecution (rc_env ctx) (rc_seen ctx t) actor t key reason"
| "write_route cfg ctx (ReqAddIdentity i t grp auth reason) actor = addIdentity (rc_env ctx) (rc_rand ctx) actor i t grp auth reason"
| "write_route cfg ctx (ReqSetIdentityDisabled i t disabled reason) actor = setIdentityDisabled (rc_env ctx) actor i t disabled reason"
| "write_route cfg ctx (ReqDeleteIdentity i t reason) actor = deleteIdentity (rc_env ctx) actor i t reason"

fun reason_of :: "write_request \<Rightarrow> string" where
  "reason_of (ReqAddTenant _ _ _ _ r) = r"
| "reason_of (ReqPatchTenant _ _ r) = r"
| "reason_of (ReqRepointTenant _ _ _ _ r _) = r"
| "reason_of (ReqCreateJob _ b) = jb_Reason b"
| "reason_of (ReqCopyAllJobs _ _ r) = r"
| "reason_of (ReqSyncDescriptions _ r) = r"
| "reason_of (ReqPatchJob _ _ _ b) = jb_Reason b"
| "reason_of (ReqPauseJob _ _ r) = r"
| "reason_of (ReqResumeJob _ _ r) = r"
| "reason_of (ReqTriggerJob _ _ _ _ r) = r"
| "reason_of (ReqRetireJob _ _ r) = r"
| "reason_of (ReqRetryExecution _ _ r) = r"
| "reason_of (ReqCancelExecution _ _ r) = r"
| "reason_of (ReqAddIdentity _ _ _ _ r) = r"
| "reason_of (ReqSetIdentityDisabled _ _ _ r) = r"
| "reason_of (ReqDeleteIdentity _ _ r) = r"

datatype http_reply = Denied int | Answered "int option" json

text \<open>\<open>wrap\<close> renders an error as its status and kind.\<close>

definition wrap :: "outcome \<Rightarrow> http_reply" where
  "wrap out =
     (case out of
        Inr (code, body) \<Rightarrow> Answered (Some code) body
      | Inl err \<Rightarrow> (case classify err of None \<Rightarrow> Answered None JNull | Some (code, kind) \<Rightarrow> Answered (Some code) (JObj [(''kind'', JStr kind)])))"

definition write_gate :: "AdminAuth \<Rightarrow> time \<Rightarrow> accounts option \<Rightarrow> http_request \<Rightarrow> (string \<Rightarrow> 'i \<Rightarrow> outcome \<times> 'i) \<Rightarrow> 'i \<Rightarrow> http_reply \<times> 'i" where
  "write_gate a t table r h s =
     (case Require a t table RoleOperator r of
        Unauthorized \<Rightarrow> (Denied 401, s)
      | Forbidden \<Rightarrow> (Denied 403, s)
      | Granted actor _ \<Rightarrow> (let (out, s') = h actor s in (wrap out, s')))"

section \<open>An installation, and all its routes that are not reads\<close>

text \<open>The control database and the tenants' databases as coordination tables; the accounts, which are in the control database too; and the
  schemas as provisioning sees them, by the DSN that opens them.\<close>

record 's install =
  in_site :: site
  in_accounts :: accounts
  in_schemas :: "string \<rightharpoonup> 's"

text \<open>Outside the program: MySQL, an empty schema, whether the control server can be opened and executes a CREATE DATABASE, whether a DSN
  can be opened and answers a ping, what is read of \<open>schema_identity\<close>, the migrations this build ships, and bcrypt.\<close>

record 's server =
  sv_mysql :: "'s mysql"
  sv_empty :: 's
  sv_reach :: "string \<Rightarrow> bool"
  sv_create :: "string \<Rightarrow> bool"
  sv_opens :: "string \<Rightarrow> bool"
  sv_pings :: "'s \<Rightarrow> bool"
  sv_identity :: "'s \<Rightarrow> (string \<times> string \<times> string) option"
  sv_files :: "(string \<times> string) list"
  sv_bcrypt :: bcrypt

definition opened_at :: "'s server \<Rightarrow> (string \<rightharpoonup> 's) \<Rightarrow> string \<Rightarrow> 's option" where
  "opened_at sv schemas dsn = (if sv_opens sv dsn then schemas dsn else None)"

text \<open>The schemas after the CREATE DATABASE of provisioning, if it gets there: the schema beside the control database, when there was none.\<close>

definition with_database :: "'s server \<Rightarrow> ApiConfig \<Rightarrow> string \<Rightarrow> string \<Rightarrow> string \<Rightarrow> string \<Rightarrow> (string \<rightharpoonup> 's) \<Rightarrow> (string \<rightharpoonup> 's)" where
  "with_database sv cfg dsn0 database tenant reason schemas =
     (case bindE (requireReason reason) (\<lambda>_.
           bindE (guard (checkIdentifier tenant 64)) (\<lambda>_.
           bindE (resolveDSN (cg_DSNFor cfg) dsn0 database) (\<lambda>dsn.
           if dsn0 \<noteq> [] then Inl ErrBadRequest
           else bindE (createDatabase (cg_DSNFor cfg) (sv_reach sv) (sv_create sv) (TrimSpace database)) (\<lambda>_. Inr dsn)))) of
        Inl _ \<Rightarrow> schemas
      | Inr dsn \<Rightarrow> if schemas dsn = None then schemas(dsn \<mapsto> sv_empty sv) else schemas)"

definition provision_route ::
  "'s server \<Rightarrow> ApiConfig \<Rightarrow> time \<Rightarrow> string \<Rightarrow> string \<Rightarrow> string \<Rightarrow> string \<Rightarrow> 's install \<Rightarrow> outcome \<times> 's install" where
  "provision_route sv cfg t dsn0 database tenant reason i =
     (let schemas = with_database sv cfg dsn0 database tenant reason (in_schemas i);
          (r, left) = provisionTenant (cg_DSNFor cfg) (sv_reach sv) (sv_create sv) (opened_at sv schemas) (sv_mysql sv) (sv_files sv) t
                        dsn0 database tenant reason
      in (bindE r (\<lambda>uuid. Inr (201, JObj [(''tenant'', JStr tenant), (''schema_uuid'', JStr uuid), (''schema_version'', JStr SchemaVersion)])),
          i\<lparr>in_schemas := (case (resolveDSN (cg_DSNFor cfg) dsn0 database, left) of
                            (Inr dsn, Some s') \<Rightarrow> schemas(dsn \<mapsto> s')
                          | _ \<Rightarrow> schemas)\<rparr>))"

datatype api_request =
    Operate write_request
  | Provision string string string string \<comment> \<open>dsn, database, tenant, reason\<close>
  | Probe string string
  | Setup string string \<comment> \<open>username, password\<close>
  | SignIn string string
  | SignOut

definition session_reply :: "string \<Rightarrow> login_reply \<Rightarrow> http_reply" where
  "session_reply username r =
     (case r of
        LoginOK token role \<Rightarrow> Answered (Some 200) (JObj [(''actor'', JStr username), (''role'', JStr role)])
      | LoginUnauthorized \<Rightarrow> Answered (Some 401) (JObj [(''error'', JStr ''invalid credentials'')])
      | LoginFailed \<Rightarrow> Answered (Some 500) (JObj [(''error'', JError ErrOther)]))"

definition accounts_read :: "request_ctx \<Rightarrow> 's install \<Rightarrow> accounts option" where
  "accounts_read ctx i = (if rc_accounts ctx then Some (in_accounts i) else None)"

text \<open>Setup, sign-in and sign-out are open to anybody; the rest requires an operator.\<close>

fun api_call :: "AdminAuth \<Rightarrow> 's server \<Rightarrow> ApiConfig \<Rightarrow> request_ctx \<Rightarrow> http_request \<Rightarrow> api_request \<Rightarrow> 's install \<Rightarrow> http_reply \<times> 's install" where
  "api_call a sv cfg ctx r (Operate w) i =
     (let (rep, s') = write_gate a (rc_time ctx) (accounts_read ctx i) r (write_route cfg ctx w) (in_site i) in (rep, i\<lparr>in_site := s'\<rparr>))"
| "api_call a sv cfg ctx r (Provision dsn database tenant reason) i =
     write_gate a (rc_time ctx) (accounts_read ctx i) r (\<lambda>_. provision_route sv cfg (rc_time ctx) dsn database tenant reason) i"
| "api_call a sv cfg ctx r (Probe dsn database) i =
     write_gate a (rc_time ctx) (accounts_read ctx i) r
       (\<lambda>_ i. (probeTenant (cg_DSNFor cfg) (opened_at sv (in_schemas i)) (sv_pings sv) (sv_identity sv) (sv_mysql sv) dsn database, i)) i"
| "api_call a sv cfg ctx r (Setup username password) i =
     (let (out, ac) = createFirstAdmin (sv_bcrypt sv) (rc_time ctx) username password (in_accounts i) in (wrap out, i\<lparr>in_accounts := ac\<rparr>))"
| "api_call a sv cfg ctx r (SignIn username password) i =
     (let (out, ac) = login a (sv_bcrypt sv) (rc_time ctx) (rc_swept ctx) (rc_rand ctx) username password (in_accounts i)
      in (session_reply username out, i\<lparr>in_accounts := ac\<rparr>))"
| "api_call a sv cfg ctx r SignOut i =
     (let (code, status, ac) = logout (rc_deleted ctx) r (in_accounts i)
      in (Answered (Some code) (JObj [(''status'', JStr status)]), i\<lparr>in_accounts := ac\<rparr>))"

section \<open>Signed changes\<close>

definition db_signed :: "string \<Rightarrow> db \<Rightarrow> db \<Rightarrow> bool" where
  "db_signed actor db db' \<longleftrightarrow> db' = db \<or> (\<exists>l. l \<noteq> [] \<and> audits db' = audits db @ l \<and> (\<forall>a \<in> set l. jl_actor a = actor))"

definition ctl_signed :: "string \<Rightarrow> ctl \<Rightarrow> ctl \<Rightarrow> bool" where
  "ctl_signed actor c c' \<longleftrightarrow> c' = c \<or> (\<exists>a. ctl_audits c' = ctl_audits c @ [a] \<and> ca_actor a = actor)"

definition site_signed :: "string \<Rightarrow> site \<Rightarrow> site \<Rightarrow> bool" where
  "site_signed actor s s' \<longleftrightarrow> ctl_signed actor (si_ctl s) (si_ctl s') \<and> dom (si_tenants s') = dom (si_tenants s) \<and>
     (\<forall>t db db'. si_tenants s t = Some db \<longrightarrow> si_tenants s' t = Some db' \<longrightarrow> db_signed actor db db')"

lemma signed_refl [simp]: "db_signed actor db db" "ctl_signed actor c c" "site_signed actor s s"
  by (auto simp: db_signed_def ctl_signed_def site_signed_def)

lemma signed_trans: "db_signed actor db db' \<Longrightarrow> db_signed actor db' db'' \<Longrightarrow> db_signed actor db db''"
  unfolding db_signed_def by (elim disjE exE conjE) auto

lemma audit_signed: "audits db = audits db0 \<Longrightarrow> db_signed actor db0 (audit env actor b c d e db)"
  by (auto simp: audit_def db_signed_def)

lemma audits_update [simp]:
  "audits (snd (update_def P f db)) = audits db" "audits (snd (update_state Q g db)) = audits db" "audits (snd (update_exec R h db)) = audits db"
  by (simp_all add: update_def_def update_state_def update_exec_def)

lemma assert_audits:
  "assertOne u = Inr db' \<Longrightarrow> audits (snd u) = A \<Longrightarrow> audits db' = A" "assertSome e u = Inr db' \<Longrightarrow> audits (snd u) = A \<Longrightarrow> audits db' = A"
  by (auto dest: assert_snd)

lemmas signed_intros = conjI audit_signed
lemmas assert_audits_of = assert_audits [OF _ audits_update(1)] assert_audits [OF _ audits_update(2)] assert_audits [OF _ audits_update(3)]

lemma insert_job_audits: "insert_job env d t actor dup db = Inr db' \<Longrightarrow> audits db' = audits db"
  by (auto simp: insert_job_def Let_def split: if_splits)

lemma one_write_signed:
  "CreateJob env d t actor reason db = Inr db' \<Longrightarrow> actor \<noteq> [] \<and> db_signed actor db db'"
  "UpdateJob env d n actor reason db = Inr db' \<Longrightarrow> actor \<noteq> [] \<and> db_signed actor db db'"
  "SetPaused env j p actor reason db = Inr db' \<Longrightarrow> actor \<noteq> [] \<and> db_signed actor db db'"
  "Retire env j actor reason db = Inr db' \<Longrightarrow> actor \<noteq> [] \<and> db_signed actor db db'"
  "AuthorizedRetry env k actor reason db = Inr db' \<Longrightarrow> actor \<noteq> [] \<and> db_signed actor db db'"
  "RequestCancel env i actor reason db = Inr db' \<Longrightarrow> actor \<noteq> [] \<and> db_signed actor db db'"
  by (auto simp: CreateJob_def UpdateJob_def SetPaused_def Retire_def AuthorizedRetry_def RequestCancel_def Let_def update_def_checked_Inr
      intro!: audit_signed dest!: insert_job_audits assert_audits_of split: if_splits option.splits)

lemma Trigger_signed:
  assumes "Trigger json env j q actor reason ps db = Inr (k, db')"
  shows "actor \<noteq> [] \<and> db_signed actor db db'"
  using assms
  by (auto simp: Trigger_def trigger_tx_def Let_def insertExecution_def intro!: audit_signed split: if_splits option.splits)

lemma sync_each_signed: "sync_each env source actor reason plan ss db = Inr db' \<Longrightarrow> db_signed actor db db'"
proof (induction ss arbitrary: db)
  case (Cons x ss)
  then obtain db1 where one: "sync_one env source actor reason plan x db = Inr db1" and rest: "db_signed actor db1 db'" by auto
  from one have "db_signed actor db db1"
    by (auto simp: sync_one_def insertCopiedJob_def Let_def update_def_checked_Inr intro!: audit_signed
        dest!: insert_job_audits assert_audits_of split: if_splits option.splits)
  then show ?case using rest by (rule signed_trans)
qed simp

lemma describe_each_signed: "describe_each env m actor reason js (x, db) = Inr (y, db') \<Longrightarrow> db_signed actor db db'"
proof (induction js arbitrary: x db)
  case (Cons j js)
  then obtain x1 db1 where one: "describe_one env m actor reason j (x, db) = Inr (x1, db1)" and rest: "db_signed actor db1 db'" by auto
  from one have "db_signed actor db db1"
    by (auto simp: describe_one_def Let_def intro!: audit_signed dest!: assert_audits_of split: if_splits)
  then show ?case using rest by (rule signed_trans)
qed simp

lemma many_writes_signed:
  "SyncJobs env seeds source actor reason db = Inr (plan, db') \<Longrightarrow> actor \<noteq> [] \<and> db_signed actor db db'"
  "SyncJobDescriptions env m actor reason db = Inr (res, db') \<Longrightarrow> actor \<noteq> [] \<and> db_signed actor db db'"
  by (auto simp: SyncJobs_def SyncJobDescriptions_def Let_def dest: sync_each_signed describe_each_signed split: if_splits)

lemma record_audit_signed:
  "record_audit env actor action n detail c = Inr c' \<Longrightarrow> ctl_audits c = ctl_audits c0 \<Longrightarrow> actor \<noteq> [] \<and> ctl_signed actor c0 c'"
  by (auto simp: record_audit_def ctl_signed_def split: if_splits)

lemma control_signed:
  "AddIdentity env i t g sha actor reason c = Inr c' \<Longrightarrow> actor \<noteq> [] \<and> ctl_signed actor c c'"
  "SetIdentityDisabled env i t b actor reason c = Inr c' \<Longrightarrow> actor \<noteq> [] \<and> ctl_signed actor c c'"
  "DeleteIdentity env i t actor reason c = Inr c' \<Longrightarrow> actor \<noteq> [] \<and> ctl_signed actor c c'"
  "AddTenant aead rand env t dsn uuid actor reason c = Inr c' \<Longrightarrow> actor \<noteq> [] \<and> ctl_signed actor c c'"
  "SetTenantEnabled env t b actor reason c = Inr c' \<Longrightarrow> actor \<noteq> [] \<and> ctl_signed actor c c'"
  "SetTenantDSN aead rand env t dsn uuid actor reason b l c = Inr c' \<Longrightarrow> actor \<noteq> [] \<and> ctl_signed actor c c'"
  unfolding AddIdentity_def insert_identity_def SetIdentityDisabled_def DeleteIdentity_def AddTenant_def SetTenantEnabled_def SetTenantDSN_def Let_def
  by (auto dest: record_audit_signed split: if_splits option.splits)

section \<open>Handlers\<close>

lemma of_store_Inr [simp]: "of_store r = Inr x \<longleftrightarrow> r = Inr x"
  by (auto simp: of_store_def split: sum.splits)

lemma requireReason_Inr [simp]: "requireReason r = Inr u \<longleftrightarrow> TrimSpace r \<noteq> []"
  by (simp add: requireReason_def)

text \<open>A handler leaves the site as it was, or signs what it changed and had a reason.\<close>

definition handled :: "string \<Rightarrow> string \<Rightarrow> site \<Rightarrow> outcome \<times> site \<Rightarrow> bool" where
  "handled actor reason s r \<longleftrightarrow> snd r = s \<or> actor \<noteq> [] \<and> TrimSpace reason \<noteq> [] \<and> site_signed actor s (snd r)"

lemma in_tenant_handled:
  assumes "\<And>db out db'. f db = Inr (out, db') \<Longrightarrow> TrimSpace reason \<noteq> [] \<and> actor \<noteq> [] \<and> db_signed actor db db'"
  shows "handled actor reason s (in_tenant tenant f s)"
proof (cases "bindE (tenantStore s tenant) f")
  case (Inr r)
  then obtain db out db' where db: "tenantStore s tenant = Inr db" and f: "f db = Inr (out, db')" "r = (out, db')" by (cases r) auto
  then have "si_tenants s tenant = Some db" by (auto simp: tenantStore_def split: if_splits option.splits)
  then show ?thesis using assms [OF f(1)] db f by (auto simp: in_tenant_def handled_def site_signed_def)
qed (simp add: in_tenant_def handled_def)

lemma in_control_handled:
  assumes "\<And>c out c'. f c = Inr (out, c') \<Longrightarrow> TrimSpace reason \<noteq> [] \<and> actor \<noteq> [] \<and> ctl_signed actor c c'"
  shows "handled actor reason s (in_control f s)"
  using assms by (auto simp: in_control_def handled_def site_signed_def split: sum.splits)

lemma copy_all_ctl: "copy_all env seeds source actor reason targets s = (rs, s') \<Longrightarrow> si_ctl s' = si_ctl s"
proof (induction targets arbitrary: s rs)
  case (Cons t targets)
  obtain r s1 where one: "copy_to env seeds source actor reason t s = (r, s1)" by force
  then have "si_ctl s1 = si_ctl s" by (auto simp: copy_to_def Let_def split: sum.splits)
  then show ?case using one Cons by (auto simp: Let_def split: prod.splits)
qed simp

lemma site_signed_trans:
  assumes "site_signed actor s s1" "si_ctl s1 = si_ctl s" "site_signed actor s1 s2"
  shows "site_signed actor s s2"
  unfolding site_signed_def
proof (intro conjI allI impI)
  fix t db db2 assume t: "si_tenants s t = Some db" "si_tenants s2 t = Some db2"
  then have "t \<in> dom (si_tenants s1)" using assms(1) by (auto simp: site_signed_def)
  then obtain db1 where "si_tenants s1 t = Some db1" by auto
  with t assms(1,3) have "db_signed actor db db1" "db_signed actor db1 db2" by (auto simp: site_signed_def)
  then show "db_signed actor db db2" by (rule signed_trans)
qed (use assms in \<open>auto simp: site_signed_def\<close>)

lemma copy_all_signed:
  "copy_all env seeds source actor reason targets s = (rs, s') \<Longrightarrow> \<forall>t \<in> set targets. si_tenants s t \<noteq> None \<Longrightarrow>
   s' = s \<or> actor \<noteq> [] \<and> site_signed actor s s'"
proof (induction targets arbitrary: s rs)
  case (Cons t targets)
  obtain r s1 where one: "copy_to env seeds source actor reason t s = (r, s1)" by force
  then obtain rs1 where rest: "copy_all env seeds source actor reason targets s1 = (rs1, s')" using Cons.prems(1) by (auto simp: Let_def split: prod.splits)
  obtain db where db: "si_tenants s t = Some db" using Cons.prems(2) by auto
  have s1: "s1 = s \<or> actor \<noteq> [] \<and> site_signed actor s s1" "si_ctl s1 = si_ctl s"
    using one db by (auto simp: copy_to_def Let_def site_signed_def dest!: many_writes_signed split: sum.splits if_splits)
  then have "\<forall>t \<in> set targets. si_tenants s1 t \<noteq> None" using Cons.prems(2) by (auto simp: site_signed_def)
  from Cons.IH [OF rest this] s1 show ?case by (auto intro: site_signed_trans)
qed simp

lemma check_targets_admitted: "check_targets s source used targets = Inr u \<Longrightarrow> \<forall>t \<in> set targets. si_tenants s t \<noteq> None"
  by (induction targets arbitrary: used) (auto simp: Let_def)

lemma copyAllJobs_handled: "handled actor reason s (copyAllJobs cfg env t src actor source targets reason s)"
proof (cases "bindE (tenantStore s source) (\<lambda>_. bindE (requireReason reason) (\<lambda>_. bindE (copyTargetStores s source targets) (\<lambda>_. activeJobSeeds cfg t src)))")
  case (Inr seeds)
  then have "TrimSpace reason \<noteq> []" "\<forall>t \<in> set targets. si_tenants s t \<noteq> None"
    by (auto simp: copyTargetStores_def dest!: check_targets_admitted)
  moreover obtain rs s' where run: "copy_all env seeds source actor reason targets s = (rs, s')" by force
  moreover from run have "snd (copyAllJobs cfg env t src actor source targets reason s) = s'"
    unfolding copyAllJobs_def Inr by simp
  ultimately show ?thesis using copy_all_signed [OF run] by (auto simp: handled_def)
qed (simp add: copyAllJobs_def handled_def)

text \<open>Every route.\<close>

lemma tenant_routes_handled:
  "handled actor (jb_Reason body) s (createJob cfg env t actor tenant body s)"
  "handled actor (jb_Reason body) s (patchJob cfg env t actor tenant name ifMatch body s)"
  "handled actor reason s (setPaused env actor tenant name p reason s)"
  "handled actor reason s (retireJob env actor tenant name reason s)"
  "handled actor reason s (triggerJob cfg env actor tenant name request params reason s)"
  "handled actor reason s (syncJobDescriptions cfg env seen actor tenant reason s)"
  "handled actor reason s (retryExecution env actor tenant key reason s)"
  "handled actor reason s (cancelExecution env seen actor tenant key reason s)"
  unfolding createJob_def patchJob_def setPaused_def retireJob_def triggerJob_def syncJobDescriptions_def retryExecution_def cancelExecution_def Let_def
  by (rule in_tenant_handled, force dest: one_write_signed Trigger_signed many_writes_signed)+

lemma control_routes_handled:
  "handled actor reason s (addIdentity env rand actor i t g auth reason s)"
  "handled actor reason s (setIdentityDisabled env actor i t b reason s)"
  "handled actor reason s (deleteIdentity env actor i t reason s)"
  "handled actor reason s (addTenant cfg rand env actor t dsn database uuid reason s)"
  "handled actor reason s (patchTenant env actor t b reason s)"
  "handled actor reason s (repointTenant cfg rand env op1 op2 c1 c2 c3 actor t dsn database uuid reason abandon s)"
  unfolding addIdentity_def setIdentityDisabled_def deleteIdentity_def addTenant_def patchTenant_def repointTenant_def Let_def
  by (rule in_control_handled, force dest: control_signed split: if_splits option.splits)+

lemma write_route_handled: "handled actor (reason_of req) s (write_route cfg ctx req actor s)"
  by (cases req) (simp_all add: tenant_routes_handled control_routes_handled copyAllJobs_handled)

lemma granted_operator: "Require a t table RoleOperator r = Granted actor role \<Longrightarrow> role = RoleOperator"
  by (auto simp: Require_def allows_def RoleOperator_def RoleViewer_def split: option.splits if_splits)

lemma gate_changes:
  assumes "write_gate a t table r h s = (reply, s')" "s' \<noteq> s"
  obtains actor out where "Require a t table RoleOperator r = Granted actor RoleOperator" "h actor s = (out, s')"
  using assms that by (auto simp: write_gate_def split: access.splits prod.splits dest: granted_operator)

lemma write_route_signs:
  assumes "write_gate a t table r (write_route cfg ctx req) s = (reply, s')" "s' \<noteq> s"
  shows "\<exists>actor. Require a t table RoleOperator r = Granted actor RoleOperator \<and> actor \<noteq> [] \<and> TrimSpace (reason_of req) \<noteq> [] \<and> site_signed actor s s'"
proof -
  obtain actor out where g: "Require a t table RoleOperator r = Granted actor RoleOperator" "write_route cfg ctx req actor s = (out, s')"
    by (rule gate_changes [OF assms])
  then show ?thesis using write_route_handled [of actor req s cfg ctx] assms(2) by (auto simp: handled_def)
qed

text \<open>Provisioning needs a reason, and touches one schema, which has none of the tables or is only now created.\<close>

lemma with_database_only:
  assumes "with_database sv cfg dsn0 database tenant reason schemas d \<noteq> schemas d"
  shows "TrimSpace reason \<noteq> [] \<and> resolveDSN (cg_DSNFor cfg) dsn0 database = Inr d \<and> schemas d = None"
  using assms by (auto simp: with_database_def split: sum.splits if_splits)

lemma provision_schema_empty: "provision_schema m files t tenant s = (r, s') \<Longrightarrow> s' \<noteq> s \<Longrightarrow> table_count m s = Inr 0"
  by (auto simp: provision_schema_def split: sum.splits if_splits)

lemma provisionTenant_left:
  assumes "provisionTenant DSNFor reach create OpenDB m files t dsn0 database tenant reason = (r, Some s')"
  obtains dsn s where "TrimSpace reason \<noteq> []" "resolveDSN DSNFor dsn0 database = Inr dsn" "OpenDB dsn = Some s"
    "s' = s \<or> table_count m s = Inr 0"
  using assms that
  by (auto simp: provisionTenant_def Let_def split: sum.splits prod.splits option.splits if_splits dest: provision_schema_empty)

definition provisions :: "'s server \<Rightarrow> 's install \<Rightarrow> string \<Rightarrow> 's install \<Rightarrow> bool" where
  "provisions sv i dsn i' \<longleftrightarrow> in_site i' = in_site i \<and> in_accounts i' = in_accounts i \<and>
     (\<forall>d. d \<noteq> dsn \<longrightarrow> in_schemas i' d = in_schemas i d) \<and>
     (\<forall>s. in_schemas i dsn = Some s \<longrightarrow> in_schemas i' dsn = Some s \<or> table_count (sv_mysql sv) s = Inr 0)"

lemma provision_route_only:
  assumes "provision_route sv cfg t dsn0 database tenant reason i = (out, i')" "i' \<noteq> i"
  shows "TrimSpace reason \<noteq> [] \<and> (\<exists>dsn. resolveDSN (cg_DSNFor cfg) dsn0 database = Inr dsn \<and> provisions sv i dsn i')"
proof -
  define schemas where "schemas = with_database sv cfg dsn0 database tenant reason (in_schemas i)"
  obtain r left where p: "provisionTenant (cg_DSNFor cfg) (sv_reach sv) (sv_create sv) (opened_at sv schemas) (sv_mysql sv) (sv_files sv) t
      dsn0 database tenant reason = (r, left)" by fastforce
  have only: "TrimSpace reason \<noteq> [] \<and> resolveDSN (cg_DSNFor cfg) dsn0 database = Inr d \<and> in_schemas i d = None"
    if "schemas d \<noteq> in_schemas i d" for d using with_database_only that unfolding schemas_def by blast
  show ?thesis
  proof (cases left)
    case None
    then have i': "i' = i\<lparr>in_schemas := schemas\<rparr>"
      using assms(1) p by (auto simp: provision_route_def Let_def schemas_def split: sum.splits)
    then obtain d where d: "schemas d \<noteq> in_schemas i d" using assms(2) by (metis ext install.surjective install.update_convs(3))
    have "schemas d' = in_schemas i d'" if "d' \<noteq> d" for d' using only [OF d] only [of d'] that by auto
    then have "provisions sv i d i'" using only [OF d] by (auto simp: provisions_def i')
    then show ?thesis using only [OF d] by blast
  next
    case (Some s')
    obtain dsn s where l: "TrimSpace reason \<noteq> []" "resolveDSN (cg_DSNFor cfg) dsn0 database = Inr dsn" "opened_at sv schemas dsn = Some s"
      "s' = s \<or> table_count (sv_mysql sv) s = Inr 0" using p unfolding Some by (rule provisionTenant_left)
    have i': "i' = i\<lparr>in_schemas := schemas(dsn \<mapsto> s')\<rparr>"
      using assms(1) p l(2) by (simp add: provision_route_def Let_def flip: schemas_def) (simp add: Some)
    have "schemas d = in_schemas i d" if "d \<noteq> dsn" for d using only [of d] l(2) that by auto
    moreover have "schemas dsn = Some s" using l(3) by (simp add: opened_at_def split: if_splits)
    then have "in_schemas i dsn = Some x \<Longrightarrow> x = s" for x using only [of dsn] by fastforce
    ultimately have "provisions sv i dsn i'" using l(4) by (auto simp: provisions_def i')
    then show ?thesis using l(1,2) by blast
  qed
qed

text \<open>C17: What can be changed through the operator API, and by whom. The routes that are not reads are the operator's own, provisioning and probing
  of schemas, first-run setup, and signing in and out. When a request to one of them changes the installation, then: through the
  operator's routes, it came with the identity of an OPERATOR and with a reason, and every database it changed has gained entries of
  its audit, all of them under that operator's name; through provisioning, it came with the identity of an OPERATOR and with a
  reason, and it changed one schema, which held none of go-job's tables or did not exist (of this no audit entry is left); a probe
  changes nothing; setup found no account at all and created one, an operator's; signing in passed the check of a password and,
  like signing out, changed sessions only.\<close>

theorem admin_writes_attributed:
  assumes "api_call a sv cfg ctx r req i = (reply, i')" "i' \<noteq> i"
  shows "case req of
      Operate w \<Rightarrow> in_accounts i' = in_accounts i \<and> in_schemas i' = in_schemas i \<and>
        (\<exists>actor. Require a (rc_time ctx) (accounts_read ctx i) RoleOperator r = Granted actor RoleOperator \<and> actor \<noteq> [] \<and>
           TrimSpace (reason_of w) \<noteq> [] \<and>
           (si_ctl (in_site i') = si_ctl (in_site i) \<or>
              (\<exists>x. ctl_audits (si_ctl (in_site i')) = ctl_audits (si_ctl (in_site i)) @ [x] \<and> ca_actor x = actor)) \<and>
           dom (si_tenants (in_site i')) = dom (si_tenants (in_site i)) \<and>
           (\<forall>n db db'. si_tenants (in_site i) n = Some db \<longrightarrow> si_tenants (in_site i') n = Some db' \<longrightarrow> db' = db \<or>
              (\<exists>l. l \<noteq> [] \<and> audits db' = audits db @ l \<and> (\<forall>x \<in> set l. jl_actor x = actor))))
    | Provision dsn0 database tenant reason \<Rightarrow>
        (\<exists>actor. Require a (rc_time ctx) (accounts_read ctx i) RoleOperator r = Granted actor RoleOperator) \<and> TrimSpace reason \<noteq> [] \<and>
        (\<exists>dsn. resolveDSN (cg_DSNFor cfg) dsn0 database = Inr dsn \<and> provisions sv i dsn i')
    | Probe _ _ \<Rightarrow> False
    | Setup username _ \<Rightarrow> in_site i' = in_site i \<and> in_schemas i' = in_schemas i \<and> ac_users (in_accounts i) = [] \<and>
        ac_sessions (in_accounts i') = ac_sessions (in_accounts i) \<and>
        (\<exists>u. ac_users (in_accounts i') = [u] \<and> us_username u = username \<and> us_role u = RoleOperator)
    | SignIn username password \<Rightarrow> in_site i' = in_site i \<and> in_schemas i' = in_schemas i \<and>
        ac_users (in_accounts i') = ac_users (in_accounts i) \<and> (\<exists>role. verify (sv_bcrypt sv) (in_accounts i) username password = Inr role)
    | SignOut \<Rightarrow> in_site i' = in_site i \<and> in_schemas i' = in_schemas i \<and> ac_users (in_accounts i') = ac_users (in_accounts i)"
proof (cases req)
  case (Operate w)
  obtain s' where w: "write_gate a (rc_time ctx) (accounts_read ctx i) r (write_route cfg ctx w) (in_site i) = (reply, s')" "i' = i\<lparr>in_site := s'\<rparr>"
    using assms(1) by (auto simp: Operate split: prod.splits)
  then have "s' \<noteq> in_site i" using assms(2) by auto
  from write_route_signs [OF w(1) this] show ?thesis
    unfolding Operate w(2) api_request.case site_signed_def ctl_signed_def db_signed_def by auto
next
  case (Provision dsn0 database tenant reason)
  have g: "write_gate a (rc_time ctx) (accounts_read ctx i) r (\<lambda>_. provision_route sv cfg (rc_time ctx) dsn0 database tenant reason) i = (reply, i')"
    using assms(1) by (simp add: Provision)
  obtain actor out where "Require a (rc_time ctx) (accounts_read ctx i) RoleOperator r = Granted actor RoleOperator"
    "provision_route sv cfg (rc_time ctx) dsn0 database tenant reason i = (out, i')" by (rule gate_changes [OF g assms(2)])
  then show ?thesis unfolding Provision api_request.case using provision_route_only [OF _ assms(2)] by blast
next
  case (Probe dsn database)
  then show ?thesis using assms by (auto elim: gate_changes)
next
  case (Setup username password)
  then show ?thesis
    using assms by (auto simp: createFirstAdmin_def CreateFirstAdmin_def split: sum.splits option.splits if_splits)
next
  case (SignIn username password)
  then show ?thesis
    using assms by (auto simp: login_def issue_def Let_def split: sum.splits option.splits if_splits prod.splits)
next
  case SignOut
  then show ?thesis using assms by (auto simp: logout_def revoke_def split: option.splits)
qed

definition quiet_ctl :: ctl where
  "quiet_ctl = \<lparr>registry = [], observations = [], identities = [], ctl_audits = [], ctl_next_audit = 1\<rparr>"

definition one_site :: site where
  "one_site = \<lparr>si_ctl = quiet_ctl, si_tenants = [''east'' \<mapsto> created]\<rparr>"

definition proxy_auth :: AdminAuth where
  "proxy_auth = NewAuth Hour \<lparr>th_Enabled = True, th_UserHeader = ''X-User'', th_RoleHeader = ''X-Role'', th_DefaultRole = []\<rparr>"

definition operator_request :: http_request where
  "operator_request = \<lparr>hr_Header = (\<lambda>h. if h = ''X-User'' then ''ada'' else if h = ''X-Role'' then ''operator'' else []), hr_cookie = None\<rparr>"

definition plain_config :: ApiConfig where
  "plain_config =
     \<lparr>cg_ExecutorLiveness = 30 * Second, cg_InstanceLiveness = 30 * Second, cg_Location = UTC, cg_LocationName = ''UTC'', cg_DSNFor = None,
      cg_Address = [], cg_User = [], cg_json = no_json, cg_aead = None\<rparr>"

definition quiet_ctx :: request_ctx where
  "quiet_ctx =
     \<lparr>rc_env = env_at 200, rc_time = 200 * Second, rc_rand = None, rc_seen = (\<lambda>_. created), rc_old = (\<lambda>_. None), rc_new = (\<lambda>_. None),
      rc_c1 = quiet_ctl, rc_c2 = quiet_ctl, rc_c3 = quiet_ctl, rc_accounts = True, rc_swept = True, rc_deleted = True\<rparr>"

text \<open>A server whose schemas are counts of statements executed.\<close>

definition counting_server :: "nat server" where
  "counting_server =
     \<lparr>sv_mysql = \<lparr>Exec = (\<lambda>_ n. Some (Suc n)), description_column = (\<lambda>_. Inr None), retention_index = (\<lambda>_. Inr None),
                   recorded_version = (\<lambda>_. Inr ''3''), table_count = (\<lambda>n. Inr n), UUID = (\<lambda>_. Inr ''u''), claim_schema = (\<lambda>_ _ _ _ n. Some (Suc n))\<rparr>,
      sv_empty = 0, sv_reach = (\<lambda>_. True), sv_create = (\<lambda>_. True), sv_opens = (\<lambda>_. True), sv_pings = (\<lambda>_. True), sv_identity = (\<lambda>_. None),
      sv_files = [], sv_bcrypt = plain_bcrypt\<rparr>"

definition one_install :: "nat install" where
  "one_install = \<lparr>in_site = one_site, in_accounts = \<lparr>ac_users = [], ac_sessions = []\<rparr>, in_schemas = Map.empty\<rparr>"

abbreviation paused_run :: "http_reply \<times> nat install" where
  "paused_run \<equiv> api_call proxy_auth counting_server plain_config quiet_ctx operator_request (Operate (ReqPauseJob ''east'' ''a'' ''freeze'')) one_install"

abbreviation setup_run :: "http_reply \<times> nat install" where
  "setup_run \<equiv> api_call proxy_auth counting_server plain_config quiet_ctx operator_request (Setup ''ada'' ''a long password'') one_install"

definition paused_db :: db where "paused_db = ok_db (SetPaused (env_at 200) ''a'' True ''ada'' ''freeze'' created)"

theorem admin_writes_attributed_witness:
  "si_tenants (in_site (snd paused_run)) ''east'' = Some paused_db \<and>
   (\<exists>l. audits paused_db = audits created @ l \<and> l \<noteq> [] \<and> (\<forall>x \<in> set l. jl_actor x = ''ada'')) \<and>
   (\<exists>u. ac_users (in_accounts (snd setup_run)) = [u] \<and> us_username u = ''ada'' \<and> us_role u = RoleOperator)"
proof -
  have east: "si_tenants (in_site one_install) ''east'' = Some created" by (simp add: one_install_def one_site_def)
  have granted: "Require proxy_auth (rc_time quiet_ctx) (accounts_read quiet_ctx one_install) RoleOperator operator_request = Granted ''ada'' RoleOperator"
    by code_simp
  have paused: "si_tenants (in_site (snd paused_run)) ''east'' = Some paused_db" by code_simp
  have "audits paused_db \<noteq> audits created" by code_simp
  then have changed: "paused_db \<noteq> created" by auto
  then have "snd paused_run \<noteq> one_install" using paused east by auto
  from admin_writes_attributed [OF surjective_pairing this] granted
  have "\<forall>n db db'. si_tenants (in_site one_install) n = Some db \<longrightarrow> si_tenants (in_site (snd paused_run)) n = Some db' \<longrightarrow> db' = db \<or>
     (\<exists>l. l \<noteq> [] \<and> audits db' = audits db @ l \<and> (\<forall>x \<in> set l. jl_actor x = ''ada''))" by auto
  moreover have "ac_users (in_accounts (snd setup_run)) \<noteq> ac_users (in_accounts one_install)" by code_simp
  then have "snd setup_run \<noteq> one_install" by auto
  from admin_writes_attributed [OF surjective_pairing this]
  have "\<exists>u. ac_users (in_accounts (snd setup_run)) = [u] \<and> us_username u = ''ada'' \<and> us_role u = RoleOperator" by simp
  ultimately show ?thesis using east paused changed by blast
qed

end
