(* ===== verification/Upgrades.thy ===== *)
theory Upgrades
  imports Migration
begin

text \<open>
  Which migrations an upgrade runs, and that it can be interrupted anywhere and run by several instances at once: the
  statements the shipped files split into, the invariant of a schema under concurrent upgrades, and the run that finishes.
\<close>

section \<open>Trimming\<close>

definition plain :: "char \<Rightarrow> bool" where
  "plain c \<longleftrightarrow> 33 \<le> (of_char c :: nat) \<and> (of_char c :: nat) < 127"

lemma space_small: "ascii_space c \<Longrightarrow> (of_char c :: nat) \<le> 32"
  by (auto simp: ascii_space_def)

lemma space_not_plain: "c \<in> set (take (space_len s) s) \<Longrightarrow> \<not> plain c"
  by (induction s rule: space_len.induct)
    (auto simp: Let_def plain_def dest!: space_small split: if_splits)

lemma trim_left_keeps: "c \<in> set s \<Longrightarrow> plain c \<Longrightarrow> c \<in> set (trim_left s)"
proof (induction s rule: trim_left.induct)
  case (1 s)
  show ?case
  proof (cases "s = [] \<or> space_len s = 0")
    case False
    have "c \<in> set (take (space_len s) s) \<union> set (drop (space_len s) s)" using 1(2) by (metis append_take_drop_id set_append)
    then have "c \<in> set (drop (space_len s) s)" using space_not_plain 1(3) by blast
    with False 1 show ?thesis by (subst trim_left.simps) auto
  qed (use 1 in \<open>subst trim_left.simps, auto\<close>)
qed

lemma plain_space_len: "plain c \<Longrightarrow> space_len (c # s) = 0"
  using space_not_plain [of c "c # s"] by (cases "space_len (c # s)") auto

lemma trim_left_plain: "plain c \<Longrightarrow> trim_left (c # s) = c # s"
  by (subst trim_left.simps) (simp add: plain_space_len)

lemma trim_right_plain: "s \<noteq> [] \<Longrightarrow> plain (last s) \<Longrightarrow> trim_right s = s"
proof (induction s)
  case (Cons c s)
  have "last (c # s) \<in> set (trim_left (c # s))" by (rule trim_left_keeps) (use Cons.prems in simp_all)
  then have "trim_left (c # s) \<noteq> []" by auto
  then show ?case using Cons by (cases s) auto
qed simp

lemma TrimSpace_plain: "plain c \<Longrightarrow> plain (last (c # s)) \<Longrightarrow> TrimSpace (c # s) = c # s"
  using trim_right_plain [of "c # s"] by (simp only: TrimSpace_def trim_left_plain list.distinct simp_thms)

lemma TrimSpace_not_blank: "list_ex plain s \<Longrightarrow> TrimSpace s \<noteq> []"
proof -
  assume "list_ex plain s"
  then obtain c where c: "c \<in> set s" "plain c" by (auto simp: list_ex_iff)
  then have c': "c \<in> set (trim_left s)" by (rule trim_left_keeps)
  have kept: "trim_left t \<noteq> []" if "c \<in> set t" for t using trim_left_keeps [OF that c(2)] by auto
  have "c \<in> set (trim_right t)" if "c \<in> set t" for t
    using that by (induction t) (use kept in auto)
  from this [OF c'] show ?thesis by (auto simp: TrimSpace_def)
qed


section \<open>The statements of the migrations\<close>

definition add_index :: string where
  "add_index = ''ALTER TABLE job_execution'' @ [nl] @ ''    ADD KEY idx_job_execution_retention (status, finished_at, id)''"

definition set_version :: "char \<Rightarrow> char \<Rightarrow> string" where
  "set_version v was =
     ''UPDATE schema_identity'' @ [nl] @ ''SET schema_version = '' @ [CHR 0x27, v, CHR 0x27, nl] @
     ''WHERE lock_row = 1 AND schema_version = '' @ [CHR 0x27, was, CHR 0x27]"

definition add_column :: string where
  "add_column = ''ALTER TABLE job_executor_handler'' @ [nl] @ ''    ADD COLUMN description VARCHAR(512) NOT NULL DEFAULT '' @
     [CHR 0x27, CHR 0x27] @ '' AFTER handler_key''"

lemma TrimSpace_newline: "TrimSpace (nl # s) = TrimSpace s"
proof -
  have "ascii_space nl" by code_simp
  then have "space_len (nl # s) = 1" by (cases s rule: list.exhaust; cases "tl s") auto
  then show ?thesis unfolding TrimSpace_def by (subst (1) trim_left.simps) simp
qed

lemma SplitDDL_two:
  assumes "map before_comment (split_on nl ddl) = ls" "filter (list_ex plain) ls = ks" "\<forall>l \<in> set ls. l = [] \<or> list_ex plain l"
    "split_on (CHR '';'') (join_lines ks) = [a, nl # b, []]" "TrimSpace a = a" "TrimSpace b = b" "a \<noteq> []" "b \<noteq> []"
  shows "SplitDDL ddl = [a, b]"
proof -
  have blank: "TrimSpace [] = []" by code_simp
  then have "TrimSpace l \<noteq> [] \<longleftrightarrow> list_ex plain l" if "l \<in> set ls" for l
    using assms(3) that TrimSpace_not_blank by auto
  then have "filter (\<lambda>line. TrimSpace line \<noteq> []) (map before_comment (split_on nl ddl)) = ks"
    unfolding assms(1) assms(2) [symmetric] by (rule filter_cong [OF refl])
  then show ?thesis unfolding SplitDDL_def Let_def using assms(4-) blank TrimSpace_newline [of b] by simp
qed

lemma split_retention: "SplitDDL retention_ddl = [add_index, set_version (CHR ''2'') (CHR ''1'')]"
proof (rule SplitDDL_two)
  show "map before_comment (split_on nl retention_ddl) =
    [[], ''ALTER TABLE job_execution'', ''    ADD KEY idx_job_execution_retention (status, finished_at, id);'', [], ''UPDATE schema_identity'',
     ''SET schema_version = '' @ [CHR 0x27, CHR ''2'', CHR 0x27],
     ''WHERE lock_row = 1 AND schema_version = '' @ [CHR 0x27, CHR ''1'', CHR 0x27, CHR '';''], []]" by code_simp
  show "split_on (CHR '';'') (join_lines
     [''ALTER TABLE job_execution'', ''    ADD KEY idx_job_execution_retention (status, finished_at, id);'', ''UPDATE schema_identity'',
     ''SET schema_version = '' @ [CHR 0x27, CHR ''2'', CHR 0x27],
     ''WHERE lock_row = 1 AND schema_version = '' @ [CHR 0x27, CHR ''1'', CHR 0x27, CHR '';'']]) =
     [add_index, nl # set_version (CHR ''2'') (CHR ''1''), []]" by code_simp
qed (simp_all add: plain_def add_index_def set_version_def TrimSpace_plain)

lemma split_descriptions: "SplitDDL descriptions_ddl = [add_column, set_version (CHR ''3'') (CHR ''2'')]"
proof (rule SplitDDL_two)
  show "map before_comment (split_on nl descriptions_ddl) =
    [[], [], ''ALTER TABLE job_executor_handler'', ''    ADD COLUMN description VARCHAR(512) NOT NULL DEFAULT '' @ [CHR 0x27, CHR 0x27] @ '' AFTER handler_key;'',
     [], ''UPDATE schema_identity'', ''SET schema_version = '' @ [CHR 0x27, CHR ''3'', CHR 0x27],
     ''WHERE lock_row = 1 AND schema_version = '' @ [CHR 0x27, CHR ''2'', CHR 0x27, CHR '';''], []]" by code_simp
  show "split_on (CHR '';'') (join_lines
     [''ALTER TABLE job_executor_handler'', ''    ADD COLUMN description VARCHAR(512) NOT NULL DEFAULT '' @ [CHR 0x27, CHR 0x27] @ '' AFTER handler_key;'',
     ''UPDATE schema_identity'', ''SET schema_version = '' @ [CHR 0x27, CHR ''3'', CHR 0x27],
     ''WHERE lock_row = 1 AND schema_version = '' @ [CHR 0x27, CHR ''2'', CHR 0x27, CHR '';'']]) =
     [add_column, nl # set_version (CHR ''3'') (CHR ''2''), []]" by code_simp
qed (simp_all add: plain_def add_column_def set_version_def TrimSpace_plain)

lemma statements_mention:
  "contains_str add_index ''idx_job_execution_retention''" "\<not> contains_str (set_version (CHR ''2'') (CHR ''1'')) ''idx_job_execution_retention''"
  "contains_str add_column ''ADD COLUMN description''" "\<not> contains_str (set_version (CHR ''3'') (CHR ''2'')) ''ADD COLUMN description''"
  by code_simp+


section \<open>Which migrations are pending\<close>

lemma Validate_nth:
  assumes "Validate ms" "i < length ms"
  shows "mg_Version (ms ! i) = 1 + int i"
proof -
  have "(i, ms ! i) \<in> set (List.enumerate 0 ms)" using assms(2) by (auto simp: set_conv_nth nth_enumerate_eq intro!: exI [of _ i])
  then show ?thesis using assms(1) by (auto simp: Validate_def InitialVersion_def list_all_iff)
qed

lemma filter_versions:
  assumes "Validate ms" "c \<le> r" "r \<le> length ms"
  shows "filter (\<lambda>m. mg_Version m > int c \<and> mg_Version m \<le> int r) ms = drop c (take r ms)"
proof -
  define P where "P = (\<lambda>m :: Migration. mg_Version m > int c \<and> mg_Version m \<le> int r)"
  have split: "ms = take c ms @ drop c (take r ms) @ drop r ms"
    using assms(2) by (metis append_assoc append_take_drop_id min.absorb1 take_take)
  have vs: "P (ms ! i) \<longleftrightarrow> c \<le> i \<and> i < r" if "i < length ms" for i using Validate_nth [OF assms(1) that] by (auto simp: P_def)
  have "filter P (take c ms) = []" using assms(2,3) by (auto simp: filter_empty_conv in_set_conv_nth vs)
  moreover have "filter P (drop c (take r ms)) = drop c (take r ms)"
    using assms(2,3) by (auto simp: filter_id_conv in_set_conv_nth vs)
  moreover have "filter P (drop r ms) = []" using assms(3) by (auto simp: filter_empty_conv in_set_conv_nth vs)
  ultimately show ?thesis unfolding P_def [symmetric] by (subst split) (simp only: filter_append append_Nil append_Nil2)
qed

text \<open>An upgrade runs exactly the migrations that are missing, in order: from version \<open>c\<close> to version \<open>r\<close> of a stream that
  validates it takes those numbered \<open>c + 1\<close> to \<open>r\<close>, nothing is pending at the required version, and a schema newer than the build,
  older than the first migration, or further behind than the stream reaches is refused.\<close>

lemma pending_exact:
  assumes "Validate ms" "parseInt current = Some c" "parseInt required = Some r"
  shows "Pending ms current required =
    (if 1 \<le> c \<and> c \<le> r \<and> (c = r \<or> r \<le> int (length ms)) then Inr (if c = r then [] else drop (nat c) (take (nat r) ms)) else Inl ErrOther)"
proof -
  have "ms \<noteq> []" using assms(1) by (simp add: Validate_def)
  then have last: "mg_Version (last ms) = int (length ms)"
    using Validate_nth [OF assms(1), of "length ms - 1"] by (auto simp: last_conv_nth of_nat_diff Suc_le_eq)
  have "filter (\<lambda>m. mg_Version m > c \<and> mg_Version m \<le> r) ms = drop (nat c) (take (nat r) ms)" if "1 \<le> c" "c \<le> r" "r \<le> int (length ms)"
    using filter_versions [OF assms(1), of "nat c" "nat r"] that by simp
  then show ?thesis using assms last by (auto simp: Pending_def InitialVersion_def Let_def)
qed

definition shipped :: "string \<Rightarrow> Migration list" where
  "shipped ddl1 =
     [\<lparr>mg_Version = 1, mg_Name = ''001_tenant.sql'', mg_DDL = ddl1\<rparr>,
      \<lparr>mg_Version = 2, mg_Name = ''002_execution_retention.sql'', mg_DDL = retention_ddl\<rparr>,
      \<lparr>mg_Version = 3, mg_Name = ''003_handler_descriptions.sql'', mg_DDL = descriptions_ddl\<rparr>]"

lemma Validate_shipped: "Validate (shipped ddl1)"
  by (simp add: Validate_def shipped_def InitialVersion_def TrimSpace_not_blank plain_def)

lemma embedded_shipped: "TenantMigrations (embedded ddl1) = Inr (shipped ddl1)"
proof -
  have "parseInt (before_byte (CHR ''_'') ''001_tenant.sql'') = Some 1" "parseInt (before_byte (CHR ''_'') ''002_execution_retention.sql'') = Some 2"
    "parseInt (before_byte (CHR ''_'') ''003_handler_descriptions.sql'') = Some 3" by code_simp+
  then have "read_migrations (embedded ddl1) = Inr (shipped ddl1)" by (simp add: embedded_def shipped_def)
  then show ?thesis by (simp add: TenantMigrations_def Validate_shipped)
qed

lemma parse_versions: "parseInt ''1'' = Some 1" "parseInt ''2'' = Some 2" "parseInt ''3'' = Some 3" "parseInt SchemaVersion = Some 3"
  by code_simp+

section \<open>Interrupted and concurrent upgrades\<close>

text \<open>The three facts of a schema an upgrade looks at: key, column, version.\<close>

type_synonym column = "(string option \<times> string option \<times> string option) option"

definition facts :: "'s mysql \<Rightarrow> 's \<Rightarrow> string option \<Rightarrow> column \<Rightarrow> string \<Rightarrow> bool" where
  "facts m s i c v \<longleftrightarrow> retention_index m s = Inr i \<and> description_column m s = Inr c \<and> recorded_version m s = Inr v"

definition good_column :: column where "good_column = Some (Some ''varchar(512)'', Some ''NO'', Some [])"
definition good_index :: "string option" where "good_index = Some ''status,finished_at,id''"

abbreviation to_two :: string where "to_two \<equiv> set_version (CHR ''2'') (CHR ''1'')"
abbreviation to_three :: string where "to_three \<equiv> set_version (CHR ''3'') (CHR ''2'')"

text \<open>What is asked of MySQL: adding the key or the column succeeds when there is none of the name, leaves what the statement says, and
  is refused when there is one; an UPDATE of the recorded version does what it says.\<close>

definition mysql_ok :: "'s mysql \<Rightarrow> bool" where
  "mysql_ok m \<longleftrightarrow> (\<forall>s i c v. facts m s i c v \<longrightarrow>
     (if i = None then \<exists>s'. Exec m add_index s = Some s' \<and> facts m s' good_index c v else Exec m add_index s = None) \<and>
     (if c = None then \<exists>s'. Exec m add_column s = Some s' \<and> facts m s' i good_column v else Exec m add_column s = None) \<and>
     (\<exists>s'. Exec m to_two s = Some s' \<and> facts m s' i c (if v = ''1'' then ''2'' else v)) \<and>
     (\<exists>s'. Exec m to_three s = Some s' \<and> facts m s' i c (if v = ''2'' then ''3'' else v)))"

lemma mysql_okD:
  assumes "mysql_ok m" "facts m s i c v"
  shows "i = None \<Longrightarrow> \<exists>s'. Exec m add_index s = Some s' \<and> facts m s' good_index c v" "i \<noteq> None \<Longrightarrow> Exec m add_index s = None"
    "c = None \<Longrightarrow> \<exists>s'. Exec m add_column s = Some s' \<and> facts m s' i good_column v" "c \<noteq> None \<Longrightarrow> Exec m add_column s = None"
    "\<exists>s'. Exec m to_two s = Some s' \<and> facts m s' i c (if v = ''1'' then ''2'' else v)"
    "\<exists>s'. Exec m to_three s = Some s' \<and> facts m s' i c (if v = ''2'' then ''3'' else v)"
proof -
  note laws = assms(1) [unfolded mysql_ok_def, rule_format, OF assms(2)]
  show "i = None \<Longrightarrow> \<exists>s'. Exec m add_index s = Some s' \<and> facts m s' good_index c v" "i \<noteq> None \<Longrightarrow> Exec m add_index s = None"
    "c = None \<Longrightarrow> \<exists>s'. Exec m add_column s = Some s' \<and> facts m s' i good_column v" "c \<noteq> None \<Longrightarrow> Exec m add_column s = None"
    using laws by simp_all
qed (use assms(1) [unfolded mysql_ok_def, rule_format, OF assms(2)] in simp_all)

text \<open>Instances upgrade the same schema at once: one that admits the tenant reads the version and takes up what is pending, inspects
  a statement, skips or executes it, and may stop anywhere, on an error or without one.\<close>

datatype upgrader = Idle | Running "(int \<times> string) list" | Inspected "(int \<times> string) list"

inductive upgrade_step :: "'s mysql \<Rightarrow> Migration list \<Rightarrow> 's \<times> (nat \<Rightarrow> upgrader) \<Rightarrow> 's \<times> (nat \<Rightarrow> upgrader) \<Rightarrow> bool" for m ms where
  takes_up: "us k = Idle \<Longrightarrow> recorded_version m s = Inr v \<Longrightarrow> Pending ms v SchemaVersion = Inr p \<Longrightarrow>
     upgrade_step m ms (s, us) (s, us(k := Running (statements_of p)))"
| skips: "us k = Running ((n, st) # sts) \<Longrightarrow> alreadyApplied m s n st = Inr True \<Longrightarrow> upgrade_step m ms (s, us) (s, us(k := Running sts))"
| inspects: "us k = Running ((n, st) # sts) \<Longrightarrow> alreadyApplied m s n st = Inr False \<Longrightarrow>
     upgrade_step m ms (s, us) (s, us(k := Inspected ((n, st) # sts)))"
| executes: "us k = Inspected ((n, st) # sts) \<Longrightarrow> Exec m st s = Some s' \<Longrightarrow> upgrade_step m ms (s, us) (s', us(k := Running sts))"
| stops: "upgrade_step m ms (s, us) (s, us(k := Idle))"

definition full_run :: "(int \<times> string) list" where
  "full_run = [(2, add_index), (2, to_two), (3, add_column), (3, to_three)]"

text \<open>A version is recorded only over what it stands for, and an instance is never past a statement whose effect is missing.\<close>

definition version_ok :: "string option \<Rightarrow> column \<Rightarrow> string \<Rightarrow> bool" where
  "version_ok i c v \<longleftrightarrow> i \<in> {None, good_index} \<and> c \<in> {None, good_column} \<and> v \<in> {''1'', ''2'', ''3''} \<and> (v \<noteq> ''1'' \<longrightarrow> i = good_index) \<and>
     (v = ''3'' \<longrightarrow> c = good_column)"

definition past_ok :: "string option \<Rightarrow> column \<Rightarrow> (int \<times> string) list \<Rightarrow> bool" where
  "past_ok i c p \<longleftrightarrow> (\<exists>k \<le> 4. p = drop k full_run \<and> (1 \<le> k \<longrightarrow> i = good_index) \<and> (3 \<le> k \<longrightarrow> c = good_column))"

fun upgrader_ok :: "string option \<Rightarrow> column \<Rightarrow> upgrader \<Rightarrow> bool" where
  "upgrader_ok i c Idle = True"
| "upgrader_ok i c (Running p) = past_ok i c p"
| "upgrader_ok i c (Inspected p) = past_ok i c p"

definition upgrade_ok :: "'s mysql \<Rightarrow> 's \<times> (nat \<Rightarrow> upgrader) \<Rightarrow> bool" where
  "upgrade_ok m w \<longleftrightarrow> (\<exists>i c v. facts m (fst w) i c v \<and> version_ok i c v \<and> (\<forall>k. upgrader_ok i c (snd w k)))"

lemma pending_shipped:
  "Pending (shipped ddl1) ''1'' SchemaVersion = Inr (drop (Suc 0) (shipped ddl1))" "Pending (shipped ddl1) ''2'' SchemaVersion = Inr (drop 2 (shipped ddl1))"
  "Pending (shipped ddl1) ''3'' SchemaVersion = Inr []"
  using Validate_shipped [of ddl1] by (auto simp: Pending_def parse_versions InitialVersion_def shipped_def)

lemma statements_shipped: "statements_of (drop (Suc 0) (shipped ddl1)) = full_run" "statements_of (drop 2 (shipped ddl1)) = drop 2 full_run"
  by (simp_all add: statements_of_def shipped_def split_retention split_descriptions full_run_def)

lemma applied_simps:
  assumes "facts m s i c v" "version_ok i c v"
  shows "alreadyApplied m s 2 add_index = Inr (i \<noteq> None)" "alreadyApplied m s 2 to_two = Inr False"
    "alreadyApplied m s 3 add_column = Inr (c \<noteq> None)" "alreadyApplied m s 3 to_three = Inr False"
  using assms by (auto simp: alreadyApplied_def statements_mention facts_def version_ok_def good_index_def good_column_def coalesce_str_def)


lemma facts_unique: "facts m s i c v \<Longrightarrow> facts m s i' c' v' \<Longrightarrow> i' = i \<and> c' = c \<and> v' = v"
  by (simp add: facts_def)

lemma past_cases:
  assumes "past_ok i c ((n, st) # sts)"
  obtains "n = 2" "st = add_index" "sts = drop (Suc 0) full_run"
  | "n = 2" "st = to_two" "sts = drop 2 full_run" "i = good_index"
  | "n = 3" "st = add_column" "sts = drop 3 full_run" "i = good_index"
  | "n = 3" "st = to_three" "sts = drop 4 full_run" "i = good_index" "c = good_column"
proof -
  from assms obtain k where "k \<le> 4" "drop k full_run = (n, st) # sts" "1 \<le> k \<longrightarrow> i = good_index" "3 \<le> k \<longrightarrow> c = good_column"
    unfolding past_ok_def by metis
  moreover from this have "k = 0 \<or> k = 1 \<or> k = 2 \<or> k = 3" by (auto simp: full_run_def le_Suc_eq numeral_eq_Suc)
  ultimately show ?thesis using that by (auto simp: full_run_def)
qed

lemma past_okI:
  "i = good_index \<Longrightarrow> past_ok i c (drop (Suc 0) full_run)" "i = good_index \<Longrightarrow> past_ok i c (drop 2 full_run)" "past_ok i c full_run"
  "i = good_index \<Longrightarrow> c = good_column \<Longrightarrow> past_ok i c (drop 3 full_run)" "i = good_index \<Longrightarrow> c = good_column \<Longrightarrow> past_ok i c (drop 4 full_run)"
  unfolding past_ok_def
  by (rule exI [of _ "Suc 0"] exI [of _ 2] exI [of _ 0] exI [of _ 3] exI [of _ 4], simp)+

lemma upgrader_ok_mono:
  "upgrader_ok i c u \<Longrightarrow> (i = good_index \<Longrightarrow> i' = good_index) \<Longrightarrow> (c = good_column \<Longrightarrow> c' = good_column) \<Longrightarrow> upgrader_ok i' c' u"
  by (cases u) (auto simp: past_ok_def)

lemma executes_ok:
  assumes "mysql_ok m" "facts m s i c v" "version_ok i c v" "past_ok i c ((n, st) # sts)" "Exec m st s = Some s'"
  shows "\<exists>i' c' v'. facts m s' i' c' v' \<and> version_ok i' c' v' \<and> past_ok i' c' sts \<and> (i = good_index \<longrightarrow> i' = good_index) \<and>
    (c = good_column \<longrightarrow> c' = good_column)"
  using assms(4)
proof (cases rule: past_cases)
  case 1
  then have "i = None" using mysql_okD(2) [OF assms(1,2)] assms(5) by (cases "i = None") auto
  then have "facts m s' good_index c v" using mysql_okD(1) [OF assms(1,2)] assms(5) 1 by auto
  then show ?thesis using 1 assms(3) by (intro exI [of _ good_index] exI [of _ c] exI [of _ v]) (auto simp: version_ok_def past_okI)
next
  case 2
  then have "facts m s' i c (if v = ''1'' then ''2'' else v)" using mysql_okD(5) [OF assms(1,2)] assms(5) by auto
  then show ?thesis using 2 assms(3) by (intro exI [of _ i] exI [of _ c] exI [of _ "if v = ''1'' then ''2'' else v"]) (auto simp: version_ok_def past_okI)
next
  case 3
  then have "c = None" using mysql_okD(4) [OF assms(1,2)] assms(5) by (cases "c = None") auto
  then have "facts m s' i good_column v" using mysql_okD(3) [OF assms(1,2)] assms(5) 3 by auto
  then show ?thesis using 3 assms(3) by (intro exI [of _ i] exI [of _ good_column] exI [of _ v]) (auto simp: version_ok_def past_okI)
next
  case 4
  then have "facts m s' i c (if v = ''2'' then ''3'' else v)" using mysql_okD(6) [OF assms(1,2)] assms(5) by auto
  then show ?thesis using 4 assms(3) by (intro exI [of _ i] exI [of _ c] exI [of _ "if v = ''2'' then ''3'' else v"]) (auto simp: version_ok_def past_okI)
qed

lemma skips_ok:
  assumes "facts m s i c v" "version_ok i c v" "past_ok i c ((n, st) # sts)" "alreadyApplied m s n st = Inr True"
  shows "past_ok i c sts"
  using assms(3) by (cases rule: past_cases) (use assms(2,4) applied_simps [OF assms(1,2)] in \<open>auto simp: version_ok_def past_okI\<close>)

lemma takes_up_ok:
  assumes "version_ok i c v" "Pending (shipped ddl1) v SchemaVersion = Inr p"
  shows "past_ok i c (statements_of p)"
proof -
  consider "v = ''1''" | "v = ''2''" "i = good_index" | "v = ''3''" "i = good_index" "c = good_column" using assms(1) by (auto simp: version_ok_def)
  then show ?thesis
  proof cases
    case 3
    then have "p = []" using assms(2) by (simp add: pending_shipped)
    then show ?thesis using past_okI(5) [OF 3(2,3)] by (simp add: statements_of_def full_run_def)
  qed (use assms(2) in \<open>auto simp: pending_shipped statements_shipped past_okI\<close>)
qed

lemma upgrade_step_ok:
  assumes "mysql_ok m" "upgrade_step m (shipped ddl1) w w'" "upgrade_ok m w"
  shows "upgrade_ok m w'"
proof -
  from assms(3) obtain i c v where ok: "facts m (fst w) i c v" "version_ok i c v" "\<And>k. upgrader_ok i c (snd w k)" by (auto simp: upgrade_ok_def)
  from assms(2) show ?thesis
  proof cases
    case (takes_up us k s v' p)
    then have "v' = v" using ok(1) by (simp add: facts_def)
    then have "past_ok i c (statements_of p)" using takes_up_ok [OF ok(2)] takes_up by simp
    then show ?thesis using ok takes_up by (auto simp: upgrade_ok_def intro!: exI)
  next
    case (skips us k n st sts s)
    then have "past_ok i c sts" using skips_ok [of m s i c v n st sts] ok(1,2) ok(3) [of k] by simp
    then show ?thesis using ok skips by (auto simp: upgrade_ok_def intro!: exI)
  next
    case (inspects us k n st sts s)
    then have "past_ok i c ((n, st) # sts)" using ok(3) [of k] by simp
    then show ?thesis using ok inspects by (auto simp: upgrade_ok_def intro!: exI)
  next
    case (executes us k n st sts s s')
    then have "past_ok i c ((n, st) # sts)" using ok(3) [of k] by simp
    with executes ok(1,2) obtain i' c' v' where new: "facts m s' i' c' v'" "version_ok i' c' v'" "past_ok i' c' sts"
      "i = good_index \<longrightarrow> i' = good_index" "c = good_column \<longrightarrow> c' = good_column" using executes_ok [OF assms(1)] by (metis fst_conv)
    have "upgrader_ok i' c' ((us(k := Running sts)) l)" for l using new upgrader_ok_mono [OF ok(3) [of l]] executes(1) by auto
    then show ?thesis unfolding upgrade_ok_def executes(2) fst_conv snd_conv using new(1,2) by blast
  next
    case (stops s us k)
    then show ?thesis using ok by (auto simp: upgrade_ok_def intro!: exI)
  qed
qed

lemma upgrade_steps_ok:
  assumes "mysql_ok m" "(upgrade_step m (shipped ddl1))\<^sup>*\<^sup>* w w'" "upgrade_ok m w"
  shows "upgrade_ok m w'"
  using assms(2,3) by (induction rule: rtranclp_induct) (auto intro: upgrade_step_ok [OF assms(1)])


lemma applies:
  assumes "mysql_ok m" "facts m s i c v" "version_ok i c v"
  shows "\<exists>s'. apply_statement m 2 add_index s = Inr s' \<and> facts m s' good_index c v"
    "\<exists>s'. apply_statement m 2 to_two s = Inr s' \<and> facts m s' i c (if v = ''1'' then ''2'' else v)"
    "\<exists>s'. apply_statement m 3 add_column s = Inr s' \<and> facts m s' i good_column v"
    "\<exists>s'. apply_statement m 3 to_three s = Inr s' \<and> facts m s' i c (if v = ''2'' then ''3'' else v)"
proof -
  note skip = applied_simps [OF assms(2,3)] and laws = mysql_okD [OF assms(1,2)]
  have cases: "i \<noteq> None \<longrightarrow> i = good_index" "c \<noteq> None \<longrightarrow> c = good_column" using assms(3) by (auto simp: version_ok_def)
  show "\<exists>s'. apply_statement m 2 add_index s = Inr s' \<and> facts m s' good_index c v"
    using laws(1) cases(1) assms(2) by (cases "i = None") (auto simp: apply_statement_def skip)
  show "\<exists>s'. apply_statement m 3 add_column s = Inr s' \<and> facts m s' i good_column v"
    using laws(3) cases(2) assms(2) by (cases "c = None") (auto simp: apply_statement_def skip)
qed (use mysql_okD(5,6) [OF assms(1,2)] in \<open>auto simp: apply_statement_def applied_simps [OF assms(2,3)]\<close>)

lemma run_from_two:
  assumes "mysql_ok m" "facts m s good_index c ''2''" "version_ok good_index c ''2''"
  shows "\<exists>s'. run_statements m (drop 2 full_run) s = (s', None) \<and> facts m s' good_index good_column ''3''"
proof -
  obtain s1 where s1: "apply_statement m 3 add_column s = Inr s1" "facts m s1 good_index good_column ''2''" using applies(3) [OF assms] by blast
  have "version_ok good_index good_column ''2''" by (simp add: version_ok_def)
  from applies(4) [OF assms(1) s1(2) this] s1 show ?thesis by (auto simp: full_run_def)
qed

lemma run_from_one:
  assumes "mysql_ok m" "facts m s i c ''1''" "version_ok i c ''1''"
  shows "\<exists>s'. run_statements m full_run s = (s', None) \<and> facts m s' good_index good_column ''3''"
proof -
  obtain s1 where s1: "apply_statement m 2 add_index s = Inr s1" "facts m s1 good_index c ''1''" using applies(1) [OF assms] by blast
  have ok1: "version_ok good_index c ''1''" "version_ok good_index c ''2''" using assms(3) by (auto simp: version_ok_def)
  obtain s2 where s2: "apply_statement m 2 to_two s1 = Inr s2" "facts m s2 good_index c ''2''" using applies(2) [OF assms(1) s1(2) ok1(1)] by auto
  have "run_statements m full_run s = run_statements m (drop 2 full_run) s2" using s1 s2 by (simp add: full_run_def)
  then show ?thesis using run_from_two [OF assms(1) s2(2) ok1(2)] by simp
qed

lemma Upgrade_runs:
  assumes "Pending ms v SchemaVersion = Inr p" "run_statements m (statements_of p) s = (s', None)" "facts m s' i c ''3''"
  shows "Upgrade m ms v SchemaVersion s = (s', None)"
  using assms by (cases p) (auto simp: Upgrade_def statements_of_def facts_def SchemaVersion_def)

text \<open>C21: An upgrade can always be taken up again: from a schema of version 1, however many instances ran its migrations at the same
  time, in whatever order their statements fell and wherever each of them stopped, a run that is not disturbed returns without an
  error and leaves the schema with the key, the column and the version this build requires.\<close>

theorem upgrade_restarts:
  assumes "mysql_ok m" "TenantMigrations (embedded ddl1) = Inr ms" "facts m s0 None None ''1''"
    "(upgrade_step m ms)\<^sup>*\<^sup>* (s0, \<lambda>_. Idle) (s, us)"
  shows "\<exists>v s'. recorded_version m s = Inr v \<and> Upgrade m ms v SchemaVersion s = (s', None) \<and> facts m s' good_index good_column SchemaVersion"
proof -
  have ms: "ms = shipped ddl1" using assms(2) by (simp add: embedded_shipped)
  have "upgrade_ok m (s0, \<lambda>_. Idle)" using assms(3) by (auto simp: upgrade_ok_def version_ok_def intro!: exI)
  from upgrade_steps_ok [OF assms(1) assms(4) [unfolded ms] this] obtain i c v
    where ok: "facts m s i c v" "version_ok i c v" by (auto simp: upgrade_ok_def)
  then consider "v = ''1''" | "v = ''2''" "i = good_index" | "v = ''3''" "i = good_index" "c = good_column" by (auto simp: version_ok_def)
  then have "\<exists>s'. Upgrade m ms v SchemaVersion s = (s', None) \<and> facts m s' good_index good_column ''3''"
  proof cases
    case 1
    then obtain s' where "run_statements m full_run s = (s', None)" "facts m s' good_index good_column ''3''"
      using run_from_one [OF assms(1) ok [unfolded 1]] by auto
    then show ?thesis unfolding ms 1 by (intro exI [of _ s'] conjI Upgrade_runs [OF pending_shipped(1)]) (simp_all add: statements_shipped)
  next
    case 2
    then obtain s' where "run_statements m (drop 2 full_run) s = (s', None)" "facts m s' good_index good_column ''3''"
      using run_from_two [OF assms(1) ok [unfolded 2]] by auto
    then show ?thesis unfolding ms 2(1) by (intro exI [of _ s'] conjI Upgrade_runs [OF pending_shipped(2)]) (simp_all add: statements_shipped)
  next
    case 3
    then show ?thesis using ok(1) by (auto simp: Upgrade_def ms pending_shipped)
  qed
  then show ?thesis using ok(1) by (auto simp: facts_def SchemaVersion_def)
qed

definition small_mysql :: "(string option \<times> column \<times> string) mysql" where
  "small_mysql =
     \<lparr>Exec = (\<lambda>st (i, c, v).
        if st = add_index then (if i = None then Some (good_index, c, v) else None)
        else if st = add_column then (if c = None then Some (i, good_column, v) else None)
        else if st = to_two then Some (i, c, if v = ''1'' then ''2'' else v)
        else if st = to_three then Some (i, c, if v = ''2'' then ''3'' else v) else None),
      description_column = (\<lambda>(i, c, v). Inr c), retention_index = (\<lambda>(i, c, v). Inr i), recorded_version = (\<lambda>(i, c, v). Inr v),
      table_count = (\<lambda>_. Inr 4), UUID = (\<lambda>_. Inr []), claim_schema = (\<lambda>_ _ _ _ s. Some s)\<rparr>"

lemma small_mysql_ok: "mysql_ok small_mysql"
proof -
  have "add_index \<noteq> add_column" "to_two \<notin> {add_index, add_column}" "to_three \<notin> {add_index, add_column, to_two}"
    by (simp_all add: add_index_def add_column_def set_version_def)
  then show ?thesis by (auto simp: mysql_ok_def facts_def small_mysql_def)
qed

text \<open>An instance stopped after it had added the key and before the version moved.\<close>

theorem upgrade_restarts_witness:
  "\<exists>s'. Upgrade small_mysql (shipped ''CREATE'') ''1'' SchemaVersion (good_index, None, ''1'') = (s', None) \<and>
     facts small_mysql s' good_index good_column SchemaVersion"
proof -
  let ?m = small_mysql and ?ms = "shipped ''CREATE''" and ?w = "\<lambda>s u. (s, (\<lambda>_. Idle)(0 := u))"
  have start: "upgrade_step ?m ?ms ((None, None, ''1''), \<lambda>_. Idle) (?w (None, None, ''1'') (Running full_run))"
    using upgrade_step.takes_up [where us = "\<lambda>_. Idle" and k = 0 and m = ?m and ms = ?ms, OF _ _ pending_shipped(1)]
    by (simp add: small_mysql_def statements_shipped)
  have fresh: "facts ?m (None, None, ''1'') None None ''1''" by (simp add: facts_def small_mysql_def)
  have "upgrade_step ?m ?ms (?w (None, None, ''1'') (Running full_run)) (?w (None, None, ''1'') (Inspected full_run))"
    using upgrade_step.inspects [of "(\<lambda>_. Idle)(0 := Running full_run)" 0 2 add_index "drop 1 full_run" ?m "(None, None, ''1'')" ?ms]
      applied_simps(1) [OF fresh] by (simp add: full_run_def version_ok_def)
  moreover have "upgrade_step ?m ?ms (?w (None, None, ''1'') (Inspected full_run)) (?w (good_index, None, ''1'') (Running (drop 1 full_run)))"
    using upgrade_step.executes [of "(\<lambda>_. Idle)(0 := Inspected full_run)" 0 2 add_index "drop 1 full_run" ?m "(None, None, ''1'')" "(good_index, None, ''1'')" ?ms]
    by (simp add: full_run_def small_mysql_def)
  ultimately have "(upgrade_step ?m ?ms)\<^sup>*\<^sup>* ((None, None, ''1''), \<lambda>_. Idle) (?w (good_index, None, ''1'') (Running (drop 1 full_run)))"
    using start by (meson r_into_rtranclp rtranclp.rtrancl_into_rtrancl)
  from upgrade_restarts [OF small_mysql_ok embedded_shipped fresh this] show ?thesis by (auto simp: small_mysql_def)
qed

end
