(* ===== verification/Cluster.thy ===== *)
theory Cluster
  imports Runtime
begin

text \<open>
  Several instances over one control database, as a transition system in real time. An instance takes one section at a
  time (\<open>inst_step\<close>); operators change the registry through the control store; time passes. The database clock counts
  whole seconds of that time, as UTC_TIMESTAMP() does. One assumption is made of how long an instance may be suspended:
  between the check of the age of a registry read and the refresh of the fence, no longer than \<open>gap\<close>.
\<close>

section \<open>Steps\<close>

definition may_fail :: "time \<Rightarrow> admission \<Rightarrow> Registry \<Rightarrow> bool" where
  "may_fail t ad r =
     (case ad_pc ad of
        Verifying \<Rightarrow> True
      | Asking _ \<Rightarrow> True
      | Confirmed provedAt \<Rightarrow> t - provedAt > fc_limit (rg_fence r)
      | Fresh \<Rightarrow> \<not> publishable ad r
      | _ \<Rightarrow> False)"

inductive inst_step :: "duration \<Rightarrow> AEAD option \<Rightarrow> time \<Rightarrow> env \<Rightarrow> string \<Rightarrow> ctl \<times> Registry \<Rightarrow> ctl \<times> Registry \<Rightarrow> bool"
  for gap :: duration and aead :: "AEAD option" and t :: time and env :: env and i :: string where
  polls: "rg_pass r = None \<Longrightarrow> \<not> rg_stopped r \<Longrightarrow> inst_step gap aead t env i (c, r) (c, begin_pass t r)"
| reads: "rg_pass r = Some pa \<Longrightarrow> pa_pc pa = Reading \<Longrightarrow> inst_step gap aead t env i (c, r) (c, read_rows aead c pa r)"
| unreadable: "rg_pass r = Some pa \<Longrightarrow> pa_pc pa = Reading \<Longrightarrow> inst_step gap aead t env i (c, r) (c, end_pass r)"
| noted: "rg_pass r = Some pa \<Longrightarrow> pa_pc pa = Noting rows \<Longrightarrow> inst_step gap aead t env i (c, r) (c, note_rows rows pa r)"
| snapshots: "rg_pass r = Some pa \<Longrightarrow> pa_pc pa = Snapshot \<Longrightarrow> inst_step gap aead t env i (c, r) (c, take_snapshot pa r)"
| retires: "rg_pass r = Some pa \<Longrightarrow> pa_pc pa = Retiring \<Longrightarrow> pa_have pa n = Some p \<Longrightarrow> superseded pa n (rg_objs r p) \<Longrightarrow>
    inst_step gap aead t env i (c, r) (c, retire_one n p pa r)"
| observing: "rg_pass r = Some pa \<Longrightarrow> pa_pc pa = Retiring \<Longrightarrow>
    \<forall>n p. pa_have pa n = Some p \<longrightarrow> \<not> superseded pa n (rg_objs r p) \<Longrightarrow>
    inst_step gap aead t env i (c, r) (c, begin_observing pa r)"
| observes: "rg_pass r = Some pa \<Longrightarrow> pa_pc pa = Observing todo observed \<Longrightarrow> w \<in> set todo \<Longrightarrow>
    inst_step gap aead t env i (c, r)
      (observe_tenant env i ok r (tn_Name w) (tn_Generation w) c, observed_one w todo observed ok pa r)"
| checked: "rg_pass r = Some pa \<Longrightarrow> pa_pc pa = Observing [] observed \<Longrightarrow>
    inst_step gap aead t env i (c, r) (c, may_refresh t observed pa r)"
| refreshed: "rg_pass r = Some pa \<Longrightarrow> pa_pc pa = Refreshing since \<Longrightarrow> t \<le> since + gap \<Longrightarrow>
    inst_step gap aead t env i (c, r) (c, refresh t pa r)"
| admits: "rg_pass r = Some pa \<Longrightarrow> pa_pc pa = Admitting todo \<Longrightarrow> w \<in> set todo \<Longrightarrow>
    inst_step gap aead t env i (c, r) (announce env i w ok r c, admit_one t w todo ok pa r)"
| finished: "rg_pass r = Some pa \<Longrightarrow> pa_pc pa = Admitting [] \<Longrightarrow> inst_step gap aead t env i (c, r) (c, end_pass r)"
| verified: "rg_admitting r n = Some ad \<Longrightarrow> ad_pc ad = Verifying \<Longrightarrow>
    admit_verify (ad_tenant ad) loc host pool upgrade view = Inr () \<Longrightarrow>
    inst_step gap aead t env i (c, r) (c, set_admission n ad (Asking t) r)"
| confirmed: "rg_admitting r n = Some ad \<Longrightarrow> ad_pc ad = Asking provedAt \<Longrightarrow> generation_confirmed c (ad_tenant ad) \<Longrightarrow>
    inst_step gap aead t env i (c, r) (c, set_admission n ad (Confirmed provedAt) r)"
| fresh: "rg_admitting r n = Some ad \<Longrightarrow> ad_pc ad = Confirmed provedAt \<Longrightarrow> t - provedAt \<le> fc_limit (rg_fence r) \<Longrightarrow>
    inst_step gap aead t env i (c, r) (c, set_admission n ad Fresh r)"
| publishes: "rg_admitting r n = Some ad \<Longrightarrow> ad_pc ad = Fresh \<Longrightarrow> publishable ad r \<Longrightarrow>
    inst_step gap aead t env i (c, r) (c, publish t ad r)"
| failed: "rg_admitting r n = Some ad \<Longrightarrow> may_fail t ad r \<Longrightarrow>
    inst_step gap aead t env i (c, r) (if ok then RecordAdmission env n [] (Some msg) c else c, endAdmit n r)"
| recorded: "rg_admitting r n = Some ad \<Longrightarrow> ad_pc ad = Published \<Longrightarrow>
    inst_step gap aead t env i (c, r) (if ok then RecordAdmission env n SchemaVersion None c else c, set_admission n ad Recorded r)"
| admitted: "rg_admitting r n = Some ad \<Longrightarrow> ad_pc ad = Recorded \<Longrightarrow>
    inst_step gap aead t env i (c, r) (observe_tenant env i ok r n (tn_Generation (ad_tenant ad)) c, endAdmit n r)"
| deferred: "re \<in> set (rg_retirements r) \<Longrightarrow> re_pc re = Draining \<Longrightarrow>
    inst_step gap aead t env i (c, r) (c, defer_retirement re r)"
| removed: "re \<in> set (rg_retirements r) \<Longrightarrow> re_pc re = Draining \<Longrightarrow>
    inst_step gap aead t env i (c, r) (c, remove_tenant re r)"
| acknowledged: "re \<in> set (rg_retirements r) \<Longrightarrow> re_pc re = Removed \<Longrightarrow>
    inst_step gap aead t env i (c, r) (acknowledge env i ok re r c, end_retirement re r)"
| works: " inst_step gap aead t env i (c, r) (c, upd_obj p (te_tracking_update (\<lambda>_. k)) r)"
| stop: "inst_step gap aead t env i (c, r) (c, Stop_begin r)"
| stopped: "rg_stopped r \<Longrightarrow> rg_pass r = None \<Longrightarrow> rg_admitting r = Map.empty \<Longrightarrow> rg_retirements r = [] \<Longrightarrow>
    inst_step gap aead t env i (c, r) (c, Stop_finish r)"

text \<open>What operators do. The liveness window of a change of the connection string is three staleness limits
  (\<^verbatim>\<open>src/cmd/gojob/main.go\<close>).\<close>

inductive operator_step :: "duration \<Rightarrow> AEAD option \<Rightarrow> env \<Rightarrow> ctl \<Rightarrow> ctl \<Rightarrow> bool"
  for limit :: duration and aead :: "AEAD option" and env :: env where
  add_tenant: "AddTenant aead rand env n dsn uuid actor reason c = Inr c' \<Longrightarrow> operator_step limit aead env c c'"
| enable: "SetTenantEnabled env n on actor reason c = Inr c' \<Longrightarrow> operator_step limit aead env c c'"
| repoint: "SetTenantDSN aead rand env n dsn uuid actor reason quiet (3 * limit) c = Inr c' \<Longrightarrow> operator_step limit aead env c c'"
| add_identity: "AddIdentity env idn n grp sha actor reason c = Inr c' \<Longrightarrow> operator_step limit aead env c c'"
| disable_identity: "SetIdentityDisabled env idn n off actor reason c = Inr c' \<Longrightarrow> operator_step limit aead env c c'"
| delete_identity: "DeleteIdentity env idn n actor reason c = Inr c' \<Longrightarrow> operator_step limit aead env c c'"
| audit: "Audit env actor action n detail c = Inr c' \<Longrightarrow> operator_step limit aead env c c'"

record cluster =
  cl_now :: time
  cl_ctl :: ctl
  cl_insts :: "string \<Rightarrow> Registry"

inductive cluster_step :: "duration \<Rightarrow> duration \<Rightarrow> AEAD option \<Rightarrow> cluster \<Rightarrow> cluster \<Rightarrow> bool"
  for limit :: duration and gap :: duration and aead :: "AEAD option" where
  tick: "cl_now s \<le> t \<Longrightarrow> cluster_step limit gap aead s (s\<lparr>cl_now := t\<rparr>)"
| operates: "operator_step limit aead env (cl_ctl s) c \<Longrightarrow> utc env = truncate_second (cl_now s) \<Longrightarrow>
    cluster_step limit gap aead s (s\<lparr>cl_ctl := c\<rparr>)"
| section_of: "inst_step gap aead (cl_now s) env i (cl_ctl s, cl_insts s i) (c, r) \<Longrightarrow> utc env = truncate_second (cl_now s) \<Longrightarrow>
    cluster_step limit gap aead s (s\<lparr>cl_ctl := c, cl_insts := (cl_insts s)(i := r)\<rparr>)"

definition cluster_start :: "duration \<Rightarrow> time \<Rightarrow> cluster" where
  "cluster_start limit t =
     \<lparr>cl_now = t, cl_ctl = \<lparr>registry = [], observations = [], identities = [], ctl_audits = [], ctl_next_audit = 1\<rparr>,
      cl_insts = \<lambda>_. NewRegistry limit\<rparr>"

definition cluster_reachable :: "duration \<Rightarrow> duration \<Rightarrow> AEAD option \<Rightarrow> cluster \<Rightarrow> bool" where
  "cluster_reachable limit gap aead s \<longleftrightarrow> (\<exists>t. (cluster_step limit gap aead)\<^sup>*\<^sup>* (cluster_start limit t) s)"

text \<open>An engine that may claim: it was not told to stop, and the fence of its instance is fresh.\<close>

definition acting :: "cluster \<Rightarrow> string \<Rightarrow> tenant \<Rightarrow> bool" where
  "acting s i te \<longleftrightarrow>
     te \<in> range (rg_objs (cl_insts s i)) \<and> te_claiming te \<and> Healthy (cl_now s) (rg_fence (cl_insts s i))"

end
