(* ===== verification/ClusterInv.thy ===== *)
theory ClusterInv
  imports Cluster
begin

text \<open>
  Invariants of the instances and the control database: pointers and admissions of one instance (\<open>heap_ok\<close>), what a pass
  carries against the registry (\<open>pass_ok\<close>), generations (\<open>gens_ok\<close>) and how recently an instance has shown itself to
  the others (\<open>times_ok\<close>). Each has a lemma for the step of an instance; \<open>advances\<close> is what every step keeps of the registry.
\<close>

section \<open>The invariant\<close>

definition known_gen :: "ctl \<Rightarrow> string \<Rightarrow> int \<Rightarrow> bool" where
  "known_gen c n g \<longleftrightarrow> (\<exists>r. tenant_row c n = Some r \<and> g \<le> tr_generation r)"

definition enabled_gen :: "ctl \<Rightarrow> string \<Rightarrow> int \<Rightarrow> bool" where
  "enabled_gen c n g \<longleftrightarrow> (\<exists>r. tenant_row c n = Some r \<and> g \<le> tr_generation r \<and> (g = tr_generation r \<longrightarrow> tr_enabled r))"

definition claims_as :: "Registry \<Rightarrow> string \<Rightarrow> nat \<Rightarrow> bool" where
  "claims_as r n p \<longleftrightarrow> te_claiming (rg_objs r p) \<and> te_name (rg_objs r p) = n"

fun unpublished :: "admit_pc \<Rightarrow> bool" where
  "unpublished Published = False"
| "unpublished Recorded = False"
| "unpublished _ = True"

definition pending_admission :: "Registry \<Rightarrow> string \<Rightarrow> admission \<Rightarrow> bool" where
  "pending_admission r n ad \<longleftrightarrow> rg_admitting r n = Some ad \<and> unpublished (ad_pc ad)"

definition obs_row :: "ctl \<Rightarrow> string \<Rightarrow> string \<Rightarrow> tenant_observation option" where
  "obs_row c n i = row_of obs_key (observations c) (n, i)"

text \<open>Pointers: a tenant that claims is the one its name resolves to, and is not being admitted beside.\<close>

definition heap_ok :: "Registry \<Rightarrow> bool" where
  "heap_ok r \<longleftrightarrow>
     (\<forall>n p. rg_tenants r n = Some p \<longrightarrow> p < rg_next r \<and> te_name (rg_objs r p) = n) \<and>
     (\<forall>n p. claims_as r n p \<longrightarrow> rg_tenants r n = Some p \<and> \<not> te_draining (rg_objs r p)) \<and>
     (\<forall>n ad. rg_admitting r n = Some ad \<longrightarrow> tn_Name (ad_tenant ad) = n) \<and>
     (\<forall>n ad. pending_admission r n ad \<longrightarrow> rg_tenants r n = None) \<and>
     (\<forall>re \<in> set (rg_retirements r). re_ptr re < rg_next r \<and> te_name (rg_objs r (re_ptr re)) = re_name re \<and>
        \<not> te_claiming (rg_objs r (re_ptr re)))"

definition pass_rows :: "pass \<Rightarrow> Tenant list" where
  "pass_rows pa = (case pa_pc pa of Noting rows \<Rightarrow> filter tn_Enabled rows | _ \<Rightarrow> pa_want pa)"

text \<open>What a pass has in hand: what it means to keep is the only engine of its tenant.\<close>

definition kept :: "pass \<Rightarrow> Registry \<Rightarrow> string \<Rightarrow> nat \<Rightarrow> bool" where
  "kept pa r n p \<longleftrightarrow> p < rg_next r \<and> te_name (rg_objs r p) = n \<and> (\<forall>q. claims_as r n q \<longrightarrow> q = p) \<and>
     (\<forall>ad. \<not> pending_admission r n ad) \<and> (pa_pc pa \<noteq> Retiring \<longrightarrow> \<not> superseded pa n (rg_objs r p))"

definition todo_ok :: "pass \<Rightarrow> bool" where
  "todo_ok pa =
     (case pa_pc pa of
        Retiring \<Rightarrow> True
      | Observing todo _ \<Rightarrow> (\<forall>w \<in> set todo. w \<in> set (pa_want pa) \<and> pa_have pa (tn_Name w) \<noteq> None)
      | Refreshing _ \<Rightarrow> True
      | Admitting todo \<Rightarrow> (\<forall>w \<in> set todo. w \<in> set (pa_want pa) \<and> pa_have pa (tn_Name w) = None)
      | _ \<Rightarrow> pa_have pa = Map.empty)"

definition have_ok :: "pass \<Rightarrow> Registry \<Rightarrow> bool" where
  "have_ok pa r \<longleftrightarrow> (\<forall>n p. pa_have pa n = Some p \<longrightarrow> kept pa r n p) \<and> todo_ok pa"

definition rows_ok :: "ctl \<Rightarrow> pass \<Rightarrow> bool" where
  "rows_ok c pa \<longleftrightarrow>
     distinct (map tn_Name (pass_rows pa)) \<and>
     (\<forall>w \<in> set (pass_rows pa). enabled_gen c (tn_Name w) (tn_Generation w)) \<and>
     (\<forall>rows. pa_pc pa = Noting rows \<longrightarrow> distinct (map tn_Name rows) \<and> (\<forall>w \<in> set rows. known_gen c (tn_Name w) (tn_Generation w))) \<and>
     (\<forall>n g. pa_registered pa n = Some g \<longrightarrow> known_gen c n g \<and> (\<forall>w \<in> set (pa_want pa). tn_Name w = n \<longrightarrow> tn_Generation w = g))"

definition pass_ok :: "ctl \<Rightarrow> Registry \<Rightarrow> bool" where
  "pass_ok c r \<longleftrightarrow> (\<forall>pa. rg_pass r = Some pa \<longrightarrow> have_ok pa r \<and> rows_ok c pa)"

text \<open>A bound on what is still to be claimed for a tenant: no engine and no admission of it is of an older generation.\<close>

definition at_least :: "Registry \<Rightarrow> string \<Rightarrow> int \<Rightarrow> bool" where
  "at_least r n g \<longleftrightarrow>
     (\<forall>p. claims_as r n p \<longrightarrow> g \<le> te_generation (rg_objs r p)) \<and>
     (\<forall>ad. pending_admission r n ad \<longrightarrow> g \<le> tn_Generation (ad_tenant ad))"

definition gens_ok :: "ctl \<Rightarrow> string \<Rightarrow> Registry \<Rightarrow> bool" where
  "gens_ok c i r \<longleftrightarrow>
     (\<forall>n p. claims_as r n p \<longrightarrow> enabled_gen c n (te_generation (rg_objs r p))) \<and>
     (\<forall>n ad. rg_admitting r n = Some ad \<longrightarrow> enabled_gen c n (tn_Generation (ad_tenant ad)) \<and> at_least r n (tn_Generation (ad_tenant ad))) \<and>
     (\<forall>re \<in> set (rg_retirements r). 0 < re_ack re \<longrightarrow> known_gen c (re_name re) (re_ack re) \<and> at_least r (re_name re) (re_ack re) \<and>
        (\<forall>pa. rg_pass r = Some pa \<longrightarrow> (\<forall>w \<in> set (pass_rows pa). tn_Name w = re_name re \<longrightarrow> re_ack re \<le> tn_Generation w))) \<and>
     (\<forall>n ob. obs_row c n i = Some ob \<longrightarrow> at_least r n (to_generation ob))"

definition seen_since :: "ctl \<Rightarrow> string \<Rightarrow> string \<Rightarrow> time \<Rightarrow> bool" where
  "seen_since c n i x \<longleftrightarrow> (\<exists>ob. obs_row c n i = Some ob \<and> truncate_second x \<le> to_observed_at ob)"

definition shown :: "ctl \<Rightarrow> string \<Rightarrow> pass \<Rightarrow> string \<Rightarrow> bool" where
  "shown c i pa n \<longleftrightarrow>
     (case pa_pc pa of
        Observing todo observed \<Rightarrow> observed \<and> n \<notin> tn_Name ` set todo \<longrightarrow> seen_since c n i (pa_readAt pa)
      | Refreshing _ \<Rightarrow> seen_since c n i (pa_readAt pa)
      | _ \<Rightarrow> True)"

fun counted :: "pass_pc \<Rightarrow> bool" where
  "counted Reading = False"
| "counted (Noting _) = False"
| "counted Snapshot = False"
| "counted _ = True"

definition accounted :: "ctl \<Rightarrow> string \<Rightarrow> Registry \<Rightarrow> pass \<Rightarrow> string \<Rightarrow> nat \<Rightarrow> bool" where
  "accounted c i r pa n p \<longleftrightarrow>
     (pa_have pa n = Some p \<longrightarrow> shown c i pa n) \<and>
     (pa_have pa n \<noteq> Some p \<and> counted (pa_pc pa) \<longrightarrow> pa_readAt pa \<le> te_published (rg_objs r p))"

definition pass_times :: "time \<Rightarrow> ctl \<Rightarrow> string \<Rightarrow> Registry \<Rightarrow> pass \<Rightarrow> bool" where
  "pass_times t c i r pa \<longleftrightarrow>
     pa_readAt pa \<le> t \<and>
     (\<forall>since. pa_pc pa = Refreshing since \<longrightarrow> since \<le> pa_readAt pa + fc_limit (rg_fence r)) \<and>
     (\<forall>n p. claims_as r n p \<longrightarrow> accounted c i r pa n p)"

definition times_ok :: "duration \<Rightarrow> time \<Rightarrow> ctl \<Rightarrow> string \<Rightarrow> Registry \<Rightarrow> bool" where
  "times_ok gap t c i r \<longleftrightarrow>
     (\<forall>f. fc_lastRead (rg_fence r) = Some f \<longrightarrow> f \<le> t) \<and>
     (\<forall>n ob. obs_row c n i = Some ob \<longrightarrow> to_observed_at ob \<le> truncate_second t) \<and>
     (\<forall>pa. rg_pass r = Some pa \<longrightarrow> pass_times t c i r pa) \<and>
     (\<forall>n p. claims_as r n p \<longrightarrow> te_published (rg_objs r p) \<le> t \<and> seen_since c n i (te_announced (rg_objs r p)) \<and>
        (\<forall>f. fc_lastRead (rg_fence r) = Some f \<longrightarrow>
           seen_since c n i (f - fc_limit (rg_fence r) - gap) \<or> f \<le> te_published (rg_objs r p) + fc_limit (rg_fence r) + gap)) \<and>
     (\<forall>n ad. pending_admission r n ad \<longrightarrow> seen_since c n i (ad_announced ad))"

section \<open>What a section changes\<close>

text \<open>
  Three kinds of section: one publishes an engine, one starts an admission, and every other lets no engine and no
  admission appear.
\<close>

definition same_tenants :: "Registry \<Rightarrow> Registry \<Rightarrow> bool" where
  "same_tenants r r' \<longleftrightarrow>
     (\<forall>p. te_name (rg_objs r' p) = te_name (rg_objs r p) \<and> te_generation (rg_objs r' p) = te_generation (rg_objs r p) \<and>
        te_announced (rg_objs r' p) = te_announced (rg_objs r p) \<and> te_published (rg_objs r' p) = te_published (rg_objs r p)) \<and>
     (\<forall>p. te_claiming (rg_objs r' p) \<longrightarrow> te_claiming (rg_objs r p)) \<and>
     (\<forall>n ad'. rg_admitting r' n = Some ad' \<longrightarrow> (\<exists>ad. rg_admitting r n = Some ad \<and> ad_tenant ad' = ad_tenant ad \<and>
        ad_announced ad' = ad_announced ad \<and> (pending_admission r' n ad' \<longrightarrow> pending_admission r n ad)))"

lemma pc_sections [simp]:
  "rg_tenants (set_pc pc pa r) = rg_tenants r" "rg_objs (set_pc pc pa r) = rg_objs r" "rg_next (set_pc pc pa r) = rg_next r"
  "rg_admitting (set_pc pc pa r) = rg_admitting r" "rg_retirements (set_pc pc pa r) = rg_retirements r"
  "rg_pass (set_pc pc pa r) = Some (pa\<lparr>pa_pc := pc\<rparr>)" "rg_fence (set_pc pc pa r) = rg_fence r"
  by (simp_all add: set_pc_def)

lemmas section_defs = begin_pass_def read_rows_def end_pass_def note_rows_def take_snapshot_def retire_one_def begin_observing_def
  observed_one_def may_refresh_def refresh_def admit_one_def set_admission_def endAdmit_def publish_def defer_retirement_def
  remove_tenant_def end_retirement_def Stop_begin_def Stop_finish_def set_pc_def upd_obj_def Let_def

lemmas live_defs = claims_as_def pending_admission_def

lemma step_kinds:
  assumes "inst_step gap aead t env i (c, r) (c', r')"
  obtains (publishes) n ad where "c' = c" "r' = publish t ad r" "rg_admitting r n = Some ad" "ad_pc ad = Fresh" "publishable ad r"
  | (admits) pa todo w where "c' = announce env i w True r c" "r' = admit_one t w todo True pa r" "rg_pass r = Some pa"
      "pa_pc pa = Admitting todo" "w \<in> set todo" "starts_admission w True r"
  | (others) "same_tenants r r'"
  using assms
proof (cases rule: inst_step.cases)
  case (publishes n ad)
  then show thesis by (intro that(1)) auto
next
  case (admits pa todo w ok)
  show thesis
  proof (cases "starts_admission w ok r")
    case True
    then have "ok" by (simp add: starts_admission_def)
    then show thesis using that(2) admits True by auto
  next
    case False
    then have "same_tenants r r'" using admits by (auto simp: same_tenants_def admit_one_def set_pc_def pending_admission_def)
    then show thesis by (rule that(3))
  qed
qed (rule that(3), auto simp: same_tenants_def section_defs pending_admission_def)+


lemma same_claims: "same_tenants r r' \<Longrightarrow> claims_as r' n p \<Longrightarrow> claims_as r n p"
  by (auto simp: same_tenants_def claims_as_def)

lemma same_pending:
  "same_tenants r r' \<Longrightarrow> pending_admission r' n ad' \<Longrightarrow>
     \<exists>ad. pending_admission r n ad \<and> ad_tenant ad' = ad_tenant ad \<and> ad_announced ad' = ad_announced ad"
  unfolding same_tenants_def by (metis pending_admission_def)

lemma same_at_least:
  assumes "same_tenants r r'" "at_least r n g"
  shows "at_least r' n g"
proof -
  have "te_generation (rg_objs r' p) = te_generation (rg_objs r p)" for p using assms(1) by (simp add: same_tenants_def)
  then show ?thesis
    using assms(2) same_claims [OF assms(1)] same_pending [OF assms(1)] unfolding at_least_def by metis
qed

lemma publish_claims:
  assumes "claims_as (publish t ad r) n p"
  obtains (old) "claims_as r n p" "p \<noteq> rg_next r" | (new) "p = rg_next r" "n = tn_Name (ad_tenant ad)"
  using assms by (auto simp: claims_as_def publish_def set_admission_def Let_def split: if_splits)

lemma publish_pending:
  "pending_admission (publish t ad r) n ad' \<longleftrightarrow> pending_admission r n ad' \<and> n \<noteq> tn_Name (ad_tenant ad)"
  by (auto simp: pending_admission_def publish_def set_admission_def Let_def)

lemma publish_objs:
  "rg_objs (publish t ad r) p = (if p = rg_next r
     then \<lparr>te_name = tn_Name (ad_tenant ad), te_generation = tn_Generation (ad_tenant ad), te_dsn = tn_DSN (ad_tenant ad), te_claiming = True,
       te_tracking = 0, te_retireDeferred = False, te_draining = False, te_announced = ad_announced ad, te_published = t\<rparr>
     else rg_objs r p)"
  by (simp add: publish_def set_admission_def Let_def)

lemma publish_rest [simp]:
  "rg_pass (publish t ad r) = rg_pass r" "rg_retirements (publish t ad r) = rg_retirements r" "rg_fence (publish t ad r) = rg_fence r"
  "rg_next (publish t ad r) = rg_next r + 1" "rg_seen (publish t ad r) = rg_seen r"
  "rg_tenants (publish t ad r) = (rg_tenants r)(tn_Name (ad_tenant ad) \<mapsto> rg_next r)"
  "rg_admitting (publish t ad r) = (rg_admitting r)(tn_Name (ad_tenant ad) \<mapsto> ad\<lparr>ad_pc := Published\<rparr>)"
  by (simp_all add: publish_def set_admission_def Let_def)

lemma heap_ok_publish:
  assumes "heap_ok r" "rg_admitting r n = Some ad" "ad_pc ad = Fresh"
  shows "heap_ok (publish t ad r)"
proof -
  have name: "tn_Name (ad_tenant ad) = n" "rg_tenants r n = None"
    using assms by (auto simp: heap_ok_def pending_admission_def)
  have "p \<noteq> rg_next r" if "rg_tenants r m = Some p" for m p using assms(1) that by (auto simp: heap_ok_def)
  then show ?thesis
    using assms(1) name unfolding heap_ok_def
    by (auto simp: publish_pending publish_objs less_SucI elim!: publish_claims)
qed


text \<open>The part of a registry that is not the poll.\<close>

definition same_heap :: "Registry \<Rightarrow> Registry \<Rightarrow> bool" where
  "same_heap r r' \<longleftrightarrow> rg_tenants r' = rg_tenants r \<and> rg_objs r' = rg_objs r \<and> rg_next r' = rg_next r \<and>
     rg_admitting r' = rg_admitting r \<and> rg_retirements r' = rg_retirements r"

lemma same_heap_sections [simp]:
  "same_heap r (begin_pass t r)" "same_heap r (read_rows aead c pa r)" "same_heap r (end_pass r)" "same_heap r (note_rows rows pa r)"
  "same_heap r (take_snapshot pa r)" "same_heap r (begin_observing pa r)" "same_heap r (observed_one w todo ob ok pa r)"
  "same_heap r (may_refresh t ob pa r)" "same_heap r (refresh t pa r)" "same_heap r (Stop_begin r)"
  by (simp_all add: same_heap_def section_defs)

lemma same_heap_live:
  assumes "same_heap r r'"
  shows "claims_as r' = claims_as r" "pending_admission r' = pending_admission r" "heap_ok r' = heap_ok r" "at_least r' = at_least r"
proof -
  show "claims_as r' = claims_as r" "pending_admission r' = pending_admission r"
    using assms by (simp_all add: same_heap_def live_defs fun_eq_iff)
  then show "heap_ok r' = heap_ok r" "at_least r' = at_least r"
    using assms by (simp_all add: same_heap_def heap_ok_def at_least_def fun_eq_iff)
qed

lemma same_heap_ok: "same_heap r r' \<Longrightarrow> heap_ok r \<Longrightarrow> heap_ok r'"
  by (simp add: same_heap_live)

lemma heap_okD:
  assumes "heap_ok r"
  shows "rg_tenants r n = Some p \<Longrightarrow> p < rg_next r" "rg_tenants r n = Some p \<Longrightarrow> te_name (rg_objs r p) = n"
    "claims_as r n p \<Longrightarrow> rg_tenants r n = Some p" "claims_as r n p \<Longrightarrow> \<not> te_draining (rg_objs r p)"
    "rg_admitting r n = Some ad \<Longrightarrow> tn_Name (ad_tenant ad) = n" "pending_admission r n ad \<Longrightarrow> rg_tenants r n = None"
    "re \<in> set (rg_retirements r) \<Longrightarrow> re_ptr re < rg_next r" "re \<in> set (rg_retirements r) \<Longrightarrow> te_name (rg_objs r (re_ptr re)) = re_name re"
    "re \<in> set (rg_retirements r) \<Longrightarrow> \<not> te_claiming (rg_objs r (re_ptr re))"
  using assms by (auto simp: heap_ok_def)

lemma heap_ok_admissions:
  assumes "heap_ok r" "\<And>m ad'. A m = Some ad' \<Longrightarrow> tn_Name (ad_tenant ad') = m"
    "\<And>m ad'. A m = Some ad' \<Longrightarrow> unpublished (ad_pc ad') \<Longrightarrow> rg_tenants r m = None"
  shows "heap_ok (r\<lparr>rg_admitting := A\<rparr>)"
  using assms unfolding heap_ok_def by (simp add: live_defs)

lemma heap_ok_set_admission:
  assumes "heap_ok r" "rg_admitting r n = Some ad" "unpublished pc \<Longrightarrow> unpublished (ad_pc ad)"
  shows "heap_ok (set_admission n ad pc r)"
proof -
  have "unpublished (ad_pc ad) \<Longrightarrow> rg_tenants r n = None" "tn_Name (ad_tenant ad) = n"
    using heap_okD(5,6) [OF assms(1)] assms(2) by (auto simp: pending_admission_def)
  then show ?thesis
    using assms(3) heap_okD(5,6) [OF assms(1)] unfolding set_admission_def
    by (intro heap_ok_admissions [OF assms(1)]) (auto simp: pending_admission_def split: if_splits)
qed

lemma heap_ok_endAdmit: "heap_ok r \<Longrightarrow> heap_ok (endAdmit n r)"
  unfolding endAdmit_def by (rule heap_ok_admissions) (auto simp: heap_okD pending_admission_def split: if_splits)

lemma heap_ok_retirements: "heap_ok r \<Longrightarrow> set R \<subseteq> set (rg_retirements r) \<Longrightarrow> heap_ok (r\<lparr>rg_retirements := R\<rparr>)"
  by (auto simp: heap_ok_def live_defs)

lemma heap_ok_upd:
  assumes "heap_ok r" "te_name (f (rg_objs r p)) = te_name (rg_objs r p)" "te_claiming (f (rg_objs r p)) \<longrightarrow> te_claiming (rg_objs r p)"
    "te_draining (f (rg_objs r p)) \<longrightarrow> te_draining (rg_objs r p) \<or> \<not> te_claiming (f (rg_objs r p))"
  shows "heap_ok (upd_obj p f r)"
  using assms unfolding heap_ok_def upd_obj_def by (simp add: live_defs) metis

lemma heap_ok_remove:
  assumes "heap_ok r" "re \<in> set (rg_retirements r)"
  shows "heap_ok (remove_tenant re r)"
proof -
  note ok = heap_okD [OF assms(1)]
  have "\<not> claims_as r n (re_ptr re)" for n using ok(9) [OF assms(2)] by (simp add: claims_as_def)
  moreover have "re_ptr re' < rg_next r \<and> te_name (rg_objs r (re_ptr re')) = re_name re' \<and> \<not> te_claiming (rg_objs r (re_ptr re'))"
    if "re' \<in> set (rg_retirements (remove_tenant re r))" for re'
  proof -
    have "re' = re\<lparr>re_pc := Removed\<rparr> \<or> re' \<in> set (rg_retirements r)"
      using that by (auto simp: remove_tenant_def dest: set_remove1_subset [THEN subsetD])
    then show ?thesis using ok(7-9) assms(2) by auto
  qed
  moreover have "claims_as (remove_tenant re r) = claims_as r" "pending_admission (remove_tenant re r) = pending_admission r"
    "rg_admitting (remove_tenant re r) = rg_admitting r" "rg_next (remove_tenant re r) = rg_next r" "rg_objs (remove_tenant re r) = rg_objs r"
    by (simp_all add: remove_tenant_def live_defs fun_eq_iff)
  moreover have "rg_tenants (remove_tenant re r) n = Some p \<longleftrightarrow> rg_tenants r n = Some p \<and> (n, p) \<noteq> (re_name re, re_ptr re)"
    "rg_tenants r n = None \<Longrightarrow> rg_tenants (remove_tenant re r) n = None" for n p
    by (auto simp: remove_tenant_def)
  ultimately show ?thesis unfolding heap_ok_def
    by (intro conjI allI impI ballI) (use ok(1-6) in auto)
qed

lemma heap_ok_retire:
  assumes "heap_ok r" "p < rg_next r" "te_name (rg_objs r p) = n"
  shows "heap_ok (retire_one n p pa r)"
proof (cases "skipRetirement (te_draining (rg_objs r p)) (te_retireDeferred (rg_objs r p))")
  case True
  then show ?thesis using assms(1) by (simp add: retire_one_def heap_ok_def live_defs)
next
  case False
  have "heap_ok (upd_obj p (\<lambda>t. t\<lparr>te_retireDeferred := False, te_draining := True, te_claiming := False\<rparr>) r)"
    by (rule heap_ok_upd) (simp_all add: assms)
  with False assms(2,3) show ?thesis by (simp add: retire_one_def heap_ok_def live_defs upd_obj_def Let_def)
qed

lemma heap_ok_step:
  assumes "inst_step gap aead t env i (c, r) (c', r')" "heap_ok r" "pass_ok c r"
  shows "heap_ok r'"
  using assms(1)
proof (cases rule: inst_step.cases)
  case (retires pa n p)
  then have "p < rg_next r" "te_name (rg_objs r p) = n"
    using assms(3) by (auto simp: pass_ok_def have_ok_def kept_def)
  then show ?thesis using retires heap_ok_retire [OF assms(2)] by simp
next
  case (publishes n ad)
  then show ?thesis using heap_ok_publish [OF assms(2)] by simp
next
  case (admits pa todo w ok)
  then show ?thesis using assms(2)
    by (auto simp: admit_one_def starts_admission_def set_pc_def heap_ok_def live_defs)
next
  case (stopped)
  then show ?thesis by (simp add: Stop_finish_def heap_ok_def live_defs)
next
  case (removed re)
  then show ?thesis using heap_ok_remove [OF assms(2)] by simp
next
  case (deferred re)
  then have "heap_ok (upd_obj (re_ptr re) (\<lambda>t. t\<lparr>te_retireDeferred := True\<rparr>) r)" using assms(2) by (intro heap_ok_upd) simp_all
  then show ?thesis using deferred heap_ok_retirements by (simp add: defer_retirement_def upd_obj_def set_remove1_subset)
next
  case (acknowledged re ok)
  then show ?thesis using heap_ok_retirements [OF assms(2)] by (simp add: end_retirement_def set_remove1_subset)
next
  case (works p k)
  then show ?thesis using heap_ok_upd [OF assms(2)] by simp
qed (use assms(2) in \<open>auto intro!: heap_ok_set_admission heap_ok_endAdmit same_heap_sections [THEN same_heap_ok]\<close>)


section \<open>What happens to the control database\<close>

text \<open>Generations never go back, and a generation is enabled or disabled once and for all.\<close>

definition advances :: "ctl \<Rightarrow> ctl \<Rightarrow> bool" where
  "advances c c' \<longleftrightarrow>
     (\<forall>n row. tenant_row c n = Some row \<longrightarrow> (\<exists>row'. tenant_row c' n = Some row' \<and>
        (tr_generation row' = tr_generation row \<and> tr_enabled row' = tr_enabled row \<or> tr_generation row < tr_generation row')))"

lemma advances_gens: "advances c c' \<Longrightarrow> known_gen c n g \<Longrightarrow> known_gen c' n g" "advances c c' \<Longrightarrow> enabled_gen c n g \<Longrightarrow> enabled_gen c' n g"
  by (fastforce simp: advances_def known_gen_def enabled_gen_def)+

lemma advances_same: "registry c' = registry c \<Longrightarrow> advances c c'"
  by (simp add: advances_def)

lemma obs_row_Observe:
  "obs_row (Observe env n i g q c) m j =
     (if (m, j) = (n, i) then Some \<lparr>to_tenant = n, to_instance_id = i, to_generation = g, to_quiesced = q, to_observed_at = utc env\<rparr>
      else obs_row c m j)"
proof (cases "row_of obs_key (observations c) (n, i)")
  case None
  then show ?thesis by (auto simp: Observe_def obs_row_def row_of_append split: option.splits)
next
  case (Some ob)
  then have "to_tenant ob = n" "to_instance_id ob = i" by (auto dest: row_of_Some)
  with Some show ?thesis
    by (cases "row_of obs_key (observations c) (m, j)")
       (auto simp: Observe_def obs_row_def row_of_update dest: row_of_Some intro!: tenant_observation.equality)
qed

lemma registry_Observe [simp]: "registry (Observe env n i g q c) = registry c"
  by (simp add: Observe_def)

lemma advances_RecordAdmission: "advances c (RecordAdmission env n v e c)"
  by (auto simp: advances_def RecordAdmission_def row_of_update admission_set_def)

lemma obs_row_RecordAdmission [simp]: "obs_row (RecordAdmission env n v e c) = obs_row c"
  by (simp add: fun_eq_iff obs_row_def RecordAdmission_def)

interpretation enables: guarded_write tr_tenant tr_generation "enable_set env on"
  by unfold_locales (simp_all add: enable_set_def)

interpretation repoints: guarded_write tr_tenant tr_generation "repoint_set env sealed uuid"
  by unfold_locales (simp_all add: repoint_set_def)

lemma record_audit_keeps: "record_audit env actor action n detail c = Inr c' \<Longrightarrow>
    registry c' = registry c \<and> observations c' = observations c \<and> identities c' = identities c"
  by (auto simp: record_audit_def split: if_splits)

lemma operator_advances:
  assumes "operator_step limit aead env c c'"
  shows "advances c c' \<and> obs_row c' = obs_row c"
  using assms
proof (cases)
  case (add_tenant rand n dsn uuid actor reason)
  then show ?thesis
    by (auto simp: AddTenant_def advances_def obs_row_def row_of_append fun_eq_iff dest!: record_audit_keeps split: if_splits option.splits)
next
  case (enable n on actor reason)
  then show ?thesis
    by (auto simp: SetTenantEnabled_def advances_def obs_row_def enables.lookup_after fun_eq_iff enable_set_def Let_def dest!: record_audit_keeps split: if_splits)
next
  case (repoint rand n dsn uuid actor reason quiet)
  then show ?thesis
    by (auto simp: SetTenantDSN_def advances_def obs_row_def repoints.lookup_after fun_eq_iff repoint_set_def Let_def dest!: record_audit_keeps split: if_splits option.splits)
qed (auto simp: AddIdentity_def insert_identity_def SetIdentityDisabled_def DeleteIdentity_def Audit_def advances_same obs_row_def fun_eq_iff Let_def
   dest!: record_audit_keeps intro!: advances_same split: if_splits option.splits)

lemma inst_advances:
  assumes "inst_step gap aead t env i (c, r) (c', r')"
  shows "advances c c'" "j \<noteq> i \<Longrightarrow> obs_row c' n j = obs_row c n j"
proof -
  have "registry c' = registry c \<or> (\<exists>n v e. c' = RecordAdmission env n v e c)"
    using assms by cases (auto simp: observe_tenant_def observeAs_def announce_def acknowledge_def)
  then show "advances c c'" using advances_same advances_RecordAdmission by blast
  show "obs_row c' n j = obs_row c n j" if "j \<noteq> i"
    using assms that by cases (auto simp: observe_tenant_def observeAs_def announce_def acknowledge_def obs_row_Observe)
qed

lemma Tenants_row:
  assumes "w \<in> set (Tenants aead c)" "distinct (map tr_tenant (registry c))"
  obtains row where "tenant_row c (tn_Name w) = Some row" "tn_Generation w = tr_generation row" "tn_Enabled w \<Longrightarrow> tr_enabled row"
proof -
  obtain row where "row \<in> set (registry c)" "w = tenant_of aead row" using assms(1) by (auto simp: Tenants_def)
  with row_of_mem [OF assms(2)] show thesis
    by (intro that [of row]) (auto simp: tenant_of_def Let_def split: sum.splits)
qed

lemma Tenants_names: "distinct (map tr_tenant (registry c)) \<Longrightarrow> distinct (map tn_Name (Tenants aead c))"
proof -
  assume "distinct (map tr_tenant (registry c))"
  then have "distinct (map tr_tenant (sort_key tr_tenant (registry c)))" by (simp add: distinct_map)
  moreover have "map tn_Name (Tenants aead c) = map tr_tenant (sort_key tr_tenant (registry c))"
    by (auto simp: Tenants_def tenant_of_def Let_def split: sum.split)
  ultimately show ?thesis by simp
qed


section \<open>The poll keeps its books\<close>

lemma rows_ok_advances:
  assumes "advances c c'" "rows_ok c pa"
  shows "rows_ok c' pa"
  using assms(2) advances_gens [OF assms(1)] unfolding rows_ok_def by blast

lemma superseded_same: "te_generation te' = te_generation te \<Longrightarrow> superseded pa n te' = superseded pa n te"
  by (simp add: superseded_def split: option.split)

lemma kept_same:
  assumes "same_tenants r r'" "rg_next r \<le> rg_next r'" "kept pa r n p"
  shows "kept pa r' n p"
proof -
  have "te_name (rg_objs r' p) = te_name (rg_objs r p)" "superseded pa n (rg_objs r' p) = superseded pa n (rg_objs r p)"
    using assms(1) superseded_same [of "rg_objs r' p" "rg_objs r p"] by (simp_all add: same_tenants_def)
  then show ?thesis
    using assms(2,3) unfolding kept_def by (auto dest: same_claims [OF assms(1)] same_pending [OF assms(1)])
qed

lemma have_ok_same: "same_tenants r r' \<Longrightarrow> rg_next r \<le> rg_next r' \<Longrightarrow> have_ok pa r \<Longrightarrow> have_ok pa r'"
  using kept_same by (auto simp: have_ok_def)

lemma kept_publish:
  assumes "kept pa r m p" "m \<noteq> tn_Name (ad_tenant ad)"
  shows "kept pa (publish t ad r) m p"
proof -
  have "rg_objs (publish t ad r) p = rg_objs r p" using assms(1) by (simp add: kept_def publish_objs)
  moreover have "q = p" if "claims_as (publish t ad r) m q" for q
    using that assms by (auto simp: kept_def elim!: publish_claims)
  ultimately show ?thesis using assms(1) by (simp add: kept_def publish_pending less_SucI)
qed

lemma have_ok_publish:
  assumes "have_ok pa r" "heap_ok r" "rg_admitting r n = Some ad" "ad_pc ad = Fresh"
  shows "have_ok pa (publish t ad r)"
proof -
  have "pending_admission r n ad" and name: "tn_Name (ad_tenant ad) = n"
    using assms heap_okD(5) [OF assms(2)] by (auto simp: pending_admission_def)
  then have "pa_have pa n = None" using assms(1) by (cases "pa_have pa n") (auto simp: have_ok_def kept_def)
  then show ?thesis using assms(1) name by (auto simp: have_ok_def intro!: kept_publish)
qed

lemma pass_ok_new: "pass_ok c' r'" if "\<And>pa. rg_pass r' = Some pa \<Longrightarrow> have_ok pa r' \<and> rows_ok c' pa"
  using that by (simp add: pass_ok_def)

lemma have_ok_rows:
  assumes "rg_tenants r' = rg_tenants r" "rg_objs r' = rg_objs r" "rg_next r' = rg_next r" "rg_admitting r' = rg_admitting r"
  shows "have_ok pa r' = have_ok pa r"
  using assms by (simp add: have_ok_def kept_def live_defs)

lemma have_ok_pass [simp]: "have_ok pa (r\<lparr>rg_pass := x\<rparr>) = have_ok pa r" "have_ok pa (r\<lparr>rg_seen := y\<rparr>) = have_ok pa r"
  by (rule have_ok_rows; simp)+

lemma snapshot_ok:
  assumes "heap_ok r" "rows_ok c pa" "pa_pc pa = Snapshot"
  shows "pass_ok c (take_snapshot pa r)"
proof -
  note ok = heap_okD [OF assms(1)]
  have "have_ok (pa\<lparr>pa_have := rg_tenants r, pa_pc := Retiring\<rparr>) r"
    unfolding have_ok_def kept_def todo_ok_def using ok by (auto dest: ok(3) ok(6))
  moreover have "rows_ok c (pa\<lparr>pa_have := rg_tenants r, pa_pc := Retiring\<rparr>)"
    using assms(2,3) by (simp add: rows_ok_def pass_rows_def)
  ultimately show ?thesis by (simp add: pass_ok_def take_snapshot_def)
qed

lemma read_ok:
  assumes "distinct (map tr_tenant (registry c))" "have_ok pa r" "rows_ok c pa" "pa_pc pa = Reading"
  shows "pass_ok c (read_rows aead c pa r)"
proof -
  have "known_gen c (tn_Name w) (tn_Generation w) \<and> (tn_Enabled w \<longrightarrow> enabled_gen c (tn_Name w) (tn_Generation w))"
    if "w \<in> set (Tenants aead c)" for w
    using Tenants_row [OF that assms(1)] unfolding known_gen_def enabled_gen_def by (metis order_refl)
  then have "rows_ok c (pa\<lparr>pa_pc := Noting (Tenants aead c)\<rparr>)"
    using assms(3,4) Tenants_names [OF assms(1), of aead] by (simp add: rows_ok_def pass_rows_def distinct_map_filter)
  moreover have "have_ok (pa\<lparr>pa_pc := Noting (Tenants aead c)\<rparr>) r" using assms(2,4) by (simp add: have_ok_def todo_ok_def)
  ultimately show ?thesis by (simp add: pass_ok_def read_rows_def set_pc_def)
qed

lemma note_ok:
  assumes "have_ok pa r" "rows_ok c pa" "pa_pc pa = Noting rows"
  shows "pass_ok c (note_rows rows pa r)"
proof -
  let ?reg = "map_of (map (\<lambda>t. (tn_Name t, tn_Generation t)) rows)"
  let ?pa = "pa\<lparr>pa_want := filter tn_Enabled rows, pa_registered := ?reg, pa_pc := Snapshot\<rparr>"
  have names: "distinct (map tn_Name rows)" "\<forall>w \<in> set rows. known_gen c (tn_Name w) (tn_Generation w)"
    using assms(2,3) by (simp_all add: rows_ok_def)
  have reg: "known_gen c n g \<and> (\<forall>w \<in> set rows. tn_Name w = n \<longrightarrow> tn_Generation w = g)" if "?reg n = Some g" for n g
  proof -
    from map_of_SomeD [OF that] obtain t where t: "t \<in> set rows" "tn_Name t = n" "tn_Generation t = g" by auto
    moreover have "w = t" if "w \<in> set rows" "tn_Name w = n" for w using names(1) t(1,2) that by (auto simp: distinct_map dest: inj_onD)
    ultimately show ?thesis using names(2) by blast
  qed
  have "have_ok (pa\<lparr>pa_want := filter tn_Enabled rows, pa_registered := ?reg, pa_pc := Snapshot\<rparr>) r"
    using assms(1,3) by (simp add: have_ok_def todo_ok_def)
  moreover have "rows_ok c ?pa"
  proof -
    have eqs: "pass_rows ?pa = filter tn_Enabled rows" "pa_want ?pa = filter tn_Enabled rows" "pa_registered ?pa = ?reg" "pa_pc ?pa = Snapshot"
      by (simp_all add: pass_rows_def)
    have "distinct (map tn_Name (filter tn_Enabled rows)) \<and> (\<forall>w \<in> set (filter tn_Enabled rows). enabled_gen c (tn_Name w) (tn_Generation w))"
      using assms(2,3) by (simp add: rows_ok_def pass_rows_def)
    moreover have "\<forall>n g. ?reg n = Some g \<longrightarrow> known_gen c n g \<and> (\<forall>w \<in> set (filter tn_Enabled rows). tn_Name w = n \<longrightarrow> tn_Generation w = g)"
      by (intro allI impI) (drule reg, simp)
    ultimately show ?thesis unfolding rows_ok_def eqs by blast
  qed
  ultimately show ?thesis by (simp add: pass_ok_def note_rows_def)
qed


lemma retire_ok:
  assumes "have_ok pa r" "rows_ok c pa" "pa_pc pa = Retiring"
  shows "pass_ok c (retire_one n p pa r)"
proof -
  let ?r = "retire_one n p pa r" and ?pa = "pa\<lparr>pa_have := (pa_have pa)(n := None)\<rparr>"
  have same: "same_tenants r ?r" "rg_next r \<le> rg_next ?r"
    by (auto simp: same_tenants_def section_defs pending_admission_def)
  have "kept ?pa ?r m q" if "pa_have ?pa m = Some q" for m q
  proof -
    have "kept pa r m q" using assms(1) that by (simp add: have_ok_def split: if_splits)
    then have "kept pa ?r m q" by (rule kept_same [OF same])
    with assms(3) show ?thesis by (simp add: kept_def)
  qed
  then have "have_ok ?pa ?r" using assms(3) by (simp add: have_ok_def todo_ok_def)
  moreover have "rows_ok c ?pa" using assms(2,3) by (simp add: rows_ok_def pass_rows_def)
  moreover have "rg_pass ?r = Some ?pa" by (simp add: section_defs)
  ultimately show ?thesis by (simp add: pass_ok_def)
qed

lemma pc_ok:
  assumes "have_ok pa r" "rows_ok c pa" "todo_ok (pa\<lparr>pa_pc := pc\<rparr>)" "pa_pc pa \<noteq> Retiring" "\<And>rows. pc \<noteq> Noting rows" "\<And>rows. pa_pc pa \<noteq> Noting rows"
    "rg_tenants r' = rg_tenants r" "rg_objs r' = rg_objs r" "rg_next r' = rg_next r" "rg_admitting r' = rg_admitting r"
    "rg_pass r' = Some (pa\<lparr>pa_pc := pc\<rparr>)"
  shows "pass_ok c r'"
proof -
  have "superseded (pa\<lparr>pa_pc := pc\<rparr>) = superseded pa" by (simp add: fun_eq_iff superseded_def wanted_def)
  then have "have_ok (pa\<lparr>pa_pc := pc\<rparr>) r" using assms(1,3,4) by (simp add: have_ok_def kept_def)
  then have "have_ok (pa\<lparr>pa_pc := pc\<rparr>) r'" using have_ok_rows [OF assms(7-10)] by simp
  moreover have "pass_rows (pa\<lparr>pa_pc := pc\<rparr>) = pass_rows pa"
    using assms(5,6) by (auto simp: pass_rows_def split: pass_pc.splits)
  then have "rows_ok c (pa\<lparr>pa_pc := pc\<rparr>)" using assms(2,5) by (simp add: rows_ok_def)
  ultimately show ?thesis using assms(11) by (simp add: pass_ok_def)
qed

lemma observing_ok:
  assumes "have_ok pa r" "rows_ok c pa" "pa_pc pa = Retiring" "\<forall>n p. pa_have pa n = Some p \<longrightarrow> \<not> superseded pa n (rg_objs r p)"
  shows "pass_ok c (begin_observing pa r)"
proof -
  let ?pc = "Observing (filter (\<lambda>w. pa_have pa (tn_Name w) \<noteq> None) (pa_want pa)) True"
  have "superseded (pa\<lparr>pa_pc := ?pc\<rparr>) = superseded pa" by (simp add: fun_eq_iff superseded_def wanted_def)
  then have "have_ok (pa\<lparr>pa_pc := ?pc\<rparr>) r" using assms(1,4) by (simp add: have_ok_def kept_def todo_ok_def)
  moreover have "rows_ok c (pa\<lparr>pa_pc := ?pc\<rparr>)" using assms(2,3) by (simp add: rows_ok_def pass_rows_def)
  ultimately show ?thesis by (simp add: pass_ok_def begin_observing_def set_pc_def)
qed

lemma admit_ok:
  assumes "have_ok pa r" "rows_ok c pa" "pa_pc pa = Admitting todo" "w \<in> set todo"
  shows "pass_ok c (admit_one t w todo ok pa r)"
proof -
  let ?r = "admit_one t w todo ok pa r" and ?pa = "pa\<lparr>pa_pc := Admitting (remove1 w todo)\<rparr>"
  have none: "pa_have pa (tn_Name w) = None" "todo_ok ?pa"
    using assms by (auto simp: have_ok_def todo_ok_def dest: set_remove1_subset [THEN subsetD])
  have "superseded ?pa = superseded pa" by (simp add: fun_eq_iff superseded_def wanted_def)
  then have "kept ?pa ?r n p" if "pa_have pa n = Some p" for n p
    using assms(1,3) none(1) that by (auto simp: have_ok_def kept_def admit_one_def set_pc_def live_defs)
  then have "have_ok ?pa ?r" using none(2) by (simp add: have_ok_def)
  moreover have "rows_ok c ?pa" using assms(2,3) by (simp add: rows_ok_def pass_rows_def)
  moreover have "rg_pass ?r = Some ?pa" by (simp add: admit_one_def set_pc_def)
  ultimately show ?thesis by (simp add: pass_ok_def)
qed


lemma pass_ok_carry:
  assumes "pass_ok c r" "advances c c'" "rg_pass r' = rg_pass r" "same_tenants r r'" "rg_next r \<le> rg_next r'"
  shows "pass_ok c' r'"
  using assms have_ok_same [OF assms(4,5)] rows_ok_advances [OF assms(2)] by (simp add: pass_ok_def)

lemma pass_ok_advances: "advances c c' \<Longrightarrow> pass_ok c r \<Longrightarrow> pass_ok c' r"
  using rows_ok_advances by (auto simp: pass_ok_def)

lemma pass_ok_step:
  assumes "inst_step gap aead t env i (c, r) (c', r')" "heap_ok r" "pass_ok c r" "distinct (map tr_tenant (registry c))"
  shows "pass_ok c' r'"
proof -
  have now: "have_ok pa r" "rows_ok c pa" if "rg_pass r = Some pa" for pa using assms(3) that by (auto simp: pass_ok_def)
  note adv = inst_advances(1) [OF assms(1)]
  have "pass_ok c r'"
    using assms(1)
  proof (cases rule: inst_step.cases)
    case polls
    then show ?thesis by (simp add: pass_ok_def begin_pass_def have_ok_def todo_ok_def rows_ok_def pass_rows_def)
  next
    case (reads pa) then show ?thesis using read_ok [OF assms(4) now] by simp
  next
    case (noted pa rows) then show ?thesis using note_ok now by simp
  next
    case (snapshots pa) then show ?thesis using snapshot_ok [OF assms(2)] now by simp
  next
    case (retires pa n p) then show ?thesis using retire_ok now by simp
  next
    case (observing pa) then show ?thesis using observing_ok now by simp
  next
    case (observes pa todo observed w ok)
    have "todo_ok (pa\<lparr>pa_pc := Observing (remove1 w todo) (ok \<and> observed)\<rparr>)"
      using now(1) observes by (auto simp: have_ok_def todo_ok_def dest: set_remove1_subset [THEN subsetD])
    from pc_ok [OF now this] observes show ?thesis by (simp add: observed_one_def set_pc_def)
  next
    case (checked pa observed)
    have "todo_ok (pa\<lparr>pa_pc := Refreshing t\<rparr>)" by (simp add: todo_ok_def)
    from pc_ok [OF now this, of "set_pc (Refreshing t) pa r"] checked have "pass_ok c (set_pc (Refreshing t) pa r)" by simp
    then show ?thesis using checked by (simp add: may_refresh_def end_pass_def pass_ok_def)
  next
    case (refreshed pa since)
    have "todo_ok (pa\<lparr>pa_pc := Admitting (filter (\<lambda>w. pa_have pa (tn_Name w) = None) (pa_want pa))\<rparr>)" by (simp add: todo_ok_def)
    from pc_ok [OF now this] refreshed show ?thesis by (simp add: refresh_def set_pc_def)
  next
    case (admits pa todo w ok) then show ?thesis using admit_ok now by simp
  next
    case (publishes n ad)
    then show ?thesis using have_ok_publish [OF now(1) assms(2)] now(2) by (simp add: pass_ok_def)
  next
    case (unreadable pa) then show ?thesis by (simp add: pass_ok_def end_pass_def)
  next
    case (finished pa) then show ?thesis by (simp add: pass_ok_def end_pass_def)
  qed (rule pass_ok_carry [OF assms(3) advances_same [OF refl]], auto simp: same_tenants_def section_defs pending_admission_def)+
  then show ?thesis by (rule pass_ok_advances [OF adv])
qed


section \<open>Generations\<close>

text \<open>What a section writes about a tenant is no newer than what its instance may still claim for it.\<close>

lemma at_leastI:
  assumes "\<And>p. claims_as r n p \<Longrightarrow> g \<le> te_generation (rg_objs r p)" "\<And>ad. pending_admission r n ad \<Longrightarrow> g \<le> tn_Generation (ad_tenant ad)"
  shows "at_least r n g"
  using assms by (simp add: at_least_def)

lemma observed_at_least:
  assumes "have_ok pa r" "pa_pc pa = Observing todo observed" "w \<in> set todo" "distinct (map tn_Name (pa_want pa))"
  shows "at_least r (tn_Name w) (tn_Generation w)"
proof -
  obtain p where p: "pa_have pa (tn_Name w) = Some p" and w: "w \<in> set (pa_want pa)"
    using assms(1-3) by (auto simp: have_ok_def todo_ok_def)
  then have k: "kept pa r (tn_Name w) p" using assms(1) by (simp add: have_ok_def)
  obtain w' where w': "find (\<lambda>v. tn_Name v = tn_Name w) (pa_want pa) = Some w'"
    using w by (cases "find (\<lambda>v. tn_Name v = tn_Name w) (pa_want pa)") (auto simp: find_None_iff)
  then have "w' \<in> set (pa_want pa)" "tn_Name w' = tn_Name w" by (auto simp: find_Some_iff)
  then have "w' = w" using assms(4) w by (auto simp: distinct_map dest: inj_onD)
  then have "tn_Generation w = te_generation (rg_objs r p)"
    using k assms(2) w' by (auto simp: kept_def superseded_def wanted_def)
  then show ?thesis using k by (auto simp: kept_def intro!: at_leastI)
qed

text \<open>The observation a section writes, if it writes one.\<close>

lemma step_writes:
  assumes "inst_step gap aead t env i (c, r) (c', r')" "heap_ok r" "pass_ok c r" "gens_ok c i r" "obs_row c' n i = Some ob"
  shows "obs_row c n i = Some ob \<or> at_least r n (to_generation ob) \<or> (\<exists>w. starts_admission w True r \<and> n = tn_Name w \<and> to_generation ob = tn_Generation w)"
  using assms(1)
proof (cases rule: inst_step.cases)
  case (observes pa todo observed w ok)
  have "have_ok pa r" "distinct (map tn_Name (pa_want pa))"
    using assms(3) observes by (auto simp: pass_ok_def rows_ok_def pass_rows_def)
  then have "at_least r (tn_Name w) (tn_Generation w)" using observed_at_least observes by blast
  then show ?thesis using assms(5) observes by (auto simp: observe_tenant_def observeAs_def obs_row_Observe split: if_splits)
next
  case (admits pa todo w ok)
  then show ?thesis using assms(5) by (auto simp: announce_def observeAs_def obs_row_Observe starts_admission_def split: if_splits)
next
  case (admitted m ad ok)
  then have "at_least r m (tn_Generation (ad_tenant ad))" using assms(4) by (simp add: gens_ok_def)
  then show ?thesis using assms(5) admitted by (auto simp: observe_tenant_def observeAs_def obs_row_Observe split: if_splits)
next
  case (acknowledged re ok)
  then have "0 < re_ack re \<Longrightarrow> at_least r (re_name re) (re_ack re)" using assms(4) by (simp add: gens_ok_def)
  then show ?thesis using assms(5) acknowledged by (auto simp: acknowledge_def observe_tenant_def observeAs_def obs_row_Observe split: if_splits)
qed (use assms(5) in \<open>auto split: if_splits\<close>)


lemma publish_at_least:
  assumes "at_least r n g" "rg_admitting r m = Some ad" "ad_pc ad = Fresh" "tn_Name (ad_tenant ad) = m"
  shows "at_least (publish t ad r) n g"
  using assms by (auto simp: at_least_def publish_pending publish_objs pending_admission_def elim!: publish_claims)

lemma admit_claims [simp]: "claims_as (admit_one t w todo ok pa r) = claims_as r" "rg_objs (admit_one t w todo ok pa r) = rg_objs r"
  by (simp_all add: admit_one_def claims_as_def fun_eq_iff)

lemma admit_pending:
  assumes "starts_admission w True r" "pending_admission (admit_one t w todo True pa r) n ad"
  shows "(n \<noteq> tn_Name w \<and> pending_admission r n ad) \<or> (n = tn_Name w \<and> ad_tenant ad = w \<and> ad_announced ad = t)"
  using assms by (auto simp: admit_one_def pending_admission_def split: if_splits)

lemma admit_at_least:
  assumes "at_least r n g" "starts_admission w True r" "n = tn_Name w \<Longrightarrow> g \<le> tn_Generation w"
  shows "at_least (admit_one t w todo True pa r) n g"
  using assms by (auto simp: at_least_def dest!: admit_pending [OF assms(2)])

lemma step_at_least:
  assumes "inst_step gap aead t env i (c, r) (c', r')" "heap_ok r" "at_least r n g"
    "\<And>pa w todo. rg_pass r = Some pa \<Longrightarrow> pa_pc pa = Admitting todo \<Longrightarrow> w \<in> set todo \<Longrightarrow> starts_admission w True r \<Longrightarrow> n = tn_Name w \<Longrightarrow> g \<le> tn_Generation w"
  shows "at_least r' n g"
  using assms(1)
proof (cases rule: step_kinds)
  case (publishes m ad)
  then show ?thesis using publish_at_least [OF assms(3)] heap_okD(5) [OF assms(2)] by simp
next
  case (admits pa todo w)
  then show ?thesis using admit_at_least [OF assms(3)] assms(4) by simp
next
  case others
  then show ?thesis using assms(3) by (rule same_at_least)
qed

lemma started_at_least:
  assumes "heap_ok r" "starts_admission w True r"
  shows "at_least (admit_one t w todo True pa r) (tn_Name w) (tn_Generation w)"
proof (rule at_leastI)
  fix p assume "claims_as (admit_one t w todo True pa r) (tn_Name w) p"
  then show "tn_Generation w \<le> te_generation (rg_objs (admit_one t w todo True pa r) p)"
    using heap_okD(3) [OF assms(1)] assms(2) by (auto simp: starts_admission_def)
next
  fix ad assume "pending_admission (admit_one t w todo True pa r) (tn_Name w) ad"
  from admit_pending [OF assms(2) this] show "tn_Generation w \<le> tn_Generation (ad_tenant ad)" by auto
qed

lemma obs_at_least_step:
  assumes "inst_step gap aead t env i (c, r) (c', r')" "heap_ok r" "pass_ok c r" "gens_ok c i r" "obs_row c' n i = Some ob"
  shows "at_least r' n (to_generation ob)"
  using assms(1)
proof (cases rule: step_kinds)
  case (admits pa todo w)
  show ?thesis
  proof (cases "n = tn_Name w")
    case True
    then have "to_generation ob = tn_Generation w"
      using assms(5) admits by (auto simp: announce_def observeAs_def obs_row_Observe split: if_splits)
    then show ?thesis using True admits started_at_least [OF assms(2)] by simp
  next
    case False
    then have "obs_row c n i = Some ob" using assms(5) admits by (auto simp: announce_def observeAs_def obs_row_Observe split: if_splits)
    then show ?thesis using assms(4) False admits admit_at_least by (auto simp: gens_ok_def)
  qed
next
  case (publishes m ad)
  then have "at_least r n (to_generation ob)" using assms(4,5) by (auto simp: gens_ok_def)
  then show ?thesis using publishes publish_at_least heap_okD(5) [OF assms(2)] by simp
next
  case others
  consider "obs_row c n i = Some ob" | "at_least r n (to_generation ob)"
    | w where "starts_admission w True r" "n = tn_Name w" "to_generation ob = tn_Generation w"
    using step_writes [OF assms] by blast
  then show ?thesis
  proof cases
    case 1 then show ?thesis using assms(4) same_at_least [OF others] by (simp add: gens_ok_def)
  next
    case 2 then show ?thesis using same_at_least [OF others] by simp
  next
    case 3
    then have "at_least r n (to_generation ob)" using heap_okD(3) [OF assms(2)]
      by (intro at_leastI) (auto simp: starts_admission_def pending_admission_def)
    then show ?thesis using same_at_least [OF others] by simp
  qed
qed


lemma row_gen_ge: "known_gen c n g \<Longrightarrow> tenant_row c n = Some row \<Longrightarrow> g \<le> tr_generation row"
  by (simp add: known_gen_def)

text \<open>What a pass has read does not lie behind a retirement in progress.\<close>

lemma rows_behind:
  assumes "inst_step gap aead t env i (c, r) (c', r')" "gens_ok c i r" "distinct (map tr_tenant (registry c))"
    "re \<in> set (rg_retirements r)" "0 < re_ack re" "rg_pass r' = Some pa'" "w \<in> set (pass_rows pa')" "tn_Name w = re_name re"
  shows "re_ack re \<le> tn_Generation w"
proof -
  have old: "re_ack re \<le> tn_Generation w" if "rg_pass r = Some pa" "w \<in> set (pass_rows pa)" for pa
    using assms(2,4,5,8) that by (auto simp: gens_ok_def)
  show ?thesis
    using assms(1)
  proof (cases rule: inst_step.cases)
    case (reads pa)
    then have "w \<in> set (Tenants aead c)" using assms(6,7) by (auto simp: read_rows_def pass_rows_def)
    then obtain row where "tenant_row c (re_name re) = Some row" "tn_Generation w = tr_generation row"
      using assms(3,8) by (metis Tenants_row)
    moreover have "known_gen c (re_name re) (re_ack re)" using assms(2,4,5) by (auto simp: gens_ok_def)
    ultimately show ?thesis using row_gen_ge by simp
  qed (use assms(6,7) old in \<open>auto simp: section_defs pass_rows_def split: if_splits\<close>)
qed

lemma new_retirement:
  assumes "inst_step gap aead t env i (c, r) (c', r')" "re \<in> set (rg_retirements r')" "pass_ok c r" "0 < re_ack re"
  obtains (old) re0 where "re0 \<in> set (rg_retirements r)" "re_name re0 = re_name re" "re_ack re0 = re_ack re"
  | (new) pa p where "rg_pass r = Some pa" "pa_pc pa = Retiring" "pa_have pa (re_name re) = Some p" "r' = retire_one (re_name re) p pa r"
      "pa_registered pa (re_name re) = Some (re_ack re)"
  using assms(1)
proof (cases rule: inst_step.cases)
  case (retires pa n p)
  show thesis
  proof (cases "re \<in> set (rg_retirements r)")
    case True then show thesis by (rule old) simp_all
  next
    case False
    then have "re_name re = n" "re_ack re = (case pa_registered pa n of None \<Rightarrow> 0 | Some g \<Rightarrow> g)"
      using assms(2) retires by (auto simp: section_defs split: if_splits)
    with retires assms(4) show thesis by (intro new) (auto split: option.splits)
  qed
next
  case (removed re1)
  then have "re \<in> set (rg_retirements r) \<or> re = re1\<lparr>re_pc := Removed\<rparr>"
    using assms(2) by (auto simp: remove_tenant_def dest: set_remove1_subset [THEN subsetD])
  then show thesis using removed old [of re] old [of re1] by auto
qed (rule old [of re], use assms(2) in \<open>auto simp: section_defs dest: set_remove1_subset [THEN subsetD] split: if_splits\<close>)+


lemma gens_okD:
  assumes "gens_ok c i r"
  shows "claims_as r n p \<Longrightarrow> enabled_gen c n (te_generation (rg_objs r p))"
    "rg_admitting r n = Some ad \<Longrightarrow> enabled_gen c n (tn_Generation (ad_tenant ad))"
    "rg_admitting r n = Some ad \<Longrightarrow> at_least r n (tn_Generation (ad_tenant ad))"
    "re \<in> set (rg_retirements r) \<Longrightarrow> 0 < re_ack re \<Longrightarrow> known_gen c (re_name re) (re_ack re)"
    "re \<in> set (rg_retirements r) \<Longrightarrow> 0 < re_ack re \<Longrightarrow> at_least r (re_name re) (re_ack re)"
    "re \<in> set (rg_retirements r) \<Longrightarrow> 0 < re_ack re \<Longrightarrow> rg_pass r = Some pa \<Longrightarrow> w \<in> set (pass_rows pa) \<Longrightarrow> tn_Name w = re_name re \<Longrightarrow>
       re_ack re \<le> tn_Generation w"
    "obs_row c n i = Some ob \<Longrightarrow> at_least r n (to_generation ob)"
  using assms by (auto simp: gens_ok_def)

lemma admitting_rows: "have_ok pa r \<Longrightarrow> pa_pc pa = Admitting todo \<Longrightarrow> w \<in> set todo \<Longrightarrow> w \<in> set (pass_rows pa)"
  by (simp add: have_ok_def todo_ok_def pass_rows_def)

lemma claims_gen_step:
  assumes "inst_step gap aead t env i (c, r) (c', r')" "heap_ok r" "gens_ok c i r" "claims_as r' n p"
  shows "enabled_gen c n (te_generation (rg_objs r' p))"
  using assms(1)
proof (cases rule: step_kinds)
  case (publishes m ad)
  with assms(4) have "claims_as (publish t ad r) n p" by simp
  then show ?thesis
  proof (cases rule: publish_claims)
    case old then show ?thesis using gens_okD(1) [OF assms(3)] publishes by (simp add: publish_objs)
  next
    case new
    then have "n = m" using publishes heap_okD(5) [OF assms(2)] by simp
    then show ?thesis using new gens_okD(2) [OF assms(3)] publishes by (simp add: publish_objs)
  qed
next
  case (admits pa todo w) then show ?thesis using assms(4) gens_okD(1) [OF assms(3)] by simp
next
  case others
  then have "te_generation (rg_objs r' p) = te_generation (rg_objs r p)" by (simp add: same_tenants_def)
  then show ?thesis using gens_okD(1) [OF assms(3) same_claims [OF others assms(4)]] by simp
qed

lemma admitting_step:
  assumes "inst_step gap aead t env i (c, r) (c', r')" "heap_ok r" "rg_admitting r' n = Some ad'"
  obtains (old) ad where "rg_admitting r n = Some ad" "ad_tenant ad' = ad_tenant ad" "ad_announced ad' = ad_announced ad"
  | (new) pa todo w where "rg_pass r = Some pa" "pa_pc pa = Admitting todo" "w \<in> set todo" "starts_admission w True r" "n = tn_Name w"
      "ad_tenant ad' = w" "ad_announced ad' = t" "r' = admit_one t w todo True pa r" "c' = announce env i w True r c"
  using assms(1)
proof (cases rule: step_kinds)
  case (publishes m ad) then show thesis using old assms(3) heap_okD(5) [OF assms(2)] by (auto split: if_splits)
next
  case (admits pa todo w) then show thesis using old new assms(3) by (auto simp: admit_one_def split: if_splits)
next
  case others
  then have "\<exists>ad. rg_admitting r n = Some ad \<and> ad_tenant ad' = ad_tenant ad \<and> ad_announced ad' = ad_announced ad"
    using assms(3) unfolding same_tenants_def by blast
  then show thesis using old by blast
qed

lemma retire_claims:
  assumes "heap_ok r" "claims_as (retire_one n p pa r) m q"
  shows "claims_as r m q" "q \<noteq> p"
  using assms(2) heap_okD(4) [OF assms(1), of m q] by (auto simp: section_defs claims_as_def skipRetirement_def split: if_splits)

lemma gens_ok_step:
  assumes "inst_step gap aead t env i (c, r) (c', r')" "heap_ok r" "pass_ok c r" "gens_ok c i r" "distinct (map tr_tenant (registry c))"
  shows "gens_ok c' i r'"
proof -
  note adv = advances_gens [OF inst_advances(1) [OF assms(1)]]
  note ok = gens_okD [OF assms(4)]
  have have_ok: "have_ok pa r" "rows_ok c pa" if "rg_pass r = Some pa" for pa using assms(3) that by (auto simp: pass_ok_def)
  have adm: "enabled_gen c n (tn_Generation (ad_tenant ad')) \<and> at_least r' n (tn_Generation (ad_tenant ad'))" if "rg_admitting r' n = Some ad'" for n ad'
    using assms(1,2) that
  proof (cases rule: admitting_step)
    case (old ad)
    have "at_least r' n (tn_Generation (ad_tenant ad))"
      by (rule step_at_least [OF assms(1,2) ok(3) [OF old(1)]]) (use old in \<open>auto simp: starts_admission_def\<close>)
    then show ?thesis using ok(2) old by simp
  next
    case (new pa todo w)
    then have "enabled_gen c n (tn_Generation w)" using admitting_rows have_ok by (auto simp: rows_ok_def)
    then show ?thesis using new started_at_least [OF assms(2)] by simp
  qed
  have ret: "known_gen c (re_name re) (re_ack re) \<and> at_least r' (re_name re) (re_ack re) \<and>
      (\<forall>pa w. rg_pass r' = Some pa \<longrightarrow> w \<in> set (pass_rows pa) \<longrightarrow> tn_Name w = re_name re \<longrightarrow> re_ack re \<le> tn_Generation w)"
    if "re \<in> set (rg_retirements r')" "0 < re_ack re" for re
    using assms(1) that(1) assms(3) that(2)
  proof (cases rule: new_retirement)
    case (old re0)
    have "at_least r' (re_name re0) (re_ack re0)"
      by (rule step_at_least [OF assms(1,2) ok(5) [OF old(1)]]) (use old that ok(6) [OF old(1)] have_ok admitting_rows in auto)
    then show ?thesis using rows_behind [OF assms(1,4,5) old(1)] ok(4) [OF old(1)] old that by simp
  next
    case (new pa p)
    have k: "kept pa r (re_name re) p" and rows: "rows_ok c pa" using have_ok new by (auto simp: have_ok_def)
    have "\<not> claims_as r' (re_name re) q" for q
      using k new(4) retire_claims [OF assms(2)] unfolding kept_def by metis
    moreover have "pending_admission r' = pending_admission r" using new by (auto simp: section_defs pending_admission_def fun_eq_iff)
    ultimately have "at_least r' (re_name re) (re_ack re)" using k by (auto simp: kept_def intro!: at_leastI)
    moreover have "rg_pass r' = Some (pa\<lparr>pa_have := (pa_have pa)(re_name re := None)\<rparr>)" using new by (simp add: section_defs)
    ultimately show ?thesis using rows new by (auto simp: rows_ok_def pass_rows_def)
  qed
  show ?thesis
    unfolding gens_ok_def
    using claims_gen_step [OF assms(1,2,4)] adm ret adv obs_at_least_step [OF assms(1-4)] by blast
qed


section \<open>Times\<close>

lemma truncate_mono: "a \<le> b \<Longrightarrow> truncate_second a \<le> truncate_second b"
  by (simp add: truncate_second_def minus_mod_eq_mult_div zdiv_mono1)

lemma times_okD:
  assumes "times_ok gap t c i r"
  shows "fc_lastRead (rg_fence r) = Some f \<Longrightarrow> f \<le> t"
    "obs_row c n i = Some ob \<Longrightarrow> to_observed_at ob \<le> truncate_second t"
    "rg_pass r = Some pa \<Longrightarrow> pass_times t c i r pa"
    "claims_as r n p \<Longrightarrow> te_published (rg_objs r p) \<le> t"
    "claims_as r n p \<Longrightarrow> seen_since c n i (te_announced (rg_objs r p))"
    "claims_as r n p \<Longrightarrow> fc_lastRead (rg_fence r) = Some f \<Longrightarrow>
       seen_since c n i (f - fc_limit (rg_fence r) - gap) \<or> f \<le> te_published (rg_objs r p) + fc_limit (rg_fence r) + gap"
    "pending_admission r n ad \<Longrightarrow> seen_since c n i (ad_announced ad)"
  using assms by (auto simp: times_ok_def)

lemma obs_written:
  assumes "inst_step gap aead t env i (c, r) (c', r')" "obs_row c' n i = Some ob"
  shows "obs_row c n i = Some ob \<or> to_observed_at ob = utc env"
  using assms(1) by cases
    (use assms(2) in \<open>auto simp: observe_tenant_def observeAs_def announce_def acknowledge_def obs_row_Observe split: if_splits\<close>)

lemma obs_stays:
  assumes "inst_step gap aead t env i (c, r) (c', r')" "obs_row c n i = Some ob"
  shows "obs_row c' n i \<noteq> None"
  using assms(1) by cases
    (use assms(2) in \<open>auto simp: observe_tenant_def observeAs_def announce_def acknowledge_def obs_row_Observe split: if_splits\<close>)

lemma seen_step:
  assumes "inst_step gap aead t env i (c, r) (c', r')" "times_ok gap t c i r" "utc env = truncate_second t" "seen_since c n i x"
  shows "seen_since c' n i x"
proof -
  obtain ob where ob: "obs_row c n i = Some ob" "truncate_second x \<le> to_observed_at ob" using assms(4) by (auto simp: seen_since_def)
  obtain ob' where ob': "obs_row c' n i = Some ob'" using obs_stays [OF assms(1) ob(1)] by auto
  have "to_observed_at ob \<le> to_observed_at ob'"
    using obs_written [OF assms(1) ob'] ob(1) assms(3) times_okD(2) [OF assms(2) ob(1)] by auto
  then show ?thesis using ob ob' by (auto simp: seen_since_def)
qed

lemma seen_now:
  assumes "utc env = truncate_second t" "x \<le> t"
  shows "seen_since (Observe env n i g q c) n i x"
  using assms truncate_mono by (auto simp: seen_since_def obs_row_Observe)

lemma limit_step: "inst_step gap aead t env i (c, r) (c', r') \<Longrightarrow> fc_limit (rg_fence r') = fc_limit (rg_fence r)"
  by (cases rule: inst_step.cases) (auto simp: section_defs Refresh_def)


lemma publish_times:
  assumes "pass_times t c i r pa" "heap_ok r" "have_ok pa r" "rg_admitting r n = Some ad" "ad_pc ad = Fresh"
  shows "pass_times t c i (publish t ad r) pa"
proof -
  have "pending_admission r n ad" "tn_Name (ad_tenant ad) = n"
    using assms heap_okD(5) [OF assms(2)] by (auto simp: pending_admission_def)
  then have none: "pa_have pa (tn_Name (ad_tenant ad)) = None" using assms(3) by (cases "pa_have pa n") (auto simp: have_ok_def kept_def)
  have "accounted c i (publish t ad r) pa m p" if "claims_as (publish t ad r) m p" for m p
    using that
  proof (cases rule: publish_claims)
    case old then show ?thesis using assms(1) by (simp add: pass_times_def accounted_def publish_objs)
  next
    case new then show ?thesis using assms(1) none by (simp add: pass_times_def accounted_def publish_objs)
  qed
  then show ?thesis using assms(1) by (simp add: pass_times_def)
qed

lemma pass_times_same:
  assumes "pass_times t c i r pa" "same_tenants r r'" "fc_limit (rg_fence r') = fc_limit (rg_fence r)"
    "\<And>n x. seen_since c n i x \<Longrightarrow> seen_since c' n i x"
  shows "pass_times t c' i r' pa"
proof -
  have "te_published (rg_objs r' p) = te_published (rg_objs r p)" for p using assms(2) by (simp add: same_tenants_def)
  moreover have "shown c i pa n \<Longrightarrow> shown c' i pa n" for n using assms(4) by (auto simp: shown_def split: pass_pc.splits)
  ultimately have "accounted c' i r' pa n p" if "claims_as r' n p" for n p
    using assms(1) same_claims [OF assms(2) that] by (auto simp: pass_times_def accounted_def)
  then show ?thesis using assms(1,3) by (simp add: pass_times_def)
qed

text \<open>A section of the poll: the pass moves on, the engines stay.\<close>

lemma pass_times_pc:
  assumes "pass_times t c i r pa" "claims_as r' = claims_as r" "rg_objs r' = rg_objs r" "fc_limit (rg_fence r') = fc_limit (rg_fence r)"
    "pa_readAt pa' = pa_readAt pa" "\<And>since. pa_pc pa' = Refreshing since \<Longrightarrow> since \<le> pa_readAt pa + fc_limit (rg_fence r)"
    "\<And>n p. claims_as r n p \<Longrightarrow> accounted c i r pa n p \<Longrightarrow> accounted c' i r pa' n p"
  shows "pass_times t c' i r' pa'"
proof -
  have "accounted c' i r' pa' n p" if "claims_as r' n p" for n p
    using assms(1,2,3,7) that by (simp add: pass_times_def accounted_def)
  then show ?thesis using assms(1,2,4-6) by (simp add: pass_times_def)
qed


lemma retire_rest [simp]:
  "rg_pass (retire_one n p pa r) = Some (pa\<lparr>pa_have := (pa_have pa)(n := None)\<rparr>)"
  "te_published (rg_objs (retire_one n p pa r) q) = te_published (rg_objs r q)"
  by (simp_all add: section_defs)

lemma shown_next:
  assumes "pa_pc pa = Observing todo observed" "shown c i pa n" "ok \<Longrightarrow> seen_since c' (tn_Name w) i (pa_readAt pa)"
    "\<And>n x. seen_since c n i x \<Longrightarrow> seen_since c' n i x"
  shows "shown c' i (pa\<lparr>pa_pc := Observing (remove1 w todo) (ok \<and> observed)\<rparr>) n"
proof -
  have "seen_since c' n i (pa_readAt pa)" if "ok" "observed" "n \<notin> tn_Name ` set (remove1 w todo)"
  proof (cases "n = tn_Name w")
    case True then show ?thesis using assms(3) that by simp
  next
    case False
    have "n \<notin> tn_Name ` set todo"
    proof
      assume "n \<in> tn_Name ` set todo"
      then obtain x where x: "x \<in> set todo" "tn_Name x = n" by auto
      then have "x \<in> set (remove1 w todo)" using False by (cases "x = w") simp_all
      then show False using x(2) that(3) by blast
    qed
    then show ?thesis using assms(1,2,4) that(2) by (simp add: shown_def)
  qed
  then show ?thesis by (simp add: shown_def)
qed

lemma pass_times_step:
  assumes "inst_step gap aead t env i (c, r) (c', r')" "heap_ok r" "pass_ok c r" "times_ok gap t c i r" "utc env = truncate_second t"
    "rg_pass r' = Some pa'"
  shows "pass_times t c' i r' pa'"
proof -
  note seen = seen_step [OF assms(1,4,5)] and limit = limit_step [OF assms(1)]
  have now: "pass_times t c i r pa" "have_ok pa r" "rows_ok c pa" if "rg_pass r = Some pa" for pa
    using times_okD(3) [OF assms(4) that] assms(3) that by (auto simp: pass_ok_def)
  have carry: "pass_times t c' i r' pa'" if "rg_pass r' = rg_pass r" "same_tenants r r'"
    using pass_times_same [OF now(1) that(2) limit seen] that(1) assms(6) by simp
  show ?thesis
    using assms(1)
  proof (cases rule: inst_step.cases)
    case polls
    then show ?thesis using assms(6) by (auto simp: begin_pass_def pass_times_def accounted_def)
  next
    case (reads pa)
    then show ?thesis using assms(6)
      by (auto simp: read_rows_def claims_as_def fun_eq_iff accounted_def shown_def intro!: pass_times_pc [OF now(1)])
  next
    case (noted pa rows)
    then show ?thesis using assms(6)
      by (auto simp: note_rows_def claims_as_def fun_eq_iff accounted_def shown_def intro!: pass_times_pc [OF now(1)])
  next
    case (snapshots pa)
    then show ?thesis using assms(6) heap_okD(3) [OF assms(2)]
      by (auto simp: take_snapshot_def claims_as_def fun_eq_iff accounted_def shown_def intro!: pass_times_pc [OF now(1)])
  next
    case (observing pa)
    have "superseded pa n (rg_objs r p) \<or> n \<in> tn_Name ` set (filter (\<lambda>w. pa_have pa (tn_Name w) \<noteq> None) (pa_want pa))"
      if "pa_have pa n = Some p" for n p
      using that by (auto simp: superseded_def wanted_def find_Some_iff split: option.splits)
    then show ?thesis using observing assms(6)
      by (auto simp: begin_observing_def claims_as_def fun_eq_iff accounted_def shown_def intro!: pass_times_pc [OF now(1)])
  next
    case (observes pa todo observed w ok)
    have "seen_since c' (tn_Name w) i (pa_readAt pa)" if ok
      using observes that now(1) seen_now [OF assms(5)] by (auto simp: observe_tenant_def observeAs_def pass_times_def)
    moreover have "pa' = pa\<lparr>pa_pc := Observing (remove1 w todo) (ok \<and> observed)\<rparr>" using observes(2) assms(6) by (simp add: observed_one_def)
    ultimately have "shown c' i pa' n" if "shown c i pa n" for n
      using shown_next [OF observes(4) that _ seen, of ok w] by blast
    then show ?thesis using observes(2-5) assms(6)
      by (auto simp: observed_one_def claims_as_def fun_eq_iff accounted_def intro!: pass_times_pc [OF now(1)])
  next
    case (checked pa observed)
    then show ?thesis using assms(6)
      by (auto simp: may_refresh_def end_pass_def claims_as_def fun_eq_iff accounted_def shown_def intro!: pass_times_pc [OF now(1)] split: if_splits)
  next
    case (refreshed pa since)
    then show ?thesis using assms(6)
      by (auto simp: refresh_def Refresh_def claims_as_def fun_eq_iff accounted_def shown_def intro!: pass_times_pc [OF now(1)])
  next
    case (publishes n ad)
    then show ?thesis using assms(6) publish_times [OF now(1) assms(2) now(2)] by simp
  next
    case (retires pa n p)
    then have claims: "claims_as r' m q \<Longrightarrow> claims_as r m q \<and> q \<noteq> p" for m q using retire_claims [OF assms(2)] by blast
    have pa': "pa' = pa\<lparr>pa_have := (pa_have pa)(n := None)\<rparr>" using retires(2) assms(6) by simp
    have "accounted c i r' pa' m q" if "claims_as r' m q" for m q
    proof -
      have "accounted c i r pa m q" using now(1) [OF retires(3)] claims [OF that] by (simp add: pass_times_def)
      then show ?thesis using claims [OF that] retires(1,2,4,5) by (auto simp: accounted_def pa' shown_def)
    qed
    then show ?thesis using now(1) [OF retires(3)] retires(1,2,4) limit by (simp add: pass_times_def pa')
  next
    case (admits pa todo w ok)
    then show ?thesis using assms(6) limit
      by (auto simp: admit_one_def accounted_def shown_def claims_as_def fun_eq_iff intro!: pass_times_pc [OF now(1)])
  next
    case (unreadable pa) then show ?thesis using assms(6) by (simp add: end_pass_def)
  next
    case (finished pa) then show ?thesis using assms(6) by (simp add: end_pass_def)
  qed (rule carry; auto simp: same_tenants_def section_defs pending_admission_def)+
qed


lemma last_step:
  assumes "inst_step gap aead t env i (c, r) (c', r')" "fc_lastRead (rg_fence r') = Some f"
  shows "fc_lastRead (rg_fence r) = Some f \<or> (\<exists>pa since. rg_pass r = Some pa \<and> pa_pc pa = Refreshing since \<and> t \<le> since + gap \<and>
     f = t \<and> claims_as r' = claims_as r \<and> rg_objs r' = rg_objs r \<and> c' = c)"
  using assms(1) by cases (use assms(2) in \<open>auto simp: section_defs Refresh_def claims_as_def fun_eq_iff split: if_splits\<close>)

lemma claims_times_step:
  assumes "inst_step gap aead t env i (c, r) (c', r')" "heap_ok r" "times_ok gap t c i r" "utc env = truncate_second t" "claims_as r' n p"
    "0 \<le> gap" "0 \<le> fc_limit (rg_fence r)" "fc_lastRead (rg_fence r') = Some f"
  shows "seen_since c' n i (f - fc_limit (rg_fence r') - gap) \<or> f \<le> te_published (rg_objs r' p) + fc_limit (rg_fence r') + gap"
  using last_step [OF assms(1,8)]
proof
  assume f: "fc_lastRead (rg_fence r) = Some f"
  note seen = seen_step [OF assms(1,3,4)]
  show ?thesis
    using assms(1)
  proof (cases rule: step_kinds)
    case (publishes m ad)
    with assms(5) have "claims_as (publish t ad r) n p" by simp
    then show ?thesis
    proof (cases rule: publish_claims)
      case old then show ?thesis using times_okD(6) [OF assms(3) old(1) f] publishes by (simp add: publish_objs)
    next
      case new then show ?thesis using times_okD(1) [OF assms(3) f] publishes assms(6,7) by (simp add: publish_objs)
    qed
  next
    case (admits pa todo w)
    then show ?thesis using times_okD(6) [OF assms(3) _ f, of n p] assms(5) seen limit_step [OF assms(1)] by auto
  next
    case others
    have "te_published (rg_objs r' p) = te_published (rg_objs r p)" using others by (simp add: same_tenants_def)
    then show ?thesis using times_okD(6) [OF assms(3) same_claims [OF others assms(5)] f] seen limit_step [OF assms(1)] by auto
  qed
next
  assume "\<exists>pa since. rg_pass r = Some pa \<and> pa_pc pa = Refreshing since \<and> t \<le> since + gap \<and> f = t \<and> claims_as r' = claims_as r \<and> rg_objs r' = rg_objs r \<and> c' = c"
  then obtain pa since where pa: "rg_pass r = Some pa" "pa_pc pa = Refreshing since" "t \<le> since + gap" "f = t"
    and same: "claims_as r' = claims_as r" "rg_objs r' = rg_objs r" "c' = c" by blast
  have pt: "since \<le> pa_readAt pa + fc_limit (rg_fence r)" "accounted c i r pa n p"
    using times_okD(3) [OF assms(3) pa(1)] pa(2) assms(5) same(1) by (auto simp: pass_times_def)
  note lim = limit_step [OF assms(1)]
  show ?thesis
  proof (cases "pa_have pa n = Some p")
    case True
    then have "seen_since c n i (pa_readAt pa)" using pt(2) pa(2) by (simp add: accounted_def shown_def)
    moreover have "truncate_second (f - fc_limit (rg_fence r) - gap) \<le> truncate_second (pa_readAt pa)"
      by (rule truncate_mono) (use pt(1) pa(3,4) in simp)
    ultimately show ?thesis using same(3) lim by (auto simp: seen_since_def)
  next
    case False
    then have "pa_readAt pa \<le> te_published (rg_objs r p)" using pt(2) pa(2) by (simp add: accounted_def)
    then show ?thesis using pt(1) pa(3,4) same(2) lim by simp
  qed
qed

lemma published_step:
  assumes "inst_step gap aead t env i (c, r) (c', r')" "heap_ok r" "times_ok gap t c i r" "utc env = truncate_second t" "claims_as r' n p"
  shows "te_published (rg_objs r' p) \<le> t \<and> seen_since c' n i (te_announced (rg_objs r' p))"
proof -
  note seen = seen_step [OF assms(1,3,4)] and ok = times_okD [OF assms(3)]
  show ?thesis
    using assms(1)
  proof (cases rule: step_kinds)
    case (publishes m ad)
    then have "pending_admission r m ad" "tn_Name (ad_tenant ad) = m"
      using heap_okD(5) [OF assms(2)] by (auto simp: pending_admission_def)
    moreover from publishes assms(5) have "claims_as (publish t ad r) n p" by simp
    ultimately show ?thesis using publishes ok(4,5,7) by (auto simp: publish_objs elim!: publish_claims)
  next
    case (admits pa todo w) then show ?thesis using ok(4,5) seen assms(5) by auto
  next
    case others
    have "te_published (rg_objs r' p) = te_published (rg_objs r p)" "te_announced (rg_objs r' p) = te_announced (rg_objs r p)"
      using others by (simp_all add: same_tenants_def)
    then show ?thesis using ok(4,5) [OF same_claims [OF others assms(5)]] seen by simp
  qed
qed

lemma announced_step:
  assumes "inst_step gap aead t env i (c, r) (c', r')" "heap_ok r" "times_ok gap t c i r" "utc env = truncate_second t" "pending_admission r' n ad'"
  shows "seen_since c' n i (ad_announced ad')"
  using assms(1)
proof (cases rule: step_kinds)
  case (publishes m ad)
  then show ?thesis using assms(5) times_okD(7) [OF assms(3)] by (simp add: publish_pending)
next
  case (admits pa todo w)
  from admit_pending [OF admits(6)] assms(5) admits(2)
  have "n \<noteq> tn_Name w \<and> pending_admission r n ad' \<or> n = tn_Name w \<and> ad_tenant ad' = w \<and> ad_announced ad' = t" by simp
  then show ?thesis using admits(1,6) times_okD(7) [OF assms(3)] seen_step [OF assms(1,3,4)] seen_now [OF assms(4)]
    by (auto simp: announce_def observeAs_def)
next
  case others
  then show ?thesis using same_pending [OF others assms(5)] times_okD(7) [OF assms(3)] seen_step [OF assms(1,3,4)] by auto
qed

lemma times_ok_step:
  assumes "inst_step gap aead t env i (c, r) (c', r')" "heap_ok r" "pass_ok c r" "times_ok gap t c i r" "utc env = truncate_second t"
    "0 \<le> gap" "0 \<le> fc_limit (rg_fence r)"
  shows "times_ok gap t c' i r'"
proof -
  have "f \<le> t" if "fc_lastRead (rg_fence r') = Some f" for f
    using last_step [OF assms(1) that] times_okD(1) [OF assms(4)] by auto
  moreover have "to_observed_at ob \<le> truncate_second t" if "obs_row c' n i = Some ob" for n ob
    using obs_written [OF assms(1) that] times_okD(2) [OF assms(4)] assms(5) by auto
  ultimately show ?thesis
    unfolding times_ok_def
    using pass_times_step [OF assms(1-5)] published_step [OF assms(1,2,4,5)] claims_times_step [OF assms(1,2,4,5) _ assms(6,7)]
      announced_step [OF assms(1,2,4,5)] by blast
qed


end
