(* ===== verification/Cutover.thy ===== *)
theory Cutover
  imports ClusterInv
begin

text \<open>
  The invariant of every reachable cluster, and the gate of a cutover: at the moment \<open>SetTenantDSN\<close> commits no instance
  acts on the tenant.
\<close>

section \<open>Every reachable cluster\<close>

definition inst_ok :: "duration \<Rightarrow> time \<Rightarrow> ctl \<Rightarrow> string \<Rightarrow> Registry \<Rightarrow> bool" where
  "inst_ok gap t c i r \<longleftrightarrow> heap_ok r \<and> pass_ok c r \<and> gens_ok c i r \<and> times_ok gap t c i r"

definition cluster_ok :: "duration \<Rightarrow> duration \<Rightarrow> cluster \<Rightarrow> bool" where
  "cluster_ok limit gap s \<longleftrightarrow> distinct (map tr_tenant (registry (cl_ctl s))) \<and>
     (\<forall>i. fc_limit (rg_fence (cl_insts s i)) = limit \<and> inst_ok gap (cl_now s) (cl_ctl s) i (cl_insts s i))"

lemma gens_ok_others:
  assumes "gens_ok c i r" "advances c c'" "\<And>n. obs_row c' n i = obs_row c n i"
  shows "gens_ok c' i r"
  using assms(1) advances_gens [OF assms(2)] unfolding gens_ok_def assms(3) by blast

lemma seen_since_cong: "(\<And>n. obs_row c' n i = obs_row c n i) \<Longrightarrow> seen_since c' n i x = seen_since c n i x"
  by (simp add: seen_since_def)

lemma pass_times_later: "pass_times t c i r pa \<Longrightarrow> t \<le> t' \<Longrightarrow> pass_times t' c i r pa"
  by (auto simp: pass_times_def)

lemma times_ok_others:
  assumes "times_ok gap t c i r" "\<And>n. obs_row c' n i = obs_row c n i" "t \<le> t'"
  shows "times_ok gap t' c' i r"
proof -
  have "seen_since c' n i x = seen_since c n i x" for n x using assms(2) by (rule seen_since_cong)
  moreover from this have "pass_times t' c' i r pa = pass_times t' c i r pa" for pa
    by (simp add: pass_times_def accounted_def shown_def cong: pass_pc.case_cong)
  ultimately show ?thesis
    using assms(1) pass_times_later [OF _ assms(3)] order_trans [OF _ assms(3)] order_trans [OF _ truncate_mono [OF assms(3)]]
    unfolding times_ok_def assms(2) by simp
qed

lemma inst_ok_others:
  assumes "inst_ok gap t c i r" "advances c c'" "\<And>n. obs_row c' n i = obs_row c n i" "t \<le> t'"
  shows "inst_ok gap t' c' i r"
  using assms gens_ok_others pass_ok_advances times_ok_others unfolding inst_ok_def by metis

lemma operator_keys:
  assumes "operator_step limit aead env c c'" "distinct (map tr_tenant (registry c))"
  shows "distinct (map tr_tenant (registry c'))"
  using assms(1)
proof cases
  case (add_tenant rand n dsn uuid actor reason)
  then show ?thesis using assms(2)
    by (auto simp: AddTenant_def new_tenant_def row_of_None dest!: record_audit_keeps split: if_splits)
next
  case (enable n on actor reason)
  then show ?thesis using assms(2)
    by (auto simp: SetTenantEnabled_def Let_def enables.keys_after dest!: record_audit_keeps split: if_splits)
next
  case (repoint rand n dsn uuid actor reason quiet)
  then show ?thesis using assms(2)
    by (auto simp: SetTenantDSN_def Let_def repoints.keys_after dest!: record_audit_keeps split: if_splits option.splits)
qed (use assms(2) in \<open>auto simp: AddIdentity_def insert_identity_def SetIdentityDisabled_def DeleteIdentity_def Audit_def Let_def
   dest!: record_audit_keeps split: if_splits option.splits\<close>)

lemma inst_keys:
  assumes "inst_step gap aead t env i (c, r) (c', r')"
  shows "map tr_tenant (registry c') = map tr_tenant (registry c)"
  using assms by cases (auto simp: observe_tenant_def observeAs_def announce_def acknowledge_def RecordAdmission_def
    intro!: keys_update simp: admission_set_def)

lemma start_ok: "cluster_ok limit gap (cluster_start limit t)"
  by (auto simp: cluster_ok_def cluster_start_def inst_ok_def heap_ok_def pass_ok_def gens_ok_def times_ok_def NewRegistry_def no_tenant_def
    NewFence_def live_defs obs_row_def)

lemma cluster_ok_step:
  assumes "cluster_step limit gap aead s s'" "cluster_ok limit gap s" "0 \<le> limit" "0 \<le> gap"
  shows "cluster_ok limit gap s'"
  using assms(1)
proof cases
  case (tick t)
  have "inst_ok gap t (cl_ctl s) i (cl_insts s i)" for i
    by (rule inst_ok_others [OF _ advances_same [OF refl] refl tick(2)]) (use assms(2) in \<open>simp add: cluster_ok_def\<close>)
  then show ?thesis using assms(2) tick(1) by (simp add: cluster_ok_def)
next
  case (operates env c)
  have adv: "advances (cl_ctl s) c" "obs_row c = obs_row (cl_ctl s)" using operator_advances [OF operates(2)] by auto
  have "inst_ok gap (cl_now s) c i (cl_insts s i)" for i
    by (rule inst_ok_others [OF _ adv(1), where t = "cl_now s"]) (use assms(2) adv(2) in \<open>simp_all add: cluster_ok_def\<close>)
  then show ?thesis using assms(2) operates operator_keys [OF operates(2)] by (simp add: cluster_ok_def)
next
  case (section_of env i c r)
  note step = section_of(2)
  have ok: "inst_ok gap (cl_now s) (cl_ctl s) j (cl_insts s j)" "fc_limit (rg_fence (cl_insts s j)) = limit"
    "distinct (map tr_tenant (registry (cl_ctl s)))" for j
    using assms(2) by (auto simp: cluster_ok_def)
  have "inst_ok gap (cl_now s) c i r"
    using ok(1) [of i] heap_ok_step [OF step] pass_ok_step [OF step _ _ ok(3)] gens_ok_step [OF step _ _ _ ok(3)]
      times_ok_step [OF step _ _ _ section_of(3) assms(4)] ok(2) [of i] assms(3) by (simp add: inst_ok_def)
  moreover have "inst_ok gap (cl_now s) c j (cl_insts s j)" if "j \<noteq> i" for j
    using inst_ok_others [OF ok(1) inst_advances(1) [OF step] inst_advances(2) [OF step that]] by simp
  ultimately show ?thesis
    using section_of(1) inst_keys [OF step] limit_step [OF step] ok(2,3) by (auto simp: cluster_ok_def)
qed

lemma reachable_cluster_ok:
  assumes "cluster_reachable limit gap aead s" "0 \<le> limit" "0 \<le> gap"
  shows "cluster_ok limit gap s"
proof -
  obtain t where "(cluster_step limit gap aead)\<^sup>*\<^sup>* (cluster_start limit t) s" using assms(1) by (auto simp: cluster_reachable_def)
  then show ?thesis
    by (induction rule: rtranclp_induct) (auto intro: start_ok cluster_ok_step [OF _ _ assms(2,3)])
qed


section \<open>The gate of a cutover\<close>

lemma SetTenantDSN_gate:
  assumes "SetTenantDSN aead rand env n dsn uuid actor reason quiet liveness c = Inr c'" "distinct (map tr_tenant (registry c))"
  obtains row sealed where "tenant_row c n = Some row" "\<not> tr_enabled row" "blockersTx env n (tr_generation row) liveness c = []"
    "quiet" "seal aead rand dsn = Inr sealed" "tenant_row c' = (tenant_row c)(n \<mapsto> repoint_set env sealed uuid row)"
    "observations c' = observations c"
proof -
  let ?P = "\<lambda>r. tr_tenant r = n \<and> \<not> tr_enabled r"
  obtain row sealed where row: "tenant_row c n = Some row" "blockersTx env n (tr_generation row) liveness c = []"
    and q: "quiet" "seal aead rand dsn = Inr sealed" and changed: "rows_changed ?P (repoint_set env sealed uuid) (registry c) \<noteq> 0"
    and upd: "registry c' = sql_update ?P (repoint_set env sealed uuid) (registry c)" "observations c' = observations c"
    using assms(1) by (auto simp: SetTenantDSN_def Let_def dest!: record_audit_keeps split: if_splits option.splits)
  have key: "tr_tenant r = n" if "?P r" for r using that by simp
  have "?P row"
  proof (rule ccontr)
    assume "\<not> ?P row"
    then have "rows_changed ?P (repoint_set env sealed uuid) (registry c) = 0"
      using repoints.changed_none [OF assms(2), of ?P n env sealed uuid] key row(1) by auto
    then show False using changed by simp
  qed
  moreover from this have "tenant_row c' = (tenant_row c)(n \<mapsto> repoint_set env sealed uuid row)"
    using repoints.lookup_at [of ?P n "registry c" row env sealed uuid] key row(1) upd(1) by simp
  ultimately show thesis using that [of row sealed] row q upd(2) by simp
qed

lemma roundUp_covers: "d \<le> control_roundUpSeconds d * Second"
  using div_bounds(2) [of Second "d + Second - 1"] by (auto simp: control_roundUpSeconds_def Let_def)

lemma truncate_minus: "truncate_second (t - k * Second) = truncate_second t - k * Second"
  using mod_mult_self1 [of t "- k" Second] by (simp add: truncate_second_def)

lemma recent_live:
  assumes "utc env = truncate_second t" "truncate_second x \<le> to_observed_at ob" "t - liveness \<le> x"
  shows "obs_live env liveness ob"
proof -
  have "truncate_second (t - control_roundUpSeconds liveness * Second) \<le> truncate_second x"
    by (rule truncate_mono) (use assms(3) roundUp_covers [of liveness] in linarith)
  then show ?thesis using assms(1,2) truncate_minus [of t "control_roundUpSeconds liveness"] by (simp add: obs_live_def add_seconds_def)
qed

lemma blocks:
  assumes "obs_row c n i = Some ob" "obs_live env liveness ob" "to_generation ob < g"
  shows "blockersTx env n g liveness c \<noteq> []"
proof -
  have "ob \<in> set (observations c)" "to_tenant ob = n" using assms(1) by (auto simp: obs_row_def dest: row_of_Some)
  then show ?thesis using assms(2,3) by (auto simp: blockersTx_def acknowledges_def filter_empty_conv)
qed

text \<open>An engine that may claim is seen: its instance has shown itself recently enough.\<close>

lemma acting_seen:
  assumes "inst_ok gap t c i r" "claims_as r n p" "fc_lastRead (rg_fence r) = Some f" "t - f \<le> fc_limit (rg_fence r)"
    "te_published (rg_objs r p) + gap \<le> te_announced (rg_objs r p) + fc_limit (rg_fence r)" "gap \<le> fc_limit (rg_fence r)"
  obtains x where "seen_since c n i x" "t - 3 * fc_limit (rg_fence r) \<le> x"
proof -
  have ok: "times_ok gap t c i r" using assms(1) by (simp add: inst_ok_def)
  from times_okD(6) [OF ok assms(2,3)] show thesis
  proof
    assume "seen_since c n i (f - fc_limit (rg_fence r) - gap)"
    then show thesis by (rule that) (use assms(4,6) in linarith)
  next
    assume "f \<le> te_published (rg_objs r p) + fc_limit (rg_fence r) + gap"
    then show thesis by (intro that [OF times_okD(5) [OF ok assms(2)]]) (use assms(4,5) in linarith)
  qed
qed

lemma gate_closed:
  assumes "inst_ok gap t c i r" "distinct (map tr_tenant (registry c))" "utc env = truncate_second t"
    and "SetTenantDSN aead rand env n dsn uuid actor reason quiet (3 * fc_limit (rg_fence r)) c = Inr c'"
    and "claims_as r n p" "seen_since c n i x" "t - 3 * fc_limit (rg_fence r) \<le> x"
  shows False
proof -
  obtain row where row: "tenant_row c n = Some row" "\<not> tr_enabled row" "blockersTx env n (tr_generation row) (3 * fc_limit (rg_fence r)) c = []"
    by (rule SetTenantDSN_gate [OF assms(4,2)])
  obtain ob where ob: "obs_row c n i = Some ob" "truncate_second x \<le> to_observed_at ob" using assms(6) by (auto simp: seen_since_def)
  have gens: "gens_ok c i r" using assms(1) by (simp add: inst_ok_def)
  have "te_generation (rg_objs r p) < tr_generation row"
    using gens_okD(1) [OF gens assms(5)] row(1,2) by (auto simp: enabled_gen_def)
  moreover have "to_generation ob \<le> te_generation (rg_objs r p)"
    using gens_okD(7) [OF gens ob(1)] assms(5) by (simp add: at_least_def)
  ultimately show False using blocks [OF ob(1) recent_live [OF assms(3) ob(2) assms(7)]] row(3) by simp
qed

text \<open>C8: When a change of a tenant's connection string commits, with the liveness window of three staleness limits, no
  instance has an engine of that tenant that may claim; provided no instance is suspended for longer than \<open>gap\<close> between
  checking the age of its registry read and refreshing its fence, and the engine was published within a staleness
  limit, less \<open>gap\<close>, of the announcement of its admission.\<close>

theorem cutover_gate:
  assumes "cluster_reachable limit gap aead s" "0 \<le> gap" "gap \<le> limit" "utc env = truncate_second (cl_now s)"
    and "SetTenantDSN aead rand env n dsn uuid actor reason quiet (3 * limit) (cl_ctl s) = Inr c"
    and "te_name te = n" "te_published te + gap \<le> te_announced te + limit"
  shows "\<not> acting s i te"
proof
  assume act: "acting s i te"
  let ?r = "cl_insts s i"
  have ok: "cluster_ok limit gap s" by (rule reachable_cluster_ok [OF assms(1)]) (use assms(2,3) in simp_all)
  then have i: "inst_ok gap (cl_now s) (cl_ctl s) i ?r" "fc_limit (rg_fence ?r) = limit" "distinct (map tr_tenant (registry (cl_ctl s)))"
    by (simp_all add: cluster_ok_def)
  obtain p f where p: "te = rg_objs ?r p" "claims_as ?r n p" "fc_lastRead (rg_fence ?r) = Some f" "cl_now s - f \<le> limit"
    using act assms(6) i(2) by (auto simp: acting_def claims_as_def Healthy_def Check_def split: option.splits if_splits)
  obtain x where "seen_since (cl_ctl s) n i x" "cl_now s - 3 * limit \<le> x"
    using acting_seen [OF i(1) p(2,3)] p(1,4) i(2) assms(3,7) by auto
  then show False using gate_closed [OF i(1,3) assms(4) _ p(2)] i(2) assms(5) by simp
qed

end
