(* ===== verification/Settling.thy ===== *)
theory Settling
  imports Cutover
begin

text \<open>
  What follows a change of a tenant's connection string: a pass that read the registry after it retires the engines of the
  old generations before it refreshes the fence, so that once a refresh must stem from such a pass none of them acts.
\<close>

section \<open>After a cutover\<close>

definition clean :: "string \<Rightarrow> int \<Rightarrow> Registry \<Rightarrow> bool" where
  "clean n G r \<longleftrightarrow> (rg_tenants r n = None \<and> \<not> rg_stopped r \<longrightarrow> (\<forall>g. rg_seen r n = Some g \<longrightarrow> G < g))"

definition old_claim :: "string \<Rightarrow> int \<Rightarrow> Registry \<Rightarrow> nat \<Rightarrow> bool" where
  "old_claim n G r p \<longleftrightarrow> claims_as r n p \<and> te_generation (rg_objs r p) \<le> G"

definition read_so_far :: "pass \<Rightarrow> Tenant list" where
  "read_so_far pa = (case pa_pc pa of Noting rows \<Rightarrow> rows | _ \<Rightarrow> pa_want pa)"

definition newer_rows :: "string \<Rightarrow> int \<Rightarrow> Tenant list \<Rightarrow> bool" where
  "newer_rows n G rows \<longleftrightarrow> (\<forall>w \<in> set rows. tn_Name w = n \<longrightarrow> G < tn_Generation w)"

text \<open>A pass that read the registry after the change, and a fence refreshed by one.\<close>

definition pass_settled :: "string \<Rightarrow> int \<Rightarrow> Registry \<Rightarrow> pass \<Rightarrow> bool" where
  "pass_settled n G r pa \<longleftrightarrow> newer_rows n G (read_so_far pa) \<and>
     (counted (pa_pc pa) \<or> pa_pc pa = Snapshot \<longrightarrow>
        clean n G r \<and> (\<forall>p. old_claim n G r p \<longrightarrow> pa_pc pa = Snapshot \<or> pa_pc pa = Retiring \<and> pa_have pa n = Some p))"

definition settled :: "duration \<Rightarrow> time \<Rightarrow> string \<Rightarrow> int \<Rightarrow> Registry \<Rightarrow> bool" where
  "settled gap T n G r \<longleftrightarrow>
     (\<forall>pa. rg_pass r = Some pa \<and> T < pa_readAt pa \<longrightarrow> pass_settled n G r pa) \<and>
     (\<forall>f. fc_lastRead (rg_fence r) = Some f \<and> T + fc_limit (rg_fence r) + gap < f \<longrightarrow>
        clean n G r \<and> (\<forall>p. \<not> old_claim n G r p) \<and> (\<forall>pa. rg_pass r = Some pa \<longrightarrow> T < pa_readAt pa))"

lemma fold_note_other: "n \<notin> tn_Name ` set rows \<Longrightarrow> fold (note_row ts) rows seen n = seen n"
  by (induction rows arbitrary: seen) (auto simp: note_row_def Let_def)

lemma fold_note:
  assumes "distinct (map tn_Name rows)" "newer_rows n G rows" "ts n = None" "n \<in> tn_Name ` set rows" "fold (note_row ts) rows seen n = Some g"
  shows "G < g"
  using assms
proof (induction rows arbitrary: seen)
  case (Cons w rows)
  show ?case
  proof (cases "tn_Name w = n")
    case True
    then have "n \<notin> tn_Name ` set rows" using Cons.prems(1) by auto
    then have "note_row ts w seen n = Some g" using Cons.prems(5) fold_note_other [of n rows ts] by simp
    moreover have "G < tn_Generation w" using Cons.prems(2) True by (simp add: newer_rows_def)
    ultimately show ?thesis using True Cons.prems(3) by (auto simp: note_row_def Let_def split: if_splits option.splits)
  next
    case False
    then show ?thesis using Cons.IH [of "note_row ts w seen"] Cons.prems by (auto simp: newer_rows_def)
  qed
qed simp

lemma noted_clean:
  assumes "distinct (map tn_Name rows)" "newer_rows n G rows"
  shows "clean n G (note_rows rows pa r)"
  using assms fold_note [OF assms, of "rg_tenants r" "rg_seen r"]
  by (auto simp: clean_def note_rows_def restrict_map_def split: if_splits)

lemma clean_step:
  assumes "inst_step gap aead t env i (c, r) (c', r')" "clean n G r" "pass_ok c r"
    "\<And>pa rows. rg_pass r = Some pa \<Longrightarrow> pa_pc pa = Noting rows \<Longrightarrow> newer_rows n G rows"
  shows "clean n G r'"
  using assms(1)
proof (cases rule: inst_step.cases)
  case (noted pa rows)
  then have "distinct (map tn_Name rows)" using assms(3) by (auto simp: pass_ok_def rows_ok_def)
  then show ?thesis using noted_clean assms(4) noted by simp
next
  case (publishes m ad)
  then show ?thesis using assms(2) by (auto simp: clean_def publish_def set_admission_def Let_def)
qed (use assms(2) in \<open>auto simp: clean_def section_defs split: if_splits\<close>)

lemma old_claim_step:
  assumes "inst_step gap aead t env i (c, r) (c', r')" "heap_ok r" "clean n G r" "old_claim n G r' p"
  shows "old_claim n G r p"
  using assms(1)
proof (cases rule: step_kinds)
  case (publishes m ad)
  with assms(4) have claim: "claims_as (publish t ad r) n p" "te_generation (rg_objs (publish t ad r) p) \<le> G" by (auto simp: old_claim_def)
  from claim(1) show ?thesis
  proof (cases rule: publish_claims)
    case old then show ?thesis using claim(2) by (simp add: old_claim_def publish_objs)
  next
    case new
    have "pending_admission r m ad" "tn_Name (ad_tenant ad) = m" using publishes heap_okD(5) [OF assms(2)] by (auto simp: pending_admission_def)
    then have "rg_tenants r n = None" using heap_okD(6) [OF assms(2)] new by auto
    then have "G < tn_Generation (ad_tenant ad)" using assms(3) publishes(5) new by (auto simp: clean_def publishable_def)
    then show ?thesis using claim(2) new by (simp add: publish_objs)
  qed
next
  case (admits pa todo w) then show ?thesis using assms(4) by (simp add: old_claim_def)
next
  case others
  then have "te_generation (rg_objs r' p) = te_generation (rg_objs r p)" by (simp add: same_tenants_def)
  then show ?thesis using assms(4) same_claims [OF others] by (auto simp: old_claim_def)
qed


text \<open>Sections that leave the poll where it was, or move it on after the retirements.\<close>

lemma pass_settled_carry:
  assumes "inst_step gap aead t env i (c, r) (c', r')" "heap_ok r" "pass_ok c r" "rg_pass r = Some pa" "pass_settled n G r pa"
    "read_so_far pa' = read_so_far pa" "pa_have pa' = pa_have pa"
    "pa_pc pa' = pa_pc pa \<or> counted (pa_pc pa) \<and> pa_pc pa \<noteq> Retiring \<and> counted (pa_pc pa') \<and> pa_pc pa' \<noteq> Retiring"
  shows "pass_settled n G r' pa'"
proof -
  have rows: "newer_rows n G (read_so_far pa)" using assms(5) by (simp add: pass_settled_def)
  have "clean n G r' \<and> (\<forall>p. old_claim n G r' p \<longrightarrow> pa_pc pa' = Snapshot \<or> pa_pc pa' = Retiring \<and> pa_have pa' n = Some p)"
    if "counted (pa_pc pa') \<or> pa_pc pa' = Snapshot"
  proof -
    have "counted (pa_pc pa) \<or> pa_pc pa = Snapshot" using assms(8) that by auto
    then have old: "clean n G r" "\<forall>p. old_claim n G r p \<longrightarrow> pa_pc pa = Snapshot \<or> pa_pc pa = Retiring \<and> pa_have pa n = Some p"
      using assms(5) by (auto simp: pass_settled_def)
    have "clean n G r'"
      by (rule clean_step [OF assms(1) old(1) assms(3)]) (use assms(4) rows in \<open>auto simp: read_so_far_def\<close>)
    then show ?thesis using old(2) old_claim_step [OF assms(1,2) old(1)] assms(7,8) by (metis counted.simps(3))
  qed
  then show ?thesis using rows assms(6) by (simp add: pass_settled_def)
qed

lemma pass_settled_step:
  assumes "inst_step gap aead t env i (c, r) (c', r')" "heap_ok r" "pass_ok c r" "distinct (map tr_tenant (registry c))"
    "tenant_row c n = Some row" "G < tr_generation row"
    "\<And>pa. rg_pass r = Some pa \<Longrightarrow> T < pa_readAt pa \<Longrightarrow> pass_settled n G r pa" "rg_pass r' = Some pa'" "T < pa_readAt pa'"
  shows "pass_settled n G r' pa'"
proof -
  note carry = pass_settled_carry [OF assms(1-3)]
  show ?thesis
    using assms(1)
  proof (cases rule: inst_step.cases)
    case polls
    then show ?thesis using assms(8) by (auto simp: begin_pass_def pass_settled_def read_so_far_def newer_rows_def)
  next
    case (reads pa)
    then have "pa_pc pa' = Noting (Tenants aead c)" using assms(8) by (auto simp: read_rows_def)
    moreover have "newer_rows n G (Tenants aead c)"
      unfolding newer_rows_def
    proof (intro ballI impI)
      fix w assume "w \<in> set (Tenants aead c)" "tn_Name w = n"
      then show "G < tn_Generation w" using Tenants_row [OF _ assms(4), of w aead] assms(5,6) by (metis option.inject)
    qed
    ultimately show ?thesis by (simp add: pass_settled_def read_so_far_def)
  next
    case (noted pa rows)
    then have pa': "pa_readAt pa = pa_readAt pa'" "pa_pc pa' = Snapshot" "pa_want pa' = filter tn_Enabled rows"
      using assms(8) by (auto simp: note_rows_def)
    then have rows: "newer_rows n G rows" using assms(7,9) noted by (auto simp: pass_settled_def read_so_far_def)
    have "distinct (map tn_Name rows)" using assms(3) noted by (auto simp: pass_ok_def rows_ok_def)
    from noted_clean [OF this rows] noted(2) have "clean n G r'" by simp
    then show ?thesis using rows pa' by (auto simp: pass_settled_def read_so_far_def newer_rows_def)
  next
    case (snapshots pa)
    then have "pa' = pa\<lparr>pa_have := rg_tenants r, pa_pc := Retiring\<rparr>" using assms(8) by (auto simp: take_snapshot_def)
    moreover have "clean n G r' = clean n G r" "old_claim n G r' = old_claim n G r"
      using snapshots by (auto simp: take_snapshot_def clean_def old_claim_def claims_as_def fun_eq_iff)
    ultimately show ?thesis using assms(7) [OF snapshots(3)] assms(9) snapshots(4) heap_okD(3) [OF assms(2)]
      by (auto simp: pass_settled_def read_so_far_def old_claim_def)
  next
    case (retires pa m q)
    then have pa': "pa' = pa\<lparr>pa_have := (pa_have pa)(m := None)\<rparr>" using assms(8) by simp
    then have old: "newer_rows n G (pa_want pa)" "clean n G r" "\<And>p. old_claim n G r p \<Longrightarrow> pa_have pa n = Some p"
      using assms(7) [OF retires(3)] assms(9) retires(4) by (auto simp: pass_settled_def read_so_far_def)
    have "clean n G r'" by (rule clean_step [OF assms(1) old(2) assms(3)]) (use retires in auto)
    moreover have "pa_have pa' n = Some p" if "old_claim n G r' p" for p
    proof -
      have "claims_as (retire_one m q pa r) n p" using that retires(2) by (simp add: old_claim_def)
      then have "p \<noteq> q" by (rule retire_claims(2) [OF assms(2)])
      moreover have "pa_have pa n = Some p" using old_claim_step [OF assms(1,2) old(2) that] old(3) by simp
      ultimately show ?thesis using retires(5) pa' by auto
    qed
    ultimately show ?thesis using old(1) retires(4) pa' by (simp add: pass_settled_def read_so_far_def)
  next
    case (observing pa)
    then have pa': "pa_want pa' = pa_want pa" "pa_readAt pa' = pa_readAt pa" "\<exists>todo. pa_pc pa' = Observing todo True"
      using assms(8) by (auto simp: begin_observing_def)
    have old: "newer_rows n G (pa_want pa)" "clean n G r" "\<And>p. old_claim n G r p \<Longrightarrow> pa_have pa n = Some p"
      using assms(7) [OF observing(3)] assms(9) observing(4) pa' by (auto simp: pass_settled_def read_so_far_def)
    have "\<not> old_claim n G r p" for p
    proof
      assume p: "old_claim n G r p"
      then have "\<not> superseded pa n (rg_objs r p)" using old(3) observing(5) by blast
      then obtain w where "w \<in> set (pa_want pa)" "tn_Name w = n" "tn_Generation w = te_generation (rg_objs r p)"
        unfolding superseded_def wanted_def by (auto simp: find_Some_iff split: option.splits intro: nth_mem)
      then show False using old(1) p by (auto simp: newer_rows_def old_claim_def)
    qed
    moreover have "clean n G r'" by (rule clean_step [OF assms(1) old(2) assms(3)]) (use observing in auto)
    ultimately show ?thesis using old(1,2) old_claim_step [OF assms(1,2)] pa' by (auto simp: pass_settled_def read_so_far_def)
  next
    case (observes pa todo observed w ok)
    then show ?thesis using assms(7,8,9) by (intro carry [of pa]) (auto simp: observed_one_def read_so_far_def)
  next
    case (checked pa observed)
    then show ?thesis using assms(7,8,9) by (intro carry [of pa]) (auto simp: may_refresh_def end_pass_def read_so_far_def split: if_splits)
  next
    case (refreshed pa since)
    then show ?thesis using assms(7,8,9) by (intro carry [of pa]) (auto simp: refresh_def read_so_far_def)
  next
    case (admits pa todo w ok)
    then show ?thesis using assms(7,8,9) by (intro carry [of pa]) (auto simp: admit_one_def read_so_far_def)
  qed (use assms(7,8,9) in \<open>(intro carry [of pa']; auto simp: section_defs)\<close>)+
qed


lemma readAt_step:
  assumes "inst_step gap aead t env i (c, r) (c', r')" "rg_pass r' = Some pa'"
  shows "pa_readAt pa' = t \<or> (\<exists>pa. rg_pass r = Some pa \<and> pa_readAt pa' = pa_readAt pa)"
  using assms(1) by cases (use assms(2) in \<open>auto simp: section_defs split: if_splits\<close>)

lemma settled_step:
  assumes "inst_step gap aead t env i (c, r) (c', r')" "inst_ok gap t c i r" "distinct (map tr_tenant (registry c))"
    "tenant_row c n = Some row" "G < tr_generation row" "settled gap T n G r" "0 \<le> fc_limit (rg_fence r)" "0 \<le> gap"
  shows "settled gap T n G r'"
proof -
  have ok: "heap_ok r" "pass_ok c r" "times_ok gap t c i r" using assms(2) by (simp_all add: inst_ok_def)
  have pass: "pass_settled n G r pa" if "rg_pass r = Some pa" "T < pa_readAt pa" for pa using assms(6) that by (simp add: settled_def)
  note lim = limit_step [OF assms(1)]
  have "clean n G r' \<and> (\<forall>p. \<not> old_claim n G r' p) \<and> (\<forall>pa. rg_pass r' = Some pa \<longrightarrow> T < pa_readAt pa)"
    if f: "fc_lastRead (rg_fence r') = Some f" "T + fc_limit (rg_fence r) + gap < f" for f
  proof -
    have was: "clean n G r \<and> (\<forall>p. \<not> old_claim n G r p) \<and> (\<forall>pa. rg_pass r = Some pa \<longrightarrow> T < pa_readAt pa) \<and> f \<le> t"
      using last_step [OF assms(1) f(1)]
    proof
      assume "fc_lastRead (rg_fence r) = Some f"
      then show ?thesis using assms(6) f(2) times_okD(1) [OF ok(3)] by (auto simp: settled_def)
    next
      assume "\<exists>pa since. rg_pass r = Some pa \<and> pa_pc pa = Refreshing since \<and> t \<le> since + gap \<and> f = t \<and> claims_as r' = claims_as r \<and> rg_objs r' = rg_objs r \<and> c' = c"
      then obtain pa since where pa: "rg_pass r = Some pa" "pa_pc pa = Refreshing since" "t \<le> since + gap" "f = t" by blast
      then have "since \<le> pa_readAt pa + fc_limit (rg_fence r)" using times_okD(3) [OF ok(3)] by (auto simp: pass_times_def)
      then have read: "T < pa_readAt pa" using pa(3,4) f(2) by linarith
      show ?thesis using pass [OF pa(1) read] pa read by (auto simp: pass_settled_def)
    qed
    have "clean n G r'"
      by (rule clean_step [OF assms(1) _ ok(2)]) (use was pass in \<open>auto simp: pass_settled_def read_so_far_def\<close>)
    moreover have "T < pa_readAt pa'" if "rg_pass r' = Some pa'" for pa'
      using readAt_step [OF assms(1) that] was f(2) assms(7,8) by auto
    ultimately show ?thesis using old_claim_step [OF assms(1) ok(1)] was by blast
  qed
  then show ?thesis
    using pass_settled_step [OF assms(1) ok(1,2) assms(3-5) pass] lim by (auto simp: settled_def)
qed

text \<open>C9: From two staleness limits (and \<open>gap\<close>) after a change of a tenant's connection string on, every engine of that tenant
  that may claim, on any instance, is of a later generation than the one that was replaced, whatever the instances and the operators do in
  between.\<close>

theorem cutover_settles:
  assumes "cluster_reachable limit gap aead s" "0 \<le> limit" "0 \<le> gap" "utc env = truncate_second (cl_now s)"
    and "SetTenantDSN aead rand env n dsn uuid actor reason quiet (3 * limit) (cl_ctl s) = Inr c" "CurrentGeneration (cl_ctl s) n = (g, on)"
    and "(cluster_step limit gap aead)\<^sup>*\<^sup>* (s\<lparr>cl_ctl := c\<rparr>) s'" "cl_now s + 2 * limit + gap < cl_now s'"
    and "acting s' i te" "te_name te = n"
  shows "g < te_generation te"
proof -
  let ?inv = "\<lambda>s'. cluster_ok limit gap s' \<and> (\<exists>row. tenant_row (cl_ctl s') n = Some row \<and> g < tr_generation row) \<and>
    (\<forall>i. settled gap (cl_now s) n g (cl_insts s' i))"
  have ok: "cluster_ok limit gap s" by (rule reachable_cluster_ok [OF assms(1-3)])
  then have keys: "distinct (map tr_tenant (registry (cl_ctl s)))" by (simp add: cluster_ok_def)
  obtain row sealed where row: "tenant_row (cl_ctl s) n = Some row" "tenant_row c = (tenant_row (cl_ctl s))(n \<mapsto> repoint_set env sealed uuid row)"
    by (rule SetTenantDSN_gate [OF assms(5) keys])
  have "cluster_step limit gap aead s (s\<lparr>cl_ctl := c\<rparr>)"
    by (rule cluster_step.operates [OF operator_step.repoint [OF assms(5)] assms(4)])
  then have "cluster_ok limit gap (s\<lparr>cl_ctl := c\<rparr>)" using ok assms(2,3) by (rule cluster_ok_step)
  moreover have "settled gap (cl_now s) n g (cl_insts s j)" for j
  proof -
    have "times_ok gap (cl_now s) (cl_ctl s) j (cl_insts s j)" "fc_limit (rg_fence (cl_insts s j)) = limit"
      using ok by (auto simp: cluster_ok_def inst_ok_def)
    then show ?thesis using times_okD(1,3) [of gap "cl_now s" "cl_ctl s" j "cl_insts s j"] assms(2,3)
      by (fastforce simp: settled_def pass_times_def)
  qed
  ultimately have "?inv (s\<lparr>cl_ctl := c\<rparr>)" using row assms(6) by (auto simp: CurrentGeneration_def repoint_set_def)
  with assms(7) have inv: "?inv s'"
  proof (induction rule: rtranclp_induct)
    case (step s1 s2)
    then have ok1: "cluster_ok limit gap s1" "cluster_ok limit gap s2" using cluster_ok_step [OF step(2) _ assms(2,3)] by auto
    obtain row where r: "tenant_row (cl_ctl s1) n = Some row" "g < tr_generation row" using step by auto
    have set: "settled gap (cl_now s) n g (cl_insts s1 j)" for j using step by auto
    from step(2) have "advances (cl_ctl s1) (cl_ctl s2)"
      by cases (auto simp: advances_same operator_advances inst_advances)
    then have "\<exists>row. tenant_row (cl_ctl s2) n = Some row \<and> g < tr_generation row" using r by (force simp: advances_def)
    moreover from step(2) have "settled gap (cl_now s) n g (cl_insts s2 j)" for j
    proof cases
      case (section_of env i c r')
      have "settled gap (cl_now s) n g r'"
        by (rule settled_step [OF section_of(2) _ _ r set]) (use ok1(1) assms(2,3) in \<open>auto simp: cluster_ok_def\<close>)
      then show ?thesis using section_of(1) set by simp
    qed (use set in auto)
    ultimately show ?case using ok1(2) by blast
  qed simp
  let ?r = "cl_insts s' i"
  have lim: "fc_limit (rg_fence ?r) = limit" using inv by (simp add: cluster_ok_def)
  obtain p f where p: "te = rg_objs ?r p" "claims_as ?r n p" "fc_lastRead (rg_fence ?r) = Some f" "cl_now s' - f \<le> limit"
    using assms(9,10) lim by (auto simp: acting_def claims_as_def Healthy_def Check_def split: option.splits if_splits)
  then have "cl_now s + limit + gap < f" using assms(8) by linarith
  then have "\<not> old_claim n g ?r p" using inv p(3) lim by (auto simp: settled_def)
  then show ?thesis using p(1,2) by (simp add: old_claim_def)
qed

end
