(* ===== verification/CutoverRuns.thy ===== *)
theory CutoverRuns
  imports Settling
begin

text \<open>
  Concrete runs of one instance \<open>a\<close> with one tenant \<open>n\<close>, from the empty registry: each event is a step of the cluster.
\<close>

definition limit30 :: duration where "limit30 = 30 * Second"

definition env_of :: "cluster \<Rightarrow> env" where
  "env_of s = \<lparr>utc = truncate_second (cl_now s), now = cl_now s, locked = (\<lambda>_. False), burned = 0\<rparr>"

definition the_schema :: "Tenant \<Rightarrow> schema_view" where
  "the_schema w = \<lparr>sv_identity = Inr (Some (tn_Name w, tn_SchemaUUID w, SchemaVersion)), sv_clock = Some (0, ''UTC'')\<rparr>"

datatype event =
    Tick time | AddT string | EnableT bool | RepointT string
  | Poll | ReadRows | NoteRows | Snap | RetireT | ObserveAll | ObserveT | CheckAge | RefreshFence | AdmitT | EndPass
  | Verify | Confirm | Freshen | Publish | Record | Admitted | Remove | Acknowledge

definition operate :: "ctl result \<Rightarrow> cluster \<Rightarrow> cluster option" where
  "operate c s = (case c of Inl _ \<Rightarrow> None | Inr c \<Rightarrow> Some (s\<lparr>cl_ctl := c\<rparr>))"

abbreviation a_reg :: "cluster \<Rightarrow> Registry" where "a_reg s \<equiv> cl_insts s ''a''"

definition at_a :: "bool \<Rightarrow> ctl \<Rightarrow> Registry \<Rightarrow> cluster \<Rightarrow> cluster option" where
  "at_a guard c r s = (if guard then Some (s\<lparr>cl_ctl := c, cl_insts := (cl_insts s)(''a'' := r)\<rparr>) else None)"

definition in_pass :: "(pass \<Rightarrow> cluster option) \<Rightarrow> cluster \<Rightarrow> cluster option" where
  "in_pass f s = Option.bind (rg_pass (a_reg s)) f"

definition in_admission :: "(admission \<Rightarrow> cluster option) \<Rightarrow> cluster \<Rightarrow> cluster option" where
  "in_admission f s = Option.bind (rg_admitting (a_reg s) ''n'') f"

fun event_step :: "event \<Rightarrow> cluster \<Rightarrow> cluster option" where
  "event_step (Tick t) s = (if cl_now s \<le> t then Some (s\<lparr>cl_now := t\<rparr>) else None)"
| "event_step (AddT dsn) s = operate (AddTenant None None (env_of s) ''n'' dsn ''u'' ''op'' ''why'' (cl_ctl s)) s"
| "event_step (EnableT on) s = operate (SetTenantEnabled (env_of s) ''n'' on ''op'' ''why'' (cl_ctl s)) s"
| "event_step (RepointT dsn) s = operate (SetTenantDSN None None (env_of s) ''n'' dsn ''u'' ''op'' ''why'' True (3 * limit30) (cl_ctl s)) s"
| "event_step Poll s = at_a (rg_pass (a_reg s) = None \<and> \<not> rg_stopped (a_reg s)) (cl_ctl s) (begin_pass (cl_now s) (a_reg s)) s"
| "event_step ReadRows s = in_pass (\<lambda>pa. at_a (pa_pc pa = Reading) (cl_ctl s) (read_rows None (cl_ctl s) pa (a_reg s)) s) s"
| "event_step NoteRows s =
     in_pass (\<lambda>pa. case pa_pc pa of Noting rows \<Rightarrow> at_a True (cl_ctl s) (note_rows rows pa (a_reg s)) s | _ \<Rightarrow> None) s"
| "event_step Snap s = in_pass (\<lambda>pa. at_a (pa_pc pa = Snapshot) (cl_ctl s) (take_snapshot pa (a_reg s)) s) s"
| "event_step RetireT s =
     in_pass (\<lambda>pa. Option.bind (pa_have pa ''n'') (\<lambda>p.
       at_a (pa_pc pa = Retiring \<and> superseded pa ''n'' (rg_objs (a_reg s) p)) (cl_ctl s) (retire_one ''n'' p pa (a_reg s)) s)) s"
| "event_step ObserveAll s =
     in_pass (\<lambda>pa. at_a (pa_pc pa = Retiring \<and>
         (case pa_have pa ''n'' of None \<Rightarrow> True | Some p \<Rightarrow> \<not> superseded pa ''n'' (rg_objs (a_reg s) p)))
       (cl_ctl s) (begin_observing pa (a_reg s)) s) s"
| "event_step ObserveT s =
     in_pass (\<lambda>pa. case pa_pc pa of
         Observing (w # todo) observed \<Rightarrow>
           at_a True (observe_tenant (env_of s) ''a'' True (a_reg s) (tn_Name w) (tn_Generation w) (cl_ctl s))
             (observed_one w (w # todo) observed True pa (a_reg s)) s
       | _ \<Rightarrow> None) s"
| "event_step CheckAge s =
     in_pass (\<lambda>pa. case pa_pc pa of
         Observing [] observed \<Rightarrow> at_a True (cl_ctl s) (may_refresh (cl_now s) observed pa (a_reg s)) s | _ \<Rightarrow> None) s"
| "event_step RefreshFence s =
     in_pass (\<lambda>pa. case pa_pc pa of
         Refreshing since \<Rightarrow> at_a (cl_now s \<le> since) (cl_ctl s) (refresh (cl_now s) pa (a_reg s)) s | _ \<Rightarrow> None) s"
| "event_step AdmitT s =
     in_pass (\<lambda>pa. case pa_pc pa of
         Admitting (w # todo) \<Rightarrow>
           at_a True (announce (env_of s) ''a'' w True (a_reg s) (cl_ctl s)) (admit_one (cl_now s) w (w # todo) True pa (a_reg s)) s
       | _ \<Rightarrow> None) s"
| "event_step EndPass s = in_pass (\<lambda>pa. at_a (pa_pc pa = Admitting []) (cl_ctl s) (end_pass (a_reg s)) s) s"
| "event_step Verify s =
     in_admission (\<lambda>ad. at_a (ad_pc ad = Verifying \<and>
         admit_verify (ad_tenant ad) ''UTC'' 0 (Some (the_schema (ad_tenant ad))) (\<lambda>_. Inr ()) (the_schema (ad_tenant ad)) = Inr ())
       (cl_ctl s) (set_admission ''n'' ad (Asking (cl_now s)) (a_reg s)) s) s"
| "event_step Confirm s =
     in_admission (\<lambda>ad. case ad_pc ad of
         Asking t \<Rightarrow> at_a (generation_confirmed (cl_ctl s) (ad_tenant ad)) (cl_ctl s) (set_admission ''n'' ad (Confirmed t) (a_reg s)) s
       | _ \<Rightarrow> None) s"
| "event_step Freshen s =
     in_admission (\<lambda>ad. case ad_pc ad of
         Confirmed t \<Rightarrow> at_a (cl_now s - t \<le> fc_limit (rg_fence (a_reg s))) (cl_ctl s) (set_admission ''n'' ad Fresh (a_reg s)) s
       | _ \<Rightarrow> None) s"
| "event_step Publish s =
     in_admission (\<lambda>ad. at_a (ad_pc ad = Fresh \<and> publishable ad (a_reg s) \<and> tn_Name (ad_tenant ad) = ''n'') (cl_ctl s) (publish (cl_now s) ad (a_reg s)) s) s"
| "event_step Record s =
     in_admission (\<lambda>ad. at_a (ad_pc ad = Published) (RecordAdmission (env_of s) ''n'' SchemaVersion None (cl_ctl s))
       (set_admission ''n'' ad Recorded (a_reg s)) s) s"
| "event_step Admitted s =
     in_admission (\<lambda>ad. at_a (ad_pc ad = Recorded)
       (observe_tenant (env_of s) ''a'' True (a_reg s) ''n'' (tn_Generation (ad_tenant ad)) (cl_ctl s)) (endAdmit ''n'' (a_reg s)) s) s"
| "event_step Remove s =
     (case rg_retirements (a_reg s) of
        re # _ \<Rightarrow> at_a (re_pc re = Draining) (cl_ctl s) (remove_tenant re (a_reg s)) s | [] \<Rightarrow> None)"
| "event_step Acknowledge s =
     (case rg_retirements (a_reg s) of
        re # _ \<Rightarrow> at_a (re_pc re = Removed) (acknowledge (env_of s) ''a'' True re (a_reg s) (cl_ctl s)) (end_retirement re (a_reg s)) s
      | [] \<Rightarrow> None)"

fun run_events :: "event list \<Rightarrow> cluster \<Rightarrow> cluster option" where
  "run_events [] s = Some s"
| "run_events (e # es) s = Option.bind (event_step e s) (run_events es)"

text \<open>No other tenant is ever there, so that one lookup decides that nothing is left to retire.\<close>

definition only_n :: "cluster \<Rightarrow> bool" where
  "only_n s \<longleftrightarrow> (\<forall>m. m \<noteq> ''n'' \<longrightarrow> rg_tenants (a_reg s) m = None \<and> (\<forall>pa. rg_pass (a_reg s) = Some pa \<longrightarrow> pa_have pa m = None))"

lemma at_aD: "at_a guard c r s = Some s' \<Longrightarrow> guard \<and> s' = s\<lparr>cl_ctl := c, cl_insts := (cl_insts s)(''a'' := r)\<rparr>"
  by (simp add: at_a_def split: if_splits)

lemma section_at_a:
  assumes "at_a guard c r s = Some s'" "guard \<Longrightarrow> inst_step 0 None (cl_now s) (env_of s) ''a'' (cl_ctl s, a_reg s) (c, r)"
  shows "cluster_step limit30 0 None s s'"
  using cluster_step.section_of [OF assms(2), of limit30] at_aD [OF assms(1)] by (simp add: env_of_def)

lemma operated:
  assumes "operate c s = Some s'" "only_n s" "\<And>c'. c = Inr c' \<Longrightarrow> operator_step limit30 None (env_of s) (cl_ctl s) c'"
  shows "cluster_step limit30 0 None s s' \<and> only_n s'"
proof -
  obtain c' where c: "c = Inr c'" "s' = s\<lparr>cl_ctl := c'\<rparr>" using assms(1) by (auto simp: operate_def split: sum.splits)
  have "cluster_step limit30 0 None s s'"
    using cluster_step.operates [OF assms(3) [OF c(1)]] c(2) by (simp add: env_of_def)
  then show ?thesis using assms(2) c(2) by (simp add: only_n_def)
qed

lemma in_passE:
  assumes "in_pass f s = Some s'"
  obtains pa where "rg_pass (a_reg s) = Some pa" "f pa = Some s'"
  using assms by (auto simp: in_pass_def bind_eq_Some_conv)

lemma in_admissionE:
  assumes "in_admission f s = Some s'"
  obtains ad where "rg_admitting (a_reg s) ''n'' = Some ad" "f ad = Some s'"
  using assms by (auto simp: in_admission_def bind_eq_Some_conv)

lemma event_is_step:
  assumes "event_step e s = Some s'" "only_n s"
  shows "cluster_step limit30 0 None s s'"
proof (cases e)
  case (Tick t) then show ?thesis using assms(1) by (auto intro: cluster_step.tick split: if_splits)
next
  case (AddT dsn) then show ?thesis using operated [OF _ assms(2)] assms(1) by (simp add: operator_step.add_tenant)
next
  case (EnableT on) then show ?thesis using operated [OF _ assms(2)] assms(1) by (simp add: operator_step.enable)
next
  case (RepointT dsn) then show ?thesis using operated [OF _ assms(2)] assms(1) by (simp add: operator_step.repoint)
next
  case ObserveAll
  then obtain pa where pa: "rg_pass (a_reg s) = Some pa" and
    at_a: "at_a (pa_pc pa = Retiring \<and> (case pa_have pa ''n'' of None \<Rightarrow> True | Some p \<Rightarrow> \<not> superseded pa ''n'' (rg_objs (a_reg s) p)))
       (cl_ctl s) (begin_observing pa (a_reg s)) s = Some s'"
    using assms(1) by (auto simp: in_pass_def bind_eq_Some_conv)
  have only: "m = ''n''" if "pa_have pa m = Some p" for m p using assms(2) pa that by (fastforce simp: only_n_def)
  show ?thesis
    by (rule section_at_a [OF at_a], rule inst_step.observing [OF pa]) (use only in \<open>fastforce split: option.splits\<close>)+
next
  case ObserveT
  then show ?thesis using assms(1)
    by (auto elim!: in_passE split: pass_pc.splits list.splits
      elim!: section_at_a intro!: inst_step.observes [where ok = True])
next
  case AdmitT
  then show ?thesis using assms(1)
    by (auto elim!: in_passE split: pass_pc.splits list.splits
      elim!: section_at_a intro!: inst_step.admits [where ok = True])
next
  case Record
  then show ?thesis using assms(1) inst_step.recorded [where ok = True]
    by (auto elim!: in_admissionE elim!: section_at_a)
next
  case Admitted
  then show ?thesis using assms(1) 
    by (auto elim!: in_admissionE elim!: section_at_a intro: inst_step.admitted [where ok = True])
next
  case RefreshFence
  then show ?thesis using assms(1)
    by (auto elim!: in_passE section_at_a split: pass_pc.splits intro!: inst_step.refreshed)
next
  case Acknowledge
  then show ?thesis using assms(1) 
    by (auto split: list.splits elim!: section_at_a intro: inst_step.acknowledged [where ok = True])
qed (use assms(1) in \<open>auto elim!: in_passE in_admissionE simp: bind_eq_Some_conv split: pass_pc.splits list.splits admit_pc.splits
   elim!: section_at_a intro: inst_step.intros\<close>)

lemma event_only_n:
  assumes "event_step e s = Some s'" "only_n s"
  shows "only_n s'"
proof (cases e)
  case (Tick t) then show ?thesis using assms by (auto simp: only_n_def split: if_splits)
next
  case (AddT dsn) then show ?thesis using operated [OF _ assms(2)] assms(1) by (simp add: operator_step.add_tenant)
next
  case (EnableT on) then show ?thesis using operated [OF _ assms(2)] assms(1) by (simp add: operator_step.enable)
next
  case (RepointT dsn) then show ?thesis using operated [OF _ assms(2)] assms(1) by (simp add: operator_step.repoint)
next
  case RetireT
  then show ?thesis using assms
    by (auto elim!: in_passE simp: bind_eq_Some_conv only_n_def retire_one_def upd_obj_def Let_def dest!: at_aD split: if_splits)
next
  case Publish
  then show ?thesis using assms by (auto elim!: in_admissionE simp: only_n_def publish_def set_admission_def Let_def dest!: at_aD)
next
  case Remove
  then show ?thesis using assms by (auto simp: only_n_def remove_tenant_def dest!: at_aD split: list.splits)
next
  case CheckAge
  then show ?thesis using assms
    by (auto elim!: in_passE simp: only_n_def may_refresh_def end_pass_def set_pc_def dest!: at_aD split: pass_pc.splits list.splits if_splits)
next
  case AdmitT
  then show ?thesis using assms
    by (auto elim!: in_passE simp: only_n_def admit_one_def set_pc_def dest!: at_aD split: pass_pc.splits list.splits if_splits)
qed (use assms in \<open>auto elim!: in_passE in_admissionE simp: only_n_def section_defs dest!: at_aD
   split: pass_pc.splits list.splits admit_pc.splits\<close>)

lemma run_reaches:
  assumes "run_events es s = Some s'" "only_n s"
  shows "(cluster_step limit30 0 None)\<^sup>*\<^sup>* s s' \<and> only_n s'"
  using assms
proof (induction es arbitrary: s)
  case (Cons e es)
  then obtain s1 where s1: "event_step e s = Some s1" "run_events es s1 = Some s'" by (auto simp: bind_eq_Some_conv)
  then show ?case
    using Cons.IH [OF s1(2) event_only_n [OF s1(1) Cons.prems(2)]] event_is_step [OF s1(1) Cons.prems(2)]
    by (auto intro: converse_rtranclp_into_rtranclp)
qed simp

definition start30 :: cluster where "start30 = cluster_start limit30 0"

lemma start_only_n: "only_n start30"
  by (simp add: only_n_def start30_def cluster_start_def NewRegistry_def)

text \<open>A list of events that cannot all happen leaves the cluster as it was.\<close>

definition after_run :: "event list \<Rightarrow> cluster \<Rightarrow> cluster" where
  "after_run es s = (case run_events es s of Some s' \<Rightarrow> s' | None \<Rightarrow> s)"

lemma after_steps: "only_n s \<Longrightarrow> (cluster_step limit30 0 None)\<^sup>*\<^sup>* s (after_run es s)"
  using run_reaches by (auto simp: after_run_def split: option.splits)

lemma after_only_n: "only_n s \<Longrightarrow> only_n (after_run es s)"
  using run_reaches by (auto simp: after_run_def split: option.splits)

lemma after_start: "cluster_reachable limit30 0 None (after_run es start30)"
  using after_steps [OF start_only_n] by (auto simp: cluster_reachable_def start30_def)

lemma acting_at:
  "te_claiming (rg_objs (cl_insts s i) p) \<Longrightarrow> Healthy (cl_now s) (rg_fence (cl_insts s i)) \<Longrightarrow> acting s i (rg_objs (cl_insts s i) p)"
  by (simp add: acting_def)

text \<open>The tenant is admitted; it is disabled, and the instance retires its engine and says so; it is re-pointed; enabled
  again, it is admitted on the new schema.\<close>

definition admit_events :: "event list" where
  "admit_events = [Poll, ReadRows, NoteRows, Snap, ObserveAll, CheckAge, RefreshFence, AdmitT, EndPass, Verify, Confirm, Freshen,
     Publish, Record, Admitted]"

definition drained_events :: "event list" where
  "drained_events = AddT ''old'' # admit_events @
     [Tick (10 * Second), EnableT False, Poll, ReadRows, NoteRows, Snap, RetireT, Remove, ObserveAll, CheckAge, RefreshFence,
      EndPass, Acknowledge]"

definition drained :: cluster where "drained = after_run drained_events start30"

definition repointed :: ctl where
  "repointed = (case SetTenantDSN None None (env_of drained) ''n'' ''new'' ''u'' ''op'' ''why'' True (3 * limit30) (cl_ctl drained) of
     Inr c \<Rightarrow> c | Inl _ \<Rightarrow> cl_ctl drained)"

lemma repointed_run:
  "SetTenantDSN None None (env_of drained) ''n'' ''new'' ''u'' ''op'' ''why'' True (3 * limit30) (cl_ctl drained) = Inr repointed"
  by code_simp

lemma drained_facts:
  "cl_now drained = 10 * Second" "CurrentGeneration (cl_ctl drained) ''n'' = (2, False)"
  "te_name (rg_objs (a_reg drained) 0) = ''n''" "te_dsn (rg_objs (a_reg drained) 0) = ''old''"
  "te_published (rg_objs (a_reg drained) 0) + 0 \<le> te_announced (rg_objs (a_reg drained) 0) + limit30"
  "Healthy (cl_now drained) (rg_fence (a_reg drained))"
  by code_simp+

definition readmitted_events :: "event list" where
  "readmitted_events = [EnableT True, Tick (80 * Second)] @ admit_events"

definition readmitted :: cluster where "readmitted = after_run readmitted_events (drained\<lparr>cl_ctl := repointed\<rparr>)"

lemma readmitted_steps: "(cluster_step limit30 0 None)\<^sup>*\<^sup>* (drained\<lparr>cl_ctl := repointed\<rparr>) readmitted"
  unfolding readmitted_def
  by (rule after_steps) (use after_only_n [OF start_only_n, of drained_events] in \<open>simp add: drained_def only_n_def\<close>)

lemma readmitted_facts:
  "cl_now drained + 2 * limit30 + 0 < cl_now readmitted" "te_name (rg_objs (a_reg readmitted) 1) = ''n''"
  "te_claiming (rg_objs (a_reg readmitted) 1)" "Healthy (cl_now readmitted) (rg_fence (a_reg readmitted))"
  "te_dsn (rg_objs (a_reg readmitted) 1) = ''new''"
  by code_simp+

text \<open>The instance cannot reach the control database for a hundred seconds; it reads the registry, and before it
  goes on the tenant is disabled and re-pointed; it observes and refreshes.\<close>

definition unseen_events :: "event list" where
  "unseen_events = AddT ''old'' # admit_events @ [Tick (100 * Second), Poll, ReadRows, EnableT False]"

definition unseen :: cluster where "unseen = after_run unseen_events start30"

definition unseen_repointed :: ctl where
  "unseen_repointed = (case SetTenantDSN None None (env_of unseen) ''n'' ''new'' ''u'' ''op'' ''why'' True (3 * limit30) (cl_ctl unseen) of
     Inr c \<Rightarrow> c | Inl _ \<Rightarrow> cl_ctl unseen)"

lemma unseen_run:
  "SetTenantDSN None None (env_of unseen) ''n'' ''new'' ''u'' ''op'' ''why'' True (3 * limit30) (cl_ctl unseen) = Inr unseen_repointed"
  by code_simp

definition overtaken :: cluster where
  "overtaken = after_run [NoteRows, Snap, ObserveAll, ObserveT, CheckAge, RefreshFence] (unseen\<lparr>cl_ctl := unseen_repointed\<rparr>)"

lemma overtaken_steps: "(cluster_step limit30 0 None)\<^sup>*\<^sup>* (unseen\<lparr>cl_ctl := unseen_repointed\<rparr>) overtaken"
  unfolding overtaken_def
  by (rule after_steps) (use after_only_n [OF start_only_n, of unseen_events] in \<open>simp add: unseen_def only_n_def\<close>)

lemma overtaken_facts:
  "te_claiming (rg_objs (a_reg overtaken) 0)" "Healthy (cl_now overtaken) (rg_fence (a_reg overtaken))"
  "te_dsn (rg_objs (a_reg overtaken) 0) = ''old''" "te_name (rg_objs (a_reg overtaken) 0) = ''n''"
  "map tn_DSN (Tenants None (cl_ctl overtaken)) = [''new'']" "cl_now overtaken = cl_now unseen"
  by code_simp+

text \<open>C10: An instance whose last sign of life is older than the liveness window may have read the registry just before a
  tenant is disabled and re-pointed: the change is accepted, and without any time passing the instance then writes its observation, refreshes its
  fence and acts on the old schema.\<close>

theorem cutover_race:
  "\<exists>s c s' te. cluster_reachable limit30 0 None s \<and>
     SetTenantDSN None None (env_of s) ''n'' ''new'' ''u'' ''op'' ''why'' True (3 * limit30) (cl_ctl s) = Inr c \<and>
     (cluster_step limit30 0 None)\<^sup>*\<^sup>* (s\<lparr>cl_ctl := c\<rparr>) s' \<and> cl_now s' = cl_now s \<and>
     acting s' ''a'' te \<and> te_name te = ''n'' \<and> te_dsn te = ''old'' \<and> map tn_DSN (Tenants None (cl_ctl s')) = [''new'']"
  by (intro exI conjI)
    (rule after_start [of unseen_events, folded unseen_def] unseen_run overtaken_steps overtaken_facts(6)
       acting_at [OF overtaken_facts(1,2)] overtaken_facts(3,4,5))+

theorem cutover_gate_witness:
  "SetTenantDSN None None (env_of drained) ''n'' ''new'' ''u'' ''op'' ''why'' True (3 * limit30) (cl_ctl drained) = Inr repointed \<and>
   Healthy (cl_now drained) (rg_fence (a_reg drained)) \<and> te_dsn (rg_objs (a_reg drained) 0) = ''old'' \<and>
   \<not> acting drained ''a'' (rg_objs (a_reg drained) 0)"
  using cutover_gate [OF after_start [of drained_events, folded drained_def] _ _ _ repointed_run drained_facts(3,5), of "''a''"]
    repointed_run drained_facts(4,6)
  by (simp add: limit30_def env_of_def)

theorem cutover_settles_witness:
  "acting readmitted ''a'' (rg_objs (a_reg readmitted) 1) \<and> te_dsn (rg_objs (a_reg readmitted) 1) = ''new'' \<and>
   2 < te_generation (rg_objs (a_reg readmitted) 1)"
  using cutover_settles [OF after_start [of drained_events, folded drained_def] _ _ _ repointed_run drained_facts(2) readmitted_steps
      readmitted_facts(1) acting_at [OF readmitted_facts(3,4)] readmitted_facts(2)] acting_at [OF readmitted_facts(3,4)] readmitted_facts(5)
  by (simp add: limit30_def env_of_def)

end
