(* ===== verification/ControlLaws.thy ===== *)
theory ControlLaws
  imports CutoverRuns
begin

text \<open>
  The control database as a whole: what its rows always look like, that every change of the registry or of the
  identities is in the audit under an actor's name, and that a stored connection string can be read again.
\<close>

section \<open>Well-formed rows\<close>

definition tagged :: "string \<Rightarrow> bool" where
  "tagged stored \<longleftrightarrow> stored \<noteq> [] \<and> hd stored \<in> {dsnPlain, dsnSealed}"

definition tenant_row_ok :: "tenant_registry \<Rightarrow> bool" where
  "tenant_row_ok r \<longleftrightarrow> tr_tenant r \<noteq> [] \<and> 1 \<le> tr_generation r \<and> tagged (tr_coordination_dsn r)"

definition identity_row_ok :: "executor_identity \<Rightarrow> bool" where
  "identity_row_ok i \<longleftrightarrow> ei_identity i \<noteq> [] \<and> ei_tenant i \<noteq> []"

definition audits_ok :: "ctl \<Rightarrow> bool" where
  "audits_ok c \<longleftrightarrow> sorted_wrt (<) (map ca_id (ctl_audits c)) \<and> (\<forall>a \<in> set (ctl_audits c). ca_id a < ctl_next_audit c \<and> ca_actor a \<noteq> [])"

definition ctl_ok :: "ctl \<Rightarrow> bool" where
  "ctl_ok c \<longleftrightarrow> ctl_keys_ok c \<and> (\<forall>r \<in> set (registry c). tenant_row_ok r) \<and> (\<forall>i \<in> set (identities c). identity_row_ok i) \<and> audits_ok c"

text \<open>What an operation did when it succeeded: its change, then one row of the audit.\<close>

definition audited :: "ctl \<Rightarrow> ctl \<Rightarrow> bool" where
  "audited c c' \<longleftrightarrow> (\<exists>a. ctl_audits c' = ctl_audits c @ [a] \<and> ctl_next_audit c \<le> ca_id a \<and> ca_id a < ctl_next_audit c' \<and>
     ca_actor a \<noteq> [])"

lemma record_audit_audited: "record_audit env actor action n detail c = Inr c' \<Longrightarrow> audited c c'"
  by (auto simp: record_audit_def audited_def split: if_splits)

lemma audited_cong: "audited c1 c' \<Longrightarrow> ctl_audits c1 = ctl_audits c \<Longrightarrow> ctl_next_audit c1 = ctl_next_audit c \<Longrightarrow> audited c c'"
  by (simp add: audited_def)

lemma audits_ok_audited: "audited c c' \<Longrightarrow> audits_ok c \<Longrightarrow> audits_ok c'"
  by (fastforce simp: audited_def audits_ok_def sorted_wrt_append)

lemma operator_audited:
  assumes "operator_step limit aead env c c'"
  shows "audited c c'"
  using assms
proof cases
  case (repoint rand n dsn uuid actor reason quiet)
  then show ?thesis
    by (cases "tenant_row c n") (auto simp: SetTenantDSN_def Let_def split: if_splits dest!: record_audit_audited elim: audited_cong)
qed (auto simp: AddTenant_def SetTenantEnabled_def AddIdentity_def insert_identity_def SetIdentityDisabled_def DeleteIdentity_def
   Audit_def Let_def split: if_splits option.splits dest!: record_audit_audited elim: audited_cong)

lemma seal_tagged: "seal aead rand plain = Inr stored \<Longrightarrow> tagged stored"
  by (auto simp: seal_def tagged_def Let_def split: option.splits if_splits)

lemma operator_rows:
  assumes "operator_step limit aead env c c'" "\<forall>r \<in> set (registry c). tenant_row_ok r"
  shows "\<forall>r \<in> set (registry c'). tenant_row_ok r"
  using assms(1)
proof cases
  case (add_tenant rand n dsn uuid actor reason)
  then show ?thesis using assms(2)
    by (auto simp: AddTenant_def new_tenant_def tenant_row_ok_def seal_tagged dest!: record_audit_keeps split: if_splits)
next
  case (enable n on actor reason)
  then show ?thesis using assms(2)
    by (fastforce simp: SetTenantEnabled_def Let_def set_sql_update enable_set_def tenant_row_ok_def dest!: record_audit_keeps split: if_splits)
next
  case (repoint rand n dsn uuid actor reason quiet)
  then show ?thesis using assms(2)
    by (fastforce simp: SetTenantDSN_def Let_def set_sql_update repoint_set_def tenant_row_ok_def dest!: record_audit_keeps seal_tagged
      split: if_splits option.splits)
qed (use assms(2) in \<open>auto simp: AddIdentity_def insert_identity_def SetIdentityDisabled_def DeleteIdentity_def Audit_def Let_def
   dest!: record_audit_keeps split: if_splits option.splits\<close>)

lemma operator_identities:
  assumes "operator_step limit aead env c c'" "distinct (map identity_key (identities c))" "\<forall>i \<in> set (identities c). identity_row_ok i"
  shows "distinct (map identity_key (identities c')) \<and> (\<forall>i \<in> set (identities c'). identity_row_ok i)"
  using assms(1)
proof cases
  case (add_identity idn n grp sha actor reason)
  then show ?thesis using assms(2,3)
    by (auto simp: AddIdentity_def insert_identity_def Let_def row_of_None identity_row_ok_def dest!: record_audit_keeps split: if_splits)
next
  case (disable_identity idn n off actor reason)
  then show ?thesis using assms(2,3)
    by (auto simp: SetIdentityDisabled_def Let_def identity_row_ok_def keys_update set_sql_update dest!: record_audit_keeps split: if_splits)
next
  case (delete_identity idn n actor reason)
  then show ?thesis using assms(2,3)
    by (auto simp: DeleteIdentity_def sql_delete_def distinct_map_filter dest!: record_audit_keeps split: if_splits option.splits)
qed (use assms(2,3) in \<open>auto simp: AddTenant_def SetTenantEnabled_def SetTenantDSN_def Audit_def Let_def
   dest!: record_audit_keeps split: if_splits option.splits\<close>)

lemma operator_observations: "operator_step limit aead env c c' \<Longrightarrow> observations c' = observations c"
  by (cases rule: operator_step.cases)
    (auto simp: AddTenant_def SetTenantEnabled_def SetTenantDSN_def AddIdentity_def insert_identity_def SetIdentityDisabled_def DeleteIdentity_def
      Audit_def Let_def split: if_splits option.splits dest!: record_audit_keeps)

lemma ctl_ok_operator:
  assumes "operator_step limit aead env c c'" "ctl_ok c"
  shows "ctl_ok c'"
  using operator_rows [OF assms(1)] operator_identities [OF assms(1)] operator_keys [OF assms(1)] operator_observations [OF assms(1)]
    audits_ok_audited [OF operator_audited [OF assms(1)]] assms(2)
  by (simp add: ctl_ok_def ctl_keys_ok_def)

text \<open>What an instance writes: an observation of its own, or the outcome of an admission.\<close>

lemma inst_writes:
  assumes "inst_step gap aead t env i (c, r) (c', r')"
  obtains "c' = c" | n g q where "c' = Observe env n i g q c" | n v e where "c' = RecordAdmission env n v e c"
  using assms by cases (auto simp: observe_tenant_def observeAs_def announce_def acknowledge_def split: if_splits)

lemma ctl_ok_Observe:
  assumes "ctl_ok c"
  shows "ctl_ok (Observe env n i g q c)"
proof -
  have "distinct (map obs_key (observations (Observe env n i g q c)))"
    using assms by (auto simp: Observe_def ctl_ok_def ctl_keys_ok_def row_of_None keys_update image_iff)
  then show ?thesis using assms by (simp add: ctl_ok_def ctl_keys_ok_def audits_ok_def Observe_def)
qed

lemma ctl_ok_RecordAdmission: "ctl_ok c \<Longrightarrow> ctl_ok (RecordAdmission env n v e c)"
  by (auto simp: ctl_ok_def ctl_keys_ok_def audits_ok_def RecordAdmission_def admission_set_def keys_update set_sql_update tenant_row_ok_def)

lemma ctl_ok_step:
  assumes "cluster_step limit gap aead s s'" "ctl_ok (cl_ctl s)"
  shows "ctl_ok (cl_ctl s')"
  using assms(1)
proof cases
  case (operates env c)
  then show ?thesis using ctl_ok_operator assms(2) by simp
next
  case (section_of env i c r)
  from section_of(2) have "ctl_ok c" by (cases rule: inst_writes) (use assms(2) ctl_ok_Observe ctl_ok_RecordAdmission in auto)
  then show ?thesis using section_of(1) by simp
qed (use assms(2) in simp)

text \<open>C19: In every reachable cluster the rows of the control database are well formed: the three primary keys hold, every tenant has a name,
  a generation of at least one and a stored connection string that says how it is stored; every identity has a name and a
  tenant; the numbers of the audit grow (not without gaps: a rolled-back entry uses one up) and every entry names its actor.\<close>

theorem control_typed:
  assumes "cluster_reachable limit gap aead s"
  shows "ctl_ok (cl_ctl s)"
proof -
  obtain t where "(cluster_step limit gap aead)\<^sup>*\<^sup>* (cluster_start limit t) s" using assms by (auto simp: cluster_reachable_def)
  then show ?thesis
  proof (induction rule: rtranclp_induct)
    case base show ?case by (simp add: cluster_start_def ctl_ok_def ctl_keys_ok_def audits_ok_def)
  qed (rule ctl_ok_step)
qed

theorem control_typed_witness: "ctl_ok (cl_ctl drained) \<and> length (ctl_audits (cl_ctl drained)) = 2"
  using control_typed [OF after_start [of drained_events, folded drained_def]] by (intro conjI) (assumption, code_simp)

section \<open>The audit\<close>

text \<open>What decides where a tenant's work lives, whether it runs and who may take it.\<close>

definition authority :: "ctl \<Rightarrow> (string \<times> string \<times> bool \<times> int \<times> string) list \<times> executor_identity list" where
  "authority c =
     (map (\<lambda>r. (tr_tenant r, tr_coordination_dsn r, tr_enabled r, tr_generation r, tr_schema_uuid r)) (registry c), identities c)"

lemma inst_authority:
  assumes "inst_step gap aead t env i (c, r) (c', r')"
  shows "authority c' = authority c"
  using assms
  by (cases rule: inst_writes) (auto simp: authority_def Observe_def RecordAdmission_def sql_update_def admission_set_def)

text \<open>C18: Whatever step of a cluster changes a connection string, the enabled flag, a generation, an expected schema or an executor's identity
  appends exactly one entry to the audit, numbered from the counter, which moves past it, that names its actor; no instance changes any of them.\<close>

theorem changes_audited:
  assumes "cluster_step limit gap aead s s'" "authority (cl_ctl s') \<noteq> authority (cl_ctl s)"
  shows "\<exists>a. ctl_audits (cl_ctl s') = ctl_audits (cl_ctl s) @ [a] \<and> ctl_next_audit (cl_ctl s) \<le> ca_id a \<and>
    ca_id a < ctl_next_audit (cl_ctl s') \<and> ca_actor a \<noteq> [] \<and> cl_insts s' = cl_insts s"
  using assms(1)
proof cases
  case (operates env c)
  then show ?thesis using operator_audited [OF operates(2)] by (auto simp: audited_def)
next
  case (section_of env i c r)
  then show ?thesis using inst_authority [OF section_of(2)] assms(2) by simp
qed (use assms(2) in simp)

theorem changes_audited_witness:
  "\<exists>a. ctl_audits (cl_ctl (after_run [AddT ''old''] start30)) = ctl_audits (cl_ctl start30) @ [a] \<and>
     ctl_next_audit (cl_ctl start30) \<le> ca_id a \<and> ca_id a < ctl_next_audit (cl_ctl (after_run [AddT ''old''] start30)) \<and>
     ca_actor a \<noteq> [] \<and> cl_insts (after_run [AddT ''old''] start30) = cl_insts start30"
proof (rule changes_audited)
  show "cluster_step limit30 0 None start30 (after_run [AddT ''old''] start30)"
    by (rule event_is_step [OF _ start_only_n, of "AddT ''old''"])
      (simp add: after_run_def operate_def AddTenant_def seal_def record_audit_def start30_def cluster_start_def)
  show "authority (cl_ctl (after_run [AddT ''old''] start30)) \<noteq> authority (cl_ctl start30)" by code_simp
qed

section \<open>Stored connection strings\<close>

text \<open>What the cipher owes: under the nonce it was sealed with, a text opens to itself.\<close>

definition aead_ok :: "AEAD \<Rightarrow> bool" where
  "aead_ok c \<longleftrightarrow> (\<forall>nonce plain. length nonce = NonceSize c \<longrightarrow> Open c nonce (Seal c nonce plain) = Some plain)"

text \<open>C20: A connection string stored by an installation reads back as it was typed, with or without a key; one stored without a key
  stays readable after a key is introduced, and one stored under a key is refused, not misread, when the key is missing.\<close>

theorem dsn_round_trip:
  assumes "\<forall>c. aead = Some c \<longrightarrow> aead_ok c" "seal aead rand plain = Inr stored"
  shows "open_dsn aead stored = Inr plain \<and> (aead = None \<longrightarrow> open_dsn later stored = Inr plain) \<and>
    (aead \<noteq> None \<longrightarrow> open_dsn None stored = Inl DSNKeyMissing)"
  using assms
  by (auto simp: seal_def open_dsn_def unseal_def aead_ok_def dsnPlain_def dsnSealed_def Let_def split: option.splits if_splits)

definition toy_cipher :: AEAD where
  "toy_cipher = \<lparr>NonceSize = 2, Seal = (\<lambda>nonce plain. nonce @ rev plain),
     Open = (\<lambda>nonce sealed. if take 2 sealed = nonce then Some (rev (drop 2 sealed)) else None)\<rparr>"

theorem dsn_round_trip_witness:
  "open_dsn (Some toy_cipher) (dsnSealed # ''ab'' @ ''ab'' @ ''nsd'') = Inr ''dsn'' \<and>
   open_dsn None (dsnSealed # ''ab'' @ ''ab'' @ ''nsd'') = Inl DSNKeyMissing"
  using dsn_round_trip [of "Some toy_cipher" "Some ''ab''" "''dsn''" "dsnSealed # ''ab'' @ ''ab'' @ ''nsd''"]
  by (simp add: toy_cipher_def aead_ok_def seal_def)

end
