(* ===== verification/Testexec.thy ===== *)
theory Testexec
  imports Server
begin

text \<open>
  The conforming executor (\<^verbatim>\<open>src/internal/testexec/executor.go\<close>), the other side of the contract the scheduler dispatches over: what it
  holds, what it answers, and when it starts a handler. A handler is a goroutine that is started and ends; between the two it is
  in \<open>te_active\<close>, with the token it runs under. The two maps are association lists, most recent write first; Go iterates them in any
  order. The instants are readings of the executor's own clock; the two readings made under one lock (when an attempt ended, and the
  cutoff of what is forgotten) are one. The hook for tests and the last reporting error are not kept.
\<close>

section \<open>State\<close>

record execution =
  xe_tenant :: string
  xe_key :: string
  xe_runToken :: string
  xe_startedAt :: time

record finished_attempt =
  xf_tenant :: string
  xf_key :: string
  xf_runToken :: string
  xf_outcome :: ExecutionOutcome
  xf_at :: time

type_synonym attempt_id = "string \<times> string \<times> string" \<comment> \<open>tenant, execution key, run token\<close>

record TestExecutor =
  te_Tenant :: string
  te_Capacity :: int
  te_Revision :: string
  te_handlers :: "string list"
  te_running :: "(string \<times> execution) list"
  te_done :: "(string \<times> finished_attempt) list"
  te_active :: "attempt_id list" \<comment> \<open>handlers started that have not ended\<close>

definition NewTestExecutor :: "string \<Rightarrow> int \<Rightarrow> TestExecutor" where
  "NewTestExecutor tenant capacity =
     \<lparr>te_Tenant = tenant, te_Capacity = capacity, te_Revision = ''test'', te_handlers = [], te_running = [], te_done = [], te_active = []\<rparr>"

definition Handle :: "string \<Rightarrow> TestExecutor \<Rightarrow> TestExecutor" where
  "Handle key e = e\<lparr>te_handlers := List.insert key (te_handlers e)\<rparr>"

definition exec_Describe :: "TestExecutor \<Rightarrow> DescribeResponse" where
  "exec_Describe e =
     \<lparr>ds_ContractVersion = ''1'', ds_HandlerKeys = te_handlers e, ds_Handlers = [], ds_Capacity = to_int32 (te_Capacity e),
      ds_Revision = te_Revision e\<rparr>"

definition runKey :: "string \<Rightarrow> string \<Rightarrow> string" where
  "runKey tenant key = tenant @ [CHR 0x00] @ key"

definition attemptKey :: "string \<Rightarrow> string \<Rightarrow> string \<Rightarrow> string" where
  "attemptKey tenant key token = tenant @ [CHR 0x00] @ key @ [CHR 0x00] @ token"

definition entry_delete :: "string \<Rightarrow> (string \<times> 'v) list \<Rightarrow> (string \<times> 'v) list" where
  "entry_delete k xs = filter (\<lambda>(k', _). k' \<noteq> k) xs"

definition entry_set :: "string \<Rightarrow> 'v \<Rightarrow> (string \<times> 'v) list \<Rightarrow> (string \<times> 'v) list" where
  "entry_set k v xs = (k, v) # entry_delete k xs"

section \<open>Run\<close>

record run_request =
  xr_Tenant :: string
  xr_ExecutionKey :: string
  xr_RunToken :: string
  xr_HandlerKey :: string

definition requested_attempt :: "run_request \<Rightarrow> attempt_id" where
  "requested_attempt q = (xr_Tenant q, xr_ExecutionKey q, xr_RunToken q)"

definition answer_held :: "string \<Rightarrow> grpc_status + RunResponse" where
  "answer_held token = Inl \<lparr>gs_IsStatus = True, gs_Code = CodeAlreadyExists, gs_Details = [Some token]\<rparr>"

definition answer_refused :: "run_request \<Rightarrow> grpc_status + RunResponse" where
  "answer_refused q = Inr \<lparr>rr_ExecutionKey = xr_ExecutionKey q, rr_RunToken = [], rr_Refused = True\<rparr>"

definition answer_taken :: "run_request \<Rightarrow> grpc_status + RunResponse" where
  "answer_taken q = Inr \<lparr>rr_ExecutionKey = xr_ExecutionKey q, rr_RunToken = xr_RunToken q, rr_Refused = False\<rparr>"

definition exec_Run :: "time \<Rightarrow> run_request \<Rightarrow> TestExecutor \<Rightarrow> (grpc_status + RunResponse) \<times> TestExecutor" where
  "exec_Run t q e =
     (let k = runKey (xr_Tenant q) (xr_ExecutionKey q) in
      if xr_HandlerKey q \<notin> set (te_handlers e) then (answer_refused q, e)
      else case map_of (te_done e) (attemptKey (xr_Tenant q) (xr_ExecutionKey q) (xr_RunToken q)) of
             Some fin \<Rightarrow> (answer_held (xf_runToken fin), e)
           | None \<Rightarrow>
               (case map_of (te_running e) k of
                  Some cur \<Rightarrow> (answer_held (xe_runToken cur), e)
                | None \<Rightarrow>
                    if int (length (te_running e)) \<ge> te_Capacity e then (answer_refused q, e)
                    else (answer_taken q,
                          e\<lparr>te_running := entry_set k \<lparr>xe_tenant = xr_Tenant q, xe_key = xr_ExecutionKey q, xe_runToken = xr_RunToken q,
                                                      xe_startedAt = t\<rparr> (te_running e),
                            te_active := requested_attempt q # te_active e\<rparr>)))"

section \<open>The end of a handler\<close>

text \<open>The runtime cap the handler's context gets, when the request carries one.\<close>

definition runtime_cap :: "int \<Rightarrow> duration option" where
  "runtime_cap remainingTimeoutSeconds = (if remainingTimeoutSeconds > 0 then Some (remainingTimeoutSeconds * Second) else None)"

datatype ctx_err = CtxNone | CtxDeadlineExceeded | CtxCanceled

definition errText :: "string option \<Rightarrow> string \<Rightarrow> string" where
  "errText err fallback = (case err of Some e \<Rightarrow> e | None \<Rightarrow> fallback)"

text \<open>What the handler returned (a summary, and the text of its error) against the state of its context.\<close>

definition outcome_of_run :: "ctx_err \<Rightarrow> string \<Rightarrow> string option \<Rightarrow> ExecutionOutcome" where
  "outcome_of_run ctx summary err =
     (let oc = \<lparr>eo_Disposition = DISPOSITION_UNSPECIFIED, eo_FailureKind = [], eo_ErrorDetail = [], eo_Summary = summary\<rparr> in
      case ctx of
        CtxDeadlineExceeded \<Rightarrow>
          oc\<lparr>eo_Disposition := DISPOSITION_TIMED_OUT, eo_FailureKind := ''timeout'', eo_ErrorDetail := errText err ''the runtime cap elapsed''\<rparr>
      | CtxCanceled \<Rightarrow>
          oc\<lparr>eo_Disposition := DISPOSITION_STOPPED, eo_ErrorDetail := errText err ''the handler was asked to stop and did''\<rparr>
      | CtxNone \<Rightarrow>
          (case err of
             None \<Rightarrow> oc\<lparr>eo_Disposition := DISPOSITION_SUCCESS\<rparr>
           | Some e \<Rightarrow> oc\<lparr>eo_Disposition := DISPOSITION_FAILED, eo_FailureKind := ''handler'', eo_ErrorDetail := e\<rparr>))"

definition keep :: duration where "keep = 10 * Minute"

definition forgetOldLocked :: "time \<Rightarrow> TestExecutor \<Rightarrow> TestExecutor" where
  "forgetOldLocked t e = e\<lparr>te_done := filter (\<lambda>(_, f). \<not> xf_at f < t - keep) (te_done e)\<rparr>"

definition execute_end :: "time \<Rightarrow> attempt_id \<Rightarrow> ExecutionOutcome \<Rightarrow> TestExecutor \<Rightarrow> TestExecutor" where
  "execute_end t a oc e =
     (case a of (tenant, key, token) \<Rightarrow>
        forgetOldLocked t
          (e\<lparr>te_running := entry_delete (runKey tenant key) (te_running e),
             te_done := entry_set (attemptKey tenant key token)
                          \<lparr>xf_tenant = tenant, xf_key = key, xf_runToken = token, xf_outcome = oc, xf_at = t\<rparr> (te_done e),
             te_active := remove1 a (te_active e)\<rparr>))"

text \<open>The report, made to a scheduler once the executor has connected to one: the codes it is answered with, in order.\<close>

datatype report_code = ReportOK | ReportAborted | ReportNotFound | ReportOther

fun report_calls :: "nat \<Rightarrow> (nat \<Rightarrow> report_code) \<Rightarrow> nat \<Rightarrow> report_code list" where
  "report_calls 0 answer n = []"
| "report_calls (Suc left) answer n =
     answer n # (if answer n \<in> {ReportOK, ReportAborted, ReportNotFound} then [] else report_calls left answer (n + 1))"

definition report :: "bool \<Rightarrow> (nat \<Rightarrow> report_code) \<Rightarrow> report_code list" where
  "report connected answer = (if \<not> connected then [] else report_calls 10 answer 0)"

text \<open>Progress: every interval a call is made; the first answer that says not to proceed stops the handler, a failed call (\<open>None\<close>) does not.
  The value says after how many calls the handler was stopped; the list holds the answers until it ended.\<close>

definition progress_interval :: "int \<Rightarrow> duration" where
  "progress_interval silence = (let i = silence * Second div 3 in if i < Second then Second else i)"

fun progress_stop :: "bool option list \<Rightarrow> nat option" where
  "progress_stop [] = None"
| "progress_stop (Some False # answers) = Some 1"
| "progress_stop (_ # answers) = map_option Suc (progress_stop answers)"

definition reportProgress :: "bool \<Rightarrow> bool option list \<Rightarrow> nat option" where
  "reportProgress connected answers = (if \<not> connected then None else progress_stop answers)"

section \<open>The other calls\<close>

text \<open>Which handler is told to stop, by its attempt; nothing when the call answers NOT_FOUND.\<close>

definition exec_Cancel :: "string \<Rightarrow> string \<Rightarrow> string \<Rightarrow> TestExecutor \<Rightarrow> grpc_code \<times> attempt_id option" where
  "exec_Cancel tenant key token e =
     (case map_of (te_running e) (runKey tenant key) of
        None \<Rightarrow> (CodeNotFound, None)
      | Some cur \<Rightarrow> if token \<noteq> [] \<and> token \<noteq> xe_runToken cur then (CodeNotFound, None)
                     else (CodeOK, Some (tenant, key, xe_runToken cur)))"

definition newer :: "finished_attempt option \<Rightarrow> finished_attempt \<Rightarrow> finished_attempt option" where
  "newer best f = (case best of None \<Rightarrow> Some f | Some b \<Rightarrow> if xf_at f > xf_at b then Some f else Some b)"

definition exec_GetExecution :: "string \<Rightarrow> string \<Rightarrow> TestExecutor \<Rightarrow> GetExecutionResponse option" where
  "exec_GetExecution tenant key e =
     (case map_of (te_running e) (runKey tenant key) of
        Some cur \<Rightarrow> Some \<lparr>ge_State = EXECUTION_STATE_RUNNING, ge_RunToken = xe_runToken cur, ge_Outcome = None\<rparr>
      | None \<Rightarrow>
          (case foldl newer None (filter (\<lambda>f. xf_tenant f = tenant \<and> xf_key f = key) (map snd (te_done e))) of
             Some f \<Rightarrow> Some \<lparr>ge_State = EXECUTION_STATE_FINISHED, ge_RunToken = xf_runToken f, ge_Outcome = Some (xf_outcome f)\<rparr>
           | None \<Rightarrow> None))"

section \<open>Registration\<close>

definition inFlight :: "TestExecutor \<Rightarrow> (string \<times> string) list" where
  "inFlight e =
     map (\<lambda>(_, cur). (xe_key cur, xe_runToken cur)) (filter (\<lambda>(_, cur). xe_tenant cur = te_Tenant e) (te_running e))"

text \<open>What the scheduler fenced is dropped, and its handlers are told to stop.\<close>

fun drop_fenced :: "string list \<Rightarrow> TestExecutor \<Rightarrow> attempt_id list \<times> TestExecutor" where
  "drop_fenced [] e = ([], e)"
| "drop_fenced (key # keys) e =
     (case map_of (te_running e) (runKey (te_Tenant e) key) of
        None \<Rightarrow> drop_fenced keys e
      | Some cur \<Rightarrow>
          (let (stopped, e') = drop_fenced keys (e\<lparr>te_running := entry_delete (runKey (te_Tenant e) key) (te_running e)\<rparr>)
           in ((xe_tenant cur, xe_key cur, xe_runToken cur) # stopped, e')))"

text \<open>The scheduler's answer to a registration: the keys it fenced and the heartbeat interval in seconds, or nothing when the connection or
  the call failed. The result is the interval the heartbeat runs at, the handlers told to stop, and the executor.\<close>

definition Connect :: "((string \<times> string) list \<Rightarrow> (string list \<times> int) option) \<Rightarrow> TestExecutor \<Rightarrow> (duration \<times> attempt_id list) option \<times> TestExecutor" where
  "Connect register e =
     (case register (inFlight e) of
        None \<Rightarrow> (None, e)
      | Some (keys, secs) \<Rightarrow>
          (let (stopped, e') = drop_fenced keys e; interval = secs * Second
           in (Some (if interval \<le> 0 then 10 * Second else interval, stopped), e')))"

text \<open>One beat: it carries how much is running; an answer that does not know the executor makes it connect again. The call failed (\<open>None\<close>) or
  said whether the registration is known.\<close>

definition heartbeat_beat ::
  "(int \<Rightarrow> bool option) \<Rightarrow> ((string \<times> string) list \<Rightarrow> (string list \<times> int) option) \<Rightarrow> TestExecutor \<Rightarrow> TestExecutor" where
  "heartbeat_beat beat register e =
     (if beat (to_int32 (int (length (te_running e)))) = Some False then snd (Connect register e) else e)"

definition RunningCount :: "TestExecutor \<Rightarrow> nat" where
  "RunningCount e = length (te_running e)"

end
