(* ===== verification/AtMostOnce.thy ===== *)
theory AtMostOnce
  imports Testexec
begin

text \<open>
  What an executor promises the scheduler: an attempt is run at most once while the executor remembers it, and its answer to a dispatch is
  true of what it is doing; and the one way the promise fails, an attempt that was fenced and ends after its successor started.
\<close>

section \<open>The attempts of an executor\<close>

definition plain_attempt :: "attempt_id \<Rightarrow> bool" where
  "plain_attempt a \<longleftrightarrow> (case a of (tenant, key, token) \<Rightarrow> CHR 0x00 \<notin> set tenant \<and> CHR 0x00 \<notin> set key \<and> token \<noteq> [])"

definition run_key_of :: "attempt_id \<Rightarrow> string" where
  "run_key_of a = runKey (fst a) (fst (snd a))"

definition attempt_key_of :: "attempt_id \<Rightarrow> string" where
  "attempt_key_of a = attemptKey (fst a) (fst (snd a)) (snd (snd a))"

definition held_attempt :: "execution \<Rightarrow> attempt_id" where
  "held_attempt x = (xe_tenant x, xe_key x, xe_runToken x)"

definition ended_attempt :: "finished_attempt \<Rightarrow> attempt_id" where
  "ended_attempt f = (xf_tenant f, xf_key f, xf_runToken f)"

text \<open>A run of the executor, with the attempts it started, when each ended last, and the entries a scheduler had it drop: it is asked to run,
  a handler ends, a handler is registered, it registers with a scheduler (at its start, or after a heartbeat that found it unknown) and
  drops what the answer fences, time passes. A call that is answered without an effect is no step.\<close>

type_synonym exec_history = "time \<times> TestExecutor \<times> attempt_id list \<times> (attempt_id \<Rightarrow> time option) \<times> string set"

inductive exec_step :: "exec_history \<Rightarrow> exec_history \<Rightarrow> bool" where
  starts: "plain_attempt (requested_attempt q) \<Longrightarrow> exec_Run t q e = (answer_taken q, e') \<Longrightarrow>
     exec_step (t, e, st, fin, fz) (t, e', requested_attempt q # st, fin, fz)"
| ends: "a \<in> set (te_active e) \<Longrightarrow> exec_step (t, e, st, fin, fz) (t, execute_end t a oc e, st, fin(a := Some t), fz)"
| handles: "exec_step (t, e, st, fin, fz) (t, Handle key e, st, fin, fz)"
| connects: "register (inFlight e) = Some (keys, secs) \<Longrightarrow>
     exec_step (t, e, st, fin, fz) (t, snd (Connect register e), st, fin, fz \<union> runKey (te_Tenant e) ` set keys)"
| waits: "t \<le> t' \<Longrightarrow> exec_step (t, e, st, fin, fz) (t', e, st, fin, fz)"

text \<open>What the executor knows of every attempt it started: its handler is going, or its end is on record, or it ended too long ago.\<close>

definition exec_accounted :: "time \<Rightarrow> TestExecutor \<Rightarrow> (attempt_id \<Rightarrow> time option) \<Rightarrow> attempt_id \<Rightarrow> bool" where
  "exec_accounted t e fin a \<longleftrightarrow> a \<in> set (te_active e) \<or> map_of (te_done e) (attempt_key_of a) \<noteq> None \<or> (\<exists>f. fin a = Some f \<and> f < t - keep)"

text \<open>An entry always stands for a handler that is going. A handler that is going has its entry, and is the only one of its attempt, unless the
  entry was fenced at some time.\<close>

definition once_ok :: "time \<Rightarrow> TestExecutor \<Rightarrow> attempt_id list \<Rightarrow> (attempt_id \<Rightarrow> time option) \<Rightarrow> string set \<Rightarrow> bool" where
  "once_ok t e st fin fz \<longleftrightarrow>
     (\<forall>a \<in> set (te_active e). run_key_of a \<notin> fz \<longrightarrow>
        (\<exists>x. map_of (te_running e) (run_key_of a) = Some x \<and> held_attempt x = a) \<and> count_list (te_active e) a = 1) \<and>
     (\<forall>k x. map_of (te_running e) k = Some x \<longrightarrow> k = run_key_of (held_attempt x) \<and> held_attempt x \<in> set (te_active e)) \<and>
     distinct (map fst (te_done e)) \<and>
     (\<forall>k f. map_of (te_done e) k = Some f \<longrightarrow>
        k = attempt_key_of (ended_attempt f) \<and> plain_attempt (ended_attempt f) \<and> fin (ended_attempt f) = Some (xf_at f)) \<and>
     (\<forall>a \<in> set (te_active e). plain_attempt a) \<and>
     (\<forall>a \<in> set st. plain_attempt a \<and> exec_accounted t e fin a)"

lemma once_okI:
  assumes "\<And>a. a \<in> set (te_active e) \<Longrightarrow> run_key_of a \<notin> fz \<Longrightarrow>
       (\<exists>x. map_of (te_running e) (run_key_of a) = Some x \<and> held_attempt x = a) \<and> count_list (te_active e) a = 1"
    "\<And>k x. map_of (te_running e) k = Some x \<Longrightarrow> k = run_key_of (held_attempt x) \<and> held_attempt x \<in> set (te_active e)"
    "distinct (map fst (te_done e))"
    "\<And>k f. map_of (te_done e) k = Some f \<Longrightarrow>
       k = attempt_key_of (ended_attempt f) \<and> plain_attempt (ended_attempt f) \<and> fin (ended_attempt f) = Some (xf_at f)"
    "\<And>a. a \<in> set (te_active e) \<Longrightarrow> plain_attempt a"
    "\<And>a. a \<in> set st \<Longrightarrow> plain_attempt a \<and> exec_accounted t e fin a"
  shows "once_ok t e st fin fz"
  unfolding once_ok_def using assms by blast

lemma once_okD:
  assumes "once_ok t e st fin fz"
  shows "a \<in> set (te_active e) \<Longrightarrow> run_key_of a \<notin> fz \<Longrightarrow> \<exists>x. map_of (te_running e) (run_key_of a) = Some x \<and> held_attempt x = a"
    "a \<in> set (te_active e) \<Longrightarrow> run_key_of a \<notin> fz \<Longrightarrow> count_list (te_active e) a = 1"
    "map_of (te_running e) k = Some x \<Longrightarrow> k = run_key_of (held_attempt x) \<and> held_attempt x \<in> set (te_active e)"
    "distinct (map fst (te_done e))"
    "map_of (te_done e) k = Some f \<Longrightarrow>
       k = attempt_key_of (ended_attempt f) \<and> plain_attempt (ended_attempt f) \<and> fin (ended_attempt f) = Some (xf_at f)"
    "a \<in> set (te_active e) \<Longrightarrow> plain_attempt a"
    "a \<in> set st \<Longrightarrow> plain_attempt a \<and> exec_accounted t e fin a"
  using assms unfolding once_ok_def by blast+

section \<open>Keys\<close>

lemma nul_separates: "CHR 0x00 \<notin> set a \<Longrightarrow> CHR 0x00 \<notin> set b \<Longrightarrow> a @ [CHR 0x00] @ x = b @ [CHR 0x00] @ y \<longleftrightarrow> a = b \<and> x = y"
  by (auto simp: append_eq_append_conv2 append_eq_Cons_conv Cons_eq_append_conv)

lemma keys_inject:
  assumes "plain_attempt a" "plain_attempt b"
  shows "run_key_of a = run_key_of b \<longleftrightarrow> fst a = fst b \<and> fst (snd a) = fst (snd b)" "attempt_key_of a = attempt_key_of b \<longleftrightarrow> a = b"
  using assms nul_separates by (auto simp: plain_attempt_def run_key_of_def attempt_key_of_def runKey_def attemptKey_def prod_eq_iff)

lemma map_of_entry_delete: "map_of (entry_delete k xs) k' = (if k' = k then None else map_of xs k')"
  by (induction xs) (auto simp: entry_delete_def)

lemma map_of_entry_set: "map_of (entry_set k v xs) = (map_of xs)(k \<mapsto> v)"
  by (auto simp: entry_set_def map_of_entry_delete)

lemma distinct_entry_set: "distinct (map fst xs) \<Longrightarrow> distinct (map fst (entry_set k v xs))"
  by (auto simp: entry_set_def entry_delete_def distinct_map_filter)

lemma entry_delete_shorter: "map_of xs k \<noteq> None \<Longrightarrow> length (entry_delete k xs) < length xs"
  by (induction xs) (auto simp: entry_delete_def less_Suc_eq_le)

lemma map_of_filter_vals:
  "distinct (map fst xs) \<Longrightarrow>
     map_of (filter (\<lambda>(_, v). P v) xs) k = (case map_of xs k of Some v \<Rightarrow> if P v then Some v else None | None \<Rightarrow> None)"
  by (induction xs) (auto split: option.splits simp: map_of_eq_None_iff image_iff)

section \<open>The operations\<close>

lemma answers_differ [simp]:
  "answer_refused q \<noteq> answer_taken q'" "answer_taken q' \<noteq> answer_refused q" "answer_held tok \<noteq> answer_taken q" "answer_taken q \<noteq> answer_held tok"
  "answer_held tok \<noteq> answer_refused q"
  by (simp_all add: answer_refused_def answer_taken_def answer_held_def)

lemma exec_Run_taken:
  assumes "exec_Run t q e = (answer_taken q, e')"
  shows "map_of (te_done e) (attempt_key_of (requested_attempt q)) = None" "map_of (te_running e) (run_key_of (requested_attempt q)) = None"
    "te_done e' = te_done e" "te_active e' = requested_attempt q # te_active e"
    "map_of (te_running e') = (map_of (te_running e))(run_key_of (requested_attempt q) \<mapsto>
       \<lparr>xe_tenant = xr_Tenant q, xe_key = xr_ExecutionKey q, xe_runToken = xr_RunToken q, xe_startedAt = t\<rparr>)"
  using assms
  by (auto simp: exec_Run_def Let_def attempt_key_of_def run_key_of_def requested_attempt_def map_of_entry_set split: if_splits option.splits)

lemma exec_Run_cases:
  obtains "xr_HandlerKey q \<notin> set (te_handlers e)" "exec_Run t q e = (answer_refused q, e)"
  | f where "map_of (te_done e) (attempt_key_of (requested_attempt q)) = Some f" "exec_Run t q e = (answer_held (xf_runToken f), e)"
  | x where "map_of (te_running e) (run_key_of (requested_attempt q)) = Some x" "exec_Run t q e = (answer_held (xe_runToken x), e)"
  | "map_of (te_done e) (attempt_key_of (requested_attempt q)) = None" "map_of (te_running e) (run_key_of (requested_attempt q)) = None"
    "exec_Run t q e = (answer_refused q, e)"
  | e' where "exec_Run t q e = (answer_taken q, e')"
  unfolding exec_Run_def Let_def attempt_key_of_def run_key_of_def requested_attempt_def
  by (cases "xr_HandlerKey q \<in> set (te_handlers e)";
      cases "map_of (te_done e) (attemptKey (xr_Tenant q) (xr_ExecutionKey q) (xr_RunToken q))";
      cases "map_of (te_running e) (runKey (xr_Tenant q) (xr_ExecutionKey q))";
      cases "te_Capacity e \<le> int (length (te_running e))") auto

lemma execute_end_parts:
  "te_active (execute_end t a oc e) = remove1 a (te_active e)"
  "map_of (te_running (execute_end t a oc e)) k = (if k = run_key_of a then None else map_of (te_running e) k)"
  "te_done (execute_end t a oc e) = filter (\<lambda>(_, f). \<not> xf_at f < t - keep)
     (entry_set (attempt_key_of a) \<lparr>xf_tenant = fst a, xf_key = fst (snd a), xf_runToken = snd (snd a), xf_outcome = oc, xf_at = t\<rparr> (te_done e))"
  "te_handlers (execute_end t a oc e) = te_handlers e" "te_Capacity (execute_end t a oc e) = te_Capacity e"
  by (auto simp: execute_end_def forgetOldLocked_def run_key_of_def attempt_key_of_def map_of_entry_delete split: prod.splits)

lemma execute_end_done:
  assumes "distinct (map fst (te_done e))"
  shows "distinct (map fst (te_done (execute_end t a oc e)))"
    "map_of (te_done (execute_end t a oc e)) (attempt_key_of a) =
       Some \<lparr>xf_tenant = fst a, xf_key = fst (snd a), xf_runToken = snd (snd a), xf_outcome = oc, xf_at = t\<rparr>"
    "k \<noteq> attempt_key_of a \<Longrightarrow> map_of (te_done (execute_end t a oc e)) k =
       (case map_of (te_done e) k of Some f \<Rightarrow> if xf_at f < t - keep then None else Some f | None \<Rightarrow> None)"
proof -
  have d: "distinct (map fst (entry_set k v (te_done e)))" for k v
    by (rule distinct_entry_set) (rule assms)
  show "distinct (map fst (te_done (execute_end t a oc e)))"
    using d by (simp add: execute_end_parts distinct_map_filter)
  have k0: "\<not> t < t - keep" by (simp add: keep_def)
  show "map_of (te_done (execute_end t a oc e)) (attempt_key_of a) =
       Some \<lparr>xf_tenant = fst a, xf_key = fst (snd a), xf_runToken = snd (snd a), xf_outcome = oc, xf_at = t\<rparr>"
    using k0 by (simp add: execute_end_parts map_of_filter_vals[OF d] map_of_entry_set)
  show "k \<noteq> attempt_key_of a \<Longrightarrow> map_of (te_done (execute_end t a oc e)) k =
       (case map_of (te_done e) k of Some f \<Rightarrow> if xf_at f < t - keep then None else Some f | None \<Rightarrow> None)"
    by (auto simp: execute_end_parts map_of_filter_vals[OF d] map_of_entry_set split: option.splits)
qed

lemma drop_fenced_parts:
  "te_active (snd (drop_fenced keys e)) = te_active e" "te_done (snd (drop_fenced keys e)) = te_done e"
  "map_of (te_running (snd (drop_fenced keys e))) k = (if k \<in> runKey (te_Tenant e) ` set keys then None else map_of (te_running e) k)"
  by (induction keys e rule: drop_fenced.induct) (auto simp: map_of_entry_delete Let_def split: option.splits prod.splits)

lemma Connect_parts:
  assumes "register (inFlight e) = Some (keys, secs)"
  shows "te_active (snd (Connect register e)) = te_active e" "te_done (snd (Connect register e)) = te_done e"
    "map_of (te_running (snd (Connect register e))) k = (if k \<in> runKey (te_Tenant e) ` set keys then None else map_of (te_running e) k)"
  using drop_fenced_parts[of keys e] by (simp_all add: Connect_def assms Let_def case_prod_beta)

section \<open>The invariant\<close>

lemma once_starts:
  assumes i: "once_ok t e st fin fz" and p: "plain_attempt (requested_attempt q)" and r: "exec_Run t q e = (answer_taken q, e')"
  shows "once_ok t e' (requested_attempt q # st) fin fz"
proof (rule once_okI)
  note R = exec_Run_taken[OF r] and I = once_okD[OF i]
  have fresh: "run_key_of a \<noteq> run_key_of (requested_attempt q)" if "a \<in> set (te_active e)" "run_key_of a \<notin> fz" for a
    using I(1)[OF that] R(2) by auto
  show "(\<exists>x. map_of (te_running e') (run_key_of a) = Some x \<and> held_attempt x = a) \<and> count_list (te_active e') a = 1"
    if a: "a \<in> set (te_active e')" "run_key_of a \<notin> fz" for a
  proof (cases "a = requested_attempt q")
    case True
    then have "count_list (te_active e) a = 0" using fresh[of a] a(2) by (auto simp: count_list_0_iff)
    then show ?thesis using True by (simp add: R(4,5)) (simp add: requested_attempt_def held_attempt_def)
  next
    case False
    then have "a \<in> set (te_active e)" using a(1) by (simp add: R(4))
    then show ?thesis using False fresh[of a] I(1,2)[of a] a(2) by (simp add: R(4,5))
  qed
  show "k = run_key_of (held_attempt x) \<and> held_attempt x \<in> set (te_active e')" if "map_of (te_running e') k = Some x" for k x
    using that I(3)[of k x] by (auto simp: R(4,5) held_attempt_def requested_attempt_def split: if_splits)
  show "distinct (map fst (te_done e'))" using I(4) by (simp add: R)
  show "k = attempt_key_of (ended_attempt f) \<and> plain_attempt (ended_attempt f) \<and> fin (ended_attempt f) = Some (xf_at f)"
    if "map_of (te_done e') k = Some f" for k f using that I(5) by (simp add: R(3))
  show "plain_attempt a" if "a \<in> set (te_active e')" for a
    using that p I(6)[of a] by (auto simp: R)
  show "plain_attempt a \<and> exec_accounted t e' fin a" if "a \<in> set (requested_attempt q # st)" for a
  proof (cases "a = requested_attempt q")
    case False
    then show ?thesis using that I(7)[of a] unfolding exec_accounted_def R by simp
  qed (simp add: exec_accounted_def R p)
qed

lemma count_list_remove1: "count_list (remove1 a xs) b = (if b = a then count_list xs b - 1 else count_list xs b)"
  by (induction xs) (auto simp: count_list_0_iff Suc_diff_le count_notin elim: in_set_remove1)

lemma once_ends:
  assumes i: "once_ok t e st fin fz" and a: "a \<in> set (te_active e)"
  shows "once_ok t (execute_end t a oc e) st (fin(a := Some t)) fz" (is "once_ok t ?e st ?fin fz")
proof (rule once_okI)
  note I = once_okD[OF i] and D = execute_end_done[OF once_okD(4)[OF i]]
  have pa: "plain_attempt a" by (rule I(6)[OF a])
  have act: "b \<in> set (te_active e)" if "b \<in> set (te_active ?e)" for b
    using that set_remove1_subset[of a "te_active e"] by (auto simp: execute_end_parts)
  show "(\<exists>x. map_of (te_running ?e) (run_key_of b) = Some x \<and> held_attempt x = b) \<and> count_list (te_active ?e) b = 1"
    if b: "b \<in> set (te_active ?e)" "run_key_of b \<notin> fz" for b
  proof -
    note B = I(1)[OF act[OF b(1)] b(2)] I(2)[OF act[OF b(1)] b(2)]
    have ne: "b \<noteq> a"
    proof
      assume "b = a"
      then have "count_list (te_active ?e) b = 0" using B(2) by (simp add: execute_end_parts(1) count_list_remove1)
      then show False using b(1) by (simp add: count_list_0_iff)
    qed
    have "run_key_of b \<noteq> run_key_of a" using B(1) I(1)[OF a] b(2) ne by auto
    then show ?thesis using B ne by (simp add: execute_end_parts(1,2) count_list_remove1)
  qed
  show "k = run_key_of (held_attempt x) \<and> held_attempt x \<in> set (te_active ?e)" if "map_of (te_running ?e) k = Some x" for k x
  proof -
    have k: "k \<noteq> run_key_of a" and m: "map_of (te_running e) k = Some x" using that by (simp_all add: execute_end_parts split: if_splits)
    then have "held_attempt x \<noteq> a" using I(3)[OF m] by auto
    then show ?thesis using I(3)[OF m] by (simp add: execute_end_parts)
  qed
  show "distinct (map fst (te_done ?e))" by (rule D(1))
  show "k = attempt_key_of (ended_attempt f) \<and> plain_attempt (ended_attempt f) \<and> ?fin (ended_attempt f) = Some (xf_at f)"
    if f: "map_of (te_done ?e) k = Some f" for k f
  proof (cases "k = attempt_key_of a")
    case True
    then have "f = \<lparr>xf_tenant = fst a, xf_key = fst (snd a), xf_runToken = snd (snd a), xf_outcome = oc, xf_at = t\<rparr>" using f D(2) by simp
    then show ?thesis using True pa by (simp add: ended_attempt_def)
  next
    case False
    then have "map_of (te_done e) k = Some f" using f by (simp add: D(3) split: option.splits if_splits)
    then show ?thesis using I(5)[of k f] False by auto
  qed
  show "plain_attempt b" if "b \<in> set (te_active ?e)" for b by (rule I(6)[OF act[OF that]])
  show "plain_attempt b \<and> exec_accounted t ?e ?fin b" if "b \<in> set st" for b
  proof (cases "b = a")
    case False
    have pb: "plain_attempt b" using I(7)[OF that] by blast
    have k: "attempt_key_of b \<noteq> attempt_key_of a" using keys_inject(2)[OF pb pa] False by blast
    have "fin b = Some (xf_at f)" if "map_of (te_done e) (attempt_key_of b) = Some f" for f
      using I(5)[OF that] keys_inject(2)[OF pb] by metis
    then show ?thesis
      using False I(7)[OF that] D(3)[OF k] pb
      unfolding exec_accounted_def execute_end_parts(1) by (cases "map_of (te_done e) (attempt_key_of b)") auto
  qed (simp add: exec_accounted_def D pa)
qed

lemma once_connects:
  assumes "once_ok t e st fin fz" "register (inFlight e) = Some (keys, secs)"
  shows "once_ok t (snd (Connect register e)) st fin (fz \<union> runKey (te_Tenant e) ` set keys)"
proof (rule once_okI)
  note I = once_okD[OF assms(1)] and P = Connect_parts[where register = register and e = e, OF assms(2)]
  show "(\<exists>x. map_of (te_running (snd (Connect register e))) (run_key_of a) = Some x \<and> held_attempt x = a) \<and>
      count_list (te_active (snd (Connect register e))) a = 1"
    if "a \<in> set (te_active (snd (Connect register e)))" "run_key_of a \<notin> fz \<union> runKey (te_Tenant e) ` set keys" for a
    using that I(1,2)[of a] by (simp add: P)
  show "k = run_key_of (held_attempt x) \<and> held_attempt x \<in> set (te_active (snd (Connect register e)))"
    if "map_of (te_running (snd (Connect register e))) k = Some x" for k x
    using that I(3)[of k x] by (simp add: P split: if_splits)
  show "plain_attempt a \<and> exec_accounted t (snd (Connect register e)) fin a" if "a \<in> set st" for a
    using I(7)[OF that] unfolding exec_accounted_def P .
qed (use once_okD[OF assms(1)] in \<open>simp_all add: Connect_parts[where register = register and e = e, OF assms(2)]\<close>)

lemma once_waits: "once_ok t e st fin fz \<Longrightarrow> t \<le> t' \<Longrightarrow> once_ok t' e st fin fz"
  unfolding once_ok_def exec_accounted_def by (meson diff_right_mono order_less_le_trans)

lemma Handle_parts:
  "te_active (Handle key e) = te_active e" "te_running (Handle key e) = te_running e" "te_done (Handle key e) = te_done e"
  by (simp_all add: Handle_def)

lemma once_handles: "once_ok t e st fin fz \<Longrightarrow> once_ok t (Handle key e) st fin fz"
  unfolding once_ok_def exec_accounted_def Handle_parts .

lemma once_initial: "once_ok t (NewTestExecutor tenant capacity) [] fin fz"
  by (simp add: once_ok_def NewTestExecutor_def)

lemma once_run:
  assumes "exec_step\<^sup>*\<^sup>* (t0, NewTestExecutor tenant capacity, [], \<lambda>_. None, {}) (t, e, st, fin, fz)"
  shows "once_ok t e st fin fz"
proof -
  have "case s' of (t, e, st, fin, fz) \<Rightarrow> once_ok t e st fin fz"
    if "exec_step\<^sup>*\<^sup>* s s'" "case s of (t, e, st, fin, fz) \<Rightarrow> once_ok t e st fin fz" for s s'
    using that
  proof (induction rule: rtranclp_induct)
    case (step s' s'')
    from step.hyps(2) step.IH[OF step.prems] show ?case
      by (induction rule: exec_step.induct) (simp_all add: once_starts once_ends once_handles once_waits once_connects)
  qed
  from this[OF assms] once_initial[of t0 tenant capacity "\<lambda>_. None" "{}"] show ?thesis by simp
qed

lemma active_held:
  "once_ok t e st fin fz \<Longrightarrow> run_key_of a \<notin> fz \<Longrightarrow> map_of (te_running e) (run_key_of a) = None \<Longrightarrow> a \<notin> set (te_active e)"
  using once_okD(1) by fastforce

definition wit_a :: run_request where
  "wit_a = \<lparr>xr_Tenant = ''acme'', xr_ExecutionKey = ''e1'', xr_RunToken = ''t1'', xr_HandlerKey = ''h''\<rparr>"

definition wit_b :: run_request where
  "wit_b = wit_a\<lparr>xr_ExecutionKey := ''e2''\<rparr>"

definition wit_c :: run_request where
  "wit_c = wit_a\<lparr>xr_RunToken := ''t2''\<rparr>"

definition wit_new :: TestExecutor where
  "wit_new = Handle ''h'' (NewTestExecutor ''acme'' 4)"

definition wit_late :: time where
  "wit_late = 11 * Minute"

definition wit_again :: TestExecutor where
  "wit_again = execute_end wit_late (requested_attempt wit_b) (outcome_of_run CtxNone [] None) (snd (exec_Run wit_late wit_b
     (execute_end 0 (requested_attempt wit_a) (outcome_of_run CtxNone [] None) (snd (exec_Run 0 wit_a wit_new)))))"

definition wit_spec :: RunSpec where
  "wit_spec = \<lparr>sp_Address = ''a'', sp_ExecutionKey = ''e1'', sp_RunToken = ''t2'', sp_JobName = ''j'', sp_HandlerKey = ''h'', sp_Attempt = 2,
     sp_ScheduledAt = 0, sp_SilenceDeadline = Minute, sp_RemainingTimeout = Minute, sp_Params = []\<rparr>"

definition wit_fenced :: TestExecutor where
  "wit_fenced = snd (exec_Run 0 wit_c (snd (drop_fenced [''e1''] (snd (exec_Run 0 wit_a wit_new)))))"

lemmas wit_exec = wit_a_def wit_b_def wit_c_def wit_new_def wit_late_def Handle_def NewTestExecutor_def exec_Run_def execute_end_def
  forgetOldLocked_def requested_attempt_def entry_set_def answer_held_def answer_refused_def answer_taken_def entry_delete_def runKey_def attemptKey_def keep_def Let_def

lemma wit_started_reached:
  "exec_step\<^sup>*\<^sup>* (0, NewTestExecutor ''acme'' 4, [], \<lambda>_. None, {})
     (0, snd (exec_Run 0 wit_a wit_new), [requested_attempt wit_a], \<lambda>_. None, {})"
proof -
  have p: "plain_attempt (requested_attempt wit_a)" by (simp add: plain_attempt_def wit_exec)
  have r: "exec_Run 0 wit_a wit_new = (answer_taken wit_a, snd (exec_Run 0 wit_a wit_new))" by (simp add: wit_exec)
  show ?thesis
    by (rule converse_rtranclp_into_rtranclp[OF exec_step.handles r_into_rtranclp[where r = exec_step, OF exec_step.starts[OF p]]])
      (use r in \<open>simp add: wit_new_def\<close>)
qed

lemma wit_again_reached:
  "exec_step\<^sup>*\<^sup>* (0, NewTestExecutor ''acme'' 4, [], \<lambda>_. None, {})
     (wit_late, wit_again, [requested_attempt wit_b, requested_attempt wit_a],
      (\<lambda>_. None)(requested_attempt wit_a := Some 0, requested_attempt wit_b := Some wit_late), {})"
proof -
  let ?e0 = "NewTestExecutor ''acme'' 4 :: TestExecutor" and ?a = "requested_attempt wit_a" and ?b = "requested_attempt wit_b"
  let ?oc = "outcome_of_run CtxNone [] None"
  let ?e1 = "snd (exec_Run 0 wit_a wit_new)"
  let ?e2 = "execute_end 0 ?a ?oc ?e1"
  let ?e3 = "snd (exec_Run wit_late wit_b ?e2)"
  have p: "plain_attempt ?a" "plain_attempt ?b" by (simp_all add: plain_attempt_def wit_exec)
  have r: "exec_Run 0 wit_a wit_new = (answer_taken wit_a, ?e1)" "exec_Run wit_late wit_b ?e2 = (answer_taken wit_b, ?e3)"
    by (simp_all add: wit_exec)
  note step = converse_rtranclp_into_rtranclp[where r = exec_step]
  have s1: "exec_step (0, ?e0, [], \<lambda>_. None, {}) (0, wit_new, [], \<lambda>_. None, {})"
    unfolding wit_new_def by (rule exec_step.handles)
  have s2: "exec_step (0, wit_new, [], \<lambda>_. None, {}) (0, ?e1, [?a], \<lambda>_. None, {})"
    by (rule exec_step.starts[OF p(1) r(1)])
  have s3: "exec_step (0, ?e1, [?a], \<lambda>_. None, {}) (0, ?e2, [?a], (\<lambda>_. None)(?a := Some 0), {})"
    by (rule exec_step.ends) (simp add: wit_exec)
  have s4: "exec_step (0, ?e2, [?a], fin, {}) (wit_late, ?e2, [?a], fin, {})" for fin
    by (rule exec_step.waits) (simp add: wit_late_def)
  have s5: "exec_step (wit_late, ?e2, [?a], fin, {}) (wit_late, ?e3, [?b, ?a], fin, {})" for fin
    by (rule exec_step.starts[OF p(2) r(2)])
  have s6: "exec_step (wit_late, ?e3, [?b, ?a], fin, {}) (wit_late, wit_again, [?b, ?a], fin(?b := Some wit_late), {})" for fin
    unfolding wit_again_def by (rule exec_step.ends) (simp add: wit_exec)
  show ?thesis
    by (rule step[OF s1 step[OF s2 step[OF s3 step[OF s4 step[OF s5 r_into_rtranclp[where r = exec_step, OF s6]]]]]])
qed


section \<open>What an executor promises\<close>

text \<open>C13: in any run of an executor, an attempt whose execution the executor was not told to drop is started a second time only when it ended more
  than ten minutes before: while its handler is going, and for ten minutes after, every re-send of its token is answered without
  running it again. (The attempts have names without NUL and a token.)\<close>

theorem attempt_runs_once:
  assumes "exec_step\<^sup>*\<^sup>* (t0, NewTestExecutor tenant capacity, [], \<lambda>_. None, {}) (t, e, st, fin, fz)"
    and "exec_Run t q e = (answer_taken q, e')" and "requested_attempt q \<in> set st" and "run_key_of (requested_attempt q) \<notin> fz"
  shows "\<exists>f. fin (requested_attempt q) = Some f \<and> f < t - keep"
proof -
  note i = once_run[OF assms(1)] and R = exec_Run_taken[OF assms(2)]
  show ?thesis
    using once_okD(7)[OF i assms(3)] R(1) active_held[OF i assms(4) R(2)] by (auto simp: exec_accounted_def)
qed

theorem attempt_runs_once_witness:
  "\<exists>f. ((\<lambda>_. None)(requested_attempt wit_a := Some 0, requested_attempt wit_b := Some wit_late)) (requested_attempt wit_a) = Some f \<and>
     f < wit_late - keep"
proof (rule attempt_runs_once[OF wit_again_reached])
  show "exec_Run wit_late wit_a wit_again = (answer_taken wit_a, snd (exec_Run wit_late wit_a wit_again))"
    by (simp add: wit_again_def wit_exec)
qed simp_all

text \<open>C12: what the scheduler concludes from the executor's answer to a dispatch is true of the executor, in any run of it, registrations that fence
  included. The attempt asked for has names without NUL and a token, and the answer is read against its own execution and token. An
  attempt counted as accepted is running there or its end is on record. When the answer names another token, that attempt of the
  execution is running, and this one is not unless the executor was once told to drop the execution. A refusal leaves the executor as
  it was; if it has the handler, no end of this attempt is on record, and an attempt it had started is still running (only after
  being told to drop the execution) or ended more than ten minutes ago. The answer is never one the scheduler cannot classify.\<close>

theorem dispatch_truthful:
  assumes run: "exec_step\<^sup>*\<^sup>* (t0, NewTestExecutor tenant capacity, [], \<lambda>_. None, {}) (t, e, st, fin, fz)"
    and plain: "plain_attempt (requested_attempt q)"
    and spec: "sp_ExecutionKey spec = xr_ExecutionKey q" "sp_RunToken spec = xr_RunToken q"
    and asked: "exec_Run t q e = (reply, e')"
  shows "let held = rs_HeldToken (classifyRun reply spec); dropped = run_key_of (requested_attempt q) \<in> fz in
     (case rs_Answer (classifyRun reply spec) of
        Accepted \<Rightarrow>
          if held \<in> {[], xr_RunToken q}
          then requested_attempt q \<in> set (te_active e') \<or> map_of (te_done e') (attempt_key_of (requested_attempt q)) \<noteq> None
          else (xr_Tenant q, xr_ExecutionKey q, held) \<in> set (te_active e') \<and> (requested_attempt q \<in> set (te_active e') \<longrightarrow> dropped)
      | Refused \<Rightarrow>
          e' = e \<and>
          (xr_HandlerKey q \<in> set (te_handlers e) \<longrightarrow>
             map_of (te_done e) (attempt_key_of (requested_attempt q)) = None \<and>
             (requested_attempt q \<in> set (te_active e) \<longrightarrow> dropped) \<and>
             (requested_attempt q \<in> set st \<longrightarrow>
                requested_attempt q \<in> set (te_active e) \<or> (\<exists>f. fin (requested_attempt q) = Some f \<and> f < t - keep)))
      | Unknown \<Rightarrow> False)"
proof -
  note i = once_run[OF run]
  note I = once_okD[OF i]
  show ?thesis
  proof (cases rule: exec_Run_cases[where t = t and q = q and e = e])
    case 1
    then show ?thesis using asked spec by (auto simp: answer_refused_def classifyRun_def result_def Let_def)
  next
    case (2 f)
    have "ended_attempt f = requested_attempt q"
      using I(5)[OF 2(1)] keys_inject(2)[OF plain] by metis
    then have "xf_runToken f = xr_RunToken q" "xr_RunToken q \<noteq> []"
      using plain by (auto simp: ended_attempt_def requested_attempt_def plain_attempt_def)
    then show ?thesis using 2 asked by (auto simp: answer_held_def classifyRun_def result_def Let_def)
  next
    case (3 x)
    have h: "run_key_of (requested_attempt q) = run_key_of (held_attempt x)" "held_attempt x \<in> set (te_active e)"
      using I(3)[OF 3(1)] by blast+
    then have x: "held_attempt x = (xr_Tenant q, xr_ExecutionKey q, xe_runToken x)" "xe_runToken x \<noteq> []"
      using I(6)[OF h(2)] keys_inject(1)[OF plain I(6)[OF h(2)]]
      by (auto simp: held_attempt_def requested_attempt_def plain_attempt_def)
    have "run_key_of (requested_attempt q) \<in> fz" if "requested_attempt q \<in> set (te_active e)" "xe_runToken x \<noteq> xr_RunToken q"
      using I(1)[OF that(1)] 3(1) x(1) that(2) by (auto simp: requested_attempt_def)
    then show ?thesis using 3(2) asked h(2) x by (auto simp: answer_held_def classifyRun_def result_def Let_def requested_attempt_def)
  next
    case 4
    have "requested_attempt q \<in> set (te_active e) \<Longrightarrow> run_key_of (requested_attempt q) \<in> fz" using active_held[OF i _ 4(2)] by blast
    then show ?thesis
      using 4 asked I(7)[of "requested_attempt q"] spec by (auto simp: answer_refused_def classifyRun_def result_def Let_def exec_accounted_def)
  next
    case (5 e'')
    then show ?thesis
      using exec_Run_taken(4)[OF 5] asked spec by (auto simp: answer_taken_def classifyRun_def result_def Let_def)
  qed
qed

theorem dispatch_truthful_witness:
  "rs_HeldToken (classifyRun (fst (exec_Run 0 wit_c (snd (exec_Run 0 wit_a wit_new)))) wit_spec) = ''t1'' \<and>
   requested_attempt wit_c \<notin> set (te_active (snd (exec_Run 0 wit_c (snd (exec_Run 0 wit_a wit_new)))))"
proof -
  let ?e = "snd (exec_Run 0 wit_a wit_new)"
  have p: "plain_attempt (requested_attempt wit_c)"
    and w: "sp_ExecutionKey wit_spec = xr_ExecutionKey wit_c" "sp_RunToken wit_spec = xr_RunToken wit_c" "''t1'' \<noteq> xr_RunToken wit_c"
    by (simp_all add: plain_attempt_def wit_exec wit_spec_def)
  have r: "classifyRun (fst (exec_Run 0 wit_c ?e)) wit_spec = result Accepted ''t1''"
    by (simp add: wit_exec classifyRun_def wit_spec_def)
  show ?thesis
    using dispatch_truthful[OF wit_started_reached p w(1,2) prod.collapse[symmetric]] w(3)
    unfolding r result_def Let_def by simp
qed

text \<open>C14: an attempt that was fenced leaves a handler going whose end removes the execution's entry, whoever holds it by then: while the next attempt
  of the execution is running, the end of the fenced one makes the executor take a re-send of that attempt and start its handler a
  second time beside the first.\<close>

theorem fenced_handler_frees_successor:
  assumes old: "plain_attempt a" "a \<in> set (te_active e)"
    and new: "plain_attempt (requested_attempt q)" "requested_attempt q \<in> set (te_active e)" "a \<noteq> requested_attempt q"
    and key: "run_key_of a = run_key_of (requested_attempt q)"
    and running: "map_of (te_running e) (run_key_of (requested_attempt q)) \<noteq> None"
    and room: "int (length (te_running e)) \<le> te_Capacity e" and h: "xr_HandlerKey q \<in> set (te_handlers e)"
    and fresh: "map_of (te_done e) (attempt_key_of (requested_attempt q)) = None" "distinct (map fst (te_done e))"
  shows "\<exists>e'. exec_Run t q (execute_end t a oc e) = (answer_taken q, e') \<and>
           2 \<le> count_list (te_active e') (requested_attempt q)"
proof -
  let ?e = "execute_end t a oc e" and ?b = "requested_attempt q"
  have d: "map_of (te_done ?e) (attempt_key_of ?b) = None"
    using execute_end_done(3)[OF fresh(2), of "attempt_key_of ?b" a t oc] keys_inject(2)[OF old(1) new(1)] new(3) fresh(1) by auto
  have r: "map_of (te_running ?e) (run_key_of ?b) = None" by (simp add: execute_end_parts key)
  have l: "int (length (te_running ?e)) < te_Capacity e"
    using entry_delete_shorter[OF running] room key
    by (auto simp: execute_end_def forgetOldLocked_def run_key_of_def split: prod.splits)
  have c: "0 < count_list (te_active ?e) ?b"
    using new(2,3) by (simp add: execute_end_parts count_list_0_iff flip: neq0_conv)
  have "te_active (snd (exec_Run t q ?e)) = ?b # te_active ?e"
    "fst (exec_Run t q ?e) = answer_taken q"
    using d r l h by (simp_all add: exec_Run_def Let_def execute_end_parts(4,5) attempt_key_of_def run_key_of_def requested_attempt_def)
  then show ?thesis using c by (intro exI[of _ "snd (exec_Run t q ?e)"]) (auto simp: prod_eq_iff)
qed

theorem fenced_handler_frees_successor_witness:
  "\<exists>e'. exec_Run 0 wit_c (execute_end 0 (requested_attempt wit_a) (outcome_of_run CtxNone [] None) wit_fenced) = (answer_taken wit_c, e') \<and>
      2 \<le> count_list (te_active e') (requested_attempt wit_c)"
proof (rule fenced_handler_frees_successor)
  show "plain_attempt (requested_attempt wit_a)" "plain_attempt (requested_attempt wit_c)"
    by (simp_all add: plain_attempt_def wit_exec)
qed (simp_all add: wit_fenced_def wit_exec run_key_of_def attempt_key_of_def)

end
