(* ===== verification/Startup.thy ===== *)
theory Startup
  imports AdminApi Auth Migration Engine
begin

text \<open>
  The process (\<^verbatim>\<open>src/cmd/gojob/main.go\<close>): what its flags become, in the order it decides, until it serves. The flags arrive parsed.
  Parameters are the file system, the loading of certificates and of time zones, the driver's reading and writing of connection
  strings, the databases and the ports; log lines are left out.
\<close>

section \<open>Flags\<close>

record config =
  c_controlDSN :: string
  c_dsnKeyHex :: string
  c_location :: string
  c_instanceID :: string
  c_scanInterval :: duration
  c_stalenessLimit :: duration
  c_executorLiveness :: duration
  c_executorRetention :: duration
  c_executionSuccessRetention :: duration
  c_executionOtherRetention :: duration
  c_sessionTTL :: duration
  c_trustedUserHeader :: string
  c_trustedRoleHeader :: string
  c_tlsCert :: string
  c_tlsKey :: string
  c_tlsClientCA :: string
  c_outboundCA :: string
  c_execToken :: string
  c_allowNoAuth :: bool
  c_allowUnlisted :: bool
  c_hashPassword :: string
  c_hashToken :: string

definition environment :: "(string \<Rightarrow> string) \<Rightarrow> string \<Rightarrow> string \<Rightarrow> string" where
  "environment getenv key def = (if getenv key \<noteq> [] then getenv key else def)"

definition progressInterval :: "duration \<Rightarrow> duration" where
  "progressInterval silence = (let p = silence sdiv 3 in if p \<ge> Second then p else Second)"

section \<open>The key of connection strings\<close>

definition hex_value :: "char \<Rightarrow> nat option" where
  "hex_value c =
     (let n = of_char c :: nat in
      if 48 \<le> n \<and> n \<le> 57 then Some (n - 48)
      else if 97 \<le> n \<and> n \<le> 102 then Some (n - 87)
      else if 65 \<le> n \<and> n \<le> 70 then Some (n - 55)
      else None)"

fun DecodeString :: "string \<Rightarrow> string option" where
  "DecodeString [] = Some []"
| "DecodeString [c] = None"
| "DecodeString (c # d # s) =
     (case (hex_value c, hex_value d, DecodeString s) of
        (Some h, Some l, Some rest) \<Rightarrow> Some (char_of (16 * h + l) # rest)
      | _ \<Rightarrow> None)"

datatype startup_error =
    ControlDSNRequired | KeyNotHex | KeyLength nat | UnknownLocation | ControlUnreachable | HashRefused
  | ClientCANeedsCert | CertAndKeyTogether | CertUnreadable | CAUnreadable | CAEmpty | MigrationsInvalid | PortTaken

definition decodeKey :: "string \<Rightarrow> startup_error + string option" where
  "decodeKey hexKey =
     (if hexKey = [] then Inr None
      else case DecodeString hexKey of
             None \<Rightarrow> Inl KeyNotHex
           | Some key \<Rightarrow> if length key \<in> {16, 24, 32} then Inr (Some key) else Inl (KeyLength (length key)))"

definition defaultInstanceID :: "string option \<Rightarrow> string \<Rightarrow> string" where
  "defaultInstanceID hostname rand =
     (let host = (case hostname of Some h \<Rightarrow> if h = [] then ''gojob'' else h | None \<Rightarrow> ''gojob'')
      in host @ ''-'' @ EncodeToString (map of_char rand))"

section \<open>Connection parameters\<close>

text \<open>\<open>url.QueryEscape\<close>: letters, digits and \<^verbatim>\<open>-_.~\<close> are kept, a space becomes a plus, every other byte its two upper-case digits.\<close>

definition unreserved :: "char \<Rightarrow> bool" where
  "unreserved c \<longleftrightarrow>
     (let n = of_char c :: nat in (48 \<le> n \<and> n \<le> 57) \<or> (65 \<le> n \<and> n \<le> 90) \<or> (97 \<le> n \<and> n \<le> 122)) \<or> c \<in> set ''-_.~''"

definition upper_digit :: "nat \<Rightarrow> char" where
  "upper_digit n = ''0123456789ABCDEF'' ! (n mod 16)"

definition QueryEscape :: "string \<Rightarrow> string" where
  "QueryEscape s =
     concat (map (\<lambda>c. if unreserved c then [c] else if c = CHR '' '' then ''+''
                       else [CHR ''%'', upper_digit (of_char c div 16), upper_digit (of_char c)]) s)"

fun add_params :: "string \<Rightarrow> string \<Rightarrow> (string \<times> string) list \<Rightarrow> string" where
  "add_params dsn sep [] = []"
| "add_params dsn sep ((k, v) # add) =
     (if contains_str dsn (k @ ''='') then add_params dsn sep add
      else sep @ k @ ''='' @ v @ add_params dsn ''&'' add)"

text \<open>Go walks the map of the two parameters in any order: \<open>locFirst\<close> says which.\<close>

definition withDefaults :: "bool \<Rightarrow> string \<Rightarrow> string \<Rightarrow> string" where
  "withDefaults locFirst dsn loc =
     (let p = (''parseTime'', ''true''); l = (''loc'', QueryEscape loc)
      in dsn @ add_params dsn (if contains_str dsn ''?'' then ''&'' else ''?'') (if locFirst then [l, p] else [p, l]))"

text \<open>The driver: \<open>ParseDSN\<close> with \<open>FormatDSN\<close> after the database was replaced.\<close>

record dsn_driver =
  dv_Parse :: "string \<Rightarrow> (string \<times> string) option" \<comment> \<open>address, user\<close>
  dv_Format :: "string \<Rightarrow> string \<Rightarrow> string" \<comment> \<open>the connection string, the database\<close>

record ControlServer =
  cs_Address :: string
  cs_User :: string
  cs_DSNFor :: "(string \<Rightarrow> string) option"

definition controlServer :: "dsn_driver \<Rightarrow> string \<Rightarrow> ControlServer" where
  "controlServer dv controlDSN =
     (case dv_Parse dv controlDSN of
        None \<Rightarrow> \<lparr>cs_Address = [], cs_User = [], cs_DSNFor = None\<rparr>
      | Some (addr, user) \<Rightarrow> \<lparr>cs_Address = addr, cs_User = user, cs_DSNFor = Some (dv_Format dv controlDSN)\<rparr>)"

section \<open>Credentials\<close>

record files =
  fs_Read :: "string \<Rightarrow> string option"
  fs_HasCerts :: "string \<Rightarrow> bool" \<comment> \<open>AppendCertsFromPEM\<close>
  fs_KeyPair :: "string \<Rightarrow> string \<Rightarrow> bool" \<comment> \<open>LoadX509KeyPair\<close>

definition certPool :: "files \<Rightarrow> string \<Rightarrow> startup_error + string" where
  "certPool fs path =
     (case fs_Read fs path of
        None \<Rightarrow> Inl CAUnreadable
      | Some pem \<Rightarrow> if fs_HasCerts fs pem then Inr pem else Inl CAEmpty)"

datatype client_auth = NoClientCert | RequireAndVerifyClientCert

record tls_config =
  tl_Certificate :: "(string \<times> string) option"
  tl_Pool :: "string option"
  tl_ClientAuth :: client_auth

definition inboundCredentials :: "files \<Rightarrow> config \<Rightarrow> startup_error + tls_config option" where
  "inboundCredentials fs c =
     (if c_tlsCert c = [] \<and> c_tlsKey c = [] then (if c_tlsClientCA c \<noteq> [] then Inl ClientCANeedsCert else Inr None)
      else if c_tlsCert c = [] \<or> c_tlsKey c = [] then Inl CertAndKeyTogether
      else if \<not> fs_KeyPair fs (c_tlsCert c) (c_tlsKey c) then Inl CertUnreadable
      else let cfg = \<lparr>tl_Certificate = Some (c_tlsCert c, c_tlsKey c), tl_Pool = None, tl_ClientAuth = NoClientCert\<rparr> in
           if c_tlsClientCA c = [] then Inr (Some cfg)
           else case certPool fs (c_tlsClientCA c) of
                  Inl e \<Rightarrow> Inl e
                | Inr pool \<Rightarrow> Inr (Some (cfg\<lparr>tl_Pool := Some pool, tl_ClientAuth := RequireAndVerifyClientCert\<rparr>)))"

record Credentials =
  cr_Transport :: "tls_config option"
  cr_BearerToken :: string

definition outboundCredentials :: "files \<Rightarrow> config \<Rightarrow> startup_error + Credentials" where
  "outboundCredentials fs c =
     (let out = \<lparr>cr_Transport = None, cr_BearerToken = c_execToken c\<rparr> in
      if c_outboundCA c = [] then Inr out
      else case certPool fs (c_outboundCA c) of
             Inl e \<Rightarrow> Inl e
           | Inr pool \<Rightarrow>
               let cfg = \<lparr>tl_Certificate = None, tl_Pool = Some pool, tl_ClientAuth = NoClientCert\<rparr> in
               if c_tlsCert c \<noteq> [] \<and> c_tlsKey c \<noteq> []
               then (if fs_KeyPair fs (c_tlsCert c) (c_tlsKey c)
                     then Inr (out\<lparr>cr_Transport := Some (cfg\<lparr>tl_Certificate := Some (c_tlsCert c, c_tlsKey c)\<rparr>)\<rparr>)
                     else Inl CertUnreadable)
               else Inr (out\<lparr>cr_Transport := Some cfg\<rparr>))"

section \<open>The settings of the parts\<close>

definition engine_options :: "config \<Rightarrow> string \<Rightarrow> Config" where
  "engine_options c instance =
     \<lparr>g_InstanceID = instance, g_MisfireGrace = DefaultMisfireGrace (c_scanInterval c), g_ExecutorLiveness = c_executorLiveness c,
      g_ExecutorRetention = c_executorRetention c, g_ExecutionSuccessRetention = c_executionSuccessRetention c,
      g_ExecutionOtherRetention = c_executionOtherRetention c, g_PageSize = DefaultRetentionBatchSize, g_BackoffBase = 5 * Second,
      g_BackoffMax = 5 * Minute, g_DispatchResendLimit = 5, g_DispatchResendWindow = Minute\<rparr>"

definition server_options :: "config \<Rightarrow> ServerConfig" where
  "server_options c =
     \<lparr>sc_HeartbeatInterval = c_executorLiveness c sdiv 3, sc_RegistrationTTL = c_executorLiveness c,
      sc_ProgressInterval = progressInterval (c_executorLiveness c), sc_SilenceDeadline = c_executorLiveness c\<rparr>"

definition authenticator_options :: "config \<Rightarrow> DBAuthenticator" where
  "authenticator_options c = \<lparr>au_RequireCredential = \<not> c_allowNoAuth c, au_AllowUnlistedIdentities = c_allowUnlisted c\<rparr>"

definition admin_auth_options :: "config \<Rightarrow> AdminAuth" where
  "admin_auth_options c =
     NewAuth (c_sessionTTL c)
       \<lparr>th_Enabled = (c_trustedUserHeader c \<noteq> []), th_UserHeader = c_trustedUserHeader c, th_RoleHeader = c_trustedRoleHeader c,
        th_DefaultRole = []\<rparr>"

definition admin_options :: "dsn_driver \<Rightarrow> json_codec \<Rightarrow> AEAD option \<Rightarrow> location \<Rightarrow> config \<Rightarrow> ApiConfig" where
  "admin_options dv codec aead loc c =
     (let s = controlServer dv (c_controlDSN c) in
      \<lparr>cg_ExecutorLiveness = c_executorLiveness c, cg_InstanceLiveness = c_stalenessLimit c * 3, cg_Location = loc,
       cg_LocationName = c_location c, cg_DSNFor = cs_DSNFor s, cg_Address = cs_Address s, cg_User = cs_User s, cg_json = codec,
       cg_aead = aead\<rparr>)"

section \<open>Starting\<close>

record host =
  ho_files :: files
  ho_driver :: dsn_driver
  ho_LoadLocation :: "string \<Rightarrow> location option"
  ho_Hostname :: "string option"
  ho_Rand :: string
  ho_reaches :: "string \<Rightarrow> bool" \<comment> \<open>the control database opens and answers\<close>
  ho_cipher :: "string \<Rightarrow> AEAD" \<comment> \<open>AES-GCM under a key of a legal length\<close>
  ho_migrations :: "(string \<times> string) list" \<comment> \<open>the embedded directory\<close>
  ho_json :: json_codec
  ho_bcrypt :: bcrypt
  ho_locFirst :: bool
  ho_listens :: bool \<comment> \<open>the gRPC port is free\<close>

record settings =
  st_engine :: Config
  st_server :: ServerConfig
  st_auth :: DBAuthenticator
  st_api :: ApiConfig
  st_admin :: AdminAuth
  st_limit :: duration \<comment> \<open>of the fence\<close>
  st_outbound :: Credentials
  st_inbound :: "tls_config option"

text \<open>What has happened when \<open>run\<close> returns or comes to wait for a signal: the registry runs (its first poll is done, and the engines of the tenants it
  admitted claim work), then the gRPC service, then the operator API.\<close>

datatype started = RegistryRuns | GrpcServes | AdminServes

datatype run_result = Printed string | Failed startup_error | Waiting settings

definition start_services :: "host \<Rightarrow> config \<Rightarrow> string \<Rightarrow> location \<Rightarrow> AEAD option \<Rightarrow> Credentials \<Rightarrow> started list \<times> run_result" where
  "start_services ho c instance loc aead outbound =
     (case inboundCredentials (ho_files ho) c of
        Inl e \<Rightarrow> ([RegistryRuns], Failed e)
      | Inr inbound \<Rightarrow>
          if \<not> ho_listens ho then ([RegistryRuns], Failed PortTaken)
          else ([RegistryRuns, GrpcServes, AdminServes],
                Waiting \<lparr>st_engine = engine_options c instance, st_server = server_options c, st_auth = authenticator_options c,
                         st_api = admin_options (ho_driver ho) (ho_json ho) aead loc c, st_admin = admin_auth_options c,
                         st_limit = c_stalenessLimit c, st_outbound = outbound, st_inbound = inbound\<rparr>))"

definition start_process :: "host \<Rightarrow> config \<Rightarrow> started list \<times> run_result" where
  "start_process ho c =
     (if c_hashPassword c \<noteq> []
      then ([], case HashPassword (ho_bcrypt ho) (c_hashPassword c) of None \<Rightarrow> Failed HashRefused | Some h \<Rightarrow> Printed h)
      else if c_hashToken c \<noteq> [] then ([], Printed (HashToken (c_hashToken c)))
      else if c_controlDSN c = [] then ([], Failed ControlDSNRequired)
      else case decodeKey (c_dsnKeyHex c) of Inl e \<Rightarrow> ([], Failed e) | Inr key \<Rightarrow>
        case ho_LoadLocation ho (c_location c) of None \<Rightarrow> ([], Failed UnknownLocation) | Some loc \<Rightarrow>
          let instance = (if c_instanceID c = [] then defaultInstanceID (ho_Hostname ho) (ho_Rand ho) else c_instanceID c) in
          if \<not> ho_reaches ho (withDefaults (ho_locFirst ho) (c_controlDSN c) (c_location c)) then ([], Failed ControlUnreachable)
          else case outboundCredentials (ho_files ho) c of Inl e \<Rightarrow> ([], Failed e) | Inr outbound \<Rightarrow>
            case TenantMigrations (ho_migrations ho) of Inl _ \<Rightarrow> ([], Failed MigrationsInvalid) | Inr _ \<Rightarrow>
              start_services ho c instance loc (map_option (ho_cipher ho) key) outbound)"

section \<open>What the flags give\<close>

lemma DecodeString_hex:
  assumes "DecodeString s = Some key"
  shows "length s = 2 * length key"
  using assms by (induction s arbitrary: key rule: DecodeString.induct) (auto split: option.splits)

text \<open>A key the process starts with has a length AES takes; without one, connection strings are stored as typed.\<close>

lemma decodeKey_length: "decodeKey hexKey = Inr (Some key) \<Longrightarrow> length key \<in> {16, 24, 32} \<and> length hexKey = 2 * length key"
  by (auto simp: decodeKey_def dest: DecodeString_hex split: if_splits option.splits)

text \<open>The two parameters are added to a connection string that names neither; a string that holds either name before an equals sign, in its
  password for one, is opened without that parameter.\<close>

lemma withDefaults_adds:
  assumes "\<not> contains_str dsn ''?''" "\<not> contains_str dsn ''parseTime=''" "\<not> contains_str dsn ''loc=''"
  shows "withDefaults False dsn loc = dsn @ ''?parseTime=true&loc='' @ QueryEscape loc"
    "withDefaults True dsn loc = dsn @ ''?loc='' @ QueryEscape loc @ ''&parseTime=true''"
  using assms by (simp_all add: withDefaults_def Let_def)

lemma withDefaults_misled:
  "withDefaults False ''u:loc=x@tcp(h)/d'' ''UTC'' = ''u:loc=x@tcp(h)/d?parseTime=true''"
  "withDefaults False ''u:a?b@tcp(h)/d'' ''UTC'' = ''u:a?b@tcp(h)/d&parseTime=true&loc=UTC''"
  by (simp_all add: withDefaults_def Let_def QueryEscape_def unreserved_def)

text \<open>An executor that reports on the interval it is told, which is sent in whole seconds rounded up, gets its third report in by the silence deadline
  exactly when the liveness is a multiple of three seconds (up to two nanoseconds, which the division by three drops).\<close>

lemma progress_margin:
  assumes "3 * Second \<le> L"
  shows "3 * (roundUpSeconds (progressInterval L) * Second) \<le> L \<longleftrightarrow> L mod (3 * Second) < 3"
proof -
  have s: "Second = 1000000000" by simp
  have p: "progressInterval L = L div 3" and pos: "0 < L div 3"
    using assms unfolding s by (simp_all add: progressInterval_def Let_def signed_divide_int_def sgn_if)
  define n where "n = roundUpSeconds (L div 3)"
  have n: "L div 3 \<le> n * 1000000000" "(n - 1) * 1000000000 < L div 3"
    using roundUpSeconds_ceiling[OF pos] unfolding n_def s by simp_all
  define q m d where "q = L div 3000000000" and "m = L mod 3000000000" and "d = L div 3"
  have L: "L = 3000000000 * q + m" "0 \<le> m" "m < 3000000000" by (simp_all add: q_def m_def)
  have d: "3 * d \<le> L" "L < 3 * d + 3" unfolding d_def by presburger+
  have "3 * (n * 1000000000) \<le> L \<longleftrightarrow> m < 3"
  proof (cases "m < 3")
    case True
    then have "d \<le> 1000000000 * q" using L d(1) by linarith
    then have "(n - 1) * 1000000000 < q * 1000000000" using n(2) unfolding d_def[symmetric] by linarith
    then have "n \<le> q" by simp
    then show ?thesis using True L by linarith
  next
    case False
    then have "1000000000 * q < d" using L d(2) by linarith
    then have "q * 1000000000 < n * 1000000000" using n(1) unfolding d_def[symmetric] by linarith
    then have "q + 1 \<le> n" by simp
    then show ?thesis using False L by linarith
  qed
  then have "3 * (n * 1000000000) \<le> L \<longleftrightarrow> L mod 3000000000 < 3" by (simp add: m_def)
  then show ?thesis by (simp add: p n_def)
qed

text \<open>The certificates for executors are looked at only once the registry runs: with flags that do not fit together the process claims work, and
  then exits.\<close>

lemma bad_certificates_after_start:
  assumes "start_process ho c = (began, Failed e)" "e \<in> {ClientCANeedsCert, CertAndKeyTogether}"
  shows "began = [RegistryRuns]"
  using assms
  by (auto simp: start_process_def start_services_def outboundCredentials_def certPool_def decodeKey_def Let_def
      split: if_splits option.splits sum.splits)

text \<open>The window in which a cutover waits for an instance is three times the limit of that instance's fence.\<close>

lemma run_window: "start_process ho c = (began, Waiting s) \<Longrightarrow> cg_InstanceLiveness (st_api s) = 3 * st_limit s"
  by (auto simp: start_process_def start_services_def admin_options_def Let_def split: if_splits option.splits sum.splits)

text \<open>Plaintext towards executors is served only when no certificate flag was given, and client certificates are then never required by TLS.\<close>

lemma plaintext_only_unset:
  assumes "start_process ho c = (began, Waiting s)"
  shows "st_inbound s = None \<longleftrightarrow> c_tlsCert c = [] \<and> c_tlsKey c = [] \<and> c_tlsClientCA c = []"
  using assms
  by (auto simp: start_process_def start_services_def inboundCredentials_def Let_def split: if_splits option.splits sum.splits)

lemma client_ca_enforced:
  assumes "start_process ho c = (began, Waiting s)" "c_tlsClientCA c \<noteq> []"
  shows "\<exists>t. st_inbound s = Some t \<and> tl_ClientAuth t = RequireAndVerifyClientCert"
  using assms
  by (auto simp: start_process_def start_services_def inboundCredentials_def Let_def split: if_splits option.splits sum.splits)

end
