(* ===== verification/Connections.thy ===== *)
theory Connections
  imports Startup
begin

text \<open>
  The connections of the dispatch client (\<^verbatim>\<open>src/internal/dispatch/client.go\<close>): one per address, made on first use and kept. A connection is
  a number, in the order they are made; the ones not closed are \<open>cn_open\<close>. Dialling is a parameter that says whether it succeeds.
\<close>

section \<open>The cache\<close>

record Client =
  cn_creds :: Credentials
  cn_conns :: "(string \<times> nat) list"
  cn_next :: nat
  cn_open :: "nat list"

definition NewClient :: "Credentials \<Rightarrow> Client" where
  "NewClient creds = \<lparr>cn_creds = creds, cn_conns = [], cn_next = 0, cn_open = []\<rparr>"

definition conn :: "(string \<Rightarrow> bool) \<Rightarrow> string \<Rightarrow> Client \<Rightarrow> nat option \<times> Client" where
  "conn dial address c =
     (case map_of (cn_conns c) address of
        Some cc \<Rightarrow> (Some cc, c)
      | None \<Rightarrow>
          if \<not> dial address then (None, c)
          else (Some (cn_next c),
                c\<lparr>cn_conns := AList.update address (cn_next c) (cn_conns c), cn_next := cn_next c + 1, cn_open := cn_next c # cn_open c\<rparr>))"

definition Forget :: "string \<Rightarrow> Client \<Rightarrow> Client" where
  "Forget address c =
     (case map_of (cn_conns c) address of
        None \<Rightarrow> c
      | Some cc \<Rightarrow> c\<lparr>cn_conns := AList.delete address (cn_conns c), cn_open := removeAll cc (cn_open c)\<rparr>)"

definition CloseClient :: "Client \<Rightarrow> Client" where
  "CloseClient c = c\<lparr>cn_conns := [], cn_open := filter (\<lambda>cc. cc \<notin> snd ` set (cn_conns c)) (cn_open c)\<rparr>"

text \<open>What a dialled connection is opened with: the transport, plaintext when there is none, and the header every call carries.\<close>

datatype dialed = Plaintext | OverTLS tls_config

definition dial_options :: "Credentials \<Rightarrow> dialed \<times> (string \<times> string) list" where
  "dial_options creds =
     ((case cr_Transport creds of None \<Rightarrow> Plaintext | Some t \<Rightarrow> OverTLS t),
      (if cr_BearerToken creds = [] then [] else [(''authorization'', ''Bearer '' @ cr_BearerToken creds)]))"

section \<open>The invariant\<close>

definition client_ok :: "Client \<Rightarrow> bool" where
  "client_ok c \<longleftrightarrow> distinct (map fst (cn_conns c)) \<and> distinct (map snd (cn_conns c)) \<and> distinct (cn_open c) \<and>
     set (map snd (cn_conns c)) = set (cn_open c) \<and> (\<forall>cc \<in> set (cn_open c). cc < cn_next c)"

lemma NewClient_ok: "client_ok (NewClient creds)"
  by (simp add: client_ok_def NewClient_def)

lemma update_fresh: "map_of xs k = None \<Longrightarrow> AList.update k v xs = xs @ [(k, v)]"
  by (induction xs) (auto split: if_splits)

lemma conn_ok: "client_ok c \<Longrightarrow> client_ok (snd (conn dial address c))"
  by (auto simp: client_ok_def conn_def update_fresh map_of_eq_None_iff split: option.splits)

lemma delete_snd:
  "distinct (map snd xs) \<Longrightarrow> distinct (map fst xs) \<Longrightarrow> map_of xs k = Some v \<Longrightarrow>
     distinct (map snd (AList.delete k xs)) \<and> snd ` set (AList.delete k xs) = snd ` set xs - {v}"
  by (induction xs) (auto simp: AList.delete_eq map_of_eq_Some_iff distinct_map_filter image_iff split: if_splits, force+)

lemma Forget_ok: "client_ok c \<Longrightarrow> client_ok (Forget address c)"
  by (auto simp: client_ok_def Forget_def distinct_delete distinct_removeAll delete_snd split: option.splits)

lemma Close_ok: "client_ok c \<Longrightarrow> client_ok (CloseClient c) \<and> cn_open (CloseClient c) = []"
  by (auto simp: client_ok_def CloseClient_def filter_empty_conv)

text \<open>Every use of an address between two forgettings gets the same connection; after one, a new one.\<close>

lemma conn_reuses:
  assumes "conn dial address c = (Some cc, c')"
  shows "conn dial' address c' = (Some cc, c')"
  using assms by (auto simp: conn_def update_fresh split: option.splits if_splits)

lemma conn_after_forget:
  assumes "client_ok c" "map_of (cn_conns c) address = Some cc" "conn dial address (Forget address c) = (Some cc', c')"
  shows "cc' \<noteq> cc \<and> cc \<notin> set (cn_open c')"
proof -
  have "cc \<in> snd ` set (cn_conns c)" using map_of_SomeD[OF assms(2)] by force
  then have "cc < cn_next c" using assms(1) by (auto simp: client_ok_def)
  then show ?thesis
    using assms(2,3) by (auto simp: conn_def Forget_def AList.delete_conv split: option.splits if_splits)
qed

text \<open>The number of connections held open is the number of addresses used: nothing but \<open>Forget\<close> and \<open>Close\<close> gives one back.\<close>

lemma open_per_address: "client_ok c \<Longrightarrow> length (cn_open c) = length (cn_conns c)"
  unfolding client_ok_def by (metis distinct_card length_map)

end
