(* ===== verification/Spec2Isabelle.thy ===== *)
theory Spec2Isabelle
  imports Lifecycle Scheduling Housekeeping Routing Firing Picking Serving Catalogue Attribution Upgrades ControlLaws
    AtMostOnce Connections
begin

text \<open>
  A verification development for go-job, a job scheduler that keeps every decision in a tenant's MySQL schema.

  \<^bold>\<open>The program.\<close> Several scheduler instances share one coordination schema per tenant. Each runs the same
  passes: materialize due jobs into execution rows, claim ready executions, dispatch them to executors over gRPC,
  renew their leases, receive reports, and recover what crashed instances left behind. Nothing is coordinated in
  memory: a job's state row is its lock, an execution row is the work, and every write that bears ownership is
  an UPDATE guarded by a run token and a fence epoch, whose affected-row count decides whether it happened. The
  store package (\<^verbatim>\<open>src/internal/store\<close>) holds all of those transactions; the engine, the servers, the admin
  API and the control registry call it.

  \<^bold>\<open>The model.\<close> A tenant's schema is the record \<open>db\<close>: a list of rows per table, a record per row with a field per
  column, a nullable column an option. A transaction of the store is a function from the database to a result,
  an error (nothing committed) or the value returned with the committed database, written statement by statement
  in the order of the source. It takes an \<open>env\<close>: one instant of the ownership clock (\<open>UTC_TIMESTAMP()\<close>), one of
  the business clock, the state rows other transactions hold locked at that moment, which is all that SKIP
  LOCKED can see of them, and how many numbers of an AUTO_INCREMENT were lost to rollbacks since (used by the control audit).
  Transactions are serialised on the state row by the code and in the model altogether.
  An UPDATE is a map over the table with its WHERE clause as guard and its SET list as a definition of its own
  (\<open>..._set\<close>), and it reports the rows it changed, as MySQL does here.

  \<^bold>\<open>The theories.\<close>
  \<^item> \<open>Prelude\<close>: results, SQL values, tables, and the contract of a guarded write (locale \<open>guarded_write\<close>).
  \<^item> \<open>Gojob\<close>: the root package, \<^verbatim>\<open>src/job.go\<close>, \<^verbatim>\<open>src/errors.go\<close>, \<^verbatim>\<open>src/defaults.go\<close>, \<^verbatim>\<open>src/clock.go\<close>.
  \<^item> \<open>Schema\<close>: the tables of \<^verbatim>\<open>src/schema/mysql/tenant\<close> and the statement layer of \<^verbatim>\<open>store.go\<close>; the locales
    \<open>exec_write\<close> and \<open>state_write\<close>, interpreted on every SET list of the store, say what a guarded write that
    names one row did, and when it fails.
  \<^item> \<open>Utf8\<close>, \<open>Sha256\<close>, \<open>Keys\<close>: the rune clipping of \<^verbatim>\<open>complete.go\<close>, the digest and the keys of
    \<^verbatim>\<open>materialize.go\<close>, the identifier check of \<^verbatim>\<open>src/internal/admin/jobs.go\<close>.
  \<^item> \<open>Reads\<close>, \<open>Lease\<close>, \<open>Completion\<close>, \<open>Claiming\<close>, \<open>Recovery\<close>, \<open>Materialize\<close>, \<open>Executors\<close>, \<open>Retention\<close>, \<open>Admin\<close>:
    the files of the store, one definition per function and per statement.
  \<^item> \<open>Outcomes\<close>: \<^verbatim>\<open>src/internal/outcome/outcome.go\<close>.
  \<^item> \<open>Ownership\<close>: the abstract specification, locks and claims with eight kinds of step, its invariant, fencing,
    and the locale \<open>ownership_refinement\<close> of what an implementation owes and gets.
  \<^item> \<open>Rows\<close>: the life of one execution row as a transition relation, a rule per UPDATE; identity, budget and
    finality follow from the rules.
  \<^item> \<open>Releases\<close>: the abstraction from a database to locks and claims, and the contract of the seven transactions
    that end an attempt (locale \<open>lock_releaser\<close>, interpreted on each).
  \<^item> \<open>Protocol\<close>: every operation simulates the specification and moves execution rows only along their relation;
    the transition system \<open>db_step\<close>, a rule per operation of the store that can write, and the interpretation
    of \<open>ownership_refinement\<close> on it. \<open>reachable\<close> means reachable from the empty schema by any operations in any
    order with any clocks.
  \<^item> \<open>Progress\<close>: when the transactions that end an attempt commit.
  \<^item> \<open>Examples\<close>: concrete runs, evaluated, at which the properties are instantiated.
  \<^item> \<open>Calendar\<close>, \<open>Cron\<close>: the civil calendar of the time package as far as it is used, and \<^verbatim>\<open>src/internal/cron\<close>: the
    parser, the cursor, \<open>Next\<close>, \<open>Latest\<close>, \<open>CountBetween\<close> and the two daylight-saving rules.
  \<^item> \<open>Zones\<close> (locale \<open>zone\<close>, what is assumed of a time zone), \<open>CronCorrect\<close>, \<open>CronParse\<close>, \<open>Firing\<close>: the fire instants of
    an expression, and that the searches find them; what a parsed expression means; the properties of the dialect.
  \<^item> \<open>Dispatch\<close>: what \<^verbatim>\<open>src/internal/dispatch/client.go\<close> concludes from the replies of an executor.
  \<^item> \<open>Engine\<close>, \<open>Passes\<close>: \<^verbatim>\<open>src/internal/engine\<close>, its handlers in the state monad over a \<open>machine\<close> (database, memory of
    the engine, calls made) and a sequence of observations of the outside \<open>world\<close>, in which other instances act.
  \<^item> \<open>EngineLogic\<close>, \<open>EngineCalls\<close>, \<open>Operation\<close>, \<open>Picking\<close>: a program logic for handlers, the invariant that ties them to
    \<open>db_step\<close>, the calls of a dispatch, the properties of the engine.
  \<^item> \<open>Server\<close>, \<open>Serving\<close>: the calls executors make (\<^verbatim>\<open>src/internal/server/server.go\<close>), programs of the same monad, and their
    properties.
  \<^item> \<open>Control\<close>: \<^verbatim>\<open>src/internal/control\<close>, the registry of tenants, observations, executor identities, the audit, the admission
    checks and the fence of an instance, over the record \<open>ctl\<close> of the tables of \<^verbatim>\<open>src/schema/mysql/control\<close>.
  \<^item> \<open>Runtime\<close>: \<^verbatim>\<open>src/internal/runtime/registry.go\<close>, the poll, the admissions and the retirements of one instance, each cut
    into the sections that run under the mutex or are one statement.
  \<^item> \<open>Cluster\<close>: several instances, operators and time over one control database, as a step relation; \<open>ClusterInv\<close>,
    \<open>Cutover\<close>, \<open>Settling\<close>: its invariants, the gate of a cutover and what follows one; \<open>CutoverRuns\<close>: runs of it, evaluated;
    \<open>ControlLaws\<close>: well-formed rows, the audit, stored connection strings.
  \<^item> \<open>Auth\<close>: \<^verbatim>\<open>src/internal/server/auth.go\<close>, credentials, authorisation and the interceptor, composed with the handlers of
    \<open>Server\<close>.
  \<^item> \<open>Listings\<close>: the reads and previews of \<^verbatim>\<open>admin.go\<close> and \<^verbatim>\<open>executor.go\<close> that the console shows; \<open>Catalogue\<close>: every job has its
    state row, the previews tell the truth, and what a synchronisation leaves of every definition.
  \<^item> \<open>Sessions\<close>: \<^verbatim>\<open>src/internal/admin/auth.go\<close>, accounts, sessions, roles and first-run setup, and what becomes of a session.
  \<^item> \<open>Requests\<close>: what the operator API (\<^verbatim>\<open>src/internal/admin\<close>) makes of a request before it reaches a store, its errors and the
    JSON it renders; \<open>AdminApi\<close>: its handlers over a \<open>site\<close>, the control database and the databases of the admitted tenants;
    \<open>Attribution\<close>: all its routes that are not reads, behind the role they require, over an installation (site, accounts,
    schemas), and who can have made a change.
  \<^item> \<open>Migration\<close>: \<^verbatim>\<open>src/internal/tenantmigration\<close> and \<^verbatim>\<open>provision.go\<close>; \<open>Upgrades\<close>: interrupted and concurrent upgrades.
  \<^item> \<open>Testexec\<close>: \<^verbatim>\<open>src/internal/testexec/executor.go\<close>, the conforming executor; \<open>AtMostOnce\<close>: its runs, with the registrations
    that make it drop what was fenced, and what it promises, put together with what \<open>Dispatch\<close> concludes from its answers.
  \<^item> \<open>Startup\<close>: \<^verbatim>\<open>src/cmd/gojob/main.go\<close>, from flags to the settings of the parts, in the order the process decides;
    \<open>Connections\<close>: the cache of connections of the dispatch client.
  \<^item> \<open>Lifecycle\<close>, \<open>Scheduling\<close>, \<open>Housekeeping\<close>, \<open>Routing\<close>: the properties of each part. This theory: the
    properties of the whole.

  \<^bold>\<open>What is shown.\<close> At most one execution of a job is in flight; lock and execution always agree on token, epoch,
  lease and owner; an attempt that lost its lock never writes again; epochs never go back; attempts stay within
  budget; finished rows are final. Reports, claims, acceptances and recoveries have exactly the effects stated and
  leave every other row alone; what the recovery scans return the recovery transactions can act on. A cron instant
  and a request run once; a poller has one pass at a time; administrative edits are compare-and-set, triggers are
  idempotent, retention deletes only what has expired. The cron searches return the fires they mean to, in every time
  zone. Whatever an engine or a server does is a run of the store's transactions; a result that was acknowledged is in the
  history, and a handover does not lose one; a dispatch hands its attempt to one executor at
  a time; work an executor says is running is not ended within its runtime cap. A tenant is re-pointed only when no instance acts on it, and
  within two staleness limits none acts on what it left; every change of the registry is in the audit; a caller
  without an enabled identity for the tenant changes nothing. What an operator changes of tenants, jobs, executions and
  identities through the API is in the audit under that operator's name, with a reason; provisioning takes an operator and touches
  one schema without tables, setup only an installation without accounts, signing in and out only sessions. A preview lists what
  the synchronisation then does to the definitions; a job the API accepts satisfies the constraints of the schema, and is refused
  only for its name, the width of its schedule or of the actor; a session whose row was deleted at sign-out stays so; a schema
  upgrade can be interrupted anywhere, by several instances at once, and taken up again. A conforming executor runs an attempt
  once while it remembers it and is not told to drop it, and what the scheduler concludes from its answers is true. Nine properties
  record where the code falls short of its
  own comments: a poll pass that expires at claim time, the queue of a retired job, a fire lost at the edge of a
  daylight-saving gap, a retirement that overlooks a row, a send after the lease, an instance that wakes into a
  cutover, an installation that offers a setup it refuses, seconds that wrap before they are checked, an
  executor's fenced handler that frees its successor's place.

  \<^bold>\<open>Bounds.\<close> No definition uses fuel: every loop is a recursion over a list, over the bytes of a string, on a measure
  with a termination proof (the cron searches), or on the bound the code itself has (a hundred pages, the re-send
  limit).
  Durations and instants are unbounded integers counting nanoseconds, except in \<open>Delay\<close> and \<open>toDefinition\<close>, where a product
  wraps at 64 bits; columns are not truncated except where the code clips. The widths of the columns of job_definition are enforced
  where a definition is written whole; those of the other tables are not.

  \<^bold>\<open>Parameters.\<close> The runnability callback of \<open>Claim\<close> (\<open>runnableFor\<close> in \<open>Executors\<close> is the one the engine passes), the
  compiled schedule (record \<open>Schedule\<close>; \<open>compile\<close> in \<open>Engine\<close> is the one the engine passes) and the JSON codec of
  \<open>mergeParams\<close> are arguments, as are bcrypt, \<open>time.Parse\<close> and the composition of connection strings in the operator API. MySQL
  under a migration is the record \<open>mysql\<close>, of which \<open>mysql_ok\<close> says what an upgrade relies on. The time zone database is a function from instants to offsets (\<open>location\<close>); the executors
  and the transport are the record \<open>network\<close>. The file system, certificates, ports and the driver's connection strings at startup are the record \<open>host\<close>. The cipher of connection strings is the record \<open>AEAD\<close>; the properties of a
  cutover take a bound \<open>gap\<close> on how long an instance is suspended between checking the age of its registry read and
  refreshing its fence, and count time on one clock, of which the database shows whole seconds.

  \<^bold>\<open>Not modelled.\<close> Failures of the database connection and deadlocks (a transaction that fails commits nothing);
  isolation of concurrent transactions beyond the state-row lock, and SKIP LOCKED on execution rows; collation
  (strings compare bytewise) and the rounding of DATETIME to its precision; the text of errors, of which only the
  sentinel is kept; gaps in the numbers of executions, which the model hands out without any (nothing depends on it); the interleaving of two passes of one engine (the passes of different instances do interleave),
  the panics the loops recover from, logging; HTTP itself
  (the decoding of bodies, cookies, pages); the listing of the audit, whose row numbers the model of a tenant's schema does not
  have; the parsing of flags and the shutdown of the process, and generated code. In the cluster the engines are reduced to whether they may claim and
  whether they hold work.
\<close>

section \<open>Ownership\<close>

lemma not_holding:
  assumes "wf_db db" "\<not> owns_lock (abs_db db) j t n" "state_row db j = Some s"
  shows "\<not> holds_lock j t n s"
  using assms wf_dbD(2) [OF assms(1,3)] by (auto simp: owns_lock_def abs_lock_def holds_lock_def wf_state_def)

lemma not_owning:
  assumes "own_ok (abs_db db)" "\<not> owns_lock (abs_db db) j t n" "belongs db i j" "exec_row db i = Some e" "in_flight (je_status e)"
  shows "\<not> owns_exec i t n e"
proof
  assume own: "owns_exec i t n e"
  obtain s where "state_row db (je_job_name e) = Some s" "linked s e" by (rule in_flight_linked [OF assms(1,4,5)])
  with own assms(2) belongsD [OF assms(3,4)] show False
    by (auto simp: owns_lock_def abs_lock_def linked_def owns_exec_def Held_def)
qed

text \<open>C1: At most one execution of a job is in flight. In every database the store can reach, whatever the
  interleaving of claims, reports, recoveries and administrative operations, two rows of job_execution that are
  dispatching, running or cancel_requested and belong to the same job are the same row.\<close>

theorem mutual_exclusion:
  assumes "reachable db" and "e \<in> set (execs db)" "e' \<in> set (execs db)"
    and "in_flight (je_status e)" "in_flight (je_status e')" and "je_job_name e = je_job_name e'"
  shows "e = e'"
proof -
  note rows = exec_row_mem [OF reachable_keys [OF assms(1)]]
  have "je_id e = je_id e'"
    using one_in_flight [OF reachable_ok(2) [OF assms(1)] rows [OF assms(2)] rows [OF assms(3)]] assms(4-6) .
  with rows [OF assms(2)] rows [OF assms(3)] show ?thesis by (metis option.inject)
qed

theorem mutual_exclusion_witness:
  "{e \<in> set (execs running). in_flight (je_status e) \<and> je_job_name e = ''a''} = {the_run}"
  using mutual_exclusion [OF reach_running _ the_run_facts(1) _ the_run_facts(8)] the_run_facts by auto

text \<open>C25: The two halves of ownership never drift apart. In every reachable database, an in-flight execution has its
  job's state row held in its name, with the same run token, fence epoch, lease and owner; and a held state row
  names an in-flight execution of that job with the same values.\<close>

theorem lock_matches_owner:
  assumes "reachable db"
  shows "(\<forall>e \<in> set (execs db). in_flight (je_status e) \<longrightarrow> (\<exists>s. state_row db (je_job_name e) = Some s \<and> linked s e)) \<and>
    (\<forall>j s. state_row db j = Some s \<and> Held s \<longrightarrow>
      (\<exists>e \<in> set (execs db). in_flight (je_status e) \<and> je_job_name e = j \<and> linked s e))"
proof (intro conjI ballI allI impI)
  note ok = reachable_ok(2) [OF assms]
  show "\<exists>s. state_row db (je_job_name e) = Some s \<and> linked s e" if "e \<in> set (execs db)" "in_flight (je_status e)" for e
    using in_flight_linked [OF ok exec_row_mem [OF reachable_keys [OF assms] that(1)] that(2)] by blast
  show "\<exists>e \<in> set (execs db). in_flight (je_status e) \<and> je_job_name e = j \<and> linked s e"
    if "state_row db j = Some s \<and> Held s" for j s
    by (rule held_linked [OF ok]) (use that in \<open>auto dest: row_of_Some\<close>)
qed

theorem lock_matches_owner_witness:
  "\<exists>s. state_row running ''a'' = Some s \<and> linked s the_run \<and> js_fence_epoch s = 1"
  using lock_matches_owner [OF reach_running] the_run_facts by (force simp: linked_def)

text \<open>C2: The store implements the ownership protocol. Every run of the store's thirty-one operations, from a reachable
  database, is under the abstraction to locks and claims a run of the eight-rule ownership specification, and
  ends in a state that satisfies its invariant.\<close>

theorem store_refines_ownership:
  assumes "reachable db" "db_step\<^sup>*\<^sup>* db db'"
  shows "own_step\<^sup>*\<^sup>* (abs_db db) (abs_db db') \<and> own_ok (abs_db db')"
  using store.run [OF assms(2)] reachable_ok [OF assms(1)] by blast

theorem store_refines_ownership_witness:
  "own_step\<^sup>*\<^sup>* (abs_db running) (abs_db finished) \<and> own_ok (abs_db finished) \<and>
   locks (abs_db finished) ''a'' = Some (Lock 1 None)"
proof -
  have "map_option abs_lock (state_row finished ''a'') = Some (Lock 1 None)" by code_simp
  with store_refines_ownership [OF reach_running finished_step] show ?thesis by simp
qed

text \<open>C27: Fencing is permanent. Once a job's lock has reached an attempt's epoch and is not held with that attempt's
  token at that epoch, no later write of the attempt is accepted, however many operations run in between:
  renewal, silence extension, acceptance, re-targeting, retry and completion all answer ErrFenced (a completion
  with a status that is not terminal answers ErrProtocol).\<close>

theorem fenced_forever:
  assumes "reachable db" and "state_row db (h_JobName h) = Some s" and "h_FenceEpoch h \<le> js_fence_epoch s"
    and "\<not> holds_lock (h_JobName h) (h_RunToken h) (h_FenceEpoch h) s"
    and "db_step\<^sup>*\<^sup>* db db'" and "belongs db' (h_ExecutionID h) (h_JobName h)"
  shows "Renew env h l db' = Inl ErrFenced \<and> ExtendDeadline env h q db' = Inl ErrFenced \<and>
    Accept env (h_ExecutionID h) (h_RunToken h) (h_FenceEpoch h) q db' = Inl ErrFenced \<and>
    Retarget env h x db' = Inl ErrFenced \<and> Retry env h o1 b db' = Inl ErrFenced \<and>
    Complete env h o1 db' = Inl (if Terminal (o_Status o1) then ErrFenced else ErrProtocol)"
proof -
  let ?j = "h_JobName h" and ?i = "h_ExecutionID h" and ?t = "h_RunToken h" and ?n = "h_FenceEpoch h"
  have ok': "wf_db db'" "own_ok (abs_db db')"
    using store.run [OF assms(5)] reachable_ok [OF assms(1)] by blast+
  have "js_job_name s = ?j" using assms(2) by (auto dest: row_of_Some)
  then have "\<not> owns_lock (abs_db db) ?j ?t ?n"
    using assms(2,4) by (auto simp: owns_lock_def abs_lock_def holds_lock_def split: if_splits)
  moreover have "reached (abs_db db) ?j ?n"
    using assms(2,3) by (auto simp: reached_def abs_lock_def)
  ultimately have lost: "\<not> owns_lock (abs_db db') ?j ?t ?n"
    using store.run_fenced [OF assms(5)] reachable_ok [OF assms(1)] by blast
  note keys = wf_dbD(1) [OF ok'(1)]
  have none: "update_state (holds_lock ?j ?t ?n) (renew_lock_set env l) db' = (0, db')"
    "update_state (holds_lock ?j ?t ?n) (release_lock_set env c) db' = (0, db')" for c
    by (rule renew_lock.no_row release_lock.no_row,
        use keys not_holding [OF ok'(1) lost] in \<open>auto simp: holds_lock_def\<close>)+
  have noexec: "update_exec (\<lambda>e. owns_exec ?i ?t ?n e \<and> in_flight (je_status e) \<and> within_cap env e) (extend_deadline_set env q) db' = (0, db')"
    "update_exec (\<lambda>e. owns_exec ?i ?t ?n e \<and> je_status e = StatusDispatching) (accept_set env q) db' = (0, db')"
    "update_exec (\<lambda>e. owns_exec ?i ?t ?n e \<and> je_status e = StatusDispatching) (retarget_set env x) db' = (0, db')"
    by (rule extend_deadline.no_row accept.no_row retarget.no_row,
        use keys not_owning [OF ok'(2) lost assms(6)] in \<open>auto simp: owns_exec_def\<close>)+
  show ?thesis
    by (simp add: Renew_def ExtendDeadline_def Accept_def Retarget_def Retry_def Complete_def releaseJobLock_def
        assertSome_def none noexec Let_def)
qed

theorem fenced_forever_witness:
  "Renew (env_at 120) holder_a 60 finished = Inl ErrFenced \<and>
   Retry (env_at 120) holder_a success 5 finished = Inl ErrFenced \<and>
   Complete (env_at 120) holder_a success finished = Inl ErrFenced"
proof -
  have row: "state_row finished (h_JobName holder_a) = Some (hd (states finished))"
    "h_FenceEpoch holder_a \<le> js_fence_epoch (hd (states finished))"
    "\<not> holds_lock (h_JobName holder_a) (h_RunToken holder_a) (h_FenceEpoch holder_a) (hd (states finished))"
    "belongs finished (h_ExecutionID holder_a) (h_JobName holder_a)" "Terminal (o_Status success)"
    by code_simp+
  from fenced_forever [OF reach_finished row(1-3) rtranclp.rtrancl_refl row(4), of "env_at 120" 60 60 "''x1''" success 5] row(5)
  show ?thesis by simp
qed

text \<open>The fence epoch of a job never goes back and its state row never disappears.\<close>

lemma epoch_monotone:
  assumes "reachable db" "db_step\<^sup>*\<^sup>* db db'" "state_row db j = Some s"
  shows "\<exists>s'. state_row db' j = Some s' \<and> js_fence_epoch s \<le> js_fence_epoch s'"
proof -
  have "reached (abs_db db) j (js_fence_epoch s)"
    using assms(3) by (auto simp: reached_def abs_lock_def)
  moreover have "own_step\<^sup>*\<^sup>* (abs_db db) (abs_db db')"
    using store.run [OF assms(2)] reachable_ok [OF assms(1)] by blast
  ultimately have "reached (abs_db db') j (js_fence_epoch s)" by (blast intro: own_steps_epoch)
  then show ?thesis by (auto simp: reached_def abs_lock_def)
qed

text \<open>C29: No execution is charged more attempts than it may have. In every reachable database the attempt counter lies
  between zero and the maximum, and an execution that is being dispatched still has an attempt left.\<close>

theorem attempts_within_budget:
  assumes "reachable db" "e \<in> set (execs db)"
  shows "0 \<le> je_attempt_no e \<and> je_attempt_no e \<le> je_max_attempts e \<and>
    (je_status e = StatusDispatching \<longrightarrow> je_attempt_no e < je_max_attempts e)"
  using reachable_born [OF assms(1) exec_row_mem [OF reachable_keys [OF assms(1)] assms(2)]] row_moves_budget born_budget
  by (auto simp: budget_ok_def)

theorem attempts_within_budget_witness:
  "0 \<le> je_attempt_no the_run \<and> je_attempt_no the_run \<le> je_max_attempts the_run \<and> je_attempt_no the_run = 1"
proof -
  have "je_attempt_no the_run = 1" by code_simp
  with attempts_within_budget [OF reach_running the_run_facts(1)] show ?thesis by simp
qed

text \<open>C30: A terminal execution that is not dead is final: at every later moment its row is either gone (retention) or
  exactly what it was. (A dead execution may be revived, by an authorized retry only.)\<close>

theorem terminal_rows_final:
  assumes "reachable db" "db_step\<^sup>*\<^sup>* db db'" "exec_row db i = Some e" "Terminal (je_status e)" "je_status e \<noteq> StatusDead"
  shows "exec_row db' i \<in> {None, Some e}"
  using row_moves_final [OF row_later [OF assms(1-3)] assms(4,5)] by (cases "exec_row db' i") auto

theorem terminal_rows_final_witness:
  "exec_row (Deregister ''x1'' finished) 1 \<in> {None, Some (hd (execs finished))}"
proof -
  have "db_step\<^sup>*\<^sup>* finished (Deregister ''x1'' finished)"
    by (rule r_into_rtranclp, rule db_step.intros(30)) simp
  moreover have "exec_row finished 1 = Some (hd (execs finished))" "Terminal (je_status (hd (execs finished)))"
    "je_status (hd (execs finished)) \<noteq> StatusDead" by code_simp+
  ultimately show ?thesis by (rule terminal_rows_final [OF reach_finished])
qed

lemma matched_card: "distinct (map f t) \<Longrightarrow> rows_matched P t = card {r \<in> set t. P r}"
  by (metis distinct_card distinct_filter distinct_map rows_matched_def set_filter)

text \<open>The two counters by which a tenant is judged quiescent always agree: held state rows and in-flight executions.\<close>

lemma quiescence_counts_agree:
  assumes "reachable db"
  shows "q_Held (Quiescent db) = q_InFlight (Quiescent db)"
proof -
  note ok = reachable_ok(2) [OF assms] and keys = reachable_keys [OF assms]
  let ?S = "{s \<in> set (states db). js_active_kind s}" and ?E = "{e \<in> set (execs db). in_flight (je_status e)}"
  have "bij_betw je_job_name ?E (js_job_name ` ?S)"
    unfolding bij_betw_def
  proof
    show "inj_on je_job_name ?E"
      using one_in_flight [OF ok exec_row_mem [OF keys] exec_row_mem [OF keys]] keys
      by (auto simp: inj_on_def keys_ok_def distinct_map)
    show "je_job_name ` ?E = js_job_name ` ?S"
    proof safe
      fix e assume e: "e \<in> set (execs db)" "in_flight (je_status e)"
      obtain s where "state_row db (je_job_name e) = Some s" "linked s e" by (rule in_flight_linked [OF ok exec_row_mem [OF keys e(1)] e(2)])
      then show "je_job_name e \<in> js_job_name ` ?S" by (force simp: linked_def Held_def dest: row_of_Some)
    next
      fix s assume s: "s \<in> set (states db)" "js_active_kind s"
      obtain i e where "exec_row db i = Some e" "je_job_name e = js_job_name s" "in_flight (je_status e)"
        by (rule held_linked [OF ok state_row_mem [OF keys s(1)]]) (use s(2) in \<open>auto simp: Held_def\<close>)
      then show "js_job_name s \<in> je_job_name ` ?E" by (metis (mono_tags, lifting) image_eqI mem_Collect_eq row_of_Some)
    qed
  qed
  then have "card ?E = card (js_job_name ` ?S)" by (rule bij_betw_same_card)
  also have "\<dots> = card ?S" using keys by (intro card_image) (auto simp: keys_ok_def distinct_map inj_on_def)
  finally show ?thesis using keys matched_card [of js_job_name "states db"] matched_card [of je_id "execs db"]
    by (simp add: Quiescent_def keys_ok_def)
qed

end
